(* ===== verification/S5Prelude.thy ===== *)
theory S5Prelude
  imports Main "HOL-Library.Word" "HOL-Library.List_Lexorder" "HOL-Library.Char_ord"
begin

text \<open>
  Shared vocabulary of the development: byte strings, the Go error values the
  program distinguishes, error-or-value results, and the generic lemmas on
  lists the component theories use.

  A Go \<open>string\<close> is a sequence of bytes, so it is a HOL \<open>string\<close> (a list of
  8-bit characters); a Go \<open>[]byte\<close> is a list of \<open>8 word\<close>.  Fixed-width Go
  integers are words of their width; a Go \<open>int\<close> whose overflow plays no role is
  an \<open>int\<close>.
\<close>

section \<open>Bytes and strings\<close>

type_synonym byte = "8 word"
type_synonym bytes = "8 word list"
type_synonym u16 = "16 word"
type_synonym u64 = "64 word"

definition byte_of_char :: "char \<Rightarrow> byte" where
  "byte_of_char c = of_nat (of_char c)"

definition char_of_byte :: "byte \<Rightarrow> char" where
  "char_of_byte b = char_of (unat b)"

abbreviation bytes_of :: "string \<Rightarrow> bytes" where
  "bytes_of s \<equiv> map byte_of_char s"

abbreviation string_of :: "bytes \<Rightarrow> string" where
  "string_of bs \<equiv> map char_of_byte bs"

lemma of_char_lt_256: "(of_char c :: nat) < 256"
  by simp

lemma char_of_byte_of_char [simp]: "char_of_byte (byte_of_char c) = c"
  by (simp add: char_of_byte_def byte_of_char_def unat_of_nat)

lemma byte_of_char_of_byte [simp]: "byte_of_char (char_of_byte b) = b"
proof -
  have "unat b < 256"
    using unsigned_less [where ?'a = nat, of b] by simp
  then show ?thesis
    by (simp add: char_of_byte_def byte_of_char_def)
qed

lemma string_of_bytes_of [simp]: "string_of (bytes_of s) = s"
  by (simp add: comp_def)

lemma string_of_bytes_of_comp [simp]: "map (char_of_byte \<circ> byte_of_char) s = s"
  by (simp add: comp_def)

lemma bytes_of_string_of_comp [simp]: "map (byte_of_char \<circ> char_of_byte) bs = bs"
  by (simp add: comp_def)

lemma bytes_of_string_of [simp]: "bytes_of (string_of bs) = bs"
  by (simp add: comp_def)

lemma bytes_of_inject [simp]: "bytes_of s = bytes_of t \<longleftrightarrow> s = t"
proof
  assume "bytes_of s = bytes_of t"
  then have "string_of (bytes_of s) = string_of (bytes_of t)"
    by (rule arg_cong)
  then show "s = t"
    by (simp only: string_of_bytes_of)
qed simp

text \<open>The value of a Go \<open>int64\<close> operation whose result may overflow.\<close>

definition wrap64 :: "int \<Rightarrow> int" where
  "wrap64 x = (x + 2 ^ 63) mod 2 ^ 64 - 2 ^ 63"

lemma wrap64_id: "- (2 ^ 63) \<le> x \<Longrightarrow> x < 2 ^ 63 \<Longrightarrow> wrap64 x = x"
  by (simp add: wrap64_def)

section \<open>Error values\<close>

text \<open>
  The sentinel errors the code compares with (\<open>errors.Is\<close>, \<open>==\<close>), network
  errors whose \<open>Timeout()\<close> is true, errors known by their text only
  (\<open>errors.New\<close>, \<open>fmt.Errorf\<close>), and errors wrapped with \<open>%w\<close> under a text.
\<close>

datatype err =
    ErrNotFound
  | CtxCanceled
  | CtxDeadlineExceeded
  | IoEOF
  | IoUnexpectedEOF
  | IoErrClosedPipe
  | NetErrClosed
  | NetTimeout string
  | ErrText string
  | ErrWrap string err

fun err_text :: "err \<Rightarrow> string" where
  "err_text ErrNotFound = ''object not found''"
| "err_text CtxCanceled = ''context canceled''"
| "err_text CtxDeadlineExceeded = ''context deadline exceeded''"
| "err_text IoEOF = ''EOF''"
| "err_text IoUnexpectedEOF = ''unexpected EOF''"
| "err_text IoErrClosedPipe = ''io: read/write on closed pipe''"
| "err_text NetErrClosed = ''use of closed network connection''"
| "err_text (NetTimeout s) = s"
| "err_text (ErrText s) = s"
| "err_text (ErrWrap s e) = s @ '': '' @ err_text e"

fun errors_is :: "err \<Rightarrow> err \<Rightarrow> bool" where
  "errors_is (ErrWrap s e) target = (ErrWrap s e = target \<or> errors_is e target)"
| "errors_is e target = (e = target)"

section \<open>Results\<close>

text \<open>
  A Go function returning \<open>(T, error)\<close> returns \<open>Inl\<close> of the error or \<open>Inr\<close> of the
  value; one returning only \<open>error\<close> returns an option, \<open>None\<close> for \<open>nil\<close>.
\<close>

type_synonym 'a result = "err + 'a"

fun ebind :: "'a result \<Rightarrow> ('a \<Rightarrow> 'b result) \<Rightarrow> 'b result" where
  "ebind (Inl e) f = Inl e"
| "ebind (Inr x) f = f x"

lemma ebind_eq_Inr: "ebind r f = Inr y \<longleftrightarrow> (\<exists>x. r = Inr x \<and> f x = Inr y)"
  by (cases r) auto

lemma ebind_eq_Inl: "ebind r f = Inl e \<longleftrightarrow> r = Inl e \<or> (\<exists>x. r = Inr x \<and> f x = Inl e)"
  by (cases r) auto

definition is_err :: "'a result \<Rightarrow> bool" where
  "is_err r = (case r of Inl _ \<Rightarrow> True | Inr _ \<Rightarrow> False)"

lemma is_err_simps [simp]: "is_err (Inl e)" "\<not> is_err (Inr x)"
  by (simp_all add: is_err_def)

section \<open>Lists\<close>

lemma take_eq_self_append: "take (length p) s = p \<longleftrightarrow> (\<exists>t. s = p @ t)"
  by (metis append_eq_conv_conj append_take_drop_id)

lemma span_to_sep:
  "c \<notin> set a \<Longrightarrow> takeWhile (\<lambda>x. x \<noteq> c) (a @ c # b) = a"
  "c \<notin> set a \<Longrightarrow> dropWhile (\<lambda>x. x \<noteq> c) (a @ c # b) = c # b"
  by (induction a) auto

end
