(* ===== verification/GoStrings.thy ===== *)
theory GoStrings
  imports S5Prelude
begin

text \<open>
  The parts of Go's \<open>strings\<close>, \<open>path\<close>, \<open>strconv\<close> and \<open>fmt\<close> packages the
  program calls, on byte strings, with the laws the components use.
  \<open>strings.ToLower\<close> and the white space of \<open>strings.TrimSpace\<close> are those of ASCII;
  bytes of 128 and above are left alone.
\<close>

section \<open>Package strings\<close>

definition hasPrefix :: "string \<Rightarrow> string \<Rightarrow> bool" where
  "hasPrefix s p = (take (length p) s = p)"

definition hasSuffix :: "string \<Rightarrow> string \<Rightarrow> bool" where
  "hasSuffix s p = (length p \<le> length s \<and> drop (length s - length p) s = p)"

definition trimPrefix :: "string \<Rightarrow> string \<Rightarrow> string" where
  "trimPrefix s p = (if hasPrefix s p then drop (length p) s else s)"

definition trimSuffix :: "string \<Rightarrow> string \<Rightarrow> string" where
  "trimSuffix s p = (if hasSuffix s p then take (length s - length p) s else s)"

definition trimRight :: "string \<Rightarrow> string \<Rightarrow> string" where
  "trimRight s cutset = rev (dropWhile (\<lambda>c. c \<in> set cutset) (rev s))"

definition trim :: "string \<Rightarrow> string \<Rightarrow> string" where
  "trim s cutset = trimRight (dropWhile (\<lambda>c. c \<in> set cutset) s) cutset"

definition ascii_space :: string where
  "ascii_space = [CHR 0x09, CHR 0x0A, CHR 0x0B, CHR 0x0C, CHR 0x0D, CHR 0x20]"

definition trimSpace :: "string \<Rightarrow> string" where
  "trimSpace s = trim s ascii_space"

definition lower_char :: "char \<Rightarrow> char" where
  "lower_char c = (if CHR ''A'' \<le> c \<and> c \<le> CHR ''Z'' then char_of (of_char c + (32 :: nat)) else c)"

definition is_letter :: "char \<Rightarrow> bool" where
  "is_letter c = (let n = of_char c :: nat in 65 \<le> n \<and> n < 91 \<or> 97 \<le> n \<and> n < 123)"

definition toLower :: "string \<Rightarrow> string" where
  "toLower s = map lower_char s"

fun contains :: "string \<Rightarrow> string \<Rightarrow> bool" where
  "contains [] sub = (sub = [])"
| "contains (c # cs) sub = (hasPrefix (c # cs) sub \<or> contains cs sub)"

fun splitc :: "char \<Rightarrow> string \<Rightarrow> string list" where
  "splitc sep [] = [[]]"
| "splitc sep (c # cs) =
     (if c = sep then [] # splitc sep cs
      else (case splitc sep cs of [] \<Rightarrow> [[c]] | w # ws \<Rightarrow> (c # w) # ws))"

fun join :: "string \<Rightarrow> string list \<Rightarrow> string" where
  "join sep [] = []"
| "join sep [x] = x"
| "join sep (x # y # xs) = x @ sep @ join sep (y # xs)"

lemma hasPrefix_iff: "hasPrefix s p \<longleftrightarrow> (\<exists>t. s = p @ t)"
  by (simp add: hasPrefix_def take_eq_self_append)

lemma hasPrefix_append [simp]: "hasPrefix (p @ t) p"
  by (auto simp: hasPrefix_iff)

lemma hasSuffix_iff: "hasSuffix s p \<longleftrightarrow> (\<exists>t. s = t @ p)"
proof
  assume "hasSuffix s p"
  then have "s = take (length s - length p) s @ p"
    unfolding hasSuffix_def by (metis append_take_drop_id)
  then show "\<exists>t. s = t @ p" ..
qed (auto simp: hasSuffix_def)

lemma hasSuffix_append [simp]: "hasSuffix (t @ p) p"
  by (auto simp: hasSuffix_iff)

lemma trimSuffix_append [simp]: "trimSuffix (t @ p) p = t"
  by (simp add: trimSuffix_def)

lemma trimPrefix_append [simp]: "trimPrefix (p @ t) p = t"
  by (simp add: trimPrefix_def)

lemma trimRight_snoc_keep: "c \<notin> set cutset \<Longrightarrow> trimRight (s @ [c]) cutset = s @ [c]"
  by (simp add: trimRight_def)

lemma trim_id:
  assumes "s = [] \<or> hd s \<notin> set cs" and "s = [] \<or> last s \<notin> set cs"
  shows "trim s cs = s"
proof (cases s rule: rev_cases)
  case Nil
  then show ?thesis by (simp add: trim_def trimRight_def)
next
  case (snoc t c)
  have "dropWhile (\<lambda>c. c \<in> set cs) s = s"
    using assms(1) by (simp add: dropWhile_eq_self_iff)
  with snoc assms(2) show ?thesis
    by (simp add: trim_def trimRight_snoc_keep)
qed

lemma trimRight_prefix: "\<exists>u. s = trimRight s cs @ u"
proof -
  have "s = rev (takeWhile (\<lambda>c. c \<in> set cs) (rev s) @ dropWhile (\<lambda>c. c \<in> set cs) (rev s))"
    by simp
  then have "s = trimRight s cs @ rev (takeWhile (\<lambda>c. c \<in> set cs) (rev s))"
    unfolding trimRight_def by (metis rev_append)
  then show ?thesis ..
qed

lemma trim_hd: "trim s cs \<noteq> [] \<Longrightarrow> hd (trim s cs) \<notin> set cs"
proof -
  assume ne: "trim s cs \<noteq> []"
  define t where "t = dropWhile (\<lambda>c. c \<in> set cs) s"
  from ne have r: "trimRight t cs \<noteq> []"
    by (simp add: trim_def t_def)
  obtain u where u: "t = trimRight t cs @ u"
    using trimRight_prefix by blast
  with r have "t \<noteq> []" by auto
  then have "hd t \<notin> set cs"
    unfolding t_def by (rule hd_dropWhile)
  moreover from r u have "hd t = hd (trimRight t cs)"
    by (metis hd_append2)
  ultimately show ?thesis
    by (simp add: trim_def t_def)
qed

lemma splitc_nonempty [simp]: "splitc c s \<noteq> []"
  by (induction s) (auto split: list.splits)

lemma join_Cons: "xs \<noteq> [] \<Longrightarrow> join sep (x # xs) = x @ sep @ join sep xs"
  by (cases xs) auto

lemma join_append:
  "xs \<noteq> [] \<Longrightarrow> ys \<noteq> [] \<Longrightarrow> join sep (xs @ ys) = join sep xs @ sep @ join sep ys"
proof (induction xs)
  case (Cons x xs)
  then show ?case
    by (cases xs) (simp_all add: join_Cons)
qed simp

lemma join_splitc [simp]: "join [c] (splitc c s) = s"
proof (induction s)
  case (Cons a s)
  show ?case
  proof (cases "splitc c s")
    case (Cons w ws)
    with Cons.IH show ?thesis
      by (cases ws) (auto simp: join_Cons)
  qed simp
qed simp

lemma splitc_no_sep: "w \<in> set (splitc c s) \<Longrightarrow> c \<notin> set w"
proof (induction s arbitrary: w)
  case (Cons a s)
  then show ?case
    by (cases "splitc c s") (auto split: if_splits)
qed simp

lemma splitc_no_occ: "c \<notin> set s \<Longrightarrow> splitc c s = [s]"
  by (induction s) auto

lemma splitc_append_sep: "splitc c (a @ c # b) = splitc c a @ splitc c b"
proof (induction a)
  case (Cons x a)
  then show ?case
    by (cases "splitc c a") (auto split: list.splits)
qed simp

lemma splitc_join: "xs \<noteq> [] \<Longrightarrow> (\<And>x. x \<in> set xs \<Longrightarrow> c \<notin> set x) \<Longrightarrow> splitc c (join [c] xs) = xs"
proof (induction xs)
  case (Cons x xs)
  then show ?case
    by (cases xs) (auto simp: splitc_no_occ splitc_append_sep)
qed simp

lemma trim_last: "trim s cs \<noteq> [] \<Longrightarrow> last (trim s cs) \<notin> set cs"
  unfolding trim_def trimRight_def by (metis hd_dropWhile last_rev rev_is_Nil_conv)

lemma trim_idem [simp]: "trim (trim s cs) cs = trim s cs"
  using trim_hd trim_last by (blast intro: trim_id)

lemma set_trim: "set (trim s cs) \<subseteq> set s"
proof -
  have "set (trimRight t cs) \<subseteq> set t" for t
    unfolding trimRight_def using set_dropWhileD by fastforce
  then show ?thesis
    unfolding trim_def using set_dropWhileD by (fastforce dest: subsetD)
qed

lemma lower_char_cases:
  obtains "lower_char c = c" | "of_char (lower_char c) \<in> {97..122 :: nat}" "of_char c \<in> {65..90 :: nat}"
proof (cases "(of_char c :: nat) \<in> {65..90}")
  case True
  moreover from True have "(of_char (lower_char c) :: nat) = of_char c + 32"
    by (simp add: lower_char_def less_eq_char_def)
  ultimately show thesis
    using that(2) by simp
next
  case False
  then show thesis
    using that(1) by (auto simp: lower_char_def less_eq_char_def)
qed

lemma lower_char_idem [simp]: "lower_char (lower_char c) = lower_char c"
  by (rule lower_char_cases [of c]) (auto simp: lower_char_def [of "lower_char c"] less_eq_char_def)

lemma toLower_idem [simp]: "toLower (toLower s) = toLower s"
  by (simp add: toLower_def)

lemma lower_char_space [simp]: "lower_char c \<in> set ascii_space \<longleftrightarrow> c \<in> set ascii_space"
proof (rule lower_char_cases [of c])
  have "of_char d < (33 :: nat)" if "d \<in> set ascii_space" for d
    using that by (auto simp: ascii_space_def)
  then show "of_char (lower_char c) \<in> {97..122 :: nat} \<Longrightarrow> of_char c \<in> {65..90 :: nat} \<Longrightarrow> ?thesis"
    by fastforce
qed simp

lemma trimSpace_toLower [simp]: "trimSpace (toLower (trimSpace s)) = toLower (trimSpace s)"
  unfolding trimSpace_def toLower_def
  by (rule trim_id) (use trim_hd [of s ascii_space] trim_last [of s ascii_space] in
      \<open>auto simp: hd_map last_map\<close>)

end
