(* ===== verification/GoStrconv.thy ===== *)
theory GoStrconv
  imports GoStrings
begin

text \<open>
  Decimal conversions of Go's \<open>strconv\<close> and \<open>fmt\<close>: \<open>Itoa\<close> on naturals, the
  zero-padded verb \<open>%0wd\<close>, and \<open>ParseUint\<close> in base 10.  The laws are the round
  trip through \<open>ParseUint\<close> and that padding to a fixed width makes the order of
  the texts the order of the numbers.
\<close>

definition digit :: "nat \<Rightarrow> char" where
  "digit d = char_of (48 + d)"

definition is_digit :: "char \<Rightarrow> bool" where
  "is_digit c \<longleftrightarrow> CHR ''0'' \<le> c \<and> c \<le> CHR ''9''"

definition digit_val :: "char \<Rightarrow> nat" where
  "digit_val c = of_char c - 48"

fun itoa :: "nat \<Rightarrow> string" where
  "itoa n = (if n < 10 then [digit n] else itoa (n div 10) @ [digit (n mod 10)])"

declare itoa.simps [simp del]

text \<open>\<open>%0wd\<close>\<close>

definition zero_pad :: "nat \<Rightarrow> string \<Rightarrow> string" where
  "zero_pad w s = replicate (w - length s) (CHR ''0'') @ s"

definition digits_val :: "string \<Rightarrow> nat" where
  "digits_val s = foldl (\<lambda>n c. 10 * n + digit_val c) 0 s"

text \<open>\<open>strconv.ParseUint(s, 10, bits)\<close>\<close>

definition parse_uint :: "nat \<Rightarrow> string \<Rightarrow> nat result" where
  "parse_uint bits s =
     (if s = [] \<or> (\<exists>c \<in> set s. \<not> is_digit c) then Inl (ErrText ''invalid syntax'')
      else if digits_val s < 2 ^ bits then Inr (digits_val s)
      else Inl (ErrText ''value out of range''))"

lemma of_char_digit: "d < 10 \<Longrightarrow> of_char (digit d) = 48 + d"
  by (simp add: digit_def)

lemma digit_val_digit [simp]: "d < 10 \<Longrightarrow> digit_val (digit d) = d"
  by (simp add: digit_val_def of_char_digit)

lemma is_digit_digit [simp]: "d < 10 \<Longrightarrow> is_digit (digit d)"
  by (simp add: is_digit_def less_eq_char_def of_char_digit)

lemma is_digit_zero [simp]: "is_digit (CHR ''0'')"
  by (simp add: is_digit_def)

lemma digit_less_iff: "a < 10 \<Longrightarrow> b < 10 \<Longrightarrow> digit a < digit b \<longleftrightarrow> a < b"
  by (simp add: less_char_def of_char_digit)

lemma digit_eq_iff: "a < 10 \<Longrightarrow> b < 10 \<Longrightarrow> digit a = digit b \<longleftrightarrow> a = b"
  by (metis digit_val_digit)

lemma itoa_digits: "c \<in> set (itoa n) \<Longrightarrow> is_digit c"
proof (induction n rule: itoa.induct)
  case (1 n)
  then show ?case
    by (subst (asm) (2) itoa.simps) (auto split: if_splits)
qed

lemma itoa_nonempty [simp]: "itoa n \<noteq> []"
  by (subst itoa.simps) simp

lemma digits_val_snoc: "digits_val (s @ [c]) = 10 * digits_val s + digit_val c"
  by (simp add: digits_val_def)

lemma digits_val_itoa [simp]: "digits_val (itoa n) = n"
proof (induction n rule: itoa.induct)
  case (1 n)
  show ?case
  proof (cases "n < 10")
    case True
    then show ?thesis by (subst itoa.simps) (simp add: digits_val_def)
  next
    case False
    with 1 show ?thesis by (subst itoa.simps) (simp add: digits_val_snoc)
  qed
qed

lemma digits_val_zeros: "digits_val (replicate k (CHR ''0'') @ s) = digits_val s"
proof (induction k)
  case (Suc k)
  have "digit_val (CHR ''0'') = 0" by (simp add: digit_val_def)
  with Suc show ?case by (simp add: digits_val_def)
qed simp

lemma parse_uint_itoa: "n < 2 ^ bits \<Longrightarrow> parse_uint bits (itoa n) = Inr n"
  by (auto simp: parse_uint_def dest: itoa_digits)

lemma parse_uint_zero_pad: "n < 2 ^ bits \<Longrightarrow> parse_uint bits (zero_pad w (itoa n)) = Inr n"
  by (auto simp: parse_uint_def zero_pad_def digits_val_zeros dest: itoa_digits)

text \<open>The padded numeral as exactly \<open>w\<close> digits.\<close>

fun fixed_digits :: "nat \<Rightarrow> nat \<Rightarrow> string" where
  "fixed_digits 0 n = []"
| "fixed_digits (Suc w) n = fixed_digits w (n div 10) @ [digit (n mod 10)]"

lemma length_fixed_digits [simp]: "length (fixed_digits w n) = w"
  by (induction w arbitrary: n) auto

lemma fixed_digits_0: "fixed_digits w 0 = replicate w (CHR ''0'')"
proof (induction w)
  case (Suc w)
  have "digit 0 = CHR ''0''" by (rule of_char_eqI [where 'a = nat]) (simp add: of_char_digit)
  with Suc show ?case by (simp add: replicate_append_same)
qed simp

lemma zero_pad_itoa: "n < 10 ^ w \<Longrightarrow> 0 < w \<Longrightarrow> zero_pad w (itoa n) = fixed_digits w n"
proof (induction w arbitrary: n)
  case (Suc w)
  show ?case
  proof (cases "n < 10")
    case True
    then show ?thesis
      by (subst itoa.simps) (simp add: zero_pad_def fixed_digits_0)
  next
    case False
    with Suc.prems have "n div 10 < 10 ^ w" and "0 < w"
      by (auto intro!: Nat.gr0I)
    with Suc.IH have "zero_pad w (itoa (n div 10)) = fixed_digits w (n div 10)"
      by simp
    with False show ?thesis
      by (subst itoa.simps) (simp add: zero_pad_def)
  qed
qed simp

lemma length_zero_pad_itoa: "n < 10 ^ w \<Longrightarrow> 0 < w \<Longrightarrow> length (zero_pad w (itoa n)) = w"
  by (simp add: zero_pad_itoa)

lemma snoc_less_snoc:
  fixes x y :: "'a::linorder"
  shows "length xs = length ys \<Longrightarrow> xs @ [x] < ys @ [y] \<longleftrightarrow> xs < ys \<or> xs = ys \<and> x < y"
  by (induction xs ys rule: list_induct2) auto

lemma fixed_digits_inject:
  "a < 10 ^ w \<Longrightarrow> b < 10 ^ w \<Longrightarrow> fixed_digits w a = fixed_digits w b \<longleftrightarrow> a = b"
proof (induction w arbitrary: a b)
  case (Suc w)
  have "a div 10 = b div 10 \<and> a mod 10 = b mod 10 \<longleftrightarrow> a = b"
    by (metis div_mult_mod_eq)
  with Suc show ?case
    by (simp add: digit_eq_iff)
qed simp

lemma less_iff_div_mod: "a < b \<longleftrightarrow> a div 10 < b div 10 \<or> a div 10 = b div 10 \<and> a mod 10 < b mod 10"
  for a b :: nat
proof -
  have "a = 10 * (a div 10) + a mod 10" "b = 10 * (b div 10) + b mod 10"
    by simp_all
  moreover have "a mod 10 < 10" "b mod 10 < 10"
    by simp_all
  ultimately show ?thesis
    by linarith
qed

lemma fixed_digits_less:
  "a < 10 ^ w \<Longrightarrow> b < 10 ^ w \<Longrightarrow> fixed_digits w a < fixed_digits w b \<longleftrightarrow> a < b"
proof (induction w arbitrary: a b)
  case (Suc w)
  from Suc.prems have "a div 10 < 10 ^ w" "b div 10 < 10 ^ w"
    by auto
  with Suc.IH show ?case
    by (simp add: snoc_less_snoc digit_less_iff fixed_digits_inject less_iff_div_mod [of a b])
qed simp

lemma fixed_digits_no_slash: "CHR ''/'' \<notin> set (fixed_digits w n)"
proof (induction w arbitrary: n)
  case (Suc w)
  have "digit (n mod 10) \<noteq> CHR ''/''"
    using is_digit_digit [of "n mod 10"] by (auto simp: is_digit_def)
  with Suc show ?case by auto
qed simp

section \<open>Hexadecimal digits\<close>

definition hex_digit :: "nat \<Rightarrow> char" where
  "hex_digit d = (if d < 10 then char_of (48 + d) else char_of (87 + d))"

definition is_hex :: "char \<Rightarrow> bool" where
  "is_hex c \<longleftrightarrow> is_digit c \<or> CHR ''a'' \<le> c \<and> c \<le> CHR ''f'' \<or> CHR ''A'' \<le> c \<and> c \<le> CHR ''F''"

definition hex_digit_val :: "char \<Rightarrow> nat" where
  "hex_digit_val c =
     (if is_digit c then of_char c - 48
      else if CHR ''a'' \<le> c then of_char c - 87 else of_char c - 55)"

definition hex_val :: "string \<Rightarrow> nat" where
  "hex_val s = foldl (\<lambda>n c. 16 * n + hex_digit_val c) 0 s"

fun hex_nat :: "nat \<Rightarrow> string" where
  "hex_nat n = (if n < 16 then [hex_digit n] else hex_nat (n div 16) @ [hex_digit (n mod 16)])"

declare hex_nat.simps [simp del]

lemma of_char_hex_digit: "d < 16 \<Longrightarrow> of_char (hex_digit d) = (if d < 10 then 48 + d else 87 + d)"
  by (simp add: hex_digit_def)

lemma is_hex_digit [simp]: "d < 16 \<Longrightarrow> is_hex (hex_digit d)"
  by (simp add: is_hex_def is_digit_def less_eq_char_def of_char_hex_digit)

lemma hex_digit_val_digit [simp]: "d < 16 \<Longrightarrow> hex_digit_val (hex_digit d) = d"
  by (simp add: hex_digit_val_def is_digit_def less_eq_char_def of_char_hex_digit)

lemma hex_digit_eval:
  "hex_digit 0 = CHR ''0''" "hex_digit 1 = CHR ''1''" "hex_digit (Suc 0) = CHR ''1''" "hex_digit 2 = CHR ''2''" "hex_digit 3 = CHR ''3''"
   "hex_digit 4 = CHR ''4''" "hex_digit 5 = CHR ''5''" "hex_digit 6 = CHR ''6''" "hex_digit 7 = CHR ''7''"
   "hex_digit 8 = CHR ''8''" "hex_digit 9 = CHR ''9''" "hex_digit 10 = CHR ''a''" "hex_digit 11 = CHR ''b''"
   "hex_digit 12 = CHR ''c''" "hex_digit 13 = CHR ''d''" "hex_digit 14 = CHR ''e''" "hex_digit 15 = CHR ''f''"
  by code_simp+

lemma digit_eval:
  "digit 0 = CHR ''0''" "digit 1 = CHR ''1''" "digit (Suc 0) = CHR ''1''" "digit 2 = CHR ''2''" "digit 3 = CHR ''3''" "digit 4 = CHR ''4''"
   "digit 5 = CHR ''5''" "digit 6 = CHR ''6''" "digit 7 = CHR ''7''" "digit 8 = CHR ''8''" "digit 9 = CHR ''9''"
  by code_simp+

lemma hex_nat_hex: "c \<in> set (hex_nat n) \<Longrightarrow> is_hex c"
proof (induction n rule: hex_nat.induct)
  case (1 n)
  then show ?case
    by (subst (asm) (2) hex_nat.simps) (auto split: if_splits)
qed

lemma hex_nat_nonempty [simp]: "hex_nat n \<noteq> []"
  by (subst hex_nat.simps) simp

lemma hex_val_hex_nat [simp]: "hex_val (hex_nat n) = n"
proof (induction n rule: hex_nat.induct)
  case (1 n)
  show ?case
  proof (cases "n < 16")
    case True
    then show ?thesis by (subst hex_nat.simps) (simp add: hex_val_def)
  next
    case False
    then show ?thesis
      using 1 by (subst hex_nat.simps) (simp add: hex_val_def)
  qed
qed

lemma length_hex_nat: "n < 16 ^ k \<Longrightarrow> 0 < k \<Longrightarrow> length (hex_nat n) \<le> k"
proof (induction k arbitrary: n)
  case (Suc k)
  show ?case
  proof (cases "n < 16")
    case True
    then show ?thesis by (subst hex_nat.simps) simp
  next
    case False
    then have "n div 16 < 16 ^ k" and "0 < k"
      using Suc.prems by (auto intro!: Nat.gr0I)
    with Suc.IH False show ?thesis
      by (subst hex_nat.simps) simp
  qed
qed simp

lemma length_itoa: "n < 10 ^ k \<Longrightarrow> 0 < k \<Longrightarrow> length (itoa n) \<le> k"
proof (induction k arbitrary: n)
  case (Suc k)
  show ?case
  proof (cases "n < 10")
    case True
    then show ?thesis by (subst itoa.simps) simp
  next
    case False
    then have "n div 10 < 10 ^ k" and "0 < k"
      using Suc.prems by (auto intro!: Nat.gr0I)
    with Suc.IH False show ?thesis
      by (subst itoa.simps) simp
  qed
qed simp

lemma hd_itoa: "0 < n \<Longrightarrow> hd (itoa n) \<noteq> CHR ''0''"
proof (induction n rule: itoa.induct)
  case (1 n)
  have "digit d \<noteq> CHR ''0''" if "0 < d" "d < 10" for d
    using that digit_val_digit [of d] by (auto simp: digit_val_def)
  with 1 show ?case
    by (subst itoa.simps) (auto simp: hd_append)
qed

section \<open>Quoting\<close>

text \<open>
  \<open>%q\<close> of \<open>fmt\<close>: the string in double quotes, with Go's escapes.  Bytes from 128 on are
  kept, which is what Go does for printable characters of valid UTF-8.
\<close>

definition quote_char :: "char \<Rightarrow> string" where
  "quote_char c =
     (let n = of_char c :: nat in
      if n = 34 then [CHR 0x5C, CHR 0x22]
      else if n = 92 then [CHR 0x5C, CHR 0x5C]
      else if n = 7 then [CHR 0x5C, CHR ''a'']
      else if n = 8 then [CHR 0x5C, CHR ''b'']
      else if n = 9 then [CHR 0x5C, CHR ''t'']
      else if n = 10 then [CHR 0x5C, CHR ''n'']
      else if n = 11 then [CHR 0x5C, CHR ''v'']
      else if n = 12 then [CHR 0x5C, CHR ''f'']
      else if n = 13 then [CHR 0x5C, CHR ''r'']
      else if n < 32 \<or> n = 127 then [CHR 0x5C, CHR ''x'', hex_digit (n div 16), hex_digit (n mod 16)]
      else [c])"

definition quote :: "string \<Rightarrow> string" where
  "quote s = [CHR 0x22] @ concat (map quote_char s) @ [CHR 0x22]"

end
