(* ===== verification/GoUrl.thy ===== *)
theory GoUrl
  imports GoStrconv
begin

text \<open>
  Go's \<open>net/url\<close>: percent-encoding in the modes of the package, \<open>Parse\<close>, \<open>String\<close>,
  \<open>EscapedPath\<close>, query strings.  A user of a URL is a name with an optional
  password; query values are the list of pairs in the order they were added.
\<close>

section \<open>Percent-encoding\<close>

datatype url_mode = EncPath | EncHost | EncZone | EncUser | EncQuery | EncFragment

definition url_alnum :: "char \<Rightarrow> bool" where
  "url_alnum c \<longleftrightarrow> is_digit c \<or> is_letter c"

definition unreserved :: "char \<Rightarrow> bool" where
  "unreserved c \<longleftrightarrow> url_alnum c \<or> c \<in> set ''-_.~''"

text \<open>\<open>shouldEscape\<close>\<close>

definition shouldEscape :: "url_mode \<Rightarrow> char \<Rightarrow> bool" where
  "shouldEscape mode c =
     (if url_alnum c then False
      else if mode \<in> {EncHost, EncZone} \<and> c \<in> set (''!$&()*+,;=:[]<>'' @ [CHR 0x22, CHR 0x27]) then False
      else if c \<in> set ''-_.~'' then False
      else if c \<in> set ''$&+,/:;=?@'' \<and> mode \<in> {EncPath, EncUser, EncQuery, EncFragment} then
        (case mode of
           EncPath \<Rightarrow> c = CHR ''?''
         | EncUser \<Rightarrow> c \<in> set ''@/?:''
         | EncQuery \<Rightarrow> True
         | _ \<Rightarrow> False)
      else if mode = EncFragment \<and> c \<in> set ''!()*'' then False
      else True)"

text \<open>An upper-case hexadecimal digit.\<close>

definition upper_hex :: "nat \<Rightarrow> char" where
  "upper_hex d = (if d < 10 then char_of (48 + d) else char_of (55 + d))"

definition percent :: "char \<Rightarrow> string" where
  "percent c = CHR ''%'' # [upper_hex (of_char c div 16), upper_hex (of_char c mod 16)]"

fun escape :: "url_mode \<Rightarrow> string \<Rightarrow> string" where
  "escape mode [] = []"
| "escape mode (c # s) =
     (if shouldEscape mode c
      then (if c = CHR '' '' \<and> mode = EncQuery then ''+'' else percent c) @ escape mode s
      else c # escape mode s)"

definition escape_error :: "string \<Rightarrow> err" where
  "escape_error s = ErrText (''invalid URL escape '' @ quote (take 3 s))"

definition host_error :: "char \<Rightarrow> err" where
  "host_error c = ErrText (''invalid character '' @ quote [c] @ '' in host name'')"

text \<open>\<open>unescape\<close>\<close>

fun unescape :: "url_mode \<Rightarrow> string \<Rightarrow> string result" where
  "unescape mode [] = Inr []"
| "unescape mode (c # s) =
     (if c = CHR ''%'' then
        (case s of
           a # b # r \<Rightarrow>
             if \<not> is_hex a \<or> \<not> is_hex b then Inl (escape_error (c # s))
             else let v = char_of (16 * hex_digit_val a + hex_digit_val b) in
               if mode = EncHost \<and> hex_digit_val a < 8 \<and> [a, b] \<noteq> ''25'' then Inl (escape_error (c # s))
               else if mode = EncZone \<and> [a, b] \<noteq> ''25'' \<and> v \<noteq> CHR '' '' \<and> shouldEscape EncHost v
               then Inl (escape_error (c # s))
               else ebind (unescape mode r) (\<lambda>t. Inr (v # t))
         | _ \<Rightarrow> Inl (escape_error (c # s)))
      else if mode \<in> {EncHost, EncZone} \<and> of_char c < (128 :: nat) \<and> shouldEscape mode c then Inl (host_error c)
      else ebind (unescape mode s) (\<lambda>t. Inr ((if c = CHR ''+'' \<and> mode = EncQuery then CHR '' '' else c) # t)))"

abbreviation QueryEscape :: "string \<Rightarrow> string" where "QueryEscape \<equiv> escape EncQuery"
abbreviation QueryUnescape :: "string \<Rightarrow> string result" where "QueryUnescape \<equiv> unescape EncQuery"

section \<open>URLs\<close>

record URL =
  url_Scheme :: string
  url_Opaque :: string
  url_User :: "(string \<times> string option) option"
  url_Host :: string
  url_Path :: string
  url_RawPath :: string
  url_OmitHost :: bool
  url_ForceQuery :: bool
  url_RawQuery :: string
  url_Fragment :: string
  url_RawFragment :: string

definition empty_URL :: URL where
  "empty_URL = \<lparr>url_Scheme = [], url_Opaque = [], url_User = None, url_Host = [], url_Path = [], url_RawPath = [],
     url_OmitHost = False, url_ForceQuery = False, url_RawQuery = [], url_Fragment = [], url_RawFragment = []\<rparr>"

definition validEncoded :: "url_mode \<Rightarrow> string \<Rightarrow> bool" where
  "validEncoded mode s \<longleftrightarrow>
     list_all (\<lambda>c. c \<in> set (''!$&()*+,;=:@[]%'' @ [CHR 0x27]) \<or> \<not> shouldEscape mode c) s"

definition EscapedPath :: "URL \<Rightarrow> string" where
  "EscapedPath u =
     (if url_RawPath u \<noteq> [] \<and> validEncoded EncPath (url_RawPath u) \<and>
         unescape EncPath (url_RawPath u) = Inr (url_Path u) then url_RawPath u
      else if url_Path u = ''*'' then ''*''
      else escape EncPath (url_Path u))"

definition EscapedFragment :: "URL \<Rightarrow> string" where
  "EscapedFragment u =
     (if url_RawFragment u \<noteq> [] \<and> validEncoded EncFragment (url_RawFragment u) \<and>
         unescape EncFragment (url_RawFragment u) = Inr (url_Fragment u) then url_RawFragment u
      else escape EncFragment (url_Fragment u))"

text \<open>\<open>setPath\<close> and \<open>setFragment\<close>\<close>

definition setPath :: "string \<Rightarrow> URL \<Rightarrow> URL result" where
  "setPath p u = ebind (unescape EncPath p) (\<lambda>path.
     Inr (u\<lparr>url_Path := path, url_RawPath := (if p = escape EncPath path then [] else p)\<rparr>))"

definition setFragment :: "string \<Rightarrow> URL \<Rightarrow> URL result" where
  "setFragment f u = ebind (unescape EncFragment f) (\<lambda>frag.
     Inr (u\<lparr>url_Fragment := frag, url_RawFragment := (if f = escape EncFragment frag then [] else f)\<rparr>))"

definition user_text :: "string \<times> string option \<Rightarrow> string" where
  "user_text x = escape EncUser (fst x) @
     (case snd x of None \<Rightarrow> [] | Some pw \<Rightarrow> '':'' @ escape EncUser pw)"

text \<open>The text before the first occurrence of a character, and the text after it if there is one.\<close>

definition cut :: "char \<Rightarrow> string \<Rightarrow> string \<times> string option" where
  "cut c s = (takeWhile (\<lambda>x. x \<noteq> c) s,
     case dropWhile (\<lambda>x. x \<noteq> c) s of [] \<Rightarrow> None | _ # r \<Rightarrow> Some r)"

definition URL_String :: "URL \<Rightarrow> string" where
  "URL_String u =
     (let scheme = (if url_Scheme u \<noteq> [] then url_Scheme u @ '':'' else []);
          authority =
            (if url_Scheme u \<noteq> [] \<or> url_Host u \<noteq> [] \<or> url_User u \<noteq> None then
               if url_OmitHost u \<and> url_Host u = [] \<and> url_User u = None then []
               else (if url_Host u \<noteq> [] \<or> url_Path u \<noteq> [] \<or> url_User u \<noteq> None then ''//'' else []) @
                    (case url_User u of None \<Rightarrow> [] | Some x \<Rightarrow> user_text x @ ''@'') @ escape EncHost (url_Host u)
             else []);
          path = EscapedPath u;
          slash = (if path \<noteq> [] \<and> hd path \<noteq> CHR ''/'' \<and> url_Host u \<noteq> [] then ''/'' else []);
          before = scheme @ authority @ slash;
          dot = (if before = [] \<and> CHR '':'' \<in> set (fst (cut (CHR ''/'') path)) then ''./'' else [])
      in (if url_Opaque u \<noteq> [] then scheme @ url_Opaque u else before @ dot @ path) @
         (if url_ForceQuery u \<or> url_RawQuery u \<noteq> [] then ''?'' @ url_RawQuery u else []) @
         (if url_Fragment u \<noteq> [] then ''#'' @ EscapedFragment u else []))"

section \<open>Parse\<close>

text \<open>\<open>getScheme\<close>: \<open>None\<close> for a URL that starts with a colon.\<close>

definition scheme_char :: "nat \<Rightarrow> char \<Rightarrow> bool" where
  "scheme_char i c \<longleftrightarrow>
     is_letter c \<or>
     i > 0 \<and> (is_digit c \<or> c \<in> set ''+-.'')"

fun getScheme :: "string \<Rightarrow> string \<Rightarrow> string \<Rightarrow> (string \<times> string) option" where
  "getScheme raw acc [] = Some ([], raw)"
| "getScheme raw acc (c # s) =
     (if scheme_char (length acc) c then getScheme raw (acc @ [c]) s
      else if c = CHR '':'' then (if acc = [] then None else Some (acc, s))
      else Some ([], raw))"

definition validOptionalPort :: "string \<Rightarrow> bool" where
  "validOptionalPort port \<longleftrightarrow> port = [] \<or> hd port = CHR '':'' \<and> list_all is_digit (tl port)"

text \<open>The text up to the last occurrence of a character, and the text from it on.\<close>

definition cut_last :: "char \<Rightarrow> string \<Rightarrow> (string \<times> string) option" where
  "cut_last c s =
     (if c \<in> set s then
        Some (rev (tl (dropWhile (\<lambda>x. x \<noteq> c) (rev s))), c # rev (takeWhile (\<lambda>x. x \<noteq> c) (rev s)))
      else None)"

fun find_zone :: "string \<Rightarrow> string \<Rightarrow> (string \<times> string) option" where
  "find_zone acc [] = None"
| "find_zone acc (c # s) = (if hasPrefix (c # s) ''%25'' then Some (acc, c # s) else find_zone (acc @ [c]) s)"

definition port_error :: "string \<Rightarrow> err" where
  "port_error port = ErrText (''invalid port '' @ quote port @ '' after host'')"

definition parseHost :: "string \<Rightarrow> string result" where
  "parseHost host =
     (if hasPrefix host ''['' then
        (case cut_last (CHR '']'') host of
           None \<Rightarrow> Inl (ErrText (''missing '' @ [CHR 0x27, CHR '']'', CHR 0x27] @ '' in host''))
         | Some (lit, rest) \<Rightarrow>
             if \<not> validOptionalPort (tl rest) then Inl (port_error (tl rest))
             else (case find_zone [] lit of
                 Some (addr, zone) \<Rightarrow>
                   ebind (unescape EncHost addr) (\<lambda>h1. ebind (unescape EncZone zone) (\<lambda>h2.
                   ebind (unescape EncHost rest) (\<lambda>h3. Inr (h1 @ h2 @ h3))))
               | None \<Rightarrow> unescape EncHost host))
      else (case cut_last (CHR '':'') host of
          Some (_, port) \<Rightarrow>
            if \<not> validOptionalPort port then Inl (port_error port) else unescape EncHost host
        | None \<Rightarrow> unescape EncHost host))"

definition validUserinfo :: "string \<Rightarrow> bool" where
  "validUserinfo s \<longleftrightarrow> list_all (\<lambda>c. url_alnum c \<or> c \<in> set (''-._:~!$&()*+,;=%@'' @ [CHR 0x27])) s"

definition parseAuthority :: "string \<Rightarrow> ((string \<times> string option) option \<times> string) result" where
  "parseAuthority authority =
     (case cut_last (CHR ''@'') authority of
        None \<Rightarrow> ebind (parseHost authority) (\<lambda>h. Inr (None, h))
      | Some (userinfo, host) \<Rightarrow>
          ebind (parseHost (tl host)) (\<lambda>h.
            if \<not> validUserinfo userinfo then Inl (ErrText ''net/url: invalid userinfo'')
            else (case cut (CHR '':'') userinfo of
                (name, None) \<Rightarrow> ebind (unescape EncUser name) (\<lambda>n. Inr (Some (n, None), h))
              | (name, Some pw) \<Rightarrow>
                  ebind (unescape EncUser name) (\<lambda>n. ebind (unescape EncUser pw) (\<lambda>p.
                    Inr (Some (n, Some p), h))))))"

text \<open>The part of \<open>parse\<close> after the scheme and the query.\<close>

definition parse_rest :: "string \<Rightarrow> URL \<Rightarrow> URL result" where
  "parse_rest rest u =
     (if \<not> hasPrefix rest ''/'' \<and> url_Scheme u \<noteq> [] then Inr (u\<lparr>url_Opaque := rest\<rparr>)
      else if \<not> hasPrefix rest ''/'' \<and> CHR '':'' \<in> set (fst (cut (CHR ''/'') rest))
      then Inl (ErrText ''first path segment in URL cannot contain colon'')
      else if (url_Scheme u \<noteq> [] \<or> \<not> hasPrefix rest ''///'') \<and> hasPrefix rest ''//'' then
        (let authority = takeWhile (\<lambda>c. c \<noteq> CHR ''/'') (drop 2 rest);
             path = dropWhile (\<lambda>c. c \<noteq> CHR ''/'') (drop 2 rest)
         in ebind (parseAuthority authority) (\<lambda>(user, host). setPath path (u\<lparr>url_User := user, url_Host := host\<rparr>)))
      else setPath rest (u\<lparr>url_OmitHost := (url_Scheme u \<noteq> [] \<and> hasPrefix rest ''/'')\<rparr>))"

definition control_char :: "char \<Rightarrow> bool" where
  "control_char c \<longleftrightarrow> of_char c < (32 :: nat) \<or> of_char c = (127 :: nat)"

definition parse_url :: "string \<Rightarrow> URL result" where
  "parse_url raw =
     (if list_ex control_char raw then Inl (ErrText ''net/url: invalid control character in URL'')
      else if raw = ''*'' then Inr (empty_URL\<lparr>url_Path := ''*''\<rparr>)
      else case getScheme raw [] raw of
        None \<Rightarrow> Inl (ErrText ''missing protocol scheme'')
      | Some (scheme, rest) \<Rightarrow>
          let u = empty_URL\<lparr>url_Scheme := toLower scheme\<rparr>
          in if hasSuffix rest ''?'' \<and> CHR ''?'' \<notin> set (butlast rest)
             then parse_rest (butlast rest) (u\<lparr>url_ForceQuery := True\<rparr>)
             else (case cut (CHR ''?'') rest of (r, q) \<Rightarrow>
               parse_rest r (u\<lparr>url_RawQuery := (case q of None \<Rightarrow> [] | Some x \<Rightarrow> x)\<rparr>)))"

definition parse_failed :: "string \<Rightarrow> URL result \<Rightarrow> URL result" where
  "parse_failed raw r =
     (case r of Inl e \<Rightarrow> Inl (ErrWrap (''parse '' @ quote raw) e) | Inr u \<Rightarrow> Inr u)"

definition Parse :: "string \<Rightarrow> URL result" where
  "Parse raw =
     (case cut (CHR ''#'') raw of
        (u, frag) \<Rightarrow> (case parse_failed u (parse_url u) of
            Inl e \<Rightarrow> Inl e
          | Inr url \<Rightarrow> (case frag of
                None \<Rightarrow> Inr url
              | Some f \<Rightarrow> if f = [] then Inr url else parse_failed raw (setFragment f url))))"

section \<open>Queries\<close>

type_synonym url_values = "(string \<times> string) list"

definition values_Set :: "string \<Rightarrow> string \<Rightarrow> url_values \<Rightarrow> url_values" where
  "values_Set k v q = filter (\<lambda>(k', _). k' \<noteq> k) q @ [(k, v)]"

definition values_of :: "url_values \<Rightarrow> string \<Rightarrow> string list" where
  "values_of q k = map snd (filter (\<lambda>(k', _). k' = k) q)"

definition sorted_names :: "url_values \<Rightarrow> string list" where
  "sorted_names q = sort (remdups (map fst q))"

text \<open>\<open>Values.Encode\<close>\<close>

definition values_Encode :: "url_values \<Rightarrow> string" where
  "values_Encode q =
     join ''&'' (concat (map (\<lambda>k. map (\<lambda>v. QueryEscape k @ ''='' @ QueryEscape v) (values_of q k)) (sorted_names q)))"

text \<open>\<open>URL.Query\<close>: the pairs that parse; what does not is left out.\<close>

definition query_pair :: "string \<Rightarrow> (string \<times> string) list" where
  "query_pair s =
     (if CHR '';'' \<in> set s \<or> s = [] then []
      else case cut (CHR ''='') s of (k, v) \<Rightarrow>
        (case (QueryUnescape k, QueryUnescape (case v of None \<Rightarrow> [] | Some x \<Rightarrow> x)) of
           (Inr k', Inr v') \<Rightarrow> [(k', v')]
         | _ \<Rightarrow> []))"

definition ParseQuery :: "string \<Rightarrow> url_values" where
  "ParseQuery s = concat (map query_pair (splitc (CHR ''&'') s))"

section \<open>Encoding and decoding\<close>

lemma upper_hex_facts [simp]:
  assumes "d < 16"
  shows "is_hex (upper_hex d)" "hex_digit_val (upper_hex d) = d"
proof -
  have "of_char (upper_hex d) = (if d < 10 then 48 + d else 55 + d)"
    using assms by (simp add: upper_hex_def)
  then show "is_hex (upper_hex d)" "hex_digit_val (upper_hex d) = d"
    using assms by (auto simp: is_hex_def hex_digit_val_def is_digit_def less_eq_char_def)
qed

definition plain_mode :: "url_mode \<Rightarrow> bool" where
  "plain_mode mode \<longleftrightarrow> mode \<notin> {EncHost, EncZone}"

lemma unescape_percent:
  "plain_mode mode \<Longrightarrow> unescape mode (percent c @ s) = ebind (unescape mode s) (\<lambda>t. Inr (c # t))"
proof -
  have "of_char c div 16 < (16 :: nat)" "of_char c mod 16 < (16 :: nat)"
    using of_char_lt_256 [of c] by (simp_all add: less_mult_imp_div_less)
  moreover have "char_of (16 * (of_char c div 16) + of_char c mod 16 :: nat) = c"
    by simp
  moreover assume "plain_mode mode"
  ultimately show ?thesis
    by (simp add: percent_def plain_mode_def)
qed

lemma shouldEscape_special [simp]: "shouldEscape mode (CHR ''%'')" "shouldEscape EncQuery (CHR ''+'')"
  by (simp_all add: shouldEscape_def url_alnum_def is_letter_def Let_def is_digit_def less_eq_char_def)

lemma unescape_escape: "plain_mode mode \<Longrightarrow> unescape mode (escape mode s) = Inr s"
proof (induction s)
  case (Cons c s)
  have "c \<noteq> CHR ''%'' \<and> (c = CHR ''+'' \<longrightarrow> mode \<noteq> EncQuery)" if "\<not> shouldEscape mode c"
    using that by auto
  with Cons show ?case
    by (auto simp: unescape_percent plain_mode_def)
qed simp

lemma escape_inject: "plain_mode mode \<Longrightarrow> escape mode s = escape mode t \<longleftrightarrow> s = t"
  by (metis unescape_escape sum.inject(2))

lemma escape_id: "list_all (\<lambda>c. \<not> shouldEscape mode c) s \<Longrightarrow> escape mode s = s"
  by (induction s) auto

lemma escape_append [simp]: "escape mode (s @ t) = escape mode s @ escape mode t"
  by (induction s) auto

lemma unreserved_not_escaped [simp]: "unreserved c \<Longrightarrow> \<not> shouldEscape mode c"
  unfolding unreserved_def shouldEscape_def by meson

section \<open>URLs without user and fragment\<close>

definition plain_URL :: "string \<Rightarrow> string \<Rightarrow> string \<Rightarrow> string \<Rightarrow> URL" where
  "plain_URL sch host p q = empty_URL\<lparr>url_Scheme := sch, url_Host := host, url_Path := p, url_RawQuery := q\<rparr>"

definition plain_host :: "string \<Rightarrow> bool" where
  "plain_host h \<longleftrightarrow> h \<noteq> [] \<and> list_all (\<lambda>c. unreserved c \<or> c = CHR '':'') h \<and>
     (case cut_last (CHR '':'') h of None \<Rightarrow> True | Some (_, port) \<Rightarrow> validOptionalPort port)"

definition query_text :: "string \<Rightarrow> bool" where
  "query_text q \<longleftrightarrow> list_all (\<lambda>c. \<not> control_char c \<and> c \<noteq> CHR ''#'') q"

definition url_char :: "char \<Rightarrow> bool" where
  "url_char c \<longleftrightarrow> \<not> control_char c \<and> c \<notin> set ''#?''"

lemma path_chars: "\<forall>c. (\<not> shouldEscape EncPath c \<or> url_alnum c \<longrightarrow> url_char c) \<and>
    (unreserved c \<longrightarrow> url_char c \<and> c \<notin> set ''/@[:%'')"
  by code_simp

lemma unreserved_char: "unreserved c \<Longrightarrow> url_char c \<and> c \<notin> set ''/@[:%''"
  using path_chars by blast

lemma upper_hex_alnum: "d < 16 \<Longrightarrow> url_alnum (upper_hex d)"
proof -
  have "list_all (\<lambda>d. url_alnum (upper_hex d)) [0..<16]" by code_simp
  then show "d < 16 \<Longrightarrow> url_alnum (upper_hex d)" by (auto simp: list_all_iff)
qed

lemma escape_url_chars: "list_all url_char (escape EncPath s)"
proof (induction s)
  case (Cons c s)
  have "url_char (CHR ''%'')" by code_simp
  then have "list_all url_char (percent c)"
    using path_chars upper_hex_alnum [of "of_char c div 16"] upper_hex_alnum [of "of_char c mod 16"]
    by (simp add: percent_def less_mult_imp_div_less)
  then show ?case
    using Cons path_chars by auto
qed simp

lemma cut_absent: "c \<notin> set s \<Longrightarrow> cut c s = (s, None)"
  by (simp add: cut_def) (metis (mono_tags, lifting) dropWhile_eq_Nil_conv list.simps(4) takeWhile_eq_all_conv)

lemma suffix_char: "hasSuffix s [c] \<Longrightarrow> c \<in> set s"
  by (auto simp: hasSuffix_iff)

lemma cut_present: "c \<notin> set a \<Longrightarrow> cut c (a @ c # b) = (a, Some b)"
  by (simp add: cut_def span_to_sep)

lemma host_char: "unreserved c \<or> c = CHR '':'' \<Longrightarrow> c \<noteq> CHR ''%'' \<and> \<not> shouldEscape EncHost c"
proof -
  have "\<forall>c. unreserved c \<or> c = CHR '':'' \<longrightarrow> c \<noteq> CHR ''%'' \<and> \<not> shouldEscape EncHost c" by code_simp
  then show "unreserved c \<or> c = CHR '':'' \<Longrightarrow> c \<noteq> CHR ''%'' \<and> \<not> shouldEscape EncHost c" by blast
qed

lemma unescape_host: "list_all (\<lambda>c. unreserved c \<or> c = CHR '':'') h \<Longrightarrow> unescape EncHost h = Inr h"
  by (induction h) (use host_char in auto)

lemma escape_host: "list_all (\<lambda>c. unreserved c \<or> c = CHR '':'') h \<Longrightarrow> escape EncHost h = h"
  by (rule escape_id) (use host_char in \<open>auto simp: list_all_iff\<close>)

lemma parseAuthority_plain:
  assumes "plain_host h"
  shows "parseAuthority h = Inr (None, h)"
proof -
  have h: "list_all (\<lambda>c. unreserved c \<or> c = CHR '':'') h" "h \<noteq> []"
    using assms by (simp_all add: plain_host_def)
  then have "CHR ''@'' \<notin> set h" "CHR ''['' \<notin> set h"
    using unreserved_char by (fastforce simp: list_all_iff)+
  then have "cut_last (CHR ''@'') h = None" "\<not> hasPrefix h ''[''"
    by (auto simp: cut_last_def hasPrefix_iff)
  then show ?thesis
    using assms unescape_host [OF h(1)]
    by (auto simp: parseAuthority_def parseHost_def plain_host_def split: option.splits)
qed

lemma getScheme_plain:
  "sch \<in> {''http'', ''https''} \<Longrightarrow> getScheme raw [] (sch @ '':'' @ rest) = Some (sch, rest) \<and> toLower sch = sch"
  by (auto simp: scheme_char_def is_letter_def Let_def less_eq_char_def toLower_def lower_char_def is_digit_def)

lemma URL_String_plain:
  assumes "sch \<in> {''http'', ''https''}" and "plain_host h" and "p \<noteq> []" and "hd p = CHR ''/''"
  shows "URL_String (plain_URL sch h p q) =
    sch @ '':'' @ ''//'' @ h @ escape EncPath p @ (if q = [] then [] else ''?'' @ q)"
proof -
  have "escape EncHost h = h" "h \<noteq> []"
    using assms(2) by (simp_all add: plain_host_def escape_host)
  moreover have "escape EncPath p \<noteq> [] \<and> hd (escape EncPath p) = CHR ''/''"
    using assms(3,4) by (cases p) (auto simp: shouldEscape_def)
  moreover have "p \<noteq> ''*''"
    using assms(4) by auto
  ultimately show ?thesis
    using assms(1) by (auto simp: URL_String_def plain_URL_def empty_URL_def EscapedPath_def Let_def)
qed

lemma parse_rest_plain:
  assumes "sch \<in> {''http'', ''https''}" and "plain_host h" and "p \<noteq> []" and "hd p = CHR ''/''"
  shows "parse_rest (''//'' @ h @ escape EncPath p) (plain_URL sch [] [] q) = Inr (plain_URL sch h p q)"
proof -
  obtain r where e: "escape EncPath p = CHR ''/'' # r"
    using assms(3,4) by (cases p) (auto simp: shouldEscape_def)
  have "CHR ''/'' \<notin> set h"
    using assms(2) unreserved_char by (fastforce simp: plain_host_def list_all_iff)
  then have "takeWhile (\<lambda>c. c \<noteq> CHR ''/'') (h @ escape EncPath p) = h"
    "dropWhile (\<lambda>c. c \<noteq> CHR ''/'') (h @ escape EncPath p) = escape EncPath p"
    unfolding e by (simp_all add: span_to_sep)
  then show ?thesis
    using assms(1) parseAuthority_plain [OF assms(2)] unescape_escape [of EncPath p]
    by (auto simp: parse_rest_def hasPrefix_def plain_URL_def empty_URL_def setPath_def plain_mode_def)
qed

lemma parse_url_parts:
  assumes "\<not> list_ex control_char raw" and "raw \<noteq> ''*''" and "getScheme raw [] raw = Some (sch, rest)" and "toLower sch = sch"
    and "\<not> (hasSuffix rest ''?'' \<and> CHR ''?'' \<notin> set (butlast rest))" and "cut (CHR ''?'') rest = (a, Q)"
  shows "parse_url raw = parse_rest a
    (empty_URL\<lparr>url_Scheme := sch, url_RawQuery := (case Q of None \<Rightarrow> [] | Some x \<Rightarrow> x)\<rparr>)"
  using assms by (auto simp: parse_url_def Let_def)

text \<open>Such a URL, written and parsed, is the same.\<close>

lemma Parse_plain:
  assumes "sch \<in> {''http'', ''https''}" and "plain_host h" and "p \<noteq> []" and "hd p = CHR ''/''" and "query_text q"
  shows "Parse (URL_String (plain_URL sch h p q)) = Inr (plain_URL sch h p q)"
proof -
  let ?a = "''//'' @ h @ escape EncPath p" and ?s = "URL_String (plain_URL sch h p q)"
  let ?rest = "?a @ (if q = [] then [] else ''?'' @ q)"
  have s: "?s = sch @ '':'' @ ?rest"
    using URL_String_plain [OF assms(1-4)] by simp
  have c: "url_char (CHR '':'')" "url_char (CHR ''/'')" "list_all url_char ''https''" "list_all url_char ''http''"
    by code_simp+
  have "url_char x" if "x \<in> set h" for x
    using assms(2) that unreserved_char [of x] c(1) unfolding plain_host_def list_all_iff by blast
  then have "list_all url_char h"
    by (simp add: list_all_iff)
  with c have a: "list_all url_char (sch @ '':'' @ ?a)"
    using escape_url_chars [of p] assms(1) by auto
  then have "list_all (\<lambda>c. \<not> control_char c \<and> c \<noteq> CHR ''#'') ?s"
    using assms(5) unfolding s by (auto simp: list_all_iff url_char_def query_text_def control_char_def)
  then have "cut (CHR ''#'') ?s = (?s, None)" "\<not> list_ex control_char ?s"
    by (auto simp: list_all_iff list_ex_iff intro: cut_absent)
  moreover have no: "CHR ''?'' \<notin> set ?a"
    using a by (auto simp: list_all_iff url_char_def)
  then have "cut (CHR ''?'') ?rest = (?a, if q = [] then None else Some q)"
    using cut_absent [OF no] cut_present [OF no, of q] by auto
  moreover have "\<not> (hasSuffix ?rest ''?'' \<and> CHR ''?'' \<notin> set (butlast ?rest))"
  proof (cases "q = []")
    case True
    then show ?thesis
      using no suffix_char [of ?rest "CHR ''?''"] by auto
  qed (simp add: butlast_append)
  moreover have "?s \<noteq> ''*''"
    using assms(1) unfolding s by auto
  moreover have "getScheme ?s [] ?s = Some (sch, ?rest)" "toLower sch = sch"
    using getScheme_plain [OF assms(1), of ?s ?rest] s by auto
  ultimately have "parse_url ?s = parse_rest ?a (empty_URL\<lparr>url_Scheme := sch,
      url_RawQuery := (case if q = [] then None else Some q of None \<Rightarrow> [] | Some x \<Rightarrow> x)\<rparr>)"
    by (intro parse_url_parts)
  moreover have "empty_URL\<lparr>url_Scheme := sch, url_RawQuery := (case if q = [] then None else Some q of None \<Rightarrow> [] | Some x \<Rightarrow> x)\<rparr>
      = plain_URL sch [] [] q"
    by (simp add: plain_URL_def empty_URL_def)
  ultimately show ?thesis
    using parse_rest_plain [OF assms(1-4)] \<open>cut (CHR ''#'') ?s = (?s, None)\<close>
    by (simp add: Parse_def parse_failed_def)
qed

end
