(* ===== verification/GoPath.thy ===== *)
theory GoPath
  imports GoStrings
begin

text \<open>
  Go's package \<open>path\<close> (\<open>Clean\<close>, \<open>Join\<close>, \<open>Base\<close>) and the decimal conversions of
  \<open>strconv\<close> and \<open>fmt\<close> (\<open>Itoa\<close>, \<open>ParseUint\<close>, the verb \<open>%020d\<close>).  \<open>Clean\<close> resolves the
  elements of a path left to right on a stack; the main law is that plain
  elements at its end are kept as they are, whatever stands before them.
\<close>

section \<open>Package path\<close>

text \<open>One element against the elements kept so far, the last one first.\<close>

definition clean_step :: "bool \<Rightarrow> string list \<Rightarrow> string \<Rightarrow> string list" where
  "clean_step rooted acc c =
     (if c = [] \<or> c = ''.'' then acc
      else if c = ''..'' then
        (case acc of
           [] \<Rightarrow> if rooted then [] else [''..'']
         | a # as \<Rightarrow> if a = ''..'' then ''..'' # acc else as)
      else c # acc)"

definition clean_comps :: "bool \<Rightarrow> string list \<Rightarrow> string list" where
  "clean_comps rooted cs = rev (foldl (clean_step rooted) [] cs)"

definition path_clean :: "string \<Rightarrow> string" where
  "path_clean p =
     (if p = [] then ''.''
      else let rooted = hasPrefix p ''/'';
               body = join ''/'' (clean_comps rooted (splitc (CHR ''/'') p))
           in if rooted then ''/'' @ body else if body = [] then ''.'' else body)"

definition path_join :: "string list \<Rightarrow> string" where
  "path_join elem =
     (let es = dropWhile (\<lambda>e. e = []) elem
      in if es = [] then [] else path_clean (join ''/'' es))"

definition path_base :: "string \<Rightarrow> string" where
  "path_base p =
     (if p = [] then ''.''
      else let q = trimRight p ''/''
           in if q = [] then ''/'' else last (splitc (CHR ''/'') q))"

definition plain_comp :: "string \<Rightarrow> bool" where
  "plain_comp c \<longleftrightarrow> c \<noteq> [] \<and> c \<noteq> ''.'' \<and> c \<noteq> ''..'' \<and> CHR ''/'' \<notin> set c"

lemma plain_compD: "plain_comp c \<Longrightarrow> c \<noteq> []" "plain_comp c \<Longrightarrow> CHR ''/'' \<notin> set c"
  by (simp_all add: plain_comp_def)

lemma clean_step_plain [simp]: "plain_comp c \<Longrightarrow> clean_step r acc c = c # acc"
  by (simp add: clean_step_def plain_comp_def)

lemma foldl_clean_plain:
  "(\<And>c. c \<in> set cs \<Longrightarrow> plain_comp c) \<Longrightarrow> foldl (clean_step r) acc cs = rev cs @ acc"
  by (induction cs arbitrary: acc) auto

lemma clean_comps_append_plain:
  "(\<And>c. c \<in> set ys \<Longrightarrow> plain_comp c) \<Longrightarrow> clean_comps r (xs @ ys) = clean_comps r xs @ ys"
  by (simp add: clean_comps_def foldl_clean_plain)

text \<open>What a cleaned relative path looks like: some \<open>..\<close>, then plain elements.\<close>

definition clean_form :: "string list \<Rightarrow> bool" where
  "clean_form cs \<longleftrightarrow> (\<exists>k ps. cs = replicate k ''..'' @ ps \<and> (\<forall>p \<in> set ps. plain_comp p))"

lemma foldl_dotdot:
  "foldl (clean_step False) (replicate j ''..'') (replicate k ''..'') = replicate (k + j) ''..''"
proof (induction k arbitrary: j)
  case (Suc k)
  have "clean_step False (replicate j ''..'') ''..'' = replicate (Suc j) ''..''"
    by (cases j) (simp_all add: clean_step_def)
  with Suc.IH [of "Suc j"] show ?case by simp
qed simp

lemma clean_form_fix: "clean_form cs \<Longrightarrow> clean_comps False cs = cs"
proof -
  assume "clean_form cs"
  then obtain k ps where "cs = replicate k ''..'' @ ps" and "\<forall>p \<in> set ps. plain_comp p"
    by (auto simp: clean_form_def)
  then show ?thesis
    using foldl_dotdot [of 0 k] by (simp add: clean_comps_def foldl_clean_plain)
qed

lemma clean_form_append_plain:
  "clean_form cs \<Longrightarrow> (\<And>c. c \<in> set ys \<Longrightarrow> plain_comp c) \<Longrightarrow> clean_form (cs @ ys)"
proof -
  assume f: "clean_form cs" and ys: "\<And>c. c \<in> set ys \<Longrightarrow> plain_comp c"
  from f obtain k ps where "cs = replicate k ''..'' @ ps" and "\<forall>p \<in> set ps. plain_comp p"
    unfolding clean_form_def by blast
  with ys have "cs @ ys = replicate k ''..'' @ (ps @ ys)" and "\<forall>p \<in> set (ps @ ys). plain_comp p"
    by auto
  then show "clean_form (cs @ ys)"
    unfolding clean_form_def by blast
qed

lemma clean_step_form:
  assumes "clean_form (rev acc)" and "CHR ''/'' \<notin> set c"
  shows "clean_form (rev (clean_step False acc c))"
proof -
  obtain k ps where f: "rev acc = replicate k ''..'' @ ps" "\<forall>p \<in> set ps. plain_comp p"
    using assms(1) by (auto simp: clean_form_def)
  consider (skip) "c = [] \<or> c = ''.''" | (up) "c = ''..''" | (plain) "plain_comp c"
    using assms(2) by (auto simp: plain_comp_def)
  then show ?thesis
  proof cases
    case skip
    then show ?thesis using assms(1) by (auto simp: clean_step_def)
  next
    case plain
    then show ?thesis using clean_form_append_plain [OF assms(1), of "[c]"] by simp
  next
    case up
    show ?thesis
    proof (cases ps rule: rev_cases)
      case Nil
      with f have "acc = replicate k ''..''" by (metis append_Nil2 rev_replicate rev_rev_ident)
      then have "clean_step False acc c = replicate (Suc k) ''..''"
        using up by (cases k) (simp_all add: clean_step_def)
      then show ?thesis
        unfolding clean_form_def by (metis append_Nil2 emptyE empty_set rev_replicate)
    next
      case (snoc qs q)
      with f have "acc = q # rev (replicate k ''..'' @ qs)" and "q \<noteq> ''..''"
        by (metis append.assoc rev_append rev_rev_ident append_Cons append_Nil rev.simps)
           (use f snoc in \<open>auto simp: plain_comp_def\<close>)
      then have "rev (clean_step False acc c) = replicate k ''..'' @ qs"
        using up by (simp add: clean_step_def)
      with f snoc show ?thesis
        unfolding clean_form_def by (metis UnCI set_append)
    qed
  qed
qed

lemma clean_comps_form:
  assumes "\<And>c. c \<in> set cs \<Longrightarrow> CHR ''/'' \<notin> set c"
  shows "clean_form (clean_comps False cs)"
proof -
  have "clean_form (rev acc) \<Longrightarrow> clean_form (rev (foldl (clean_step False) acc cs))" for acc
    using assms by (induction cs arbitrary: acc) (auto simp: clean_step_form)
  then show ?thesis
    by (simp add: clean_comps_def clean_form_def)
qed

lemma clean_form_mem: "clean_form cs \<Longrightarrow> c \<in> set cs \<Longrightarrow> c = ''..'' \<or> plain_comp c"
  unfolding clean_form_def by (metis Un_iff in_set_replicate set_append)

lemma clean_form_no_slash: "clean_form cs \<Longrightarrow> c \<in> set cs \<Longrightarrow> CHR ''/'' \<notin> set c"
  by (drule (1) clean_form_mem) (erule disjE, simp, erule plain_compD(2))

lemma clean_form_nonempty_comp: "clean_form cs \<Longrightarrow> c \<in> set cs \<Longrightarrow> c \<noteq> []"
  by (drule (1) clean_form_mem) (erule disjE, simp, erule plain_compD(1))

lemma join_not_rooted: "clean_form cs \<Longrightarrow> \<not> hasPrefix (join ''/'' cs) ''/''"
proof (cases cs)
  case (Cons c rest)
  assume f: "clean_form cs"
  with Cons have "c \<noteq> []" and "CHR ''/'' \<notin> set c"
    by (auto dest: clean_form_no_slash clean_form_nonempty_comp)
  then show ?thesis
    using Cons by (cases c; cases rest) (auto simp: hasPrefix_iff)
qed (simp add: hasPrefix_def)

lemma path_clean_join:
  assumes "clean_form cs" and "cs \<noteq> []"
  shows "path_clean (join ''/'' cs) = join ''/'' cs"
proof -
  have ne: "join ''/'' cs \<noteq> []"
    using assms by (cases cs; cases "tl cs") (auto dest: clean_form_nonempty_comp)
  have "splitc (CHR ''/'') (join ''/'' cs) = cs"
    using assms by (auto intro!: splitc_join dest: clean_form_no_slash)
  then show ?thesis
    using assms ne by (simp add: path_clean_def join_not_rooted clean_form_fix)
qed

lemma path_base_join:
  assumes "plain_comp c"
  shows "path_base (join ''/'' (cs @ [c])) = c"
proof -
  let ?p = "join ''/'' (cs @ [c])"
  from assms obtain d x where d: "c = d @ [x]" and x: "x \<noteq> CHR ''/''"
    by (cases c rule: rev_cases) (auto simp: plain_comp_def)
  have p: "?p = (if cs = [] then [] else join ''/'' cs @ ''/'') @ c"
    by (simp add: join_append)
  with d x have tr: "trimRight ?p ''/'' = ?p"
    by (metis append.assoc empty_iff empty_set set_ConsD trimRight_snoc_keep)
  have "last (splitc (CHR ''/'') ?p) = c"
    using assms p by (auto simp: splitc_append_sep splitc_no_occ plain_comp_def)
  moreover have "?p \<noteq> []" using d p by simp
  ultimately show ?thesis
    using tr by (simp add: path_base_def)
qed

end
