(* ===== verification/Protocol.thy ===== *)
theory Protocol
  imports GoPath GoStrconv
begin

text \<open>
  \<open>internal/protocol/protocol.go\<close>: the message types of the mailbox, the object
  keys, the sequence-number texts, chunk-size negotiation and target addresses.

  The lemmas show that a key is its cleaned prefix followed by the parts it was
  built from, so that keys of different objects differ, the listing prefix of
  the server selects exactly the open requests, and the sequence number of a
  data key can be read back.
\<close>

section \<open>Constants and messages\<close>

definition Version :: int where
  "Version = 1"

definition MinChunkSize :: int where
  "MinChunkSize = 1024"

definition MaxChunkSize :: int where
  "MaxChunkSize = 16 * 1024 * 1024"

definition AddressIPv4 :: string where "AddressIPv4 = ''ipv4''"
definition AddressIPv6 :: string where "AddressIPv6 = ''ipv6''"
definition AddressDomain :: string where "AddressDomain = ''domain''"

text \<open>
  A \<open>time.Time\<close> as the messages carry it: the civil fields its RFC 3339 text
  shows, and the zone offset in minutes (0 for UTC).
\<close>

record gotime =
  tm_year :: nat
  tm_month :: nat
  tm_day :: nat
  tm_hour :: nat
  tm_minute :: nat
  tm_second :: nat
  tm_nanos :: nat
  tm_offset :: int

record Target =
  tgt_type :: string
  tgt_host :: string
  tgt_port :: u16

record OpenRequest =
  req_version :: int
  req_session :: string
  req_target :: Target
  req_max_receive :: int
  req_created :: gotime

record OpenResult =
  res_version :: int
  res_session :: string
  res_accepted :: bool
  res_error :: string
  res_max_receive :: int
  res_created :: gotime

record Ack =
  ack_version :: int
  ack_session :: string
  ack_direction :: string
  ack_next_seq :: u64
  ack_updated :: gotime

record Close =
  cl_version :: int
  cl_session :: string
  cl_side :: string
  cl_reason :: string
  cl_created :: gotime

record Heartbeat =
  hb_version :: int
  hb_session :: string
  hb_side :: string
  hb_updated :: gotime

section \<open>Session identifiers\<close>

definition hex_encode :: "bytes \<Rightarrow> string" where
  "hex_encode bs = concat (map (\<lambda>b. [hex_digit (unat b div 16), hex_digit (unat b mod 16)]) bs)"

text \<open>\<open>rnd\<close> is what \<open>rand.Read\<close> yields: the 16 bytes, or its error.\<close>

definition NewSessionID :: "bytes result \<Rightarrow> string result" where
  "NewSessionID rnd = ebind rnd (\<lambda>b. Inr (hex_encode b))"

section \<open>Keys\<close>

definition NormalizePrefix :: "string \<Rightarrow> string" where
  "NormalizePrefix prefix =
     (let p = trim prefix ''/'' in if p = [] then ''s3s5'' else p)"

definition key :: "string \<Rightarrow> string list \<Rightarrow> string" where
  "key prefix parts = path_join (NormalizePrefix prefix # parts)"

definition FormatSeq :: "u64 \<Rightarrow> string" where
  "FormatSeq seq = zero_pad 20 (itoa (unat seq))"

definition ParseSeq :: "string \<Rightarrow> u64 result" where
  "ParseSeq s = ebind (parse_uint 64 (trimSuffix (path_base s) ''.bin'')) (\<lambda>n. Inr (of_nat n))"

definition OpenKey :: "string \<Rightarrow> string \<Rightarrow> string" where
  "OpenKey prefix sessionID = key prefix [''v1'', ''open'', sessionID @ ''.json'']"

definition OpenResultKey :: "string \<Rightarrow> string \<Rightarrow> string" where
  "OpenResultKey prefix sessionID = key prefix [''v1'', ''open-result'', sessionID @ ''.json'']"

definition DataKey :: "string \<Rightarrow> string \<Rightarrow> string \<Rightarrow> u64 \<Rightarrow> string" where
  "DataKey prefix direction sessionID seq =
     key prefix [''v1'', ''data'', direction, sessionID, FormatSeq seq @ ''.bin'']"

definition AckKey :: "string \<Rightarrow> string \<Rightarrow> string \<Rightarrow> string" where
  "AckKey prefix direction sessionID = key prefix [''v1'', ''ack'', direction, sessionID @ ''.json'']"

definition CloseKey :: "string \<Rightarrow> string \<Rightarrow> string \<Rightarrow> string" where
  "CloseKey prefix side sessionID = key prefix [''v1'', ''close'', side, sessionID @ ''.json'']"

definition HeartbeatKey :: "string \<Rightarrow> string \<Rightarrow> string \<Rightarrow> string" where
  "HeartbeatKey prefix side sessionID = key prefix [''v1'', ''heartbeat'', side, sessionID @ ''.json'']"

definition OpenPrefix :: "string \<Rightarrow> string" where
  "OpenPrefix prefix = key prefix [''v1'', ''open''] @ ''/''"

section \<open>Chunk sizes\<close>

definition itoa_int :: "int \<Rightarrow> string" where
  "itoa_int n = (if n < 0 then ''-'' @ itoa (nat (- n)) else itoa (nat n))"

definition ValidateChunkSize :: "int \<Rightarrow> err option" where
  "ValidateChunkSize n =
     (if n < MinChunkSize then
        Some (ErrText (''chunk size '' @ itoa_int n @ '' below minimum '' @ itoa_int MinChunkSize))
      else if n > MaxChunkSize then
        Some (ErrText (''chunk size '' @ itoa_int n @ '' exceeds maximum '' @ itoa_int MaxChunkSize))
      else None)"

definition EffectiveSendChunkSize :: "int \<Rightarrow> int \<Rightarrow> int result" where
  "EffectiveSendChunkSize local peerReceive =
     (case ValidateChunkSize local of Some e \<Rightarrow> Inl e
      | None \<Rightarrow>
        (case ValidateChunkSize peerReceive of Some e \<Rightarrow> Inl e
         | None \<Rightarrow> if local < peerReceive then Inr local else Inr peerReceive))"

section \<open>Addresses\<close>

definition netJoinHostPort :: "string \<Rightarrow> u16 \<Rightarrow> string" where
  "netJoinHostPort host port =
     (if CHR '':'' \<in> set host \<and> \<not> hasPrefix host ''[''
      then ''['' @ host @ '']:'' @ itoa (unat port)
      else host @ '':'' @ itoa (unat port))"

definition Address :: "Target \<Rightarrow> string" where
  "Address t = netJoinHostPort (tgt_host t) (tgt_port t)"

section \<open>The shape of keys\<close>

text \<open>The elements a prefix contributes to every key built on it.\<close>

definition prefix_comps :: "string \<Rightarrow> string list" where
  "prefix_comps prefix = clean_comps False (splitc (CHR ''/'') (NormalizePrefix prefix))"

lemma clean_form_prefix_comps: "clean_form (prefix_comps prefix)"
  unfolding prefix_comps_def by (rule clean_comps_form) (rule splitc_no_sep)

lemma NormalizePrefix_nonempty: "NormalizePrefix prefix \<noteq> []"
  by (simp add: NormalizePrefix_def Let_def)

lemma NormalizePrefix_hd: "hd (NormalizePrefix prefix) \<noteq> CHR ''/''"
  using trim_hd [of prefix "''/''"] by (simp add: NormalizePrefix_def Let_def)

lemma key_join:
  assumes ne: "parts \<noteq> []" and plain: "\<And>c. c \<in> set parts \<Longrightarrow> plain_comp c"
  shows "key prefix parts = join ''/'' (prefix_comps prefix @ parts)"
proof -
  let ?np = "NormalizePrefix prefix" and ?s = "CHR ''/''"
  let ?p = "?np @ ?s # join ''/'' parts"
  have "splitc ?s ?p = splitc ?s ?np @ parts"
    using ne plain by (simp add: splitc_append_sep splitc_join plain_compD)
  then have comps: "clean_comps False (splitc ?s ?p) = prefix_comps prefix @ parts"
    using plain by (simp add: clean_comps_append_plain prefix_comps_def)
  have "\<not> hasPrefix ?p ''/''"
    using NormalizePrefix_hd [of prefix] NormalizePrefix_nonempty [of prefix]
    by (cases ?np) (auto simp: hasPrefix_def)
  moreover have "clean_form (prefix_comps prefix @ parts)"
    using clean_form_prefix_comps plain by (rule clean_form_append_plain)
  then have "join ''/'' (prefix_comps prefix @ parts) \<noteq> []"
    using ne path_clean_join [of "prefix_comps prefix @ parts"] by (auto simp: path_clean_def)
  ultimately have "path_clean ?p = join ''/'' (prefix_comps prefix @ parts)"
    using comps by (simp add: path_clean_def)
  then show ?thesis
    using ne NormalizePrefix_nonempty by (simp add: key_def path_join_def join_Cons)
qed

lemma splitc_key:
  assumes "parts \<noteq> []" and "\<And>c. c \<in> set parts \<Longrightarrow> plain_comp c"
  shows "splitc (CHR ''/'') (key prefix parts) = prefix_comps prefix @ parts"
proof -
  have "CHR ''/'' \<notin> set c" if "c \<in> set (prefix_comps prefix @ parts)" for c
    using that assms(2) clean_form_no_slash [OF clean_form_prefix_comps, of c prefix]
    by (auto dest: plain_compD(2))
  then have "splitc (CHR ''/'') (join ''/'' (prefix_comps prefix @ parts)) = prefix_comps prefix @ parts"
    using assms(1) by (intro splitc_join) auto
  then show ?thesis
    using assms by (simp add: key_join)
qed

lemma key_inject:
  assumes "ps \<noteq> []" "\<And>c. c \<in> set ps \<Longrightarrow> plain_comp c"
    and "qs \<noteq> []" "\<And>c. c \<in> set qs \<Longrightarrow> plain_comp c"
  shows "key prefix ps = key prefix qs \<longleftrightarrow> ps = qs"
  using splitc_key [of ps prefix] splitc_key [of qs prefix] assms
  by (metis same_append_eq)

lemma plain_comp_json: "CHR ''/'' \<notin> set s \<Longrightarrow> plain_comp (s @ ''.json'')"
  by (cases s) (auto simp: plain_comp_def)

lemma plain_comp_bin: "CHR ''/'' \<notin> set s \<Longrightarrow> plain_comp (s @ ''.bin'')"
  by (cases s) (auto simp: plain_comp_def)

lemma unat_u64_less: "unat (seq :: u64) < 10 ^ 20"
proof -
  have "unat seq < 2 ^ 64"
    using unsigned_less [where ?'a = nat, of seq] by simp
  then show ?thesis by simp
qed

lemma FormatSeq_fixed: "FormatSeq seq = fixed_digits 20 (unat seq)"
  by (simp add: FormatSeq_def zero_pad_itoa [OF unat_u64_less])

lemma FormatSeq_no_slash: "CHR ''/'' \<notin> set (FormatSeq seq)"
  by (simp add: FormatSeq_fixed fixed_digits_no_slash)

lemma FormatSeq_inject [simp]: "FormatSeq a = FormatSeq b \<longleftrightarrow> a = b"
  by (simp add: FormatSeq_fixed fixed_digits_inject [OF unat_u64_less unat_u64_less] word_unat_eq_iff)

lemma plain_family [simp]:
  "plain_comp ''v1''" "plain_comp ''open''" "plain_comp ''open-result''" "plain_comp ''data''"
  "plain_comp ''ack''" "plain_comp ''close''" "plain_comp ''heartbeat''"
  "plain_comp ''c2s''" "plain_comp ''s2c''" "plain_comp ''client''" "plain_comp ''server''"
  by (simp_all add: plain_comp_def)

section \<open>The objects of the mailbox\<close>

text \<open>The ten key families, as one type of object names.\<close>

datatype mailbox_object =
    OpenObj string
  | OpenResultObj string
  | DataObj string string u64
  | AckObj string string
  | CloseObj string string
  | HeartbeatObj string string

fun object_key :: "string \<Rightarrow> mailbox_object \<Rightarrow> string" where
  "object_key prefix (OpenObj sid) = OpenKey prefix sid"
| "object_key prefix (OpenResultObj sid) = OpenResultKey prefix sid"
| "object_key prefix (DataObj dir sid seq) = DataKey prefix dir sid seq"
| "object_key prefix (AckObj dir sid) = AckKey prefix dir sid"
| "object_key prefix (CloseObj side sid) = CloseKey prefix side sid"
| "object_key prefix (HeartbeatObj side sid) = HeartbeatKey prefix side sid"

fun object_parts :: "mailbox_object \<Rightarrow> string list" where
  "object_parts (OpenObj sid) = [''v1'', ''open'', sid @ ''.json'']"
| "object_parts (OpenResultObj sid) = [''v1'', ''open-result'', sid @ ''.json'']"
| "object_parts (DataObj dir sid seq) = [''v1'', ''data'', dir, sid, FormatSeq seq @ ''.bin'']"
| "object_parts (AckObj dir sid) = [''v1'', ''ack'', dir, sid @ ''.json'']"
| "object_parts (CloseObj side sid) = [''v1'', ''close'', side, sid @ ''.json'']"
| "object_parts (HeartbeatObj side sid) = [''v1'', ''heartbeat'', side, sid @ ''.json'']"

text \<open>
  Session identifiers and directions that are single path elements.  Those
  \<open>NewSessionID\<close> draws are, and so are the four constants of the tunnel.
\<close>

fun wf_object :: "mailbox_object \<Rightarrow> bool" where
  "wf_object (OpenObj sid) = plain_comp sid"
| "wf_object (OpenResultObj sid) = plain_comp sid"
| "wf_object (DataObj dir sid seq) = (plain_comp dir \<and> plain_comp sid)"
| "wf_object (AckObj dir sid) = (plain_comp dir \<and> plain_comp sid)"
| "wf_object (CloseObj side sid) = (plain_comp side \<and> plain_comp sid)"
| "wf_object (HeartbeatObj side sid) = (plain_comp side \<and> plain_comp sid)"

lemma object_key_parts: "object_key prefix ob = key prefix (object_parts ob)"
  by (cases ob) (simp_all add: OpenKey_def OpenResultKey_def DataKey_def AckKey_def CloseKey_def
      HeartbeatKey_def)

lemma object_parts_nonempty [simp]: "object_parts ob \<noteq> []"
  by (cases ob) simp_all

lemma object_parts_plain: "wf_object ob \<Longrightarrow> c \<in> set (object_parts ob) \<Longrightarrow> plain_comp c"
  by (cases ob)
    (auto simp: plain_comp_bin [OF FormatSeq_no_slash] intro: plain_comp_json dest: plain_compD(2))

lemma object_parts_inject: "object_parts a = object_parts b \<longleftrightarrow> a = b"
  by (cases a; cases b) auto

lemma splitc_object_key:
  "wf_object ob \<Longrightarrow> splitc (CHR ''/'') (object_key prefix ob) = prefix_comps prefix @ object_parts ob"
  unfolding object_key_parts using object_parts_nonempty object_parts_plain by (rule splitc_key)

lemma object_key_join:
  "wf_object ob \<Longrightarrow> object_key prefix ob = join ''/'' (prefix_comps prefix @ object_parts ob)"
  unfolding object_key_parts using object_parts_nonempty object_parts_plain by (rule key_join)

lemma object_key_inject:
  assumes "wf_object a" and "wf_object b"
  shows "object_key prefix a = object_key prefix b \<longleftrightarrow> a = b"
proof -
  have "object_key prefix a = object_key prefix b \<longleftrightarrow> object_parts a = object_parts b"
    unfolding object_key_parts
    by (rule key_inject) (use assms object_parts_plain in auto)
  then show ?thesis
    by (simp add: object_parts_inject)
qed

text \<open>
  C13: different objects of one mailbox (any two of the open, open-result, data,
  ack, close and heartbeat objects of any sessions, directions and sequence
  numbers) never share an S3 key, whatever the configured prefix.
\<close>

theorem object_keys_distinct:
  assumes "wf_object a" and "wf_object b"
  shows "object_key prefix a = object_key prefix b \<longleftrightarrow> a = b"
  using assms by (rule object_key_inject)

theorem object_keys_distinct_witness:
  "object_key ''pre'' (DataObj ''c2s'' ''ab'' 1) \<noteq> object_key ''pre'' (DataObj ''c2s'' ''ab'' 2)"
  using object_keys_distinct [of "DataObj ''c2s'' ''ab'' 1" "DataObj ''c2s'' ''ab'' 2" "''pre''"]
  by (simp add: plain_comp_def)

section \<open>Listing, sequence numbers and sizes\<close>

lemma OpenPrefix_join: "OpenPrefix prefix = join ''/'' (prefix_comps prefix @ [''v1'', ''open'']) @ ''/''"
proof -
  have "key prefix [''v1'', ''open''] = join ''/'' (prefix_comps prefix @ [''v1'', ''open''])"
    by (rule key_join) auto
  then show ?thesis
    by (simp add: OpenPrefix_def)
qed

lemma splitc_OpenPrefix_append:
  "splitc (CHR ''/'') (OpenPrefix prefix @ t) = prefix_comps prefix @ [''v1'', ''open''] @ splitc (CHR ''/'') t"
proof -
  have "splitc (CHR ''/'') (key prefix [''v1'', ''open'']) = prefix_comps prefix @ [''v1'', ''open'']"
    by (rule splitc_key) auto
  then show ?thesis
    by (simp add: OpenPrefix_def splitc_append_sep)
qed

text \<open>
  The prefix the server lists while polling for open requests selects the
  open-request objects and no other object of the mailbox (in particular not
  the open-result objects, whose family name extends \<open>open\<close>).
\<close>

theorem OpenPrefix_selects_open_requests:
  assumes "wf_object ob"
  shows "hasPrefix (object_key prefix ob) (OpenPrefix prefix) \<longleftrightarrow> (\<exists>sid. ob = OpenObj sid)"
proof
  assume "hasPrefix (object_key prefix ob) (OpenPrefix prefix)"
  then obtain t where "object_key prefix ob = OpenPrefix prefix @ t"
    by (auto simp: hasPrefix_iff)
  then have "object_parts ob = [''v1'', ''open''] @ splitc (CHR ''/'') t"
    using splitc_object_key [OF assms, of prefix] by (simp add: splitc_OpenPrefix_append)
  then show "\<exists>sid. ob = OpenObj sid"
    by (cases ob) auto
next
  assume "\<exists>sid. ob = OpenObj sid"
  then obtain sid where ob: "ob = OpenObj sid" ..
  have "join ''/'' ((prefix_comps prefix @ [''v1'', ''open'']) @ [sid @ ''.json'']) = OpenPrefix prefix @ sid @ ''.json''"
    by (subst join_append) (simp_all add: OpenPrefix_join)
  then have "object_key prefix ob = OpenPrefix prefix @ sid @ ''.json''"
    using object_key_join [OF assms, of prefix] by (simp add: ob)
  then show "hasPrefix (object_key prefix ob) (OpenPrefix prefix)"
    by simp
qed

theorem OpenPrefix_selects_open_requests_witness:
  "hasPrefix (object_key ''pre'' (OpenObj ''ab'')) (OpenPrefix ''pre'')
   \<and> \<not> hasPrefix (object_key ''pre'' (OpenResultObj ''ab'')) (OpenPrefix ''pre'')"
  using OpenPrefix_selects_open_requests [of "OpenObj ''ab''" "''pre''"]
    OpenPrefix_selects_open_requests [of "OpenResultObj ''ab''" "''pre''"]
  by (simp add: plain_comp_def)

text \<open>
  The sequence number in a data key reads back: \<open>ParseSeq\<close> of the key of
  chunk \<open>seq\<close> is \<open>seq\<close>, for every 64-bit sequence number.
\<close>

theorem ParseSeq_DataKey:
  assumes "plain_comp dir" and "plain_comp sid"
  shows "ParseSeq (DataKey prefix dir sid seq) = Inr seq"
proof -
  let ?c = "FormatSeq seq @ ''.bin''"
  have "DataKey prefix dir sid seq = join ''/'' ((prefix_comps prefix @ [''v1'', ''data'', dir, sid]) @ [?c])"
    using object_key_join [of "DataObj dir sid seq" prefix] assms by simp
  then have "path_base (DataKey prefix dir sid seq) = ?c"
    by (simp only:) (rule path_base_join, rule plain_comp_bin, rule FormatSeq_no_slash)
  moreover have "unat seq < 2 ^ 64"
    using unsigned_less [where ?'a = nat, of seq] by simp
  ultimately show ?thesis
    by (simp only: ParseSeq_def trimSuffix_append FormatSeq_def parse_uint_zero_pad) simp
qed

theorem ParseSeq_DataKey_witness:
  "ParseSeq (DataKey ''pre'' ''c2s'' ''ab'' 18446744073709551615) = Inr 18446744073709551615"
  by (rule ParseSeq_DataKey) (simp_all add: plain_comp_def)

text \<open>
  The texts of sequence numbers order as the numbers do, so the lexical
  order of data keys of one stream is the order of its chunks.
\<close>

theorem FormatSeq_order: "FormatSeq a < FormatSeq b \<longleftrightarrow> a < b"
  by (simp add: FormatSeq_fixed fixed_digits_less [OF unat_u64_less unat_u64_less] word_less_nat_alt)

lemma ValidateChunkSize_None: "ValidateChunkSize n = None \<longleftrightarrow> MinChunkSize \<le> n \<and> n \<le> MaxChunkSize"
  by (auto simp: ValidateChunkSize_def)

text \<open>
  Chunk-size negotiation succeeds exactly when both limits are within the
  protocol bounds, and then both peers compute the same size, the minimum of
  the two limits, whichever of them is local.
\<close>

theorem EffectiveSendChunkSize_min:
  "EffectiveSendChunkSize a b = Inr n \<longleftrightarrow>
     {a, b} \<subseteq> {MinChunkSize..MaxChunkSize} \<and> n = min a b"
  by (auto simp: EffectiveSendChunkSize_def ValidateChunkSize_None split: option.splits)
    (auto simp: ValidateChunkSize_def split: if_splits)

lemma hex_digit_not_slash: "d < 16 \<Longrightarrow> hex_digit d \<noteq> CHR ''/'' \<and> hex_digit d \<noteq> CHR ''.''"
proof -
  assume "d < 16"
  then have "of_char (hex_digit d) \<noteq> (47 :: nat) \<and> of_char (hex_digit d) \<noteq> (46 :: nat)"
    by (simp add: hex_digit_def)
  then show ?thesis
    by auto
qed

lemma NewSessionID_plain:
  "NewSessionID (Inr b) = Inr sid \<Longrightarrow> b \<noteq> [] \<Longrightarrow> plain_comp sid"
proof -
  assume sid: "NewSessionID (Inr b) = Inr sid" and "b \<noteq> []"
  have nd: "c \<noteq> CHR ''/'' \<and> c \<noteq> CHR ''.''" if "c \<in> set sid" for c
  proof -
    from that sid obtain w where "w \<in> set b"
      and "c = hex_digit (unat w div 16) \<or> c = hex_digit (unat w mod 16)"
      by (auto simp: NewSessionID_def hex_encode_def)
    moreover have "unat w div 16 < 16"
      using unsigned_less [where ?'a = nat, of w] by simp
    ultimately show ?thesis
      using hex_digit_not_slash by auto
  qed
  from sid \<open>b \<noteq> []\<close> have "sid \<noteq> []"
    by (cases b) (auto simp: NewSessionID_def hex_encode_def)
  with nd show ?thesis
    by (auto simp: plain_comp_def)
qed

end
