(* ===== verification/Json.thy ===== *)
theory Json
  imports Protocol
begin

text \<open>
  What the program uses of \<open>encoding/json\<close>: compact and indented encoding with Go's
  string escapes, a parser for whole JSON texts, and the rules by which \<open>Unmarshal\<close>
  fills the fields of a struct (keys compared without regard to ASCII case, later
  keys win, \<open>null\<close> leaves a field alone, a value of the wrong type is an error).
  Strings are byte strings: a byte that is not part of a valid UTF-8 sequence is
  replaced by U+FFFD in both directions, as in the library.

  The main lemma is that parsing reads back every well-formed value that was
  encoded, with its strings made valid UTF-8.
\<close>

datatype json =
    JNull
  | JBool bool
  | JNum string
  | JStr string
  | JArr "json list"
  | JObj "(string \<times> json) list"

section \<open>UTF-8\<close>

abbreviation code :: "char \<Rightarrow> nat" where
  "code c \<equiv> of_char c"

definition is_cont :: "nat \<Rightarrow> char \<Rightarrow> nat \<Rightarrow> bool" where
  "is_cont lo c hi \<longleftrightarrow> lo \<le> code c \<and> code c \<le> hi"

text \<open>
  The length a first byte announces (0 for none) and the range of its second byte;
  then the length of the valid sequence at the head, 0 when there is none.
\<close>

definition utf8_class :: "nat \<Rightarrow> nat \<times> nat \<times> nat" where
  "utf8_class b =
     (if b < 128 then (1, 128, 191)
      else if 194 \<le> b \<and> b \<le> 223 then (2, 128, 191)
      else if 224 \<le> b \<and> b \<le> 239 then (3, if b = 224 then 160 else 128, if b = 237 then 159 else 191)
      else if 240 \<le> b \<and> b \<le> 244 then (4, if b = 240 then 144 else 128, if b = 244 then 143 else 191)
      else (0, 128, 191))"

definition utf8_len :: "string \<Rightarrow> nat" where
  "utf8_len s =
     (case s of
        [] \<Rightarrow> 0
      | c # r \<Rightarrow>
          (case utf8_class (code c) of
             (k, lo, hi) \<Rightarrow>
               if k \<le> length s \<and> (k \<ge> 2 \<longrightarrow> is_cont lo (hd r) hi) \<and>
                 (\<forall>d \<in> set (take (k - 2) (tl r)). is_cont 128 d 191)
               then k else 0))"

definition chr :: "nat \<Rightarrow> char" where
  "chr n = char_of n"

definition utf8_encode :: "nat \<Rightarrow> string" where
  "utf8_encode n =
     (if n < 128 then [chr n]
      else if n < 2048 then [chr (192 + n div 64), chr (128 + n mod 64)]
      else if n < 65536 then [chr (224 + n div 4096), chr (128 + n div 64 mod 64), chr (128 + n mod 64)]
      else [chr (240 + n div 262144), chr (128 + n div 4096 mod 64), chr (128 + n div 64 mod 64),
            chr (128 + n mod 64)])"

definition replacement :: string where
  "replacement = utf8_encode 65533"

section \<open>Encoding\<close>

definition quot :: char where "quot = CHR 0x22"
definition bslash :: char where "bslash = CHR 0x5C"

definition hex4 :: "nat \<Rightarrow> string" where
  "hex4 n = [hex_digit (n div 4096 mod 16), hex_digit (n div 256 mod 16), hex_digit (n div 16 mod 16),
     hex_digit (n mod 16)]"

definition enc_ascii :: "char \<Rightarrow> string" where
  "enc_ascii c =
     (if c = quot \<or> c = bslash then [bslash, c]
      else if c = CHR 0x08 then [bslash, CHR ''b'']
      else if c = CHR 0x0C then [bslash, CHR ''f'']
      else if c = CHR 0x0A then [bslash, CHR ''n'']
      else if c = CHR 0x0D then [bslash, CHR ''r'']
      else if c = CHR 0x09 then [bslash, CHR ''t'']
      else if code c < 32 \<or> c = CHR ''<'' \<or> c = CHR ''>'' \<or> c = CHR ''&''
        then [bslash, CHR ''u''] @ hex4 (code c)
      else [c])"

fun enc_chars :: "nat \<Rightarrow> string \<Rightarrow> string" where
  "enc_chars 0 s = []"
| "enc_chars (Suc n) s =
     (case s of
        [] \<Rightarrow> []
      | c # r \<Rightarrow>
          if code c < 128 then enc_ascii c @ enc_chars n r
          else let k = utf8_len s
               in if k = 0 then [bslash, CHR ''u''] @ hex4 65533 @ enc_chars n r
                  else if take 3 s = utf8_encode 8232 then [bslash, CHR ''u''] @ hex4 8232 @ enc_chars n (drop 3 s)
                  else if take 3 s = utf8_encode 8233 then [bslash, CHR ''u''] @ hex4 8233 @ enc_chars n (drop 3 s)
                  else take k s @ enc_chars n (drop k s))"

definition enc_str :: "string \<Rightarrow> string" where
  "enc_str s = quot # enc_chars (length s) s @ [quot]"

fun enc :: "json \<Rightarrow> string" where
  "enc JNull = ''null''"
| "enc (JBool b) = (if b then ''true'' else ''false'')"
| "enc (JNum t) = t"
| "enc (JStr s) = enc_str s"
| "enc (JArr js) = ''['' @ join '','' (map enc js) @ '']''"
| "enc (JObj ms) = ''{'' @ join '','' (map (\<lambda>(k, v). enc_str k @ '':'' @ enc v) ms) @ ''}''"

text \<open>
  An encoding with white space: \<open>w d\<close> before and after the members of a value at depth
  \<open>d\<close>, \<open>c\<close> after the colon of a member.  Empty arrays and objects have none.
\<close>

fun enc_w :: "(nat \<Rightarrow> string) \<Rightarrow> string \<Rightarrow> nat \<Rightarrow> json \<Rightarrow> string" where
  "enc_w w c d (JArr js) =
     (if js = [] then ''[]''
      else ''['' @ w (Suc d) @ join ('','' @ w (Suc d)) (map (enc_w w c (Suc d)) js) @ w d @ '']'')"
| "enc_w w c d (JObj ms) =
     (if ms = [] then ''{}''
      else ''{'' @ w (Suc d) @
        join ('','' @ w (Suc d)) (map (\<lambda>(k, v). enc_str k @ '':'' @ c @ enc_w w c (Suc d) v) ms) @ w d @ ''}'')"
| "enc_w w c d j = enc j"

text \<open>\<open>SetIndent("", "  ")\<close>: a line for each member, two spaces for each depth.\<close>

definition indent :: "nat \<Rightarrow> string" where
  "indent d = CHR 0x0A # concat (replicate d ''  '')"

section \<open>Parsing\<close>

definition json_space :: "char \<Rightarrow> bool" where
  "json_space c \<longleftrightarrow> c = CHR 0x20 \<or> c = CHR 0x09 \<or> c = CHR 0x0A \<or> c = CHR 0x0D"

definition skip :: "string \<Rightarrow> string" where
  "skip s = dropWhile json_space s"

definition dec_hex4 :: "string \<Rightarrow> nat option" where
  "dec_hex4 s = (if length s \<ge> 4 \<and> (\<forall>c \<in> set (take 4 s). is_hex c) then Some (hex_val (take 4 s)) else None)"

text \<open>The rest of a string literal after its opening quote: the text and what follows.\<close>

fun dec_chars :: "nat \<Rightarrow> string \<Rightarrow> (string \<times> string) option" where
  "dec_chars 0 s = None"
| "dec_chars (Suc n) s =
     (let add = (\<lambda>p r. map_option (\<lambda>(t, rest). (p @ t, rest)) (dec_chars n r))
      in case s of
        [] \<Rightarrow> None
      | c # r \<Rightarrow>
          if c = quot then Some ([], r)
          else if c = bslash then
            (case r of
               [] \<Rightarrow> None
             | e # r1 \<Rightarrow>
                 if e = quot \<or> e = bslash \<or> e = CHR ''/'' then add [e] r1
                 else if e = CHR ''b'' then add [CHR 0x08] r1
                 else if e = CHR ''f'' then add [CHR 0x0C] r1
                 else if e = CHR ''n'' then add [CHR 0x0A] r1
                 else if e = CHR ''r'' then add [CHR 0x0D] r1
                 else if e = CHR ''t'' then add [CHR 0x09] r1
                 else if e = CHR ''u'' then
                   (case dec_hex4 r1 of
                      None \<Rightarrow> None
                    | Some u \<Rightarrow>
                        let r2 = drop 4 r1
                        in if u < 55296 \<or> 57344 \<le> u then add (utf8_encode u) r2
                           else if u < 56320 \<and> take 2 r2 = [bslash, CHR ''u''] then
                             (case dec_hex4 (drop 2 r2) of
                                None \<Rightarrow> None
                              | Some v \<Rightarrow>
                                  if 56320 \<le> v \<and> v < 57344
                                  then add (utf8_encode (65536 + (u - 55296) * 1024 + (v - 56320))) (drop 6 r2)
                                  else add replacement r2)
                           else add replacement r2)
                 else None)
          else if code c < 32 then None
          else if code c < 128 then add [c] r
          else let k = utf8_len s
               in if k = 0 then add replacement r else add (take k s) (drop k s))"

definition num_char :: "char \<Rightarrow> bool" where
  "num_char c \<longleftrightarrow> is_digit c \<or> c = CHR ''-'' \<or> c = CHR ''+'' \<or> c = CHR ''.'' \<or> c = CHR ''e'' \<or> c = CHR ''E''"

definition drop_digits :: "string \<Rightarrow> string option" where
  "drop_digits s = (if s \<noteq> [] \<and> is_digit (hd s) then Some (dropWhile is_digit s) else None)"

text \<open>The number grammar of RFC 8259.\<close>

definition valid_number :: "string \<Rightarrow> bool" where
  "valid_number s =
     (let s1 = (if hasPrefix s ''-'' then tl s else s)
      in case (if hasPrefix s1 ''0'' then Some (tl s1) else drop_digits s1) of
        None \<Rightarrow> False
      | Some s2 \<Rightarrow>
          (case (if hasPrefix s2 ''.'' then drop_digits (tl s2) else Some s2) of
             None \<Rightarrow> False
           | Some s3 \<Rightarrow>
               if s3 = [] then True
               else if hasPrefix s3 ''e'' \<or> hasPrefix s3 ''E'' then
                 (let s4 = tl s3; s5 = (if hasPrefix s4 ''+'' \<or> hasPrefix s4 ''-'' then tl s4 else s4)
                  in drop_digits s5 = Some [])
               else False))"

fun p_value :: "nat \<Rightarrow> string \<Rightarrow> (json \<times> string) option"
and p_elems :: "nat \<Rightarrow> string \<Rightarrow> (json list \<times> string) option"
and p_members :: "nat \<Rightarrow> string \<Rightarrow> ((string \<times> json) list \<times> string) option" where
  "p_value 0 s = None"
| "p_value (Suc n) s =
     (case skip s of
        [] \<Rightarrow> None
      | c # r \<Rightarrow>
          if c = CHR ''{'' then
            (if hasPrefix (skip r) ''}'' then Some (JObj [], tl (skip r))
             else map_option (\<lambda>(ms, rest). (JObj ms, rest)) (p_members n r))
          else if c = CHR ''['' then
            (if hasPrefix (skip r) '']'' then Some (JArr [], tl (skip r))
             else map_option (\<lambda>(js, rest). (JArr js, rest)) (p_elems n r))
          else if c = quot then map_option (\<lambda>(t, rest). (JStr t, rest)) (dec_chars (Suc (length r)) r)
          else if hasPrefix (c # r) ''true'' then Some (JBool True, drop 4 (c # r))
          else if hasPrefix (c # r) ''false'' then Some (JBool False, drop 5 (c # r))
          else if hasPrefix (c # r) ''null'' then Some (JNull, drop 4 (c # r))
          else let t = takeWhile num_char (c # r)
               in if valid_number t then Some (JNum t, dropWhile num_char (c # r)) else None)"
| "p_elems 0 s = None"
| "p_elems (Suc n) s =
     (case p_value n s of
        None \<Rightarrow> None
      | Some (j, r) \<Rightarrow>
          (case skip r of
             [] \<Rightarrow> None
           | c # r1 \<Rightarrow>
               if c = CHR '','' then map_option (\<lambda>(js, rest). (j # js, rest)) (p_elems n r1)
               else if c = CHR '']'' then Some ([j], r1)
               else None))"
| "p_members 0 s = None"
| "p_members (Suc n) s =
     (case skip s of
        [] \<Rightarrow> None
      | q # r0 \<Rightarrow>
          if q \<noteq> quot then None
          else case dec_chars (Suc (length r0)) r0 of
            None \<Rightarrow> None
          | Some (k, r1) \<Rightarrow>
              (case skip r1 of
                 [] \<Rightarrow> None
               | d # r2 \<Rightarrow>
                   if d \<noteq> CHR '':'' then None
                   else case p_value n r2 of
                     None \<Rightarrow> None
                   | Some (v, r3) \<Rightarrow>
                       (case skip r3 of
                          [] \<Rightarrow> None
                        | e # r4 \<Rightarrow>
                            if e = CHR '','' then
                              map_option (\<lambda>(ms, rest). ((k, v) # ms, rest)) (p_members n r4)
                            else if e = CHR ''}'' then Some ([(k, v)], r4)
                            else None)))"

text \<open>A whole text: one value, then white space only.\<close>

definition parse_json :: "string \<Rightarrow> json option" where
  "parse_json s =
     (case p_value (Suc (2 * length s)) s of
        Some (j, rest) \<Rightarrow> if skip rest = [] then Some j else None
      | None \<Rightarrow> None)"

section \<open>Reading back what was encoded\<close>

lemma hex4_parse: "n < 65536 \<Longrightarrow> dec_hex4 (hex4 n @ r) = Some n"
proof -
  assume "n < 65536"
  then have "16 * (16 * (16 * (n div 4096 mod 16) + n div 256 mod 16) + n div 16 mod 16) + n mod 16 = n"
  proof -
    have *: "n div 256 = n div 16 div 16" "n div 4096 = n div 16 div 16 div 16"
      by (simp_all flip: div_mult2_eq)
    have "n div 16 div 16 div 16 < 16"
      using \<open>n < 65536\<close> by (simp flip: div_mult2_eq add: less_mult_imp_div_less)
    then show ?thesis
      unfolding * by (simp only: mod_less mult_div_mod_eq)
  qed
  with \<open>n < 65536\<close> show ?thesis
    by (simp add: dec_hex4_def hex4_def hex_val_def less_mult_imp_div_less)
qed

lemma length_hex4 [simp]: "length (hex4 n) = 4"
  by (simp add: hex4_def)

lemma dec_enc_ascii:
  assumes "code c < 128"
  shows "dec_chars (Suc n) (enc_ascii c @ r) = map_option (\<lambda>(t, rest). (c # t, rest)) (dec_chars n r)"
proof -
  have u: "dec_chars (Suc n) ([bslash, CHR ''u''] @ hex4 (code c) @ r) =
      map_option (\<lambda>(t, rest). (c # t, rest)) (dec_chars n r)"
  proof -
    have "code c < 65536" using assms by simp
    then show ?thesis
      using assms by (simp add: hex4_parse quot_def bslash_def utf8_encode_def chr_def)
  qed
  show ?thesis
  proof (cases "c \<in> {quot, bslash, CHR 0x08, CHR 0x0C, CHR 0x0A, CHR 0x0D, CHR 0x09}")
    case True
    then show ?thesis
      by (auto simp: enc_ascii_def quot_def bslash_def)
  next
    case False
    show ?thesis
    proof (cases "code c < 32 \<or> c = CHR ''<'' \<or> c = CHR ''>'' \<or> c = CHR ''&''")
      case True
      with False u show ?thesis
        by (simp add: enc_ascii_def del: dec_chars.simps)
    next
      case raw: False
      with False assms show ?thesis
        by (simp add: enc_ascii_def)
    qed
  qed
qed

lemma enc_ascii_nonempty: "0 < length (enc_ascii c)"
  by (simp add: enc_ascii_def)

text \<open>The text with every byte outside a valid sequence replaced.\<close>

fun sanitize :: "nat \<Rightarrow> string \<Rightarrow> string" where
  "sanitize 0 s = []"
| "sanitize (Suc n) s =
     (case s of
        [] \<Rightarrow> []
      | c # r \<Rightarrow>
          if code c < 128 then c # sanitize n r
          else let k = utf8_len s
               in if k = 0 then replacement @ sanitize n r else take k s @ sanitize n (drop k s))"

definition utf8_text :: "string \<Rightarrow> string" where
  "utf8_text s = sanitize (length s) s"

definition ascii :: "string \<Rightarrow> bool" where
  "ascii s \<longleftrightarrow> (\<forall>c \<in> set s. code c < 128)"

lemma sanitize_ascii: "ascii s \<Longrightarrow> length s \<le> m \<Longrightarrow> sanitize m s = s"
proof (induction s arbitrary: m)
  case Nil
  then show ?case by (cases m) simp_all
next
  case (Cons c s)
  then obtain m' where "m = Suc m'" by (cases m) auto
  with Cons show ?case by (simp add: ascii_def)
qed

lemma utf8_text_ascii: "ascii s \<Longrightarrow> utf8_text s = s"
  by (simp add: utf8_text_def sanitize_ascii)

lemma utf8_len_le: "utf8_len s \<le> length s"
  by (auto simp: utf8_len_def split: list.split prod.split)

lemma utf8_len_take:
  assumes "utf8_len (c # r) \<noteq> 0"
  shows "utf8_len (take (utf8_len (c # r)) (c # r) @ x) = utf8_len (c # r)"
proof -
  obtain k lo hi where cl: "utf8_class (code c) = (k, lo, hi)"
    by (cases "utf8_class (code c)")
  with assms have k: "utf8_len (c # r) = k" "k \<le> Suc (length r)" "k \<ge> 2 \<longrightarrow> is_cont lo (hd r) hi"
    "\<forall>d \<in> set (take (k - 2) (tl r)). is_cont 128 d 191" "0 < k"
    by (auto simp: utf8_len_def split: if_splits)
  obtain j where j: "k = Suc j" using k(5) by (cases k) auto
  have "hd (take j r @ x) = hd r" if "k \<ge> 2"
    using that k(2) j by (cases r) (auto simp: take_Cons')
  moreover have "take (k - 2) (tl (take j r @ x)) = take (k - 2) (tl r)"
    using k(2) j by (cases r; cases j) auto
  ultimately show ?thesis
    unfolding k(1) using k j by (simp add: utf8_len_def cl)
qed

lemma utf8_len_line_separators:
  "take 3 s = utf8_encode 8232 \<Longrightarrow> utf8_len s = 3" "take 3 s = utf8_encode 8233 \<Longrightarrow> utf8_len s = 3"
proof -
  have e: "utf8_encode 8232 = [chr 226, chr 128, chr 168]" "utf8_encode 8233 = [chr 226, chr 128, chr 169]"
    by (simp_all add: utf8_encode_def)
  have s: "\<exists>r. s = a # b # c # r" if "take 3 s = [a, b, c]" for a b c :: char
    using that by (cases s; cases "tl s"; cases "tl (tl s)") auto
  show "take 3 s = utf8_encode 8232 \<Longrightarrow> utf8_len s = 3" "take 3 s = utf8_encode 8233 \<Longrightarrow> utf8_len s = 3"
    unfolding e by (drule s; auto simp: utf8_len_def utf8_class_def is_cont_def chr_def)+
qed

lemma dec_u:
  assumes "u < 55296 \<or> 57344 \<le> u" and "u < 65536"
  shows "dec_chars (Suc n) (bslash # CHR ''u'' # hex4 u @ r) =
    map_option (\<lambda>(t, rest). (utf8_encode u @ t, rest)) (dec_chars n r)"
  using assms by (simp add: hex4_parse bslash_def quot_def)

lemma dec_raw:
  assumes "\<not> code c < 128" and "utf8_len (c # r) \<noteq> 0"
  shows "dec_chars (Suc n) (take (utf8_len (c # r)) (c # r) @ x) =
    map_option (\<lambda>(t, rest). (take (utf8_len (c # r)) (c # r) @ t, rest)) (dec_chars n x)"
proof -
  let ?k = "utf8_len (c # r)"
  have l: "length (take ?k (c # r)) = ?k"
    using utf8_len_le [of "c # r"] by simp
  obtain y where y: "take ?k (c # r) = c # y"
    using assms(2) by (cases ?k) auto
  have "c \<noteq> quot" "c \<noteq> bslash"
    using assms(1) by (auto simp: quot_def bslash_def)
  moreover have "utf8_len (c # y @ x) = ?k"
    using utf8_len_take [OF assms(2), of x] y by simp
  moreover have "take ?k (c # y @ x) = c # y" "drop ?k (c # y @ x) = x"
    using l y by (metis append_Cons append_eq_conv_conj)+
  ultimately show ?thesis
    unfolding y using assms by simp
qed

lemma dec_enc_chars:
  assumes "length s \<le> m" and "length s < n"
  shows "dec_chars n (enc_chars m s @ quot # rest) = Some (sanitize m s, rest)"
  using assms
proof (induction m arbitrary: n s)
  case 0
  then obtain n' where "n = Suc n'" by (cases n) auto
  with 0 show ?case by simp
next
  case (Suc m)
  obtain n' where n: "n = Suc n'" using Suc.prems by (cases n) auto
  show ?case
  proof (cases s)
    case Nil
    then show ?thesis by (simp add: n)
  next
    case (Cons c r)
    let ?k = "utf8_len s"
    have IH: "dec_chars n' (enc_chars m t @ quot # rest) = Some (sanitize m t, rest)" if "length t \<le> length r" for t
      using that Suc.prems Cons n by (intro Suc.IH) auto
    show ?thesis
    proof (cases "code c < 128")
      case True
      then show ?thesis
        using dec_enc_ascii [OF True, of n'] IH [of r] by (simp add: Cons n del: dec_chars.simps)
    next
      case big: False
      consider (bad) "?k = 0" | (ls) "?k \<noteq> 0" "take 3 s = utf8_encode 8232"
        | (ps) "?k \<noteq> 0" "take 3 s = utf8_encode 8233"
        | (raw) "?k \<noteq> 0" "take 3 s \<noteq> utf8_encode 8232" "take 3 s \<noteq> utf8_encode 8233"
        by blast
      then show ?thesis
      proof cases
        case bad
        then show ?thesis
          using big IH [of r] by (simp add: Cons n dec_u replacement_def del: dec_chars.simps)
      next
        case ls
        then have "?k = 3" by (simp add: utf8_len_line_separators)
        then show ?thesis
          using big ls IH [of "drop 3 s"] Cons by (simp add: n dec_u del: dec_chars.simps) 
      next
        case ps
        then have k: "?k = 3" by (simp add: utf8_len_line_separators)
        have "utf8_encode 8233 \<noteq> utf8_encode 8232" by (simp add: utf8_encode_def chr_def)
        then show ?thesis
          using big ps k IH [of "drop 3 s"] Cons by (simp add: n dec_u del: dec_chars.simps)
      next
        case raw
        then show ?thesis
          using big IH [of "drop ?k s"] dec_raw [OF big, of r n'] Cons
          by (simp add: n Let_def del: dec_chars.simps)
      qed
    qed
  qed
qed

lemma length_enc_chars: "length s \<le> m \<Longrightarrow> length s \<le> length (enc_chars m s)"
proof (induction m arbitrary: s)
  case (Suc m)
  show ?case
  proof (cases s)
    case (Cons c r)
    have IH: "length t \<le> length (enc_chars m t)" if "length t \<le> length r" for t
      using that Suc.prems Cons by (intro Suc.IH) auto
    obtain d ds where a: "enc_ascii c = d # ds"
      using enc_ascii_nonempty [of c] by (cases "enc_ascii c") simp_all
    let ?k = "utf8_len s"
    have raw: "length s \<le> ?k + length (enc_chars m (drop ?k s))" if "?k \<noteq> 0"
    proof -
      have "length (drop ?k s) \<le> length r" using that Cons by (cases ?k) auto
      from IH [OF this] show ?thesis by simp
    qed
    have "?k \<le> length s" by (rule utf8_len_le)
    then show ?thesis
      using a IH [of r] IH [of "drop 3 s"] raw by (cases "?k = 0") (auto simp: Cons Let_def)
  qed simp
qed simp

definition wf_num :: "string \<Rightarrow> bool" where
  "wf_num t \<longleftrightarrow> valid_number t \<and> t \<noteq> [] \<and> (\<forall>c \<in> set t. num_char c) \<and> (is_digit (hd t) \<or> hd t = CHR ''-'')"

fun wf_json :: "json \<Rightarrow> bool" where
  "wf_json (JNum t) = wf_num t"
| "wf_json (JArr js) = (\<forall>j \<in> set js. wf_json j)"
| "wf_json (JObj ms) = (\<forall>m \<in> set ms. wf_json (snd m))"
| "wf_json j = True"

text \<open>What survives of a value: its strings as valid UTF-8.\<close>

fun norm :: "json \<Rightarrow> json" where
  "norm (JStr s) = JStr (utf8_text s)"
| "norm (JArr js) = JArr (map norm js)"
| "norm (JObj ms) = JObj (map (\<lambda>(k, v). (utf8_text k, norm v)) ms)"
| "norm j = j"

definition stop :: "string \<Rightarrow> bool" where
  "stop rest \<longleftrightarrow> rest = [] \<or> \<not> num_char (hd rest)"

definition start_char :: "char \<Rightarrow> bool" where
  "start_char c \<longleftrightarrow> c \<in> {CHR ''n'', CHR ''t'', CHR ''f'', CHR ''-'', quot, CHR ''['', CHR ''{''} \<or> is_digit c"

lemma start_char_not: "start_char c \<Longrightarrow> \<not> json_space c \<and> c \<noteq> CHR '']'' \<and> c \<noteq> CHR ''}''"
  by (auto simp: start_char_def json_space_def is_digit_def less_eq_char_def quot_def)

lemma enc_start: "wf_json j \<Longrightarrow> \<exists>c t. enc j = c # t \<and> start_char c"
proof (cases j)
  case (JNum t)
  assume "wf_json j"
  with JNum show ?thesis
    by (cases t) (auto simp: wf_num_def start_char_def)
qed (auto simp: start_char_def enc_str_def)

lemma skip_start: "start_char c \<Longrightarrow> skip (c # s) = c # s"
  using start_char_not by (simp add: skip_def)

lemma skip_punct: "skip (CHR '','' # s) = CHR '','' # s" "skip (CHR '']'' # s) = CHR '']'' # s"
  "skip (CHR '':'' # s) = CHR '':'' # s" "skip (CHR ''}'' # s) = CHR ''}'' # s"
  by (simp_all add: skip_def json_space_def)

lemma stop_punct [simp]: "stop []" "stop (CHR '','' # s)" "stop (CHR '']'' # s)" "stop (CHR ''}'' # s)"
  by (simp_all add: stop_def num_char_def is_digit_def less_eq_char_def)

lemma p_value_num:
  assumes "wf_num t" and "stop rest"
  shows "p_value (Suc n) (t @ rest) = Some (JNum t, rest)"
proof -
  obtain c u where t: "t = c # u" using assms(1) by (cases t) (auto simp: wf_num_def)
  then have c: "is_digit c \<or> c = CHR ''-''" using assms(1) by (simp add: wf_num_def)
  then have "start_char c" by (auto simp: start_char_def)
  then have sk: "skip (c # u @ rest) = c # u @ rest" by (rule skip_start)
  have tw: "takeWhile num_char (t @ rest) = t" "dropWhile num_char (t @ rest) = rest"
    using assms unfolding wf_num_def stop_def
    by (cases rest; simp add: takeWhile_append dropWhile_append)+
  have nc: "c \<noteq> CHR ''{''" "c \<noteq> CHR ''[''" "c \<noteq> quot" "c \<noteq> CHR ''t''" "c \<noteq> CHR ''f''" "c \<noteq> CHR ''n''"
    using c by (auto simp: is_digit_def less_eq_char_def quot_def)
  have "p_value (Suc n) (c # u @ rest) = (let t' = takeWhile num_char (c # u @ rest)
     in if valid_number t' then Some (JNum t', dropWhile num_char (c # u @ rest)) else None)"
    using nc by (simp add: sk hasPrefix_def del: takeWhile.simps dropWhile.simps)
  then show ?thesis
    using tw assms(1) t by (simp add: wf_num_def del: takeWhile.simps dropWhile.simps)
qed

definition spaces :: "string \<Rightarrow> bool" where
  "spaces s \<longleftrightarrow> (\<forall>c \<in> set s. json_space c)"

lemma spaces_indent: "spaces (indent d)" "spaces '' ''"
  by (auto simp: spaces_def indent_def json_space_def)

lemma enc_w_plain: "enc_w (\<lambda>_. []) [] d j = enc j"
proof (induction j arbitrary: d)
  case (JArr js)
  then have "map (enc_w (\<lambda>_. []) [] (Suc d)) js = map enc js"
    by simp
  then show ?case by (simp cong: map_cong)
next
  case (JObj ms)
  have "map (\<lambda>(k, v). enc_str k @ '':'' @ [] @ enc_w (\<lambda>_. []) [] (Suc d) v) ms = map (\<lambda>(k, v). enc_str k @ '':'' @ enc v) ms"
  proof (rule map_cong [OF refl])
    fix m assume m: "m \<in> set ms"
    have "enc_w (\<lambda>_. []) [] (Suc d) (snd m) = enc (snd m)"
      by (rule JObj.IH [OF m]) (cases m; simp)
    then show "(case m of (k, v) \<Rightarrow> enc_str k @ '':'' @ [] @ enc_w (\<lambda>_. []) [] (Suc d) v) =
        (case m of (k, v) \<Rightarrow> enc_str k @ '':'' @ enc v)"
      by (cases m) simp
  qed
  then show ?case by (simp cong: map_cong)
qed simp_all

lemma skip_spaces: "spaces w \<Longrightarrow> skip (w @ s) = skip s"
  by (simp add: skip_def spaces_def dropWhile_append)

lemma p_value_skip: "p_value n (skip s) = p_value n s"
  by (cases n) (simp_all add: skip_def)

lemma p_members_skip: "p_members n (skip s) = p_members n s"
  by (cases n) (simp_all add: skip_def)

lemma p_value_spaces: "spaces w \<Longrightarrow> p_value n (w @ s) = p_value n s"
  by (metis p_value_skip skip_spaces)

lemma p_members_spaces: "spaces w \<Longrightarrow> p_members n (w @ s) = p_members n s"
  by (metis p_members_skip skip_spaces)

lemma p_elems_spaces: "spaces w \<Longrightarrow> p_elems n (w @ s) = p_elems n s"
  by (cases n) (simp_all add: p_value_spaces)

lemma stop_spaces: "spaces w \<Longrightarrow> stop s \<Longrightarrow> stop (w @ s)"
proof (cases w)
  case (Cons x t)
  assume "spaces w"
  then have "json_space x" by (simp add: Cons spaces_def)
  then have "\<not> num_char x"
    unfolding json_space_def by (elim disjE) (simp_all add: num_char_def is_digit_def less_eq_char_def)
  then show ?thesis by (simp add: stop_def Cons)
qed simp

lemma enc_w_start: "wf_json j \<Longrightarrow> \<exists>x t. enc_w w c d j = x # t \<and> start_char x"
  using enc_start [of j] by (cases j) (auto simp: start_char_def)

text \<open>Lists of encoded values, with the fuel they need.\<close>

lemma p_elems_enc:
  assumes "js \<noteq> []" and "spaces v" and "spaces u"
    and "\<And>j n rest. j \<in> set js \<Longrightarrow> 2 * length (E j) \<le> n \<Longrightarrow> stop rest \<Longrightarrow> p_value n (E j @ rest) = Some (norm j, rest)"
    and "2 * length (join ('','' @ v) (map E js)) < n"
  shows "p_elems n (join ('','' @ v) (map E js) @ u @ CHR '']'' # rest) = Some (map norm js, rest)"
  using assms
proof (induction js arbitrary: n)
  case (Cons j js)
  obtain m where n: "n = Suc m" using Cons.prems(5) by (cases n) auto
  show ?case
  proof (cases "js = []")
    case True
    have "p_value m (E j @ u @ CHR '']'' # rest) = Some (norm j, u @ CHR '']'' # rest)"
      using Cons.prems(5) True n by (intro Cons.prems(4) stop_spaces assms(3)) auto
    then show ?thesis using True by (simp add: n skip_punct skip_spaces assms(3))
  next
    case False
    let ?r = "join ('','' @ v) (map E js) @ u @ CHR '']'' # rest"
    have j: "join ('','' @ v) (map E (j # js)) = E j @ CHR '','' # v @ join ('','' @ v) (map E js)"
      using False by (simp add: join_Cons)
    have "p_value m (E j @ CHR '','' # v @ ?r) = Some (norm j, CHR '','' # v @ ?r)"
      using Cons.prems(5) n unfolding j by (intro Cons.prems(4)) auto
    moreover have "p_elems m ?r = Some (map norm js, rest)"
      using Cons.prems n False unfolding j by (intro Cons.IH) auto
    ultimately show ?thesis
      unfolding j by (simp add: n skip_punct p_elems_spaces assms(2))
  qed
qed simp

definition enc_member :: "string \<Rightarrow> (json \<Rightarrow> string) \<Rightarrow> string \<times> json \<Rightarrow> string" where
  "enc_member c E m = enc_str (fst m) @ CHR '':'' # c @ E (snd m)"

lemma p_members_enc:
  assumes "ms \<noteq> []" and "spaces v" and "spaces u" and "spaces c"
    and "\<And>k x n rest. (k, x) \<in> set ms \<Longrightarrow> 2 * length (E x) \<le> n \<Longrightarrow> stop rest \<Longrightarrow> p_value n (E x @ rest) = Some (norm x, rest)"
    and "2 * length (join ('','' @ v) (map (enc_member c E) ms)) < n"
  shows "p_members n (join ('','' @ v) (map (enc_member c E) ms) @ u @ CHR ''}'' # rest) =
    Some (map (\<lambda>(k, x). (utf8_text k, norm x)) ms, rest)"
  using assms
proof (induction ms arbitrary: n)
  case (Cons m ms)
  obtain k x where kv: "m = (k, x)" by (cases m)
  obtain n' where n: "n = Suc n'" using Cons.prems(6) by (cases n) auto
  have k: "dec_chars n (enc_chars (length k) k @ quot # s) = Some (utf8_text k, s)" if "length k < n" for n s
    unfolding utf8_text_def using that by (intro dec_enc_chars) simp
  have q: "skip (quot # s) = quot # s" for s
    by (rule skip_start) (simp add: start_char_def)
  have str: "enc_member c E (k, x) @ s = quot # enc_chars (length k) k @ quot # CHR '':'' # c @ E x @ s" for s
    by (simp add: enc_member_def enc_str_def)
  have val: "p_value n' (c @ E x @ s) = Some (norm x, s)" if "2 * length (E x) \<le> n'" "stop s" for s
    using Cons.prems(5) [of k x n' s] that by (simp add: p_value_spaces assms(4) kv)
  have len: "2 * length (E x) \<le> n'"
    using Cons.prems(6) n by (cases ms) (auto simp: enc_member_def kv)
  show ?case
  proof (cases "ms = []")
    case True
    then show ?thesis
      using k length_enc_chars [of k "length k"] val [OF len stop_spaces [OF assms(3)], of "CHR ''}'' # rest"]
      by (simp add: n str q skip_punct skip_spaces assms(3) kv del: dec_chars.simps)
  next
    case False
    let ?r = "join ('','' @ v) (map (enc_member c E) ms) @ u @ CHR ''}'' # rest"
    have j: "join ('','' @ v) (map (enc_member c E) (m # ms)) =
        enc_member c E m @ CHR '','' # v @ join ('','' @ v) (map (enc_member c E) ms)"
      using False by (simp add: join_Cons)
    have "p_members n' ?r = Some (map (\<lambda>(k, x). (utf8_text k, norm x)) ms, rest)"
    proof (rule Cons.IH)
      show "ms \<noteq> []" by fact
      show "p_value n (E x @ rest) = Some (norm x, rest)"
        if "(k, x) \<in> set ms" "2 * length (E x) \<le> n" "stop rest" for k x n rest
        using that by (intro Cons.prems(5) [of k]) simp_all
      show "2 * length (join ('','' @ v) (map (enc_member c E) ms)) < n'"
        using Cons.prems(6) n unfolding j by simp
    qed (rule assms)+
    then show ?thesis
      using k length_enc_chars [of k "length k"] val [OF len, of "CHR '','' # v @ ?r"] unfolding j
      by (simp add: n str q skip_punct p_members_spaces assms(2) kv del: dec_chars.simps)
  qed
qed simp

lemma p_value_enc_w:
  assumes "\<And>d. spaces (w d)" and "spaces c"
  shows "wf_json j \<Longrightarrow> 2 * length (enc_w w c d j) \<le> n \<Longrightarrow> stop rest \<Longrightarrow> p_value n (enc_w w c d j @ rest) = Some (norm j, rest)"
proof (induction j arbitrary: n rest d)
  case (JStr s)
  then obtain n' where "n = Suc n'" by (cases n) (auto simp: enc_str_def)
  moreover have "skip (quot # t) = quot # t" for t
    by (rule skip_start) (simp add: start_char_def)
  ultimately show ?case
    using dec_enc_chars [of s "length s" "Suc (length (enc_chars (length s) s @ quot # rest))" rest]
      length_enc_chars [of s "length s"]
    by (simp add: enc_str_def quot_def utf8_text_def del: dec_chars.simps)
next
  case (JNum t)
  then obtain n' where "n = Suc n'" by (cases n) (auto simp: wf_num_def)
  then show ?case using p_value_num JNum by simp
next
  case JNull
  then obtain n' where "n = Suc n'" by (cases n) auto
  then show ?case by (simp add: skip_def json_space_def quot_def hasPrefix_def)
next
  case (JBool b)
  then obtain n' where "n = Suc n'" by (cases n; cases b) auto
  then show ?case by (simp add: skip_def json_space_def quot_def hasPrefix_def)
next
  case (JArr js)
  then obtain n' where n: "n = Suc n'" by (cases n) (auto split: if_splits)
  have sk: "skip (CHR ''['' # t) = CHR ''['' # t" for t
    by (rule skip_start) (simp add: start_char_def)
  show ?case
  proof (cases js)
    case Nil
    then show ?thesis by (simp add: n sk skip_punct hasPrefix_def)
  next
    case (Cons j js')
    then have wf: "wf_json j" using JArr.prems(1) by simp
    let ?E = "enc_w w c (Suc d)"
    let ?r = "join ('','' @ w (Suc d)) (map ?E js) @ w d @ CHR '']'' # rest"
    have e: "enc_w w c d (JArr js) @ rest = CHR ''['' # w (Suc d) @ ?r"
      using Cons by simp
    obtain x where x: "?r = ?E j @ x"
      using Cons by (cases js') auto
    obtain a t where "?E j = a # t" "start_char a"
      using enc_w_start [OF wf] by blast
    then have "\<not> hasPrefix (skip (w (Suc d) @ ?r)) '']''"
      unfolding skip_spaces [OF assms(1)] x using start_char_not [of a] by (simp add: skip_start hasPrefix_def)
    moreover have "p_elems n' ?r = Some (map norm js, rest)"
    proof (rule p_elems_enc [OF _ assms(1) assms(1)])
      show "js \<noteq> []" using Cons by simp
      show "p_value n (?E j @ rest) = Some (norm j, rest)"
        if "j \<in> set js" "2 * length (?E j) \<le> n" "stop rest" for j n rest
        using JArr.IH [of j] that JArr.prems(1) by auto
      show "2 * length (join ('','' @ w (Suc d)) (map ?E js)) < n'"
        using JArr.prems(2) Cons n by simp
    qed
    ultimately show ?thesis unfolding e by (simp add: n sk p_elems_spaces assms(1))
  qed
next
  case (JObj ms)
  then obtain n' where n: "n = Suc n'" by (cases n) (auto split: if_splits)
  have sk: "skip (CHR ''{'' # t) = CHR ''{'' # t" for t
    by (rule skip_start) (simp add: start_char_def)
  show ?case
  proof (cases ms)
    case Nil
    then show ?thesis by (simp add: n sk skip_punct hasPrefix_def)
  next
    case (Cons m ms')
    let ?E = "enc_w w c (Suc d)"
    let ?r = "join ('','' @ w (Suc d)) (map (enc_member c ?E) ms) @ w d @ CHR ''}'' # rest"
    have e: "enc_w w c d (JObj ms) @ rest = CHR ''{'' # w (Suc d) @ ?r"
      using Cons by (simp add: case_prod_unfold enc_member_def [abs_def])
    obtain x where x: "?r = quot # x"
      using Cons by (cases ms') (auto simp: enc_str_def enc_member_def)
    then have "\<not> hasPrefix (skip (w (Suc d) @ ?r)) ''}''"
      unfolding skip_spaces [OF assms(1)] by (simp add: skip_def json_space_def quot_def hasPrefix_def)
    moreover have "p_members n' ?r = Some (map (\<lambda>(k, x). (utf8_text k, norm x)) ms, rest)"
    proof (rule p_members_enc [OF _ assms(1) assms(1) assms(2)])
      show "ms \<noteq> []" using Cons by simp
      show "p_value n (?E x @ rest) = Some (norm x, rest)"
        if "(k, x) \<in> set ms" "2 * length (?E x) \<le> n" "stop rest" for k x n rest
        using JObj.IH [of "(k, x)" x] that JObj.prems(1) by auto
      have "2 * length (enc_w w c d (JObj ms) @ rest) \<le> n + 2 * length rest"
        using JObj.prems(2) by simp
      then show "2 * length (join ('','' @ w (Suc d)) (map (enc_member c ?E) ms)) < n'"
        unfolding e n by simp
    qed
    ultimately show ?thesis unfolding e by (simp add: n sk p_members_spaces assms(1))
  qed
qed

lemma p_value_enc:
  "wf_json j \<Longrightarrow> 2 * length (enc j) \<le> n \<Longrightarrow> stop rest \<Longrightarrow> p_value n (enc j @ rest) = Some (norm j, rest)"
  using p_value_enc_w [of "\<lambda>_. []" "[]" j 0 n rest] by (simp add: enc_w_plain spaces_def)

lemma parse_json_enc: "wf_json j \<Longrightarrow> parse_json (enc j) = Some (norm j)"
  using p_value_enc [of j "Suc (2 * length (enc j))" "[]"] by (simp add: parse_json_def skip_def del: p_value.simps)

section \<open>Integers\<close>

lemma drop_digits_itoa: "drop_digits (itoa n) = Some []"
  using itoa_digits [of "hd (itoa n)" n] by (auto simp: drop_digits_def dropWhile_eq_Nil_conv dest: itoa_digits)

lemma num_char_digit: "is_digit c \<Longrightarrow> num_char c"
  by (simp add: num_char_def)

lemma valid_number_itoa: "valid_number (itoa n)" "valid_number (CHR ''-'' # itoa n)"
proof -
  have ne: "itoa n \<noteq> []" by simp
  have d: "is_digit (hd (itoa n))" using itoa_digits [of "hd (itoa n)" n] by simp
  have m: "\<not> hasPrefix (itoa n) ''-''"
    using d ne by (cases "itoa n") (auto simp: hasPrefix_def is_digit_def less_eq_char_def)
  have z: "hasPrefix (itoa n) ''0'' \<Longrightarrow> tl (itoa n) = []"
  proof (cases "n = 0")
    case False
    assume "hasPrefix (itoa n) ''0''"
    with hd_itoa [of n] False show ?thesis by (cases "itoa n") (auto simp: hasPrefix_def)
  qed (simp add: itoa.simps [of 0])
  show "valid_number (itoa n)" "valid_number (CHR ''-'' # itoa n)"
    using m z by (auto simp: valid_number_def Let_def drop_digits_itoa hasPrefix_def)
qed

lemma wf_num_itoa_int: "wf_num (itoa_int i)"
proof -
  have "is_digit (hd (itoa n))" for n
    by (rule itoa_digits [of _ n]) simp
  then show ?thesis
    using itoa_digits valid_number_itoa by (auto simp: wf_num_def itoa_int_def num_char_def)
qed

text \<open>\<open>strconv.ParseInt(s, 10, 64)\<close> on a JSON number.\<close>

definition parse_int64 :: "string \<Rightarrow> int option" where
  "parse_int64 s =
     (let neg = hasPrefix s ''-''; ds = (if neg then tl s else s)
      in if ds = [] \<or> (\<exists>c \<in> set ds. \<not> is_digit c) then None
         else let v = (if neg then - int (digits_val ds) else int (digits_val ds))
              in if - (2 ^ 63) \<le> v \<and> v < 2 ^ 63 then Some v else None)"

lemma parse_int64_itoa: "- (2 ^ 63) \<le> i \<Longrightarrow> i < 2 ^ 63 \<Longrightarrow> parse_int64 (itoa_int i) = Some i"
proof -
  assume i: "- (2 ^ 63) \<le> i" "i < 2 ^ 63"
  have "\<not> hasPrefix (itoa n) ''-''" for n
    using itoa_digits [of "hd (itoa n)" n]
    by (cases "itoa n") (auto simp: hasPrefix_def is_digit_def less_eq_char_def)
  with i show ?thesis
    by (auto simp: parse_int64_def itoa_int_def Let_def hasPrefix_def dest: itoa_digits)
qed

end
