(* ===== verification/GoXml.thy ===== *)
theory GoXml
  imports Json
begin

text \<open>
  Reading an XML document as Go's \<open>encoding/xml\<close> does in its strict mode: elements with
  their attributes checked and dropped, character data with its entities decoded,
  CDATA sections, comments, processing instructions and directives skipped.  A
  document is its root element; what follows the root is not read.  The name of an
  element is its local part.  Any error of syntax is \<open>None\<close>.
\<close>

datatype xml = XElem string "xml list" | XText string

section \<open>Text\<close>

text \<open>The text after the first occurrence of a pattern, and the text before it.\<close>

fun split_at :: "string \<Rightarrow> string \<Rightarrow> (string \<times> string) option" where
  "split_at p [] = (if p = [] then Some ([], []) else None)"
| "split_at p (c # s) =
     (if hasPrefix (c # s) p then Some ([], drop (length p) (c # s))
      else map_option (\<lambda>(a, b). (c # a, b)) (split_at p s))"

definition xml_space :: "char \<Rightarrow> bool" where
  "xml_space c \<longleftrightarrow> c \<in> {CHR 0x20, CHR 0x0A, CHR 0x09, CHR 0x0D}"

definition skip_space :: "string \<Rightarrow> string" where
  "skip_space s = dropWhile xml_space s"

definition entity_names :: "(string \<times> string) list" where
  "entity_names = [(''lt'', ''<''), (''gt'', ''>''), (''amp'', ''&''), (''apos'', [CHR 0x27]), (''quot'', [CHR 0x22])]"

definition rune_text :: "nat \<Rightarrow> string" where
  "rune_text n = utf8_encode (if 55296 \<le> n \<and> n \<le> 57343 then 65533 else n)"

text \<open>What stands between \<open>&\<close> and \<open>;\<close>.\<close>

definition entity :: "string \<Rightarrow> string option" where
  "entity s =
     (if hasPrefix s ''#x'' then
        (let ds = drop 2 s
         in if ds \<noteq> [] \<and> list_all is_hex ds \<and> hex_val ds \<le> 1114111 then Some (rune_text (hex_val ds)) else None)
      else if hasPrefix s ''#'' then
        (let ds = drop 1 s
         in if ds \<noteq> [] \<and> list_all is_digit ds \<and> digits_val ds \<le> 1114111 then Some (rune_text (digits_val ds))
            else None)
      else map_of entity_names s)"

lemma split_at_length: "split_at p s = Some (a, b) \<Longrightarrow> length b \<le> length s"
  by (induction s arbitrary: a) (auto split: if_splits)

text \<open>Entities and line ends.\<close>

function decode_text :: "string \<Rightarrow> string option" where
  "decode_text [] = Some []"
| "decode_text (c # s) =
     (if c = CHR ''&'' then
        (case split_at '';'' s of
           None \<Rightarrow> None
         | Some (e, r) \<Rightarrow>
             (case entity e of None \<Rightarrow> None | Some t \<Rightarrow> map_option (\<lambda>u. t @ u) (decode_text r)))
      else if c = CHR 0x0D then
        map_option (\<lambda>u. CHR 0x0A # u) (decode_text (if s \<noteq> [] \<and> hd s = CHR 0x0A then tl s else s))
      else map_option (\<lambda>u. c # u) (decode_text s))"
  by pat_completeness auto
termination by (relation "measure length") (auto dest: split_at_length simp: less_Suc_eq_le)

fun line_ends :: "string \<Rightarrow> string" where
  "line_ends [] = []"
| "line_ends [c] = [if c = CHR 0x0D then CHR 0x0A else c]"
| "line_ends (c # d # s) =
     (if c = CHR 0x0D then CHR 0x0A # (if d = CHR 0x0A then line_ends s else line_ends (d # s))
      else c # line_ends (d # s))"

text \<open>Only valid UTF-8 of characters XML allows.\<close>

fun xml_chars :: "nat \<Rightarrow> string \<Rightarrow> bool" where
  "xml_chars 0 s = (s = [])"
| "xml_chars (Suc n) s =
     (case s of
        [] \<Rightarrow> True
      | c # r \<Rightarrow>
          let k = utf8_len s; b = of_char c :: nat
          in k \<noteq> 0 \<and> \<not> (b < 32 \<and> b \<notin> {9, 10, 13}) \<and>
             take 3 s \<notin> {[CHR 0xEF, CHR 0xBF, CHR 0xBE], [CHR 0xEF, CHR 0xBF, CHR 0xBF]} \<and> xml_chars n (drop k s))"

definition checked :: "string \<Rightarrow> string option" where
  "checked t = (if xml_chars (length t) t then Some t else None)"

text \<open>Character data: what stands before the next tag.\<close>

definition char_data :: "string \<Rightarrow> string option" where
  "char_data raw = (if contains raw '']]>'' then None else Option.bind (decode_text raw) checked)"

section \<open>Markup\<close>

definition name_char :: "char \<Rightarrow> bool" where
  "name_char c \<longleftrightarrow> is_digit c \<or> is_letter c \<or>
     c \<in> set ''_:.-'' \<or> of_char c \<ge> (128 :: nat)"

definition name_start :: "char \<Rightarrow> bool" where
  "name_start c \<longleftrightarrow> name_char c \<and> \<not> is_digit c \<and> c \<notin> set ''.-''"

definition read_name :: "string \<Rightarrow> (string \<times> string) option" where
  "read_name s =
     (let n = takeWhile name_char s
      in if n \<noteq> [] \<and> name_start (hd n) then Some (n, dropWhile name_char s) else None)"

text \<open>The local part of a name.\<close>

definition local_name :: "string \<Rightarrow> string" where
  "local_name n =
     (case splitc (CHR '':'') n of
        [a, b] \<Rightarrow> if a = [] \<or> b = [] then n else b
      | _ \<Rightarrow> n)"

text \<open>The attributes of a start tag: whether the element is empty, and what follows the tag.\<close>

fun read_attrs :: "nat \<Rightarrow> string \<Rightarrow> (bool \<times> string) option" where
  "read_attrs 0 s = None"
| "read_attrs (Suc n) s =
     (let r = skip_space s in
      if hasPrefix r ''/>'' then Some (True, drop 2 r)
      else if hasPrefix r ''>'' then Some (False, drop 1 r)
      else Option.bind (read_name r) (\<lambda>(_, r1).
        let r2 = skip_space r1; r3 = skip_space (drop 1 r2) in
        if hasPrefix r2 ''='' \<and> r3 \<noteq> [] \<and> hd r3 \<in> {CHR 0x22, CHR 0x27} then
          Option.bind (split_at [hd r3] (tl r3)) (\<lambda>(v, r4).
            if CHR ''<'' \<in> set v \<or> Option.bind (decode_text v) checked = None then None
            else read_attrs n r4)
        else None))"

text \<open>A comment after \<open><!--\<close>: the first \<open>--\<close> must end it.\<close>

definition skip_comment :: "string \<Rightarrow> string option" where
  "skip_comment s =
     Option.bind (split_at ''--'' s) (\<lambda>(_, r). if hasPrefix r ''>'' then Some (drop 1 r) else None)"

text \<open>A directive after \<open><!\<close>: to the closing bracket outside quotes and nested tags.\<close>

fun skip_directive :: "nat \<Rightarrow> char option \<Rightarrow> nat \<Rightarrow> string \<Rightarrow> string option" where
  "skip_directive 0 q d s = None"
| "skip_directive (Suc n) q d s =
     (case s of
        [] \<Rightarrow> None
      | c # r \<Rightarrow>
          (case q of
             Some x \<Rightarrow> skip_directive n (if c = x then None else q) d r
           | None \<Rightarrow>
               if c = CHR ''>'' \<and> d = 0 then Some r
               else if c \<in> {CHR 0x22, CHR 0x27} then skip_directive n (Some c) d r
               else if c = CHR ''>'' then skip_directive n None (d - 1) r
               else if hasPrefix s ''<!--'' then
                 Option.bind (split_at ''-->'' (drop 4 s)) (\<lambda>(_, r'). skip_directive n None d r')
               else if c = CHR ''<'' then skip_directive n None (Suc d) r
               else skip_directive n None d r))"

text \<open>A parameter of an XML declaration, empty when it is not there.\<close>

fun proc_inst :: "nat \<Rightarrow> string \<Rightarrow> string \<Rightarrow> string" where
  "proc_inst 0 param s = []"
| "proc_inst (Suc n) param s =
     (case split_at (param @ ''='') s of
        None \<Rightarrow> []
      | Some (_, []) \<Rightarrow> []
      | Some (_, c # r) \<Rightarrow>
          if c \<in> {CHR 0x22, CHR 0x27} then (case split_at [c] r of None \<Rightarrow> [] | Some (v, _) \<Rightarrow> v)
          else proc_inst n param r)"

text \<open>A processing instruction after \<open><?\<close>.\<close>

definition skip_proc_inst :: "string \<Rightarrow> string option" where
  "skip_proc_inst s =
     Option.bind (read_name s) (\<lambda>(target, r).
     Option.bind (split_at ''?>'' (skip_space r)) (\<lambda>(content, r').
       let ver = proc_inst (length content) ''version'' content;
           enc = toLower (proc_inst (length content) ''encoding'' content)
       in if target = ''xml'' \<and> (ver \<notin> {[], ''1.0''} \<or> enc \<notin> {[], ''utf-8''}) then None else Some r'))"

text \<open>What is not an element: a comment, a directive or a processing instruction.\<close>

definition skip_misc :: "string \<Rightarrow> string option" where
  "skip_misc s =
     (if hasPrefix s ''<!--'' then skip_comment (drop 4 s)
      else if hasPrefix s ''<!'' then skip_directive (length s) None 0 (drop 2 s)
      else if hasPrefix s ''<?'' then skip_proc_inst (drop 2 s)
      else None)"

section \<open>Elements\<close>

text \<open>
  The content of the element of a name, up to and with its end tag.  Fuel: every
  call reads at least one character.
\<close>

fun read_content :: "nat \<Rightarrow> string \<Rightarrow> string \<Rightarrow> (xml list \<times> string) option" where
  "read_content 0 nm s = None"
| "read_content (Suc n) nm s =
     (if s = [] then None
      else if hd s \<noteq> CHR ''<'' then
        (let raw = takeWhile (\<lambda>c. c \<noteq> CHR ''<'') s in
         Option.bind (char_data raw) (\<lambda>t.
         Option.bind (read_content n nm (drop (length raw) s)) (\<lambda>(ks, r). Some (XText t # ks, r))))
      else if hasPrefix s ''</'' then
        Option.bind (read_name (drop 2 s)) (\<lambda>(nm', r).
          let r' = skip_space r in if hasPrefix r' ''>'' \<and> nm' = nm then Some ([], drop 1 r') else None)
      else if hasPrefix s ''<![CDATA['' then
        Option.bind (split_at '']]>'' (drop 9 s)) (\<lambda>(t, r).
        Option.bind (checked (line_ends t)) (\<lambda>t'.
        Option.bind (read_content n nm r) (\<lambda>(ks, r'). Some (XText t' # ks, r'))))
      else if hasPrefix s ''<!'' \<or> hasPrefix s ''<?'' then
        Option.bind (skip_misc s) (read_content n nm)
      else
        Option.bind (read_name (drop 1 s)) (\<lambda>(k, r).
        Option.bind (read_attrs (length r) r) (\<lambda>(empty, r1).
          if empty then
            Option.bind (read_content n nm r1) (\<lambda>(ks, r3). Some (XElem (local_name k) [] # ks, r3))
          else
            Option.bind (read_content n k r1) (\<lambda>(kids, r2).
            Option.bind (read_content n nm r2) (\<lambda>(ks, r3). Some (XElem (local_name k) kids # ks, r3))))))"

text \<open>The root: \<open>Inl\<close> of \<open>io.EOF\<close> when the text ends before it.\<close>

fun read_root :: "nat \<Rightarrow> string \<Rightarrow> xml result" where
  "read_root 0 s = Inl (ErrText ''XML syntax error'')"
| "read_root (Suc n) s =
     (let bad = Inl (ErrText ''XML syntax error'') in
      if s = [] then Inl IoEOF
      else if hd s \<noteq> CHR ''<'' then
        (let raw = takeWhile (\<lambda>c. c \<noteq> CHR ''<'') s
         in if char_data raw = None then bad else read_root n (drop (length raw) s))
      else if hasPrefix s ''<![CDATA['' then
        (case split_at '']]>'' (drop 9 s) of
           Some (t, r) \<Rightarrow> if checked (line_ends t) = None then bad else read_root n r
         | None \<Rightarrow> bad)
      else if hasPrefix s ''<!'' \<or> hasPrefix s ''<?'' then
        (case skip_misc s of None \<Rightarrow> bad | Some r \<Rightarrow> read_root n r)
      else case read_name (drop 1 s) of
        None \<Rightarrow> bad
      | Some (k, r) \<Rightarrow>
          (case read_attrs (length r) r of
             None \<Rightarrow> bad
           | Some (True, r1) \<Rightarrow> Inr (XElem (local_name k) [])
           | Some (False, r1) \<Rightarrow>
               (case read_content (length r1) k r1 of
                  None \<Rightarrow> bad
                | Some (kids, _) \<Rightarrow> Inr (XElem (local_name k) kids))))"

definition parse_xml :: "string \<Rightarrow> xml result" where
  "parse_xml s = read_root (Suc (length s)) s"

text \<open>The character data of an element: its own, without that of its children.\<close>

fun xml_text :: "xml list \<Rightarrow> string" where
  "xml_text [] = []"
| "xml_text (XText t # ks) = t @ xml_text ks"
| "xml_text (XElem n cs # ks) = xml_text ks"

text \<open>\<open>strconv.ParseBool\<close>\<close>

definition ParseBool :: "string \<Rightarrow> bool option" where
  "ParseBool s =
     (if s \<in> {''1'', ''t'', ''T'', ''TRUE'', ''true'', ''True''} then Some True
      else if s \<in> {''0'', ''f'', ''F'', ''FALSE'', ''false'', ''False''} then Some False
      else None)"

end
