(* ===== verification/GoCrypto.thy ===== *)
theory GoCrypto
  imports S5Prelude
begin

text \<open>
  The parts of Go's \<open>crypto\<close> packages the codec and the request signer use, on byte
  lists: SHA-256, HMAC, AES-256 and GCM with a 12-byte nonce.  The definitions are
  executable and follow FIPS 180-4, 198-1, 197 and SP 800-38D; the laws proved here
  are the lengths and that decryption inverts encryption for any block function of
  16-byte output.
\<close>

unbundle bit_operations_syntax

section \<open>Words and bytes\<close>

definition be32 :: "32 word \<Rightarrow> bytes" where
  "be32 w = [ucast (drop_bit 24 w), ucast (drop_bit 16 w), ucast (drop_bit 8 w), ucast w]"

definition be64 :: "64 word \<Rightarrow> bytes" where
  "be64 w = be32 (ucast (drop_bit 32 w)) @ be32 (ucast w)"

definition word32 :: "byte \<Rightarrow> byte \<Rightarrow> byte \<Rightarrow> byte \<Rightarrow> 32 word" where
  "word32 a b c d = push_bit 24 (ucast a) OR push_bit 16 (ucast b) OR push_bit 8 (ucast c) OR ucast d"

fun words_of :: "bytes \<Rightarrow> 32 word list" where
  "words_of (a # b # c # d # r) = word32 a b c d # words_of r"
| "words_of r = []"

lemma length_be32 [simp]: "length (be32 w) = 4"
  by (simp add: be32_def)

lemma length_be64 [simp]: "length (be64 w) = 8"
  by (simp add: be64_def)

section \<open>SHA-256\<close>

type_synonym sha_state =
  "32 word \<times> 32 word \<times> 32 word \<times> 32 word \<times> 32 word \<times> 32 word \<times> 32 word \<times> 32 word"

definition sha_init :: sha_state where
  "sha_init = (1779033703, 3144134277, 1013904242, 2773480762, 1359893119, 2600822924, 528734635, 1541459225)"

definition sha_k :: "32 word list" where
  "sha_k =
    [1116352408, 1899447441, 3049323471, 3921009573, 961987163, 1508970993, 2453635748, 2870763221,
     3624381080, 310598401, 607225278, 1426881987, 1925078388, 2162078206, 2614888103, 3248222580,
     3835390401, 4022224774, 264347078, 604807628, 770255983, 1249150122, 1555081692, 1996064986,
     2554220882, 2821834349, 2952996808, 3210313671, 3336571891, 3584528711, 113926993, 338241895,
     666307205, 773529912, 1294757372, 1396182291, 1695183700, 1986661051, 2177026350, 2456956037,
     2730485921, 2820302411, 3259730800, 3345764771, 3516065817, 3600352804, 4094571909, 275423344,
     430227734, 506948616, 659060556, 883997877, 958139571, 1322822218, 1537002063, 1747873779,
     1955562222, 2024104815, 2227730452, 2361852424, 2428436474, 2756734187, 3204031479, 3329325298]"

definition rotr :: "nat \<Rightarrow> 32 word \<Rightarrow> 32 word" where
  "rotr n w = drop_bit n w OR push_bit (32 - n) w"

definition sha_pad :: "bytes \<Rightarrow> bytes" where
  "sha_pad m =
     m @ [128] @ replicate ((119 - length m mod 64) mod 64) 0 @ be64 (of_nat (8 * length m))"

text \<open>The message schedule, the newest word first.\<close>

fun sha_extend :: "nat \<Rightarrow> 32 word list \<Rightarrow> 32 word list" where
  "sha_extend 0 ws = ws"
| "sha_extend (Suc n) ws =
     (let a = ws ! 1; b = ws ! 6; c = ws ! 14; d = ws ! 15;
          s1 = rotr 17 a XOR rotr 19 a XOR drop_bit 10 a;
          s0 = rotr 7 c XOR rotr 18 c XOR drop_bit 3 c
      in sha_extend n ((s1 + b + s0 + d) # ws))"

definition sha_round :: "sha_state \<Rightarrow> 32 word \<times> 32 word \<Rightarrow> sha_state" where
  "sha_round s kw =
     (case s of (a, b, c, d, e, f, g, h) \<Rightarrow>
      case kw of (k, w) \<Rightarrow>
        let t1 = h + (rotr 6 e XOR rotr 11 e XOR rotr 25 e) + ((e AND f) XOR (NOT e AND g)) + k + w;
            t2 = (rotr 2 a XOR rotr 13 a XOR rotr 22 a) + ((a AND b) XOR (a AND c) XOR (b AND c))
        in (t1 + t2, a, b, c, d + t1, e, f, g))"

definition sha_block :: "sha_state \<Rightarrow> bytes \<Rightarrow> sha_state" where
  "sha_block s blk =
     (let ws = rev (sha_extend 48 (rev (words_of blk)))
      in case foldl sha_round s (zip sha_k ws) of (a, b, c, d, e, f, g, h) \<Rightarrow>
         case s of (a0, b0, c0, d0, e0, f0, g0, h0) \<Rightarrow>
           (a0 + a, b0 + b, c0 + c, d0 + d, e0 + e, f0 + f, g0 + g, h0 + h))"

function sha_blocks :: "sha_state \<Rightarrow> bytes \<Rightarrow> sha_state" where
  "sha_blocks s m = (if m = [] then s else sha_blocks (sha_block s (take 64 m)) (drop 64 m))"
  by pat_completeness auto
termination by (relation "measure (\<lambda>(s, m). length m)") auto

declare sha_blocks.simps [simp del]

definition sha256 :: "bytes \<Rightarrow> bytes" where
  "sha256 m =
     (case sha_blocks sha_init (sha_pad m) of (a, b, c, d, e, f, g, h) \<Rightarrow>
        be32 a @ be32 b @ be32 c @ be32 d @ be32 e @ be32 f @ be32 g @ be32 h)"

lemma length_sha256 [simp]: "length (sha256 m) = 32"
  by (simp add: sha256_def split: prod.split)

section \<open>HMAC-SHA-256\<close>

definition hmac_sha256 :: "bytes \<Rightarrow> bytes \<Rightarrow> bytes" where
  "hmac_sha256 k m =
     (let k0 = (if length k > 64 then sha256 k else k);
          kp = k0 @ replicate (64 - length k0) 0
      in sha256 (map (\<lambda>b. b XOR 92) kp @ sha256 (map (\<lambda>b. b XOR 54) kp @ m)))"

lemma length_hmac_sha256 [simp]: "length (hmac_sha256 k m) = 32"
  by (simp add: hmac_sha256_def Let_def)

section \<open>AES-256\<close>

definition xtime :: "byte \<Rightarrow> byte" where
  "xtime b = (if bit b 7 then push_bit 1 b XOR 27 else push_bit 1 b)"

fun gf_mul_n :: "nat \<Rightarrow> byte \<Rightarrow> byte \<Rightarrow> byte" where
  "gf_mul_n 0 a b = 0"
| "gf_mul_n (Suc n) a b = (if bit b 0 then a else 0) XOR gf_mul_n n (xtime a) (drop_bit 1 b)"

definition gf_mul :: "byte \<Rightarrow> byte \<Rightarrow> byte" where
  "gf_mul = gf_mul_n 8"

definition gf_inv :: "byte \<Rightarrow> byte" where
  "gf_inv a =
     (let a2 = gf_mul a a; a3 = gf_mul a2 a; a6 = gf_mul a3 a3; a12 = gf_mul a6 a6; a15 = gf_mul a12 a3;
          a30 = gf_mul a15 a15; a60 = gf_mul a30 a30; a120 = gf_mul a60 a60; a240 = gf_mul a120 a120;
          a14 = gf_mul a12 a2
      in gf_mul a240 a14)"

definition rotl8 :: "nat \<Rightarrow> byte \<Rightarrow> byte" where
  "rotl8 n b = push_bit n b OR drop_bit (8 - n) b"

definition sbox :: "byte \<Rightarrow> byte" where
  "sbox a = (let b = gf_inv a in b XOR rotl8 1 b XOR rotl8 2 b XOR rotl8 3 b XOR rotl8 4 b XOR 99)"

definition xor_bytes :: "bytes \<Rightarrow> bytes \<Rightarrow> bytes" where
  "xor_bytes a b = map2 (XOR) a b"

text \<open>The key schedule: four-byte words, the newest first; \<open>i\<close> is the index of the next.\<close>

fun aes_expand :: "nat \<Rightarrow> nat \<Rightarrow> byte \<Rightarrow> bytes list \<Rightarrow> bytes list" where
  "aes_expand 0 i rcon ws = ws"
| "aes_expand (Suc n) i rcon ws =
     (let p = hd ws; base = ws ! 7;
          t = (if i mod 8 = 0 then xor_bytes (map sbox (tl p @ [hd p])) [rcon, 0, 0, 0]
               else if i mod 8 = 4 then map sbox p else p)
      in aes_expand n (Suc i) (if i mod 8 = 0 then xtime rcon else rcon) (xor_bytes base t # ws))"

fun chunks4 :: "bytes \<Rightarrow> bytes list" where
  "chunks4 (a # b # c # d # r) = [a, b, c, d] # chunks4 r"
| "chunks4 r = []"

text \<open>The fifteen round keys of sixteen bytes.\<close>

definition aes_round_keys :: "bytes \<Rightarrow> bytes list" where
  "aes_round_keys k =
     (let w = rev (aes_expand 52 8 1 (rev (chunks4 k)))
      in map (\<lambda>r. concat (map (\<lambda>j. w ! (4 * r + j)) [0..<4])) [0..<15])"

definition shift_rows :: "bytes \<Rightarrow> bytes" where
  "shift_rows s = map (\<lambda>i. s ! (4 * ((i div 4 + i mod 4) mod 4) + i mod 4)) [0..<16]"

definition mix_columns :: "bytes \<Rightarrow> bytes" where
  "mix_columns s =
     map (\<lambda>i. let c = 4 * (i div 4); r = i mod 4
              in xtime (s ! (c + r)) XOR (xtime (s ! (c + (r + 1) mod 4)) XOR s ! (c + (r + 1) mod 4)) XOR
                 s ! (c + (r + 2) mod 4) XOR s ! (c + (r + 3) mod 4)) [0..<16]"

definition add_round_key :: "bytes \<Rightarrow> bytes \<Rightarrow> bytes" where
  "add_round_key k s = map (\<lambda>i. s ! i XOR k ! i) [0..<16]"

definition aes256 :: "bytes \<Rightarrow> bytes \<Rightarrow> bytes" where
  "aes256 k blk =
     (let ks = aes_round_keys k;
          s = foldl (\<lambda>s rk. add_round_key rk (mix_columns (shift_rows (map sbox s))))
                (add_round_key (ks ! 0) blk) (take 13 (drop 1 ks))
      in add_round_key (ks ! 14) (shift_rows (map sbox s)))"

lemma length_aes256 [simp]: "length (aes256 k blk) = 16"
  by (simp add: aes256_def add_round_key_def Let_def)

section \<open>GCM\<close>

definition block_word :: "bytes \<Rightarrow> 128 word" where
  "block_word bs = foldl (\<lambda>w b. push_bit 8 w OR ucast b) 0 bs"

definition word_block :: "128 word \<Rightarrow> bytes" where
  "word_block w = map (\<lambda>i. ucast (drop_bit (120 - 8 * i) w)) [0..<16]"

fun ghash_mul_n :: "nat \<Rightarrow> 128 word \<Rightarrow> 128 word \<Rightarrow> 128 word" where
  "ghash_mul_n 0 x v = 0"
| "ghash_mul_n (Suc n) x v =
     (if bit x 127 then v else 0) XOR
     ghash_mul_n n (push_bit 1 x)
       (if bit v 0 then drop_bit 1 v XOR push_bit 120 225 else drop_bit 1 v)"

definition pad16 :: "bytes \<Rightarrow> bytes" where
  "pad16 m = m @ replicate ((16 - length m mod 16) mod 16) 0"

function ghash_blocks :: "128 word \<Rightarrow> 128 word \<Rightarrow> bytes \<Rightarrow> 128 word" where
  "ghash_blocks h y m =
     (if m = [] then y else ghash_blocks h (ghash_mul_n 128 (y XOR block_word (take 16 m)) h) (drop 16 m))"
  by pat_completeness auto
termination by (relation "measure (\<lambda>(h, y, m). length m)") auto

declare ghash_blocks.simps [simp del]

definition gcm_tag :: "(bytes \<Rightarrow> bytes) \<Rightarrow> bytes \<Rightarrow> bytes \<Rightarrow> bytes \<Rightarrow> bytes" where
  "gcm_tag E nonce aad ct =
     (let h = block_word (E (replicate 16 0));
          y = ghash_blocks h 0 (pad16 aad @ pad16 ct @ be64 (of_nat (8 * length aad)) @ be64 (of_nat (8 * length ct)))
      in word_block (y XOR block_word (E (nonce @ be32 1))))"

function gcm_ctr :: "(bytes \<Rightarrow> bytes) \<Rightarrow> bytes \<Rightarrow> 32 word \<Rightarrow> bytes \<Rightarrow> bytes" where
  "gcm_ctr E nonce c m =
     (if m = [] then [] else xor_bytes (take 16 m) (E (nonce @ be32 c)) @ gcm_ctr E nonce (c + 1) (drop 16 m))"
  by pat_completeness auto
termination by (relation "measure (\<lambda>(E, nonce, c, m). length m)") auto

declare gcm_ctr.simps [simp del]

definition gcm_seal :: "(bytes \<Rightarrow> bytes) \<Rightarrow> bytes \<Rightarrow> bytes \<Rightarrow> bytes \<Rightarrow> bytes" where
  "gcm_seal E nonce plaintext aad =
     (let ct = gcm_ctr E nonce 2 plaintext in ct @ gcm_tag E nonce aad ct)"

definition gcm_open :: "(bytes \<Rightarrow> bytes) \<Rightarrow> bytes \<Rightarrow> bytes \<Rightarrow> bytes \<Rightarrow> bytes result" where
  "gcm_open E nonce sealed aad =
     (let n = length sealed - 16; ct = take n sealed; tag = drop n sealed
      in if length sealed < 16 \<or> gcm_tag E nonce aad ct \<noteq> tag
         then Inl (ErrText ''cipher: message authentication failed'')
         else Inr (gcm_ctr E nonce 2 ct))"

lemma length_xor_bytes [simp]: "length (xor_bytes a b) = min (length a) (length b)"
  by (simp add: xor_bytes_def)

lemma xor_bytes_twice: "length a \<le> length k \<Longrightarrow> xor_bytes (xor_bytes a k) k = a"
  by (rule nth_equalityI) (simp_all add: xor_bytes_def xor.assoc)

lemma length_gcm_tag [simp]: "length (gcm_tag E nonce aad ct) = 16"
  by (simp add: gcm_tag_def word_block_def Let_def)

lemma length_gcm_ctr:
  "(\<And>b. length (E b) = 16) \<Longrightarrow> length (gcm_ctr E nonce c m) = length m"
proof (induction E nonce c m rule: gcm_ctr.induct)
  case (1 E nonce c m)
  then show ?case
    by (subst gcm_ctr.simps) (auto simp: min_def)
qed

lemma gcm_ctr_twice:
  "(\<And>b. length (E b) = 16) \<Longrightarrow> gcm_ctr E nonce c (gcm_ctr E nonce c m) = m"
proof (induction E nonce c m rule: gcm_ctr.induct)
  case (1 E nonce c m)
  show ?case
  proof (cases "m = []")
    case True
    then show ?thesis by (simp add: gcm_ctr.simps)
  next
    case False
    let ?k = "E (nonce @ be32 c)"
    let ?x = "xor_bytes (take 16 m) ?k" and ?r = "gcm_ctr E nonce (c + 1) (drop 16 m)"
    have ctr: "gcm_ctr E nonce c m = ?x @ ?r"
      using False by (subst gcm_ctr.simps) simp
    have k: "length ?k = 16" by (rule 1)
    have twice: "xor_bytes ?x ?k = take 16 m"
      using k by (intro xor_bytes_twice) simp
    show ?thesis
    proof (cases "length m \<le> 16")
      case True
      then have r: "?r = []" by (simp add: gcm_ctr.simps)
      have "take 16 ?x = ?x" "drop 16 ?x = []"
        using True k by simp_all
      moreover have "?x \<noteq> []"
        using False k by (metis length_greater_0_conv length_xor_bytes length_take min_less_iff_conj zero_less_numeral)
      ultimately have "gcm_ctr E nonce c ?x = xor_bytes ?x ?k @ gcm_ctr E nonce (c + 1) []"
        by (subst gcm_ctr.simps) simp
      then show ?thesis
        using True twice by (simp add: ctr r gcm_ctr.simps [of _ _ _ "[]"])
    next
      case long: False
      then have l: "length ?x = 16" using k by simp
      then have "gcm_ctr E nonce c (?x @ ?r) = xor_bytes ?x ?k @ gcm_ctr E nonce (c + 1) ?r"
        by (subst gcm_ctr.simps) (auto simp del: length_xor_bytes)
      then show ?thesis
        using 1 False twice by (simp add: ctr)
    qed
  qed
qed

lemma gcm_open_seal:
  assumes "\<And>b. length (E b) = 16"
  shows "gcm_open E nonce (gcm_seal E nonce m aad) aad = Inr m"
  by (simp add: gcm_open_def gcm_seal_def Let_def gcm_ctr_twice [OF assms])

lemma length_gcm_seal:
  assumes "\<And>b. length (E b) = 16"
  shows "length (gcm_seal E nonce m aad) = length m + 16"
  by (simp add: gcm_seal_def Let_def length_gcm_ctr [OF assms])

end
