(* ===== verification/Messages.thy ===== *)
theory Messages
  imports Json
begin

text \<open>
  \<open>Marshal\<close> and \<open>Unmarshal\<close> of \<open>internal/protocol/protocol.go\<close> on the message types
  of the mailbox: the JSON text of each struct by its field tags, RFC 3339 times,
  and the decoding of a text into a struct.

  The lemmas show that decoding an encoded message gives the message back, and that
  a host name that is not valid UTF-8 does not survive the trip.
\<close>

section \<open>Times\<close>

definition leap :: "nat \<Rightarrow> bool" where
  "leap y \<longleftrightarrow> y mod 4 = 0 \<and> (y mod 100 \<noteq> 0 \<or> y mod 400 = 0)"

definition days_in :: "nat \<Rightarrow> nat \<Rightarrow> nat" where
  "days_in m y = (if m = 2 then (if leap y then 29 else 28) else if m \<in> {4, 6, 9, 11} then 30 else 31)"

definition zero_time :: gotime where
  "zero_time = \<lparr>tm_year = 1, tm_month = 1, tm_day = 1, tm_hour = 0, tm_minute = 0, tm_second = 0,
     tm_nanos = 0, tm_offset = 0\<rparr>"

definition dd :: "nat \<Rightarrow> string" where
  "dd n = zero_pad 2 (itoa n)"

definition zone_text :: "int \<Rightarrow> string" where
  "zone_text off =
     (if off = 0 then ''Z''
      else let a = nat \<bar>off\<bar> in (if off < 0 then ''-'' else ''+'') @ dd (a div 60) @ '':'' @ dd (a mod 60))"

definition frac_text :: "nat \<Rightarrow> string" where
  "frac_text n = (if n = 0 then [] else ''.'' @ trimRight (zero_pad 9 (itoa n)) ''0'')"

text \<open>\<open>time.RFC3339Nano\<close>\<close>

definition time_text :: "gotime \<Rightarrow> string" where
  "time_text t =
     zero_pad 4 (itoa (tm_year t)) @ ''-'' @ dd (tm_month t) @ ''-'' @ dd (tm_day t) @ ''T'' @
     dd (tm_hour t) @ '':'' @ dd (tm_minute t) @ '':'' @ dd (tm_second t) @
     frac_text (tm_nanos t) @ zone_text (tm_offset t)"

text \<open>A numeral of exactly \<open>n\<close> digits at the head, and what follows.\<close>

definition take_num :: "nat \<Rightarrow> string \<Rightarrow> (nat \<times> string) option" where
  "take_num n s =
     (if n \<le> length s \<and> (\<forall>c \<in> set (take n s). is_digit c) then Some (digits_val (take n s), drop n s) else None)"

definition take_char :: "char \<Rightarrow> string \<Rightarrow> string option" where
  "take_char c s = (case s of [] \<Rightarrow> None | d # r \<Rightarrow> if d = c then Some r else None)"

definition take_frac :: "string \<Rightarrow> nat \<times> string" where
  "take_frac s =
     (case s of
        c # r \<Rightarrow>
          let ds = takeWhile is_digit r
          in if c = CHR ''.'' \<and> ds \<noteq> [] then
               (digits_val (take 9 (ds @ replicate 9 (CHR ''0''))), dropWhile is_digit r)
             else (0, s)
      | [] \<Rightarrow> (0, s))"

definition take_zone :: "string \<Rightarrow> int option" where
  "take_zone s =
     (if s = ''Z'' then Some 0
      else case s of
        [] \<Rightarrow> None
      | c # r \<Rightarrow>
          if c = CHR ''+'' \<or> c = CHR ''-'' then
            Option.bind (take_num 2 r) (\<lambda>(h, r1).
            Option.bind (take_char (CHR '':'') r1) (\<lambda>r2.
            Option.bind (take_num 2 r2) (\<lambda>(m, r3).
              if r3 = [] \<and> h < 24 \<and> m < 60
              then Some (if c = CHR ''-'' then - int (60 * h + m) else int (60 * h + m))
              else None)))
          else None)"

definition parse_time :: "string \<Rightarrow> gotime option" where
  "parse_time s =
     Option.bind (take_num 4 s) (\<lambda>(y, s1).
     Option.bind (take_char (CHR ''-'') s1) (\<lambda>s2.
     Option.bind (take_num 2 s2) (\<lambda>(mo, s3).
     Option.bind (take_char (CHR ''-'') s3) (\<lambda>s4.
     Option.bind (take_num 2 s4) (\<lambda>(d, s5).
     Option.bind (take_char (CHR ''T'') s5) (\<lambda>s6.
     Option.bind (take_num 2 s6) (\<lambda>(h, s7).
     Option.bind (take_char (CHR '':'') s7) (\<lambda>s8.
     Option.bind (take_num 2 s8) (\<lambda>(mi, s9).
     Option.bind (take_char (CHR '':'') s9) (\<lambda>s10.
     Option.bind (take_num 2 s10) (\<lambda>(sec, s11).
     case take_frac s11 of (ns, s12) \<Rightarrow>
     Option.bind (take_zone s12) (\<lambda>off.
       if 1 \<le> mo \<and> mo \<le> 12 \<and> 1 \<le> d \<and> d \<le> days_in mo y \<and> h < 24 \<and> mi < 60 \<and> sec < 60
       then Some \<lparr>tm_year = y, tm_month = mo, tm_day = d, tm_hour = h, tm_minute = mi, tm_second = sec,
              tm_nanos = ns, tm_offset = off\<rparr>
       else None))))))))))))"

definition wf_time :: "gotime \<Rightarrow> bool" where
  "wf_time t \<longleftrightarrow> tm_year t < 10000 \<and> 1 \<le> tm_month t \<and> tm_month t \<le> 12 \<and> 1 \<le> tm_day t \<and>
     tm_day t \<le> days_in (tm_month t) (tm_year t) \<and> tm_hour t < 24 \<and> tm_minute t < 60 \<and> tm_second t < 60 \<and>
     tm_nanos t < 10 ^ 9 \<and> \<bar>tm_offset t\<bar> < 1440"

section \<open>Encoding\<close>

definition json_int :: "int \<Rightarrow> json" where "json_int i = JNum (itoa_int i)"
definition json_time :: "gotime \<Rightarrow> json" where "json_time t = JStr (time_text t)"

definition omitempty :: "string \<Rightarrow> string \<Rightarrow> (string \<times> json) list" where
  "omitempty name s = (if s = [] then [] else [(name, JStr s)])"

definition json_Target :: "Target \<Rightarrow> json" where
  "json_Target t = JObj [(''type'', JStr (tgt_type t)), (''host'', JStr (tgt_host t)),
     (''port'', json_int (int (unat (tgt_port t))))]"

definition json_OpenRequest :: "OpenRequest \<Rightarrow> json" where
  "json_OpenRequest r = JObj [(''version'', json_int (req_version r)), (''session_id'', JStr (req_session r)),
     (''target'', json_Target (req_target r)), (''max_receive_chunk_size'', json_int (req_max_receive r)),
     (''created_at'', json_time (req_created r))]"

definition json_OpenResult :: "OpenResult \<Rightarrow> json" where
  "json_OpenResult r = JObj ([(''version'', json_int (res_version r)), (''session_id'', JStr (res_session r)),
     (''accepted'', JBool (res_accepted r))] @ omitempty ''error'' (res_error r) @
     [(''max_receive_chunk_size'', json_int (res_max_receive r)), (''created_at'', json_time (res_created r))])"

definition json_Ack :: "Ack \<Rightarrow> json" where
  "json_Ack a = JObj [(''version'', json_int (ack_version a)), (''session_id'', JStr (ack_session a)),
     (''direction'', JStr (ack_direction a)), (''next_seq'', json_int (int (unat (ack_next_seq a)))),
     (''updated_at'', json_time (ack_updated a))]"

definition json_Close :: "Close \<Rightarrow> json" where
  "json_Close c = JObj ([(''version'', json_int (cl_version c)), (''session_id'', JStr (cl_session c)),
     (''side'', JStr (cl_side c))] @ omitempty ''reason'' (cl_reason c) @
     [(''created_at'', json_time (cl_created c))])"

definition json_Heartbeat :: "Heartbeat \<Rightarrow> json" where
  "json_Heartbeat h = JObj [(''version'', json_int (hb_version h)), (''session_id'', JStr (hb_session h)),
     (''side'', JStr (hb_side h)), (''updated_at'', json_time (hb_updated h))]"

text \<open>\<open>Marshal\<close>: the text of the value, or the error of a time it cannot show.\<close>

definition marshal :: "gotime \<Rightarrow> json \<Rightarrow> bytes result" where
  "marshal t j =
     (if tm_year t < 10000 \<and> \<bar>tm_offset t\<bar> < 1440 then Inr (bytes_of (enc j))
      else Inl (ErrText ''json: error calling MarshalJSON for type time.Time''))"

definition Marshal_OpenRequest :: "OpenRequest \<Rightarrow> bytes result" where
  "Marshal_OpenRequest r = marshal (req_created r) (json_OpenRequest r)"
definition Marshal_OpenResult :: "OpenResult \<Rightarrow> bytes result" where
  "Marshal_OpenResult r = marshal (res_created r) (json_OpenResult r)"
definition Marshal_Ack :: "Ack \<Rightarrow> bytes result" where
  "Marshal_Ack a = marshal (ack_updated a) (json_Ack a)"
definition Marshal_Close :: "Close \<Rightarrow> bytes result" where
  "Marshal_Close c = marshal (cl_created c) (json_Close c)"
definition Marshal_Heartbeat :: "Heartbeat \<Rightarrow> bytes result" where
  "Marshal_Heartbeat h = marshal (hb_updated h) (json_Heartbeat h)"

section \<open>Decoding\<close>

text \<open>How a field takes a JSON value: \<open>None\<close> is a type error.\<close>

definition set_str :: "(string \<Rightarrow> 'r \<Rightarrow> 'r) \<Rightarrow> json \<Rightarrow> 'r \<Rightarrow> 'r option" where
  "set_str upd v r = (case v of JNull \<Rightarrow> Some r | JStr s \<Rightarrow> Some (upd s r) | _ \<Rightarrow> None)"

definition set_bool :: "(bool \<Rightarrow> 'r \<Rightarrow> 'r) \<Rightarrow> json \<Rightarrow> 'r \<Rightarrow> 'r option" where
  "set_bool upd v r = (case v of JNull \<Rightarrow> Some r | JBool b \<Rightarrow> Some (upd b r) | _ \<Rightarrow> None)"

definition set_int :: "(int \<Rightarrow> 'r \<Rightarrow> 'r) \<Rightarrow> json \<Rightarrow> 'r \<Rightarrow> 'r option" where
  "set_int upd v r =
     (case v of JNull \<Rightarrow> Some r
      | JNum t \<Rightarrow> map_option (\<lambda>i. upd i r) (parse_int64 t) | _ \<Rightarrow> None)"

definition set_uint :: "nat \<Rightarrow> (nat \<Rightarrow> 'r \<Rightarrow> 'r) \<Rightarrow> json \<Rightarrow> 'r \<Rightarrow> 'r option" where
  "set_uint bits upd v r =
     (case v of JNull \<Rightarrow> Some r
      | JNum t \<Rightarrow> (case parse_uint bits t of Inl _ \<Rightarrow> None | Inr n \<Rightarrow> Some (upd n r)) | _ \<Rightarrow> None)"

definition set_time :: "(gotime \<Rightarrow> 'r \<Rightarrow> 'r) \<Rightarrow> json \<Rightarrow> 'r \<Rightarrow> 'r option" where
  "set_time upd v r =
     (case v of JNull \<Rightarrow> Some r
      | JStr s \<Rightarrow> map_option (\<lambda>t. upd t r) (parse_time s) | _ \<Rightarrow> None)"

type_synonym 'r fields = "(string \<times> (json \<Rightarrow> 'r \<Rightarrow> 'r option)) list"

definition find_field :: "'r fields \<Rightarrow> string \<Rightarrow> (json \<Rightarrow> 'r \<Rightarrow> 'r option) option" where
  "find_field fs k =
     (case map_of fs k of
        Some f \<Rightarrow> Some f
      | None \<Rightarrow> map_option snd (find (\<lambda>(name, f). toLower name = toLower k) fs))"

fun set_fields :: "'r fields \<Rightarrow> (string \<times> json) list \<Rightarrow> 'r \<Rightarrow> 'r option" where
  "set_fields fs [] r = Some r"
| "set_fields fs ((k, v) # ms) r =
     (case find_field fs k of
        None \<Rightarrow> set_fields fs ms r
      | Some f \<Rightarrow> (case f v r of None \<Rightarrow> None | Some r' \<Rightarrow> set_fields fs ms r'))"

definition decode :: "'r fields \<Rightarrow> json \<Rightarrow> 'r \<Rightarrow> 'r option" where
  "decode fs v r = (case v of JNull \<Rightarrow> Some r | JObj ms \<Rightarrow> set_fields fs ms r | _ \<Rightarrow> None)"

definition Target_fields :: "Target fields" where
  "Target_fields =
     [(''type'', set_str (\<lambda>s r. r\<lparr>tgt_type := s\<rparr>)), (''host'', set_str (\<lambda>s r. r\<lparr>tgt_host := s\<rparr>)),
      (''port'', set_uint 16 (\<lambda>n r. r\<lparr>tgt_port := of_nat n\<rparr>))]"

definition OpenRequest_fields :: "OpenRequest fields" where
  "OpenRequest_fields =
     [(''version'', set_int (\<lambda>i r. r\<lparr>req_version := i\<rparr>)), (''session_id'', set_str (\<lambda>s r. r\<lparr>req_session := s\<rparr>)),
      (''target'', \<lambda>v r. map_option (\<lambda>t. r\<lparr>req_target := t\<rparr>) (decode Target_fields v (req_target r))),
      (''max_receive_chunk_size'', set_int (\<lambda>i r. r\<lparr>req_max_receive := i\<rparr>)),
      (''created_at'', set_time (\<lambda>t r. r\<lparr>req_created := t\<rparr>))]"

definition OpenResult_fields :: "OpenResult fields" where
  "OpenResult_fields =
     [(''version'', set_int (\<lambda>i r. r\<lparr>res_version := i\<rparr>)), (''session_id'', set_str (\<lambda>s r. r\<lparr>res_session := s\<rparr>)),
      (''accepted'', set_bool (\<lambda>b r. r\<lparr>res_accepted := b\<rparr>)), (''error'', set_str (\<lambda>s r. r\<lparr>res_error := s\<rparr>)),
      (''max_receive_chunk_size'', set_int (\<lambda>i r. r\<lparr>res_max_receive := i\<rparr>)),
      (''created_at'', set_time (\<lambda>t r. r\<lparr>res_created := t\<rparr>))]"

definition Ack_fields :: "Ack fields" where
  "Ack_fields =
     [(''version'', set_int (\<lambda>i r. r\<lparr>ack_version := i\<rparr>)), (''session_id'', set_str (\<lambda>s r. r\<lparr>ack_session := s\<rparr>)),
      (''direction'', set_str (\<lambda>s r. r\<lparr>ack_direction := s\<rparr>)),
      (''next_seq'', set_uint 64 (\<lambda>n r. r\<lparr>ack_next_seq := of_nat n\<rparr>)),
      (''updated_at'', set_time (\<lambda>t r. r\<lparr>ack_updated := t\<rparr>))]"

definition Close_fields :: "Close fields" where
  "Close_fields =
     [(''version'', set_int (\<lambda>i r. r\<lparr>cl_version := i\<rparr>)), (''session_id'', set_str (\<lambda>s r. r\<lparr>cl_session := s\<rparr>)),
      (''side'', set_str (\<lambda>s r. r\<lparr>cl_side := s\<rparr>)), (''reason'', set_str (\<lambda>s r. r\<lparr>cl_reason := s\<rparr>)),
      (''created_at'', set_time (\<lambda>t r. r\<lparr>cl_created := t\<rparr>))]"

definition Heartbeat_fields :: "Heartbeat fields" where
  "Heartbeat_fields =
     [(''version'', set_int (\<lambda>i r. r\<lparr>hb_version := i\<rparr>)), (''session_id'', set_str (\<lambda>s r. r\<lparr>hb_session := s\<rparr>)),
      (''side'', set_str (\<lambda>s r. r\<lparr>hb_side := s\<rparr>)), (''updated_at'', set_time (\<lambda>t r. r\<lparr>hb_updated := t\<rparr>))]"

text \<open>\<open>Unmarshal\<close> into the zero value of the type.\<close>

definition unmarshal :: "'r fields \<Rightarrow> 'r \<Rightarrow> bytes \<Rightarrow> 'r result" where
  "unmarshal fs zero data =
     (case parse_json (string_of data) of
        None \<Rightarrow> Inl (ErrText ''json: invalid text'')
      | Some j \<Rightarrow> (case decode fs j zero of
            None \<Rightarrow> Inl (ErrText ''json: cannot unmarshal value'')
          | Some r \<Rightarrow> Inr r))"

definition zero_Target :: Target where
  "zero_Target = \<lparr>tgt_type = [], tgt_host = [], tgt_port = 0\<rparr>"

definition Unmarshal_OpenRequest :: "bytes \<Rightarrow> OpenRequest result" where
  "Unmarshal_OpenRequest = unmarshal OpenRequest_fields
     \<lparr>req_version = 0, req_session = [], req_target = zero_Target, req_max_receive = 0, req_created = zero_time\<rparr>"
definition Unmarshal_OpenResult :: "bytes \<Rightarrow> OpenResult result" where
  "Unmarshal_OpenResult = unmarshal OpenResult_fields
     \<lparr>res_version = 0, res_session = [], res_accepted = False, res_error = [], res_max_receive = 0,
      res_created = zero_time\<rparr>"
definition Unmarshal_Ack :: "bytes \<Rightarrow> Ack result" where
  "Unmarshal_Ack = unmarshal Ack_fields
     \<lparr>ack_version = 0, ack_session = [], ack_direction = [], ack_next_seq = 0, ack_updated = zero_time\<rparr>"
definition Unmarshal_Close :: "bytes \<Rightarrow> Close result" where
  "Unmarshal_Close = unmarshal Close_fields
     \<lparr>cl_version = 0, cl_session = [], cl_side = [], cl_reason = [], cl_created = zero_time\<rparr>"
definition Unmarshal_Heartbeat :: "bytes \<Rightarrow> Heartbeat result" where
  "Unmarshal_Heartbeat = unmarshal Heartbeat_fields
     \<lparr>hb_version = 0, hb_session = [], hb_side = [], hb_updated = zero_time\<rparr>"

section \<open>Times are read back\<close>

lemma zero_pad_digits: "c \<in> set (zero_pad w (itoa k)) \<Longrightarrow> is_digit c"
  by (auto simp: zero_pad_def dest: itoa_digits split: if_splits)

lemma take_num_pad:
  assumes "k < 10 ^ n" and "0 < n"
  shows "take_num n (zero_pad n (itoa k) @ r) = Some (k, r)"
proof -
  have "length (zero_pad n (itoa k)) = n"
    using assms by (rule length_zero_pad_itoa)
  moreover have "digits_val (zero_pad n (itoa k)) = k"
    by (simp add: zero_pad_def digits_val_zeros)
  ultimately show ?thesis
    using zero_pad_digits [of _ n k] by (simp add: take_num_def)
qed

lemma take_num_dd: "k < 100 \<Longrightarrow> take_num 2 (dd k @ r) = Some (k, r)"
  unfolding dd_def by (rule take_num_pad) simp_all

lemma take_zone_text: "\<bar>off\<bar> < 1440 \<Longrightarrow> take_zone (zone_text off) = Some off"
proof -
  assume off: "\<bar>off\<bar> < 1440"
  let ?a = "nat \<bar>off\<bar>"
  have a: "?a div 60 < 24" "?a mod 60 < 60"
    using off by (simp_all add: less_mult_imp_div_less)
  then have h: "take_num 2 (dd (?a div 60) @ s) = Some (?a div 60, s)"
    "take_num 2 (dd (?a mod 60)) = Some (?a mod 60, [])" for s
    using take_num_dd [of "?a div 60" s] take_num_dd [of "?a mod 60" "[]"] by simp_all
  have v: "int (60 * (?a div 60) + ?a mod 60) = \<bar>off\<bar>"
    by simp
  show ?thesis
  proof (cases "off = 0")
    case False
    have ne: "c # s \<noteq> ''Z''" if "c = CHR ''+'' \<or> c = CHR ''-''" for c s
      using that by auto
    show ?thesis
      using False a v h ne
      by (cases "off < 0") (simp_all add: take_zone_def zone_text_def Let_def take_char_def)
  qed (simp add: take_zone_def zone_text_def)
qed

lemma zone_text_hd: "\<exists>c r. zone_text off = c # r \<and> \<not> is_digit c \<and> c \<noteq> CHR ''.''"
  by (simp add: zone_text_def Let_def is_digit_def less_eq_char_def)

lemma take_frac_text:
  assumes "n < 10 ^ 9"
  shows "take_frac (frac_text n @ zone_text off) = (n, zone_text off)"
proof -
  obtain c r where z: "zone_text off = c # r" "\<not> is_digit c" "c \<noteq> CHR ''.''"
    using zone_text_hd by blast
  show ?thesis
  proof (cases "n = 0")
    case True
    then show ?thesis using z by (simp add: frac_text_def take_frac_def)
  next
    case False
    let ?s = "zero_pad 9 (itoa n)"
    let ?t = "trimRight ?s ''0''"
    obtain u where u: "?s = ?t @ u" "\<forall>c \<in> set u. c = CHR ''0''"
    proof -
      let ?P = "\<lambda>c. c \<in> set ''0''"
      have "rev ?s = takeWhile ?P (rev ?s) @ dropWhile ?P (rev ?s)" by simp
      then have "?s = ?t @ rev (takeWhile ?P (rev ?s))"
        unfolding trimRight_def by (metis rev_append rev_rev_ident)
      moreover have "\<forall>c \<in> set (rev (takeWhile ?P (rev ?s))). c = CHR ''0''"
        by (auto dest: set_takeWhileD)
      ultimately show ?thesis using that by blast
    qed
    have len: "length ?s = 9" using assms by (intro length_zero_pad_itoa) simp_all
    have rep: "u = replicate (length u) (CHR ''0'')"
      using u(2) by (metis replicate_length_same)
    have val: "digits_val ?s = n"
      by (simp add: zero_pad_def digits_val_zeros)
    have tn: "?t \<noteq> []"
    proof
      assume "?t = []"
      then have "?s = replicate (length u) (CHR ''0'') @ []" using u(1) rep by simp
      then have "digits_val ?s = 0" using digits_val_zeros [of "length u" "[]"] by (simp add: digits_val_def)
      with val False show False by simp
    qed
    have td: "\<forall>c \<in> set ?t. is_digit c"
      using u(1) zero_pad_digits [of _ 9 n] by (metis UnCI set_append)
    have pad: "take 9 (?t @ replicate 9 (CHR ''0'')) = ?s"
    proof -
      have "length ?t + length u = 9" using len u(1) by (metis length_append)
      then have "take 9 (?t @ replicate 9 (CHR ''0'')) = ?t @ replicate (length u) (CHR ''0'')"
        by simp
      with u(1) rep show ?thesis by simp
    qed
    have "takeWhile is_digit (?t @ zone_text off) = ?t" "dropWhile is_digit (?t @ zone_text off) = zone_text off"
      using td z by (simp_all add: takeWhile_append dropWhile_append)
    then show ?thesis
      using False tn pad val by (simp add: frac_text_def take_frac_def)
  qed
qed

lemma parse_time_text:
  assumes "wf_time t"
  shows "parse_time (time_text t) = Some t"
proof -
  have d: "tm_day t < 100"
    using assms by (auto simp: wf_time_def days_in_def split: if_splits)
  have n: "take_num 4 (zero_pad 4 (itoa (tm_year t)) @ r) = Some (tm_year t, r)" for r
    using assms by (intro take_num_pad) (simp_all add: wf_time_def)
  have "take_num 2 (dd (tm_month t) @ r) = Some (tm_month t, r)" "take_num 2 (dd (tm_day t) @ r) = Some (tm_day t, r)"
    "take_num 2 (dd (tm_hour t) @ r) = Some (tm_hour t, r)" "take_num 2 (dd (tm_minute t) @ r) = Some (tm_minute t, r)"
    "take_num 2 (dd (tm_second t) @ r) = Some (tm_second t, r)" for r
    using assms d by (simp_all add: take_num_dd wf_time_def)
  moreover have "take_frac (frac_text (tm_nanos t) @ zone_text (tm_offset t)) = (tm_nanos t, zone_text (tm_offset t))"
    "take_zone (zone_text (tm_offset t)) = Some (tm_offset t)"
    using assms by (simp_all add: take_frac_text take_zone_text wf_time_def)
  ultimately show ?thesis
    using assms n by (simp add: parse_time_def time_text_def take_char_def wf_time_def)
qed

lemma ascii_simps [simp]: "ascii []" "ascii (c # s) \<longleftrightarrow> code c < 128 \<and> ascii s"
  "ascii (s @ t) \<longleftrightarrow> ascii s \<and> ascii t"
  by (auto simp: ascii_def)

lemma ascii_digits: "(\<And>c. c \<in> set s \<Longrightarrow> is_digit c) \<Longrightarrow> ascii s"
  by (fastforce simp: ascii_def is_digit_def less_eq_char_def)

lemma ascii_time_text: "ascii (time_text t)"
proof -
  have z: "ascii (zero_pad w (itoa k))" for w k
    by (rule ascii_digits) (rule zero_pad_digits)
  have "ascii (trimRight (zero_pad 9 (itoa (tm_nanos t))) ''0'')"
    using z [of 9 "tm_nanos t"] trimRight_prefix [of "zero_pad 9 (itoa (tm_nanos t))" "''0''"] by (metis ascii_simps(3))
  then show ?thesis
    using z by (simp add: time_text_def dd_def frac_text_def zone_text_def Let_def)
qed

section \<open>Messages are read back\<close>

text \<open>A message with its strings made valid UTF-8.\<close>

definition clean_OpenRequest :: "OpenRequest \<Rightarrow> OpenRequest" where
  "clean_OpenRequest r = r\<lparr>req_session := utf8_text (req_session r),
     req_target := \<lparr>tgt_type = utf8_text (tgt_type (req_target r)), tgt_host = utf8_text (tgt_host (req_target r)),
       tgt_port = tgt_port (req_target r)\<rparr>\<rparr>"

definition clean_OpenResult :: "OpenResult \<Rightarrow> OpenResult" where
  "clean_OpenResult r = r\<lparr>res_session := utf8_text (res_session r), res_error := utf8_text (res_error r)\<rparr>"

definition clean_Ack :: "Ack \<Rightarrow> Ack" where
  "clean_Ack a = a\<lparr>ack_session := utf8_text (ack_session a), ack_direction := utf8_text (ack_direction a)\<rparr>"

definition clean_Close :: "Close \<Rightarrow> Close" where
  "clean_Close c = c\<lparr>cl_session := utf8_text (cl_session c), cl_side := utf8_text (cl_side c),
     cl_reason := utf8_text (cl_reason c)\<rparr>"

definition clean_Heartbeat :: "Heartbeat \<Rightarrow> Heartbeat" where
  "clean_Heartbeat h = h\<lparr>hb_session := utf8_text (hb_session h), hb_side := utf8_text (hb_side h)\<rparr>"

lemma unmarshal_marshal:
  assumes "wf_time t" and "wf_json j" and "decode fs (norm j) zero = Some r"
  shows "ebind (marshal t j) (unmarshal fs zero) = Inr r"
  using assms by (simp add: marshal_def unmarshal_def parse_json_enc wf_time_def)

lemma wf_json_int [simp]: "wf_json (json_int i)"
  by (simp add: json_int_def wf_num_itoa_int)

lemma wf_json_time [simp]: "wf_json (json_time t)"
  by (simp add: json_time_def)

lemma norm_json_int [simp]: "norm (json_int i) = json_int i"
  by (simp add: json_int_def)

lemma norm_json_time [simp]: "norm (json_time t) = json_time t"
  by (simp add: json_time_def utf8_text_ascii ascii_time_text)

lemma utf8_text_Nil [simp]: "utf8_text [] = []"
  by (simp add: utf8_text_def)

lemma decode_obj [simp]: "decode fs (JObj ms) r = set_fields fs ms r"
  by (simp add: decode_def)

lemma set_int_json [simp]: "- (2 ^ 63) \<le> i \<Longrightarrow> i < 2 ^ 63 \<Longrightarrow> set_int upd (json_int i) r = Some (upd i r)"
  by (simp add: set_int_def json_int_def parse_int64_itoa)

lemma set_time_json [simp]: "wf_time t \<Longrightarrow> set_time upd (json_time t) r = Some (upd t r)"
  by (simp add: set_time_def json_time_def parse_time_text)

lemma set_str_json [simp]: "set_str upd (JStr s) r = Some (upd s r)"
  by (simp add: set_str_def)

lemma set_bool_json [simp]: "set_bool upd (JBool b) r = Some (upd b r)"
  by (simp add: set_bool_def)

lemma set_uint_json [simp]: "n < 2 ^ bits \<Longrightarrow> set_uint bits upd (json_int (int n)) r = Some (upd n r)"
  by (simp add: set_uint_def json_int_def itoa_int_def parse_uint_itoa)

lemma unat_lt16 [simp]: "unat (w :: u16) < 65536"
  using unsigned_less [where ?'a = nat, of w] by simp

lemma unat_lt64 [simp]: "unat (w :: u64) < 18446744073709551616"
  using unsigned_less [where ?'a = nat, of w] by simp

lemma set_u16_json [simp]: "set_uint 16 upd (json_int (uint (w :: u16))) r = Some (upd (unat w) r)"
  using set_uint_json [of "unat w" 16 upd r] by simp

lemma set_u64_json [simp]: "set_uint 64 upd (json_int (uint (w :: u64))) r = Some (upd (unat w) r)"
  using set_uint_json [of "unat w" 64 upd r] by simp

definition int64 :: "int \<Rightarrow> bool" where
  "int64 i \<longleftrightarrow> - (2 ^ 63) \<le> i \<and> i < 2 ^ 63"

definition wf_OpenRequest :: "OpenRequest \<Rightarrow> bool" where
  "wf_OpenRequest r \<longleftrightarrow> int64 (req_version r) \<and> int64 (req_max_receive r) \<and> wf_time (req_created r)"

definition wf_OpenResult :: "OpenResult \<Rightarrow> bool" where
  "wf_OpenResult r \<longleftrightarrow> int64 (res_version r) \<and> int64 (res_max_receive r) \<and> wf_time (res_created r)"

definition wf_Ack :: "Ack \<Rightarrow> bool" where
  "wf_Ack a \<longleftrightarrow> int64 (ack_version a) \<and> wf_time (ack_updated a)"

definition wf_Close :: "Close \<Rightarrow> bool" where
  "wf_Close c \<longleftrightarrow> int64 (cl_version c) \<and> wf_time (cl_created c)"

definition wf_Heartbeat :: "Heartbeat \<Rightarrow> bool" where
  "wf_Heartbeat h \<longleftrightarrow> int64 (hb_version h) \<and> wf_time (hb_updated h)"

lemmas wf_message_defs = wf_OpenRequest_def wf_OpenResult_def wf_Ack_def wf_Close_def wf_Heartbeat_def int64_def

lemma field_names:
  "utf8_text ''version'' = ''version''" "utf8_text ''session_id'' = ''session_id''" "utf8_text ''target'' = ''target''"
  "utf8_text ''type'' = ''type''" "utf8_text ''host'' = ''host''" "utf8_text ''port'' = ''port''"
  "utf8_text ''max_receive_chunk_size'' = ''max_receive_chunk_size''" "utf8_text ''created_at'' = ''created_at''"
  "utf8_text ''accepted'' = ''accepted''" "utf8_text ''error'' = ''error''" "utf8_text ''direction'' = ''direction''"
  "utf8_text ''next_seq'' = ''next_seq''" "utf8_text ''updated_at'' = ''updated_at''" "utf8_text ''side'' = ''side''"
  "utf8_text ''reason'' = ''reason''"
  by (simp_all add: utf8_text_ascii)

lemma unmarshal_OpenRequest:
  assumes "wf_OpenRequest r"
  shows "ebind (Marshal_OpenRequest r) Unmarshal_OpenRequest = Inr (clean_OpenRequest r)"
  unfolding Marshal_OpenRequest_def Unmarshal_OpenRequest_def
proof (rule unmarshal_marshal)
  let ?z = "\<lparr>req_version = 0, req_session = [], req_target = zero_Target, req_max_receive = 0, req_created = zero_time\<rparr>"
  have "decode Target_fields (norm (json_Target (req_target r))) zero_Target = Some (req_target (clean_OpenRequest r))"
    by (simp add: json_Target_def Target_fields_def find_field_def zero_Target_def field_names clean_OpenRequest_def)
  then show "decode OpenRequest_fields (norm (json_OpenRequest r)) ?z = Some (clean_OpenRequest r)"
    using assms by (simp add: json_OpenRequest_def OpenRequest_fields_def
        find_field_def wf_message_defs field_names clean_OpenRequest_def)
qed (use assms in \<open>simp_all add: wf_message_defs json_OpenRequest_def json_Target_def\<close>)

lemma unmarshal_OpenResult:
  assumes "wf_OpenResult r"
  shows "ebind (Marshal_OpenResult r) Unmarshal_OpenResult = Inr (clean_OpenResult r)"
  unfolding Marshal_OpenResult_def Unmarshal_OpenResult_def
  by (rule unmarshal_marshal; use assms in \<open>cases "res_error r = []";
      simp add: json_OpenResult_def OpenResult_fields_def find_field_def omitempty_def wf_message_defs
        field_names clean_OpenResult_def\<close>)

lemma unmarshal_Ack:
  assumes "wf_Ack a"
  shows "ebind (Marshal_Ack a) Unmarshal_Ack = Inr (clean_Ack a)"
  unfolding Marshal_Ack_def Unmarshal_Ack_def
  by (rule unmarshal_marshal; use assms in
      \<open>simp add: json_Ack_def Ack_fields_def find_field_def wf_message_defs field_names clean_Ack_def\<close>)

lemma unmarshal_Close:
  assumes "wf_Close c"
  shows "ebind (Marshal_Close c) Unmarshal_Close = Inr (clean_Close c)"
  unfolding Marshal_Close_def Unmarshal_Close_def
  by (rule unmarshal_marshal; use assms in \<open>cases "cl_reason c = []";
      simp add: json_Close_def Close_fields_def find_field_def omitempty_def wf_message_defs
        field_names clean_Close_def\<close>)

lemma unmarshal_Heartbeat:
  assumes "wf_Heartbeat h"
  shows "ebind (Marshal_Heartbeat h) Unmarshal_Heartbeat = Inr (clean_Heartbeat h)"
  unfolding Marshal_Heartbeat_def Unmarshal_Heartbeat_def
  by (rule unmarshal_marshal; use assms in
      \<open>simp add: json_Heartbeat_def Heartbeat_fields_def find_field_def wf_message_defs field_names
        clean_Heartbeat_def\<close>)

text \<open>
  C15: each of the five messages, encoded and decoded again, is the message with its
  strings made valid UTF-8; versions, sizes, sequence numbers, flags, targets'
  ports and times come back unchanged, over all 64-bit values and all times of the
  years 0 to 9999.
\<close>

theorem messages_roundtrip:
  assumes "wf_OpenRequest req" and "wf_OpenResult res" and "wf_Ack ack" and "wf_Close cl" and "wf_Heartbeat hb"
  shows "ebind (Marshal_OpenRequest req) Unmarshal_OpenRequest = Inr (clean_OpenRequest req) \<and>
    ebind (Marshal_OpenResult res) Unmarshal_OpenResult = Inr (clean_OpenResult res) \<and>
    ebind (Marshal_Ack ack) Unmarshal_Ack = Inr (clean_Ack ack) \<and>
    ebind (Marshal_Close cl) Unmarshal_Close = Inr (clean_Close cl) \<and>
    ebind (Marshal_Heartbeat hb) Unmarshal_Heartbeat = Inr (clean_Heartbeat hb)"
  using assms by (simp add: unmarshal_OpenRequest unmarshal_OpenResult unmarshal_Ack unmarshal_Close
      unmarshal_Heartbeat)

definition sample_time :: gotime where
  "sample_time = \<lparr>tm_year = 2024, tm_month = 2, tm_day = 29, tm_hour = 23, tm_minute = 59, tm_second = 58,
     tm_nanos = 120000000, tm_offset = 0\<rparr>"

definition sample_ack :: Ack where
  "sample_ack = \<lparr>ack_version = 1, ack_session = ''ab'', ack_direction = ''c2s'', ack_next_seq = 7, ack_updated = sample_time\<rparr>"

lemma wf_sample_time: "wf_time sample_time"
  by (simp add: wf_time_def sample_time_def days_in_def leap_def)

theorem messages_roundtrip_witness: "ebind (Marshal_Ack sample_ack) Unmarshal_Ack = Inr sample_ack"
proof -
  have "clean_Ack sample_ack = sample_ack"
    by (simp add: clean_Ack_def sample_ack_def utf8_text_ascii)
  then show ?thesis
    using messages_roundtrip [of
        "\<lparr>req_version = 1, req_session = [], req_target = zero_Target, req_max_receive = 0, req_created = sample_time\<rparr>"
        "\<lparr>res_version = 1, res_session = [], res_accepted = True, res_error = [], res_max_receive = 0, res_created = sample_time\<rparr>"
        sample_ack
        "\<lparr>cl_version = 1, cl_session = [], cl_side = [], cl_reason = [], cl_created = sample_time\<rparr>"
        "\<lparr>hb_version = 1, hb_session = [], hb_side = [], hb_updated = sample_time\<rparr>"]
    by (simp add: wf_message_defs sample_ack_def wf_sample_time)
qed

text \<open>
  A host name that is not valid UTF-8, which a SOCKS5 request may carry, is not
  the host name the server reads from the open request.
\<close>

theorem open_request_host_changed:
  assumes "wf_OpenRequest r" and "utf8_text (tgt_host (req_target r)) \<noteq> tgt_host (req_target r)"
  shows "\<exists>r'. ebind (Marshal_OpenRequest r) Unmarshal_OpenRequest = Inr r' \<and>
    tgt_host (req_target r') \<noteq> tgt_host (req_target r)"
  using assms by (simp add: unmarshal_OpenRequest clean_OpenRequest_def)

theorem open_request_host_changed_witness:
  "\<exists>r'. ebind (Marshal_OpenRequest
        \<lparr>req_version = 1, req_session = [], req_target = zero_Target\<lparr>tgt_host := [CHR 0xFF]\<rparr>,
         req_max_receive = 0, req_created = sample_time\<rparr>) Unmarshal_OpenRequest = Inr r' \<and>
    tgt_host (req_target r') \<noteq> [CHR 0xFF]"
proof -
  have "utf8_text [CHR 0xFF] \<noteq> [CHR 0xFF]"
    by (simp add: utf8_text_def utf8_len_def utf8_class_def replacement_def utf8_encode_def)
  then show ?thesis
    using open_request_host_changed [of "\<lparr>req_version = 1, req_session = [],
         req_target = zero_Target\<lparr>tgt_host := [CHR 0xFF]\<rparr>, req_max_receive = 0, req_created = sample_time\<rparr>"]
    by (simp add: wf_message_defs wf_sample_time)
qed

end
