(* ===== verification/GoTime.thy ===== *)
theory GoTime
  imports GoStrconv "HOL-Library.Log_Nat" Complex_Main
begin

text \<open>
  Durations: Go's \<open>time.Duration\<close> is a count of nanoseconds, an \<open>int\<close> here, and
  \<open>time.ParseDuration\<close> reads one.  A fraction is computed in \<open>float64\<close> there, so
  the rounding of a double is written out on the rationals: to 53 significant
  bits, half to even, for the positive values below that neither overflow nor
  are subnormal.
\<close>

section \<open>Doubles\<close>

definition half_even :: "rat \<Rightarrow> int" where
  "half_even x =
     (let r = \<lfloor>x\<rfloor>; f = x - of_int r
      in if f < 1 / 2 then r else if f > 1 / 2 then r + 1 else if even r then r else r + 1)"

definition fl :: "rat \<Rightarrow> rat" where
  "fl q =
     (if q \<le> 0 then 0
      else let a = nat (fst (quotient_of q)); b = nat (snd (quotient_of q));
               e = int (floorlog 2 a) - int (floorlog 2 b);
               k = (if q * 2 powi (53 - e) < 2 ^ 53 then 53 - e else 52 - e)
           in of_int (half_even (q * 2 powi k)) / 2 powi k)"

text \<open>With the sign, for values that may be negative.\<close>

definition flr :: "rat \<Rightarrow> rat" where
  "flr q = (if q < 0 then - fl (- q) else fl q)"

lemma half_even_near: "\<bar>of_int (half_even x) - x\<bar> \<le> 1 / 2"
proof -
  define r where "r = \<lfloor>x\<rfloor>"
  define f where "f = x - of_int r"
  have "of_int r \<le> x" "x < of_int r + 1"
    unfolding r_def using floor_correct [of x] by (simp_all only: of_int_add of_int_1)
  then have f: "0 \<le> f" "f < 1" "x = of_int r + f"
    by (simp_all add: f_def)
  have h: "half_even x = (if f < 1 / 2 then r else if f > 1 / 2 then r + 1 else if even r then r else r + 1)"
    unfolding half_even_def Let_def r_def f_def by (rule refl)
  consider "f < 1 / 2" | "f > 1 / 2" | "f = 1 / 2" by linarith
  then show ?thesis
    by cases (use f h in \<open>auto simp: abs_le_iff\<close>)
qed

lemma half_even_mono: "x \<le> y \<Longrightarrow> half_even x \<le> half_even y"
proof (rule ccontr)
  assume le: "x \<le> y" and "\<not> half_even x \<le> half_even y"
  then have "half_even y + 1 \<le> half_even x"
    by simp
  then have "of_int (half_even y + 1) \<le> (of_int (half_even x) :: rat)"
    by (simp only: of_int_le_iff)
  then have "x = y"
    using half_even_near [of x] half_even_near [of y] le by (simp add: abs_le_iff)
  with \<open>\<not> half_even x \<le> half_even y\<close> show False by simp
qed

lemma half_even_int [simp]: "half_even (of_int n) = n"
  by (simp add: half_even_def)

text \<open>The scale \<open>k\<close> brings the value to 53 bits.\<close>

definition fl_scale :: "rat \<Rightarrow> int" where
  "fl_scale q =
     (let a = nat (fst (quotient_of q)); b = nat (snd (quotient_of q));
          e = int (floorlog 2 a) - int (floorlog 2 b)
      in if q * 2 powi (53 - e) < 2 ^ 53 then 53 - e else 52 - e)"

lemma fl_scaled: "0 < q \<Longrightarrow> fl q = of_int (half_even (q * 2 powi fl_scale q)) / 2 powi fl_scale q"
  by (simp add: fl_def fl_scale_def Let_def)

lemma floorlog_between:
  assumes "0 < a"
  shows "(2 :: rat) powi (int (floorlog 2 a) - 1) \<le> of_nat a \<and> (of_nat a :: rat) < 2 powi int (floorlog 2 a)"
proof -
  have b: "2 ^ (floorlog 2 a - 1) \<le> a" "a < 2 ^ floorlog 2 a"
    using floorlog_bounds [of a 2] assms by auto
  obtain m where m: "floorlog 2 a = Suc m"
    using assms by (cases "floorlog 2 a") (auto simp: floorlog_eq_zero_iff)
  have "(2 :: rat) ^ m \<le> of_nat a" "(of_nat a :: rat) < 2 ^ Suc m"
    using b unfolding m of_nat_le_iff [where ?'a = rat, symmetric] of_nat_less_iff [where ?'a = rat, symmetric]
    by simp_all
  moreover have "int (floorlog 2 a) - 1 = int m" "int (floorlog 2 a) = int (Suc m)"
    by (simp_all add: m)
  ultimately show ?thesis
    by (simp only: power_int_of_nat simp_thms)
qed

lemma fl_scale_bounds:
  assumes "0 < q"
  shows "2 ^ 52 \<le> q * 2 powi fl_scale q \<and> q * 2 powi fl_scale q < 2 ^ 53"
proof -
  obtain n d where nd: "quotient_of q = (n, d)"
    by fastforce
  have q: "q = of_int n / of_int d" "0 < d"
    using quotient_of_div [OF nd] quotient_of_denom_pos [OF nd] by simp_all
  then have "0 < n"
    using assms by (simp add: zero_less_divide_iff)
  define a b where "a = nat n" and "b = nat d"
  define e where "e = int (floorlog 2 a) - int (floorlog 2 b)"
  have ab: "0 < a" "0 < b" "q = of_nat a / of_nat b"
    using q \<open>0 < n\<close> by (simp_all add: a_def b_def)
  have fa: "(2 :: rat) powi (int (floorlog 2 a) - 1) \<le> of_nat a" "(of_nat a :: rat) < 2 powi int (floorlog 2 a)"
    and fb: "(2 :: rat) powi (int (floorlog 2 b) - 1) \<le> of_nat b" "(of_nat b :: rat) < 2 powi int (floorlog 2 b)"
    using floorlog_between ab by blast+
  have pd: "(2 :: rat) powi (i - j) = 2 powi i / 2 powi j" for i j
    by (simp add: power_int_diff)
  have "e - 1 = int (floorlog 2 a) - 1 - int (floorlog 2 b)"
    by (simp add: e_def)
  then have "(2 :: rat) powi (e - 1) = 2 powi (int (floorlog 2 a) - 1) / 2 powi int (floorlog 2 b)"
    by (simp only: pd)
  also have "\<dots> \<le> of_nat a / of_nat b"
    using fa(1) fb(2) ab(2) by (intro frac_le) auto
  finally have lo: "2 powi (e - 1) \<le> q"
    by (simp add: ab(3))
  have "of_nat a / of_nat b \<le> (2 :: rat) powi int (floorlog 2 a) / 2 powi (int (floorlog 2 b) - 1)"
    using fa(2) fb(1) ab(2) by (intro frac_le) auto
  moreover have "(of_nat a :: rat) / of_nat b < 2 powi int (floorlog 2 a) / of_nat b"
    using fa(2) ab(2) by (simp add: divide_strict_right_mono)
  moreover have "(2 :: rat) powi int (floorlog 2 a) / of_nat b \<le> 2 powi int (floorlog 2 a) / 2 powi (int (floorlog 2 b) - 1)"
    using fb(1) ab(2) by (intro divide_left_mono mult_pos_pos) auto
  moreover have "e + 1 = int (floorlog 2 a) - (int (floorlog 2 b) - 1)"
    by (simp add: e_def)
  then have "(2 :: rat) powi (e + 1) = 2 powi int (floorlog 2 a) / 2 powi (int (floorlog 2 b) - 1)"
    by (simp only: pd)
  ultimately have hi: "q < 2 powi (e + 1)"
    by (simp add: ab(3))
  have s: "fl_scale q = (if q * 2 powi (53 - e) < 2 ^ 53 then 53 - e else 52 - e)"
    by (simp add: fl_scale_def Let_def nd a_def b_def e_def)
  have pa: "(2 :: rat) powi i * 2 powi j = 2 powi (i + j)" for i j
    by (simp add: power_int_add)
  have "(e - 1) + (53 - e) = 52" "(e + 1) + (52 - e) = 53" "1 + (52 - e) = 53 - e"
    by simp_all
  then have p: "(2 :: rat) powi (e - 1) * 2 powi (53 - e) = 2 powi 52" "(2 :: rat) powi (e + 1) * 2 powi (52 - e) = 2 powi 53"
    "(2 :: rat) powi (53 - e) = 2 powi 1 * 2 powi (52 - e)"
    by (simp_all only: pa)
  have pos: "0 < (2 :: rat) powi (53 - e)" "0 < (2 :: rat) powi (52 - e)"
    by simp_all
  have n: "(2 :: rat) powi 52 = 2 ^ 52" "(2 :: rat) powi 53 = 2 ^ 53" "(2 :: rat) powi 1 = 2"
    by simp_all
  have 1: "2 ^ 52 \<le> q * 2 powi (53 - e)"
    using mult_right_mono [OF lo, of "2 powi (53 - e)"] pos(1)
    unfolding p(1) n by (simp add: less_imp_le)
  have 2: "q * 2 powi (52 - e) < 2 ^ 53"
    using mult_strict_right_mono [OF hi pos(2)] by (simp only: p n)
  show ?thesis
  proof (cases "q * 2 powi (53 - e) < 2 ^ 53")
    case True
    with 1 show ?thesis by (simp only: s if_True simp_thms)
  next
    case False
    then have "2 ^ 53 \<le> q * (2 * 2 powi (52 - e))"
      by (simp only: p(3) n not_less)
    then have "2 ^ 52 \<le> q * 2 powi (52 - e)"
      by (simp only: mult.left_commute [of q 2]) simp
    with False 2 show ?thesis by (simp only: s if_False simp_thms)
  qed
qed

lemma half_even_ge: "of_int n \<le> x \<Longrightarrow> n \<le> half_even x"
  using half_even_mono [of "of_int n" x] by simp

lemma half_even_le: "x \<le> of_int n \<Longrightarrow> half_even x \<le> n"
  using half_even_mono [of x "of_int n"] by simp

lemma fl_pos_bounds:
  assumes "0 < q"
  shows "2 powi (52 - fl_scale q) \<le> fl q \<and> fl q \<le> 2 powi (53 - fl_scale q)"
proof -
  let ?h = "half_even (q * 2 powi fl_scale q)" and ?k = "fl_scale q"
  have "2 ^ 52 \<le> ?h" "?h \<le> 2 ^ 53"
    using fl_scale_bounds [OF assms] by (intro half_even_ge half_even_le; simp)+
  then have h: "(2 :: rat) powi 52 \<le> of_int ?h" "(of_int ?h :: rat) \<le> 2 powi 53"
    using of_int_le_iff [where ?'a = rat, of "2 ^ 52" ?h] of_int_le_iff [where ?'a = rat, of ?h "2 ^ 53"] by simp_all
  have pd: "(2 :: rat) powi (i - j) = 2 powi i / 2 powi j" for i j
    by (simp add: power_int_diff)
  show ?thesis
    unfolding pd fl_scaled [OF assms] using h by (simp only: divide_right_mono zero_le_power_int zero_le_numeral simp_thms)
qed

lemma fl_mono_pos:
  assumes "0 < x" and "x \<le> y"
  shows "fl x \<le> fl y"
proof -
  have "0 < y" using assms by simp
  note bx = fl_scale_bounds [OF assms(1)] and bp = fl_scale_bounds [OF \<open>0 < y\<close>]
  have "fl_scale y \<le> fl_scale x"
  proof (rule ccontr)
    assume "\<not> fl_scale y \<le> fl_scale x"
    then obtain d where d: "fl_scale y = fl_scale x + 1 + int d"
      by (metis add.assoc add.commute not_le zless_iff_Suc_zadd of_nat_Suc)
    have "(2 :: rat) powi fl_scale y = 2 powi fl_scale x * 2 * 2 ^ d"
      by (simp add: d power_int_add)
    then have "2 * (x * 2 powi fl_scale x) * 2 ^ d \<le> y * 2 powi fl_scale y"
      using assms by (simp add: mult.assoc mult.left_commute mult_right_mono)
    moreover have "2 * (x * 2 powi fl_scale x) * 1 \<le> 2 * (x * 2 powi fl_scale x) * 2 ^ d"
      using assms(1) by (intro mult_left_mono) auto
    ultimately have "2 * (x * 2 powi fl_scale x) \<le> y * 2 powi fl_scale y"
      unfolding mult_1_right by (meson order_trans)
    moreover have "2 * 2 ^ 52 \<le> 2 * (x * 2 powi fl_scale x)"
      using bx by (intro mult_left_mono) auto
    ultimately have "2 * 2 ^ 52 < (2 ^ 53 :: rat)"
      using bp by (meson order_le_less_trans order_trans)
    then show False by simp
  qed
  then consider "fl_scale x = fl_scale y" | "fl_scale y + 1 \<le> fl_scale x"
    by linarith
  then show ?thesis
  proof cases
    case 1
    have "half_even (x * 2 powi fl_scale x) \<le> half_even (y * 2 powi fl_scale x)"
      using assms by (intro half_even_mono mult_right_mono) auto
    then show ?thesis
      by (simp add: fl_scaled [OF assms(1)] fl_scaled [OF \<open>0 < y\<close>] 1 [symmetric] divide_right_mono)
  next
    case 2
    then have "(2 :: rat) powi (53 - fl_scale x) \<le> 2 powi (52 - fl_scale y)"
      by (intro power_int_increasing) auto
    then show ?thesis
      using fl_pos_bounds [OF assms(1)] fl_pos_bounds [OF \<open>0 < y\<close>] by linarith
  qed
qed

lemma fl_nonneg: "0 \<le> fl q"
  using fl_pos_bounds [of q] by (cases "0 < q") (auto simp: fl_def intro: order_trans [of _ "2 powi (52 - fl_scale q)"])

lemma flr_mono: "x \<le> y \<Longrightarrow> flr x \<le> flr y"
  using fl_mono_pos [of x y] fl_mono_pos [of "- y" "- x"] fl_nonneg [of "- x"] fl_nonneg [of y]
  by (cases "x < 0"; cases "y < 0"; cases "x = 0") (auto simp: flr_def fl_def [of 0])

section \<open>ParseDuration\<close>

definition duration_unit :: "string \<Rightarrow> nat option" where
  "duration_unit u = map_of
     [(''ns'', 1), (''us'', 10 ^ 3), ([CHR 0xC2, CHR 0xB5] @ ''s'', 10 ^ 3), ([CHR 0xCE, CHR 0xBC] @ ''s'', 10 ^ 3),
      (''ms'', 10 ^ 6), (''s'', 10 ^ 9), (''m'', 60 * 10 ^ 9), (''h'', 3600 * 10 ^ 9)] u"

text \<open>\<open>leadingInt\<close>: \<open>None\<close> on overflow.\<close>

fun leadingInt :: "nat \<Rightarrow> string \<Rightarrow> (nat \<times> string) option" where
  "leadingInt x [] = Some (x, [])"
| "leadingInt x (c # s) =
     (if \<not> is_digit c then Some (x, c # s)
      else if x > 2 ^ 63 div 10 then None
      else let y = 10 * x + digit_val c in if y > 2 ^ 63 then None else leadingInt y s)"

text \<open>\<open>leadingFraction\<close>: digits that would overflow are skipped.\<close>

fun leadingFraction :: "nat \<Rightarrow> nat \<Rightarrow> bool \<Rightarrow> string \<Rightarrow> nat \<times> nat \<times> string" where
  "leadingFraction x scale over [] = (x, scale, [])"
| "leadingFraction x scale over (c # s) =
     (if \<not> is_digit c then (x, scale, c # s)
      else let y = 10 * x + digit_val c
           in if over \<or> x > (2 ^ 63 - 1) div 10 \<or> y > 2 ^ 63 then leadingFraction x scale True s
              else leadingFraction y (10 * scale) False s)"

definition unit_char :: "char \<Rightarrow> bool" where
  "unit_char c \<longleftrightarrow> c \<noteq> CHR ''.'' \<and> \<not> is_digit c"

text \<open>One number with its unit, in nanoseconds, and what follows it.\<close>

definition duration_part :: "string \<Rightarrow> (nat \<times> string) option" where
  "duration_part s =
     (if s = [] \<or> \<not> (hd s = CHR ''.'' \<or> is_digit (hd s)) then None
      else case leadingInt 0 s of
        None \<Rightarrow> None
      | Some (v, s1) \<Rightarrow>
          let (f, scale, s2) = (if s1 \<noteq> [] \<and> hd s1 = CHR ''.'' then leadingFraction 0 1 False (tl s1) else (0, 1, s1));
              pre = (length s1 \<noteq> length s);
              post = (s1 \<noteq> [] \<and> hd s1 = CHR ''.'' \<and> length s2 \<noteq> length (tl s1));
              u = takeWhile unit_char s2
          in if \<not> pre \<and> \<not> post \<or> u = [] then None
             else case duration_unit u of
               None \<Rightarrow> None
             | Some un \<Rightarrow>
                 if v > 2 ^ 63 div un then None
                 else let w = v * un + (if f > 0 then nat \<lfloor>fl (fl (of_nat f) * fl (of_nat un / of_nat scale))\<rfloor> else 0)
                      in if w > 2 ^ 63 then None else Some (w, drop (length u) s2))"

lemma leadingInt_length: "leadingInt x s = Some (v, r) \<Longrightarrow> length r \<le> length s"
  by (induction x s rule: leadingInt.induct) (auto simp: Let_def split: if_splits)

lemma leadingFraction_length: "leadingFraction x sc b s = (f, sc', r) \<Longrightarrow> length r \<le> length s"
  by (induction x sc b s rule: leadingFraction.induct) (auto simp: Let_def split: if_splits)

lemma duration_part_shorter:
  assumes "duration_part s = Some (w, r)"
  shows "length r < length s"
proof -
  obtain v s1 where i: "leadingInt 0 s = Some (v, s1)"
    using assms by (auto simp: duration_part_def split: if_splits option.splits)
  obtain f sc s2 where fr: "(if s1 \<noteq> [] \<and> hd s1 = CHR ''.'' then leadingFraction 0 1 False (tl s1) else (0, 1, s1)) = (f, sc, s2)"
    by (meson prod_cases3)
  have "length s2 \<le> length s1"
    using fr leadingFraction_length by (fastforce split: if_splits)
  moreover
  have "takeWhile unit_char s2 \<noteq> []" "r = drop (length (takeWhile unit_char s2)) s2"
    using assms i fr
    by (auto simp: duration_part_def Let_def split: if_splits option.splits simp del: length_greater_0_conv)
  then have "length r < length s2"
    by (cases s2) (auto split: if_splits)
  ultimately show ?thesis
    using leadingInt_length [OF i] by simp
qed

function duration_parts :: "nat \<Rightarrow> string \<Rightarrow> nat option" where
  "duration_parts d s =
     (if s = [] then Some d
      else case duration_part s of
        None \<Rightarrow> None
      | Some (w, r) \<Rightarrow> if d + w > 2 ^ 63 then None else duration_parts (d + w) r)"
  by auto
termination by (relation "measure (length \<circ> snd)") (auto dest: duration_part_shorter)

declare duration_parts.simps [simp del]

definition ParseDuration :: "string \<Rightarrow> int option" where
  "ParseDuration s0 =
     (let neg = hasPrefix s0 ''-''; s = (if neg \<or> hasPrefix s0 ''+'' then tl s0 else s0)
      in if s = ''0'' then Some 0
         else if s = [] then None
         else case duration_parts 0 s of
           None \<Rightarrow> None
         | Some d \<Rightarrow> if neg then Some (- int d) else if d \<ge> 2 ^ 63 then None else Some (int d))"

end
