(* ===== verification/CommonConfig.thy ===== *)
theory CommonConfig
  imports GoTime
begin

text \<open>
  \<open>internal/config/config.go\<close>: the configuration the client, the server and the
  doctor share.  \<open>AddCommonFlags\<close> gives every variable its default, from the
  environment or from the code; \<open>Finalize\<close> fills in what the provider implies and
  checks the values.  The environment is a function, empty text for a variable that
  is not set, as \<open>os.Getenv\<close> has it.
\<close>

record Common =
  com_Provider :: string
  com_Bucket :: string
  com_Prefix :: string
  com_Region :: string
  com_Endpoint :: string
  com_ForcePathStyle :: bool
  com_PSKEnv :: string
  com_PSK :: string
  com_ChunkSize :: int
  com_FlushDelay :: int
  com_PollMin :: int
  com_PollMax :: int
  com_ActivePollDuration :: int
  com_WindowChunks :: u64
  com_CloseCheckAfterMisses :: int
  com_IdleTimeout :: int
  com_LogLevel :: string
  com_InsecureNoCrypto :: bool

type_synonym environ = "string \<Rightarrow> string"

section \<open>Reading the environment\<close>

definition getenv :: "environ \<Rightarrow> string \<Rightarrow> string \<Rightarrow> string" where
  "getenv env key fallback = (if env key \<noteq> [] then env key else fallback)"

fun first_set :: "environ \<Rightarrow> string list \<Rightarrow> string \<Rightarrow> string" where
  "first_set env [] fallback = fallback"
| "first_set env (k # ks) fallback = (if env k \<noteq> [] then env k else first_set env ks fallback)"

text \<open>The last argument is the fallback, the others are names of variables.\<close>

definition firstEnv :: "environ \<Rightarrow> string list \<Rightarrow> string" where
  "firstEnv env keys = (if keys = [] then [] else first_set env (butlast keys) (last keys))"

definition getenvBool :: "environ \<Rightarrow> string \<Rightarrow> bool \<Rightarrow> bool" where
  "getenvBool env key fallback =
     (let v = toLower (env key) in if v = [] then fallback else v \<in> {''1'', ''true'', ''yes''})"

text \<open>\<open>strconv.Atoi\<close> on a 64-bit platform.\<close>

definition Atoi :: "string \<Rightarrow> int option" where
  "Atoi s =
     (let neg = hasPrefix s ''-''; ds = (if neg \<or> hasPrefix s ''+'' then tl s else s)
      in if ds = [] \<or> (\<exists>c \<in> set ds. \<not> is_digit c) then None
         else let v = (if neg then - int (digits_val ds) else int (digits_val ds))
              in if - (2 ^ 63) \<le> v \<and> v < 2 ^ 63 then Some v else None)"

definition getenvInt :: "environ \<Rightarrow> string \<Rightarrow> int \<Rightarrow> int" where
  "getenvInt env key fallback =
     (if env key \<noteq> [] then (case Atoi (env key) of Some n \<Rightarrow> n | None \<Rightarrow> fallback) else fallback)"

definition getenvUint64 :: "environ \<Rightarrow> string \<Rightarrow> u64 \<Rightarrow> u64" where
  "getenvUint64 env key fallback =
     (if env key \<noteq> [] then (case parse_uint 64 (env key) of Inr n \<Rightarrow> of_nat n | Inl _ \<Rightarrow> fallback) else fallback)"

definition getenvDuration :: "environ \<Rightarrow> string \<Rightarrow> int \<Rightarrow> int" where
  "getenvDuration env key fallback =
     (if env key \<noteq> [] then (case ParseDuration (env key) of Some d \<Rightarrow> d | None \<Rightarrow> fallback) else fallback)"

section \<open>Flags and their defaults\<close>

text \<open>The values the registration of the flags gives the variables.\<close>

definition AddCommonFlags :: "environ \<Rightarrow> Common \<Rightarrow> Common" where
  "AddCommonFlags env c = c\<lparr>
     com_Provider := getenv env ''S3S5_PROVIDER'' [],
     com_Bucket := getenv env ''S3S5_BUCKET'' [],
     com_Prefix := getenv env ''S3S5_PREFIX'' ''s3s5'',
     com_Region := firstEnv env [''S3S5_REGION'', ''AWS_REGION'', ''us-east-1''],
     com_Endpoint := getenv env ''S3S5_ENDPOINT'' [],
     com_ForcePathStyle := getenvBool env ''S3S5_FORCE_PATH_STYLE'' False,
     com_PSKEnv := ''S3S5_PSK'',
     com_ChunkSize := getenvInt env ''S3S5_CHUNK_SIZE'' (64 * 1024),
     com_FlushDelay := getenvDuration env ''S3S5_FLUSH_DELAY'' (10 * 10 ^ 6),
     com_PollMin := getenvDuration env ''S3S5_POLL_MIN'' (50 * 10 ^ 6),
     com_PollMax := getenvDuration env ''S3S5_POLL_MAX'' (2 * 10 ^ 9),
     com_ActivePollDuration := getenvDuration env ''S3S5_ACTIVE_POLL_DURATION'' (500 * 10 ^ 6),
     com_WindowChunks := getenvUint64 env ''S3S5_WINDOW_CHUNKS'' 16,
     com_CloseCheckAfterMisses := getenvInt env ''S3S5_CLOSE_CHECK_AFTER_MISSES'' 4,
     com_IdleTimeout := getenvDuration env ''S3S5_IDLE_TIMEOUT'' (120 * 10 ^ 9),
     com_LogLevel := getenv env ''S3S5_LOG_LEVEL'' ''info'',
     com_InsecureNoCrypto := False\<rparr>"

text \<open>The value \<open>var common config.Common\<close> starts from.\<close>

definition zero_Common :: Common where
  "zero_Common = \<lparr>com_Provider = [], com_Bucket = [], com_Prefix = [], com_Region = [], com_Endpoint = [],
     com_ForcePathStyle = False, com_PSKEnv = [], com_PSK = [], com_ChunkSize = 0, com_FlushDelay = 0,
     com_PollMin = 0, com_PollMax = 0, com_ActivePollDuration = 0, com_WindowChunks = 0,
     com_CloseCheckAfterMisses = 0, com_IdleTimeout = 0, com_LogLevel = [], com_InsecureNoCrypto = False\<rparr>"

section \<open>Finalize\<close>

definition inferProvider :: "string \<Rightarrow> string \<Rightarrow> string" where
  "inferProvider region0 endpoint0 =
     (let region = toLower (trimSpace region0); endpoint = toLower (trimSpace endpoint0)
      in if contains endpoint ''storage.yandexcloud.net'' then ''yandex''
         else if hasPrefix region ''ru-central1'' then ''yandex''
         else if contains endpoint ''127.0.0.1'' \<or> contains endpoint ''localhost'' then ''minio''
         else ''aws'')"

definition yandex_names :: "string list" where
  "yandex_names = [''yandex'', ''yc'', ''yandex-cloud'', ''yandexcloud'']"

definition or_default :: "string \<Rightarrow> string \<Rightarrow> string" where
  "or_default s d = (if s = [] then d else s)"

definition yandex_region :: "string \<Rightarrow> string" where
  "yandex_region r =
     (if r = [] \<or> r = ''us-east-1'' \<or> hasPrefix r ''ru-central1-'' then ''ru-central1'' else r)"

definition applyProviderDefaults :: "Common \<Rightarrow> Common" where
  "applyProviderDefaults c =
     (if com_Provider c \<in> set yandex_names then
        c\<lparr>com_Provider := ''yandex'',
          com_Endpoint := or_default (com_Endpoint c) ''https://storage.yandexcloud.net'',
          com_Region := yandex_region (com_Region c), com_ForcePathStyle := True\<rparr>
      else if com_Provider c = ''minio'' then
        c\<lparr>com_Endpoint := or_default (com_Endpoint c) ''http://127.0.0.1:9000'',
          com_Region := or_default (com_Region c) ''us-east-1'', com_ForcePathStyle := True\<rparr>
      else if com_Provider c = ''aws'' then
        c\<lparr>com_Region := or_default (com_Region c) ''us-east-1''\<rparr>
      else c)"

text \<open>The normalisation \<open>Finalize\<close> starts with, and its checks in their order.\<close>

definition resolve_provider :: "Common \<Rightarrow> Common" where
  "resolve_provider c =
     (let p = toLower (trimSpace (com_Provider c))
      in applyProviderDefaults
           (c\<lparr>com_Provider := (if p = [] then inferProvider (com_Region c) (com_Endpoint c) else p)\<rparr>))"

definition finalize_prefix :: "Common \<Rightarrow> Common" where
  "finalize_prefix c = c\<lparr>com_Prefix := or_default (trim (com_Prefix c) ''/'') ''s3s5''\<rparr>"

definition check_common :: "bool \<Rightarrow> Common \<Rightarrow> string option" where
  "check_common requireBucket c =
     (if requireBucket \<and> com_Bucket c = [] then Some ''--bucket or S3S5_BUCKET is required''
      else if com_ChunkSize c \<le> 0 then Some ''--chunk-size must be positive''
      else if com_ChunkSize c < 1024 \<or> com_ChunkSize c > 16 * 1024 * 1024
      then Some ''--chunk-size must be between 1024 and 16777216''
      else if com_FlushDelay c < 0 \<or> com_ActivePollDuration c < 0 then Some ''durations must not be negative''
      else if com_WindowChunks c = 0 then Some ''--window-chunks must be positive''
      else if com_CloseCheckAfterMisses c \<le> 0 then Some ''--close-check-after-misses must be positive''
      else if com_PollMin c \<le> 0 \<or> com_PollMax c \<le> 0 \<or> com_PollMin c > com_PollMax c
      then Some ''poll delays must be positive and poll-min must be <= poll-max''
      else None)"

definition Finalize :: "environ \<Rightarrow> bool \<Rightarrow> Common \<Rightarrow> err option \<times> Common" where
  "Finalize env requireBucket c0 =
     (let c = finalize_prefix (resolve_provider c0)
      in case check_common requireBucket c of
        Some msg \<Rightarrow> (Some (ErrText msg), c)
      | None \<Rightarrow>
          if com_InsecureNoCrypto c then (None, c)
          else let c' = c\<lparr>com_PSK := env (com_PSKEnv c)\<rparr>
               in if com_PSK c' = []
                  then (Some (ErrText (com_PSKEnv c' @ '' is required unless --insecure-no-crypto is used'')), c')
                  else (None, c'))"

section \<open>What Finalize guarantees\<close>

lemma or_default_idem [simp]: "d \<noteq> [] \<Longrightarrow> or_default (or_default s d) d' = or_default s d"
  by (simp add: or_default_def)

lemma or_default_nonempty [simp]: "d \<noteq> [] \<Longrightarrow> or_default s d \<noteq> []"
  by (simp add: or_default_def)

lemma yandex_region_idem [simp]: "yandex_region (yandex_region r) = yandex_region r"
  by (simp add: yandex_region_def hasPrefix_def)

lemma inferProvider_cases: "inferProvider r e \<in> {''yandex'', ''minio'', ''aws''}"
  by (simp add: inferProvider_def Let_def)

lemma provider_lower [simp]:
  "toLower (trimSpace ''yandex'') = ''yandex''" "toLower (trimSpace ''minio'') = ''minio''"
  "toLower (trimSpace ''aws'') = ''aws''"
  by (simp_all add: toLower_def lower_char_def trimSpace_def trim_def trimRight_def ascii_space_def less_eq_char_def)

lemma applyProviderDefaults_idem [simp]:
  "applyProviderDefaults (applyProviderDefaults c) = applyProviderDefaults c"
  by (simp add: applyProviderDefaults_def yandex_names_def)

text \<open>The provider after \<open>Finalize\<close> is a fixed point of its normalisation.\<close>

lemma resolve_provider_idem [simp]: "resolve_provider (resolve_provider c) = resolve_provider c"
proof -
  let ?p = "toLower (trimSpace (com_Provider c))"
  let ?q = "if ?p = [] then inferProvider (com_Region c) (com_Endpoint c) else ?p"
  let ?c = "applyProviderDefaults (c\<lparr>com_Provider := ?q\<rparr>)"
  have q: "toLower (trimSpace ?q) = ?q" "?q \<noteq> []"
    using inferProvider_cases [of "com_Region c" "com_Endpoint c"] by auto
  then have "toLower (trimSpace (com_Provider ?c)) = com_Provider ?c" "com_Provider ?c \<noteq> []"
    by (auto simp: applyProviderDefaults_def)
  then have "resolve_provider ?c = applyProviderDefaults ?c"
    by (simp add: resolve_provider_def Let_def)
  then show ?thesis
    by (simp add: resolve_provider_def Let_def)
qed

lemma resolve_provider_keeps [simp]:
  "com_Bucket (resolve_provider c) = com_Bucket c" "com_Prefix (resolve_provider c) = com_Prefix c"
  "com_ChunkSize (resolve_provider c) = com_ChunkSize c" "com_FlushDelay (resolve_provider c) = com_FlushDelay c"
  "com_PollMin (resolve_provider c) = com_PollMin c" "com_PollMax (resolve_provider c) = com_PollMax c"
  "com_ActivePollDuration (resolve_provider c) = com_ActivePollDuration c"
  "com_WindowChunks (resolve_provider c) = com_WindowChunks c"
  "com_CloseCheckAfterMisses (resolve_provider c) = com_CloseCheckAfterMisses c"
  "com_InsecureNoCrypto (resolve_provider c) = com_InsecureNoCrypto c"
  "com_PSKEnv (resolve_provider c) = com_PSKEnv c" "com_PSK (resolve_provider c) = com_PSK c"
  by (simp_all add: resolve_provider_def applyProviderDefaults_def Let_def)

lemma finalize_prefix_update [simp]:
  "finalize_prefix (c\<lparr>com_PSK := k\<rparr>) = (finalize_prefix c)\<lparr>com_PSK := k\<rparr>"
  by (simp add: finalize_prefix_def)

lemma applyProviderDefaults_update [simp]:
  "applyProviderDefaults (c\<lparr>com_Prefix := p\<rparr>) = (applyProviderDefaults c)\<lparr>com_Prefix := p\<rparr>"
  "applyProviderDefaults (c\<lparr>com_PSK := k\<rparr>) = (applyProviderDefaults c)\<lparr>com_PSK := k\<rparr>"
  by (simp_all add: applyProviderDefaults_def)

lemma resolve_provider_update [simp]:
  "resolve_provider (c\<lparr>com_Prefix := p\<rparr>) = (resolve_provider c)\<lparr>com_Prefix := p\<rparr>"
  "resolve_provider (c\<lparr>com_PSK := k\<rparr>) = (resolve_provider c)\<lparr>com_PSK := k\<rparr>"
  by (simp_all add: resolve_provider_def applyProviderDefaults_def Let_def)

text \<open>The values a finished configuration may have.\<close>

definition valid_common :: "Common \<Rightarrow> bool" where
  "valid_common c \<longleftrightarrow>
     1024 \<le> com_ChunkSize c \<and> com_ChunkSize c \<le> 16 * 1024 * 1024 \<and>
     0 \<le> com_FlushDelay c \<and> 0 \<le> com_ActivePollDuration c \<and> com_WindowChunks c \<noteq> 0 \<and>
     0 < com_CloseCheckAfterMisses c \<and> 0 < com_PollMin c \<and> com_PollMin c \<le> com_PollMax c"

lemma check_common_None:
  "check_common rb c = None \<longleftrightarrow> valid_common c \<and> (rb \<longrightarrow> com_Bucket c \<noteq> [])"
  by (auto simp: check_common_def valid_common_def)

text \<open>The normal form of a configuration that was accepted.\<close>

lemma Finalize_normal:
  assumes "Finalize env rb c0 = (None, c)"
  shows "valid_common c \<and> com_Prefix c \<noteq> [] \<and> trim (com_Prefix c) ''/'' = com_Prefix c \<and>
    com_Provider c \<noteq> [] \<and> toLower (trimSpace (com_Provider c)) = com_Provider c \<and> applyProviderDefaults c = c"
proof -
  let ?r = "resolve_provider c0"
  obtain k where c: "c = (finalize_prefix ?r)\<lparr>com_PSK := k\<rparr>" and v: "valid_common (finalize_prefix ?r)"
  proof (cases "com_InsecureNoCrypto (finalize_prefix ?r)")
    case True
    then show ?thesis
      using assms that [of "com_PSK (finalize_prefix ?r)"]
      by (auto simp: Finalize_def Let_def check_common_None split: option.splits)
  next
    case False
    then show ?thesis
      using assms that [of "env (com_PSKEnv (finalize_prefix ?r))"]
      by (auto simp: Finalize_def Let_def check_common_None split: option.splits if_splits)
  qed
  have p: "com_Provider ?r \<noteq> []" "toLower (trimSpace (com_Provider ?r)) = com_Provider ?r" "applyProviderDefaults ?r = ?r"
    using inferProvider_cases [of "com_Region c0" "com_Endpoint c0"]
    by (auto simp: resolve_provider_def applyProviderDefaults_def yandex_names_def Let_def)
  have "applyProviderDefaults c = c"
    using p(3) by (simp add: c finalize_prefix_def)
  moreover have "trim ''s3s5'' ''/'' = ''s3s5''"
    by (simp add: trim_id)
  ultimately show ?thesis
    using p(1,2) v by (auto simp: c valid_common_def finalize_prefix_def or_default_def)
qed


text \<open>An environment with a bucket, a key and a chunk size.\<close>

definition example_env :: environ where
  "example_env = (\<lambda>_. [])(''S3S5_BUCKET'' := ''box'', ''S3S5_PSK'' := ''0123456789abcdef'',
     ''S3S5_CHUNK_SIZE'' := ''4096'')"


text \<open>
  Finalizing twice is finalizing once: the defaults and the normalised provider
  and prefix are fixed points, and the second run returns the same error.
\<close>

theorem Finalize_idempotent: "Finalize env rb (snd (Finalize env rb c)) = Finalize env rb c"
proof -
  have "trim ''s3s5'' ''/'' = ''s3s5''"
    by (simp add: trim_id)
  then have fp: "finalize_prefix (finalize_prefix x) = finalize_prefix x" for x
    by (simp add: finalize_prefix_def or_default_def)
  let ?n = "\<lambda>c. finalize_prefix (resolve_provider c)"
  have n: "?n (?n c) = ?n c"
    using fp [of "resolve_provider c"] by (simp add: finalize_prefix_def)
  define d where "d = ?n c"
  have d: "finalize_prefix (resolve_provider d) = d"
    using n by (simp add: d_def)
  have k: "check_common rb (d\<lparr>com_PSK := v\<rparr>) = check_common rb d" for v
    by (simp add: check_common_def)
  show ?thesis
    by (simp add: Finalize_def Let_def d_def [symmetric] d k split: option.splits)
qed

end
