(* ===== verification/ObjectStore.thy ===== *)
theory ObjectStore
  imports GoStrings
begin

text \<open>
  \<open>internal/objectstore/objectstore.go\<close>: the interface every store of the program
  implements, and \<open>DeletePrefix\<close>, which works over any of them.

  A Go interface value is a table of methods, so \<open>ObjectStore\<close> is a record of
  functions over the store's state \<open>'s\<close>; the wrappers (delay, metrics) map one such
  record to another.  A context is known here by its error: \<open>None\<close> while it is
  live, \<open>Some e\<close> once it is cancelled or past its deadline.

  The locale \<open>object_store\<close> states what the rest of the program relies on: the
  store behaves as a finite map from keys to bytes that can be listed in key
  order page by page, and an operation under an ended context fails and changes
  nothing.
\<close>

section \<open>The interface\<close>

type_synonym ctx = "err option"

record PutOptions =
  opt_content_type :: string
  opt_metadata :: "(string \<times> string) list"

record ListOptions =
  opt_max_keys :: int
  opt_token :: string

record ObjectInfo =
  info_key :: string
  info_size :: int
  info_metadata :: "(string \<times> string) list"

record ListPage =
  page_keys :: "string list"
  page_truncated :: bool
  page_next_token :: string

record 's ObjectStore =
  PutObject :: "ctx \<Rightarrow> string \<Rightarrow> bytes \<Rightarrow> PutOptions \<Rightarrow> 's \<Rightarrow> err option \<times> 's"
  GetObject :: "ctx \<Rightarrow> string \<Rightarrow> 's \<Rightarrow> bytes result \<times> 's"
  HeadObject :: "ctx \<Rightarrow> string \<Rightarrow> 's \<Rightarrow> ObjectInfo result \<times> 's"
  ListPrefix :: "ctx \<Rightarrow> string \<Rightarrow> ListOptions \<Rightarrow> 's \<Rightarrow> string list result \<times> 's"
  ListPrefixPage :: "ctx \<Rightarrow> string \<Rightarrow> ListOptions \<Rightarrow> 's \<Rightarrow> ListPage result \<times> 's"
  DeleteObject :: "ctx \<Rightarrow> string \<Rightarrow> 's \<Rightarrow> err option \<times> 's"

definition IsNotFound :: "err option \<Rightarrow> bool" where
  "IsNotFound e = (case e of None \<Rightarrow> False | Some x \<Rightarrow> errors_is x ErrNotFound)"

text \<open>\<open>return page.Keys, err\<close>, the body of every \<open>ListPrefix\<close> in the program.\<close>

fun keys_of_page :: "ListPage result \<times> 's \<Rightarrow> string list result \<times> 's" where
  "keys_of_page (Inl e, s) = (Inl e, s)"
| "keys_of_page (Inr page, s) = (Inr (page_keys page), s)"

section \<open>DeletePrefix\<close>

text \<open>The inner loop: delete the keys of one page, counting them.\<close>

fun delete_keys :: "'s ObjectStore \<Rightarrow> ctx \<Rightarrow> string list \<Rightarrow> nat \<Rightarrow> 's \<Rightarrow> (nat \<times> err option) \<times> 's" where
  "delete_keys S ctx [] deleted s = ((deleted, None), s)"
| "delete_keys S ctx (k # ks) deleted s =
     (case DeleteObject S ctx k s of (e, s') \<Rightarrow>
        if e \<noteq> None \<and> \<not> IsNotFound e then ((deleted, e), s')
        else delete_keys S ctx ks (Suc deleted) s')"

text \<open>
  The outer loop, with fuel: \<open>None\<close> only when the fuel runs out, which under the
  laws of a store it does not when it exceeds the number of keys to delete.
\<close>

fun DeletePrefix_loop ::
  "nat \<Rightarrow> 's ObjectStore \<Rightarrow> ctx \<Rightarrow> string \<Rightarrow> nat \<Rightarrow> 's \<Rightarrow> ((nat \<times> err option) \<times> 's) option" where
  "DeletePrefix_loop 0 S ctx prefix deleted s = None"
| "DeletePrefix_loop (Suc fuel) S ctx prefix deleted s =
     (case ListPrefixPage S ctx prefix \<lparr>opt_max_keys = 1000, opt_token = []\<rparr> s of
        (Inl e, s') \<Rightarrow> Some ((deleted, Some e), s')
      | (Inr page, s') \<Rightarrow>
          if page_keys page = [] then Some ((deleted, None), s')
          else (case delete_keys S ctx (page_keys page) deleted s' of
                  ((n, Some e), s'') \<Rightarrow> Some ((n, Some e), s'')
                | ((n, None), s'') \<Rightarrow> DeletePrefix_loop fuel S ctx prefix n s''))"

definition DeletePrefix ::
  "nat \<Rightarrow> 's ObjectStore \<Rightarrow> ctx \<Rightarrow> string \<Rightarrow> 's \<Rightarrow> ((nat \<times> err option) \<times> 's) option" where
  "DeletePrefix fuel S ctx prefix s = DeletePrefix_loop fuel S ctx prefix 0 s"

section \<open>The contract of a store\<close>

text \<open>
  The page a listing returns: of the keys in order, those after the continuation
  token, cut at \<open>MaxKeys\<close> when that is positive.
\<close>

definition page_spec :: "string list \<Rightarrow> ListOptions \<Rightarrow> ListPage" where
  "page_spec ks opts =
     (let rest = (if opt_token opts = [] then ks else filter (\<lambda>k. opt_token opts < k) ks)
      in if 0 < opt_max_keys opts \<and> opt_max_keys opts < int (length rest)
         then let ps = take (nat (opt_max_keys opts)) rest
              in \<lparr>page_keys = ps, page_truncated = True, page_next_token = last ps\<rparr>
         else \<lparr>page_keys = rest, page_truncated = False, page_next_token = []\<rparr>)"

definition keys_with_prefix :: "(string \<rightharpoonup> bytes) \<Rightarrow> string \<Rightarrow> string set" where
  "keys_with_prefix m prefix = {k \<in> dom m. hasPrefix k prefix}"

definition sorted_keys :: "(string \<rightharpoonup> bytes) \<Rightarrow> string \<Rightarrow> string list" where
  "sorted_keys m prefix = sorted_list_of_set (keys_with_prefix m prefix)"

definition get_spec :: "(string \<rightharpoonup> bytes) \<Rightarrow> string \<Rightarrow> bytes result" where
  "get_spec m k = (case m k of None \<Rightarrow> Inl ErrNotFound | Some d \<Rightarrow> Inr d)"

locale object_store =
  fixes S :: "'s ObjectStore"
    and objs :: "'s \<Rightarrow> string \<rightharpoonup> bytes"
    and inv :: "'s \<Rightarrow> bool"
  assumes finite_objs: "inv s \<Longrightarrow> finite (dom (objs s))"
    and put_live: "inv s \<Longrightarrow> \<exists>s'. PutObject S None k d opts s = (None, s') \<and> inv s' \<and> objs s' = (objs s)(k \<mapsto> d)"
    and get_live: "inv s \<Longrightarrow> \<exists>s'. GetObject S None k s = (get_spec (objs s) k, s') \<and> inv s' \<and> objs s' = objs s"
    and head_live: "inv s \<Longrightarrow> \<exists>r s'. HeadObject S None k s = (r, s') \<and> inv s' \<and> objs s' = objs s \<and>
      (case objs s k of None \<Rightarrow> r = Inl ErrNotFound
       | Some d \<Rightarrow> \<exists>i. r = Inr i \<and> info_key i = k \<and> info_size i = int (length d))"
    and list_live: "inv s \<Longrightarrow> \<exists>s'. ListPrefixPage S None prefix lopts s
        = (Inr (page_spec (sorted_keys (objs s) prefix) lopts), s') \<and> inv s' \<and> objs s' = objs s"
    and list_keys: "ListPrefix S ctx prefix lopts s = keys_of_page (ListPrefixPage S ctx prefix lopts s)"
    and delete_live: "inv s \<Longrightarrow> \<exists>s'. DeleteObject S None k s = (None, s') \<and> inv s' \<and> objs s' = (objs s)(k := None)"
    and put_ended: "inv s \<Longrightarrow> \<exists>s'. PutObject S (Some e) k d opts s = (Some e, s') \<and> inv s' \<and> objs s' = objs s"
    and get_ended: "inv s \<Longrightarrow> \<exists>s'. GetObject S (Some e) k s = (Inl e, s') \<and> inv s' \<and> objs s' = objs s"
    and head_ended: "inv s \<Longrightarrow> \<exists>s'. HeadObject S (Some e) k s = (Inl e, s') \<and> inv s' \<and> objs s' = objs s"
    and list_ended: "inv s \<Longrightarrow> \<exists>s'. ListPrefixPage S (Some e) prefix lopts s = (Inl e, s') \<and> inv s' \<and> objs s' = objs s"
    and delete_ended: "inv s \<Longrightarrow> \<exists>s'. DeleteObject S (Some e) k s = (Some e, s') \<and> inv s' \<and> objs s' = objs s"

text \<open>
  What survives when operations may fail: a put or delete that reports an error may
  or may not have taken effect, a get or head reports an object's absence only when
  it is absent, and nothing else changes, for the keys of a set.  The safety of the
  tunnel rests on this weaker contract, which every store with the full one keeps for
  all keys.
\<close>

locale store_safety =
  fixes S :: "'s ObjectStore"
    and objs :: "'s \<Rightarrow> string \<rightharpoonup> bytes"
    and inv :: "'s \<Rightarrow> bool"
    and K :: "string set"
  assumes put_done: "inv s \<Longrightarrow> k \<in> K \<Longrightarrow> PutObject S c k d opts s = (None, s') \<Longrightarrow>
      inv s' \<and> objs s' = (objs s)(k \<mapsto> d)"
    and put_failed: "inv s \<Longrightarrow> k \<in> K \<Longrightarrow> PutObject S c k d opts s = (Some e, s') \<Longrightarrow>
      inv s' \<and> (objs s' = objs s \<or> objs s' = (objs s)(k \<mapsto> d))"
    and get_found: "inv s \<Longrightarrow> k \<in> K \<Longrightarrow> GetObject S c k s = (Inr d, s') \<Longrightarrow>
      inv s' \<and> objs s' = objs s \<and> objs s k = Some d"
    and get_failed: "inv s \<Longrightarrow> k \<in> K \<Longrightarrow> \<not> IsNotFound c \<Longrightarrow> GetObject S c k s = (Inl e, s') \<Longrightarrow>
      inv s' \<and> objs s' = objs s \<and> (IsNotFound (Some e) \<longrightarrow> objs s k = None)"
    and head_found: "inv s \<Longrightarrow> k \<in> K \<Longrightarrow> HeadObject S c k s = (Inr i, s') \<Longrightarrow>
      inv s' \<and> objs s' = objs s \<and> objs s k \<noteq> None"
    and head_failed: "inv s \<Longrightarrow> k \<in> K \<Longrightarrow> \<not> IsNotFound c \<Longrightarrow> HeadObject S c k s = (Inl e, s') \<Longrightarrow>
      inv s' \<and> objs s' = objs s \<and> (IsNotFound (Some e) \<longrightarrow> objs s k = None)"
    and delete_done: "inv s \<Longrightarrow> k \<in> K \<Longrightarrow> DeleteObject S c k s = (None, s') \<Longrightarrow>
      inv s' \<and> objs s' = (objs s)(k := None)"
    and delete_failed: "inv s \<Longrightarrow> k \<in> K \<Longrightarrow> DeleteObject S c k s = (Some e, s') \<Longrightarrow>
      inv s' \<and> (objs s' = objs s \<or> objs s' = (objs s)(k := None))"

lemma IsNotFound_simps [simp]: "\<not> IsNotFound None" "IsNotFound (Some ErrNotFound)"
  by (simp_all add: IsNotFound_def)

sublocale object_store \<subseteq> store_safety S objs inv UNIV
proof (unfold_locales, goal_cases)
  case (1 s k c d opts s')
  then show ?case using put_live [of s k d opts] put_ended [of s "the c" k d opts] by (cases c) fastforce+
next
  case (2 s k c d opts e s')
  then show ?case using put_live [of s k d opts] put_ended [of s "the c" k d opts] by (cases c) fastforce+
next
  case (3 s k c d s')
  then show ?case using get_live [of s k] get_ended [of s "the c" k]
    by (cases c) (fastforce simp: get_spec_def split: option.splits)+
next
  case (4 s k c e s')
  then show ?case using get_live [of s k] get_ended [of s "the c" k]
    by (cases c) (fastforce simp: get_spec_def split: option.splits)+
next
  case (5 s k c i s')
  then show ?case using head_live [of s k] head_ended [of s "the c" k]
    by (cases c) (fastforce split: option.splits)+
next
  case (6 s k c e s')
  then show ?case using head_live [of s k] head_ended [of s "the c" k]
    by (cases c) (fastforce split: option.splits)+
next
  case (7 s k c s')
  then show ?case using delete_live [of s k] delete_ended [of s "the c" k] by (cases c) fastforce+
next
  case (8 s k c e s')
  then show ?case using delete_live [of s k] delete_ended [of s "the c" k] by (cases c) fastforce+
qed

lemma finite_keys_with_prefix: "finite (dom m) \<Longrightarrow> finite (keys_with_prefix m prefix)"
  by (simp add: keys_with_prefix_def)

lemma set_sorted_keys: "finite (dom m) \<Longrightarrow> set (sorted_keys m prefix) = keys_with_prefix m prefix"
  by (simp add: sorted_keys_def finite_keys_with_prefix)

lemma length_sorted_keys: "length (sorted_keys m prefix) = card (keys_with_prefix m prefix)"
  by (simp add: sorted_keys_def)

lemma distinct_sorted_keys [simp]: "distinct (sorted_keys m prefix)"
  by (simp add: sorted_keys_def)

lemma sorted_sorted_keys [simp]: "sorted (sorted_keys m prefix)"
  by (simp add: sorted_keys_def)

section \<open>DeletePrefix under the contract\<close>

lemma page_spec_first:
  "page_keys (page_spec ks \<lparr>opt_max_keys = m, opt_token = []\<rparr>) =
     (if 0 < m \<and> m < int (length ks) then take (nat m) ks else ks)"
  by (simp add: page_spec_def Let_def)

context object_store begin

lemma delete_keys_live:
  "inv s \<Longrightarrow> \<exists>s'. delete_keys S None ks n s = ((n + length ks, None), s') \<and> inv s' \<and>
     objs s' = objs s |` (- set ks)"
proof (induction ks arbitrary: n s)
  case (Cons k ks)
  obtain s1 where s1: "DeleteObject S None k s = (None, s1)" "inv s1" "objs s1 = (objs s)(k := None)"
    using delete_live [OF Cons.prems] by blast
  obtain s2 where s2: "delete_keys S None ks (Suc n) s1 = ((Suc n + length ks, None), s2)"
    "inv s2" "objs s2 = objs s1 |` (- set ks)"
    using Cons.IH [OF s1(2)] by blast
  have "objs s2 = objs s |` (- set (k # ks))"
    unfolding s2(3) s1(3) by (auto simp: restrict_map_def fun_eq_iff)
  with s1 s2 show ?case by simp
qed (simp add: restrict_map_def)

lemma keys_after_delete:
  assumes "finite (dom m)" and "set ps \<subseteq> keys_with_prefix m p" and "distinct ps"
  shows "card (keys_with_prefix (m |` (- set ps)) p) = card (keys_with_prefix m p) - length ps"
proof -
  have "keys_with_prefix (m |` (- set ps)) p = keys_with_prefix m p - set ps"
    by (auto simp: keys_with_prefix_def restrict_map_def dom_def split: if_splits)
  then show ?thesis
    using assms by (simp add: card_Diff_subset distinct_card)
qed

lemma DeletePrefix_loop_live:
  "inv s \<Longrightarrow> card (keys_with_prefix (objs s) p) < fuel \<Longrightarrow>
   \<exists>s'. DeletePrefix_loop fuel S None p n s = Some ((n + card (keys_with_prefix (objs s) p), None), s') \<and>
     inv s' \<and> objs s' = objs s |` {k. \<not> hasPrefix k p}"
proof (induction fuel arbitrary: n s)
  case (Suc fuel)
  let ?ks = "sorted_keys (objs s) p" and ?K = "keys_with_prefix (objs s) p"
  let ?opts = "\<lparr>opt_max_keys = 1000, opt_token = []\<rparr>"
  let ?ps = "page_keys (page_spec ?ks ?opts)"
  have fin: "finite (dom (objs s))" using Suc.prems(1) by (rule finite_objs)
  have ps: "?ps = take 1000 ?ks"
    by (simp add: page_spec_first)
  obtain s1 where s1: "ListPrefixPage S None p ?opts s = (Inr (page_spec ?ks ?opts), s1)"
    "inv s1" "objs s1 = objs s"
    using list_live [OF Suc.prems(1)] by blast
  show ?case
  proof (cases "?ps = []")
    case True
    then have "?K = {}"
      using set_sorted_keys [OF fin, of p] by (simp add: ps)
    then have "objs s = objs s |` {k. \<not> hasPrefix k p}"
      by (auto simp: keys_with_prefix_def restrict_map_def fun_eq_iff dom_def)
    with True s1 \<open>?K = {}\<close> show ?thesis by simp
  next
    case False
    obtain s2 where s2: "delete_keys S None ?ps n s1 = ((n + length ?ps, None), s2)" "inv s2"
      "objs s2 = objs s1 |` (- set ?ps)"
      using delete_keys_live [OF s1(2)] by blast
    have sub: "set ?ps \<subseteq> ?K"
      using set_take_subset [of 1000 ?ks] by (simp add: ps set_sorted_keys [OF fin])
    have dist: "distinct ?ps" by (simp add: ps)
    have c2: "card (keys_with_prefix (objs s2) p) = card ?K - length ?ps"
      using keys_after_delete [OF fin sub dist] s2(3) s1(3) by simp
    have le: "length ?ps \<le> card ?K"
      by (simp add: ps length_sorted_keys)
    with False Suc.prems(2) c2 have "card (keys_with_prefix (objs s2) p) < fuel"
      by (cases "length ?ps") auto
    then obtain s3 where s3: "DeletePrefix_loop fuel S None p (n + length ?ps) s2 =
        Some ((n + length ?ps + card (keys_with_prefix (objs s2) p), None), s3)" "inv s3"
        "objs s3 = objs s2 |` {k. \<not> hasPrefix k p}"
      using Suc.IH [OF s2(2)] by blast
    have "objs s3 = objs s |` {k. \<not> hasPrefix k p}"
      using sub unfolding s3(3) s2(3) s1(3)
      by (auto simp: restrict_map_def fun_eq_iff keys_with_prefix_def)
    then show ?thesis
      using False s1 s2 s3 c2 le by simp
  qed
qed simp

end

end
