(* ===== verification/S3Store.thy ===== *)
theory S3Store
  imports GoUrl GoXml GoCrypto Messages CommonConfig ObjectStore "HOL-Library.AList"
begin

text \<open>
  \<open>internal/objectstore/s3/s3.go\<close>: the client of an S3-compatible service.  Each
  operation builds a request, signs it (AWS Signature Version 4) and gives it to the
  HTTP client, which with the network and the service behind it is a parameter:
  a function from the context, the request and the state of the world to a response
  or an error.  The clock is read from the same state.  Header maps are association
  lists by canonical name.
\<close>

section \<open>Configuration\<close>

record S3Config =
  s3_Provider :: string
  s3_Bucket :: string
  s3_Region :: string
  s3_Endpoint :: string
  s3_ForcePathStyle :: bool
  s3_AccessKeyID :: string
  s3_SecretAccessKey :: string
  s3_SessionToken :: string

definition s3_inferProvider :: "string \<Rightarrow> string \<Rightarrow> string" where
  "s3_inferProvider region0 endpoint0 =
     (let region = toLower (trimSpace region0); endpoint = toLower (trimSpace endpoint0)
      in if contains endpoint ''storage.yandexcloud.net'' then ''yandex''
         else if hasPrefix region ''ru-central1'' then ''yandex''
         else if contains endpoint ''127.0.0.1'' \<or> contains endpoint ''localhost'' then ''minio''
         else ''aws'')"

text \<open>The \<open>switch\<close> over the provider.\<close>

definition s3_provider_case :: "S3Config \<Rightarrow> S3Config" where
  "s3_provider_case c =
     (if s3_Provider c = ''aws'' then c\<lparr>s3_Region := or_default (s3_Region c) ''us-east-1''\<rparr>
      else if s3_Provider c \<in> set yandex_names then
        c\<lparr>s3_Provider := ''yandex'',
          s3_Endpoint := or_default (s3_Endpoint c) ''https://storage.yandexcloud.net'',
          s3_Region := yandex_region (s3_Region c), s3_ForcePathStyle := True\<rparr>
      else if s3_Provider c = ''minio'' then
        c\<lparr>s3_Endpoint := or_default (s3_Endpoint c) ''http://127.0.0.1:9000'',
          s3_Region := or_default (s3_Region c) ''us-east-1'', s3_ForcePathStyle := True\<rparr>
      else c\<lparr>s3_Region := or_default (s3_Region c) ''us-east-1''\<rparr>)"

definition s3_applyProviderDefaults :: "S3Config \<Rightarrow> S3Config" where
  "s3_applyProviderDefaults c =
     (let p = toLower (trimSpace (s3_Provider c));
          c1 = s3_provider_case
            (c\<lparr>s3_Provider := (if p = [] then s3_inferProvider (s3_Region c) (s3_Endpoint c) else p)\<rparr>)
      in if contains (s3_Bucket c1) ''.'' \<and> s3_Endpoint c1 \<noteq> [] then c1\<lparr>s3_ForcePathStyle := True\<rparr> else c1)"

definition s3_firstEnv :: "environ \<Rightarrow> string list \<Rightarrow> string" where
  "s3_firstEnv env keys = first_set env keys []"

definition s3_New :: "environ \<Rightarrow> S3Config \<Rightarrow> S3Config result" where
  "s3_New env cfg =
     (if s3_Bucket cfg = [] then Inl (ErrText ''bucket is required'')
      else
        let c = s3_applyProviderDefaults cfg;
            key = or_default (s3_AccessKeyID c)
              (s3_firstEnv env [''S3S5_ACCESS_KEY_ID'', ''AWS_ACCESS_KEY_ID'', ''YC_ACCESS_KEY_ID'']);
            secret = or_default (s3_SecretAccessKey c)
              (s3_firstEnv env [''S3S5_SECRET_ACCESS_KEY'', ''AWS_SECRET_ACCESS_KEY'', ''YC_SECRET_ACCESS_KEY'']);
            token = or_default (s3_SessionToken c)
              (s3_firstEnv env [''S3S5_SESSION_TOKEN'', ''AWS_SESSION_TOKEN'', ''YC_SESSION_TOKEN''])
        in if key = [] \<or> secret = []
           then Inl (ErrText (''S3 credentials are required: set S3S5_ACCESS_KEY_ID/S3S5_SECRET_ACCESS_KEY '' @
             ''or AWS_ACCESS_KEY_ID/AWS_SECRET_ACCESS_KEY''))
           else Inr (c\<lparr>s3_AccessKeyID := key, s3_SecretAccessKey := secret, s3_SessionToken := token\<rparr>))"

section \<open>Requests and responses\<close>

type_synonym header = "(string \<times> string list) list"

record request =
  rq_Method :: string
  rq_URL :: URL
  rq_Host :: string
  rq_Header :: header
  rq_ContentLength :: int
  rq_Body :: bytes

text \<open>\<open>rs_Body\<close> is what can be read of the body, \<open>rs_BodyErr\<close> the error after it if any.\<close>

record response =
  rs_StatusCode :: int
  rs_Status :: string
  rs_Header :: header
  rs_ContentLength :: int
  rs_Body :: bytes
  rs_BodyErr :: "err option"
  rs_Method :: string
  rs_URL :: URL

type_synonym 's http = "ctx \<Rightarrow> request \<Rightarrow> 's \<Rightarrow> response result \<times> 's"

text \<open>\<open>textproto.CanonicalMIMEHeaderKey\<close>\<close>

definition token_char :: "char \<Rightarrow> bool" where
  "token_char c \<longleftrightarrow> url_alnum c \<or> c \<in> set (''!#$%&*+-.^_|~'' @ [CHR 0x27, CHR 0x60])"

definition upper_char :: "char \<Rightarrow> char" where
  "upper_char c = (if CHR ''a'' \<le> c \<and> c \<le> CHR ''z'' then char_of (of_char c - (32 :: nat)) else c)"

fun capitalize :: "bool \<Rightarrow> string \<Rightarrow> string" where
  "capitalize up [] = []"
| "capitalize up (c # s) = (if up then upper_char c else lower_char c) # capitalize (c = CHR ''-'') s"

definition canonical_name :: "string \<Rightarrow> string" where
  "canonical_name k = (if list_all token_char k then capitalize True k else k)"

definition Header_Set :: "string \<Rightarrow> string \<Rightarrow> header \<Rightarrow> header" where
  "Header_Set k v h = AList.update (canonical_name k) [v] h"

text \<open>\<open>strings.Fields\<close>\<close>

definition fields :: "string \<Rightarrow> string list" where
  "fields s = filter (\<lambda>w. w \<noteq> []) (splitc (CHR '' '') (map (\<lambda>c. if c \<in> set ascii_space then CHR '' '' else c) s))"

section \<open>Object URLs\<close>

definition awsEscape :: "string \<Rightarrow> string" where
  "awsEscape s = concat (map (\<lambda>c. if c = CHR ''+'' then ''%20'' else [c]) (QueryEscape s))"

definition escapePath :: "string \<Rightarrow> string" where
  "escapePath p = join ''/'' (map awsEscape (splitc (CHR ''/'') p))"

definition joinURLPath :: "string list \<Rightarrow> string" where
  "joinURLPath parts =
     (let cleaned = filter (\<lambda>p. p \<noteq> []) (map (\<lambda>p. trim p ''/'') parts)
      in if cleaned = [] then ''/'' else ''/'' @ join ''/'' cleaned)"

definition objectURL :: "S3Config \<Rightarrow> string \<Rightarrow> URL result" where
  "objectURL cfg k =
     (let escapedKey = escapePath k in
      if s3_Endpoint cfg \<noteq> [] then
        ebind (Parse (s3_Endpoint cfg)) (\<lambda>base.
          Inr (if s3_ForcePathStyle cfg
               then base\<lparr>url_Path := joinURLPath [url_Path base, s3_Bucket cfg, escapedKey]\<rparr>
               else base\<lparr>url_Host := s3_Bucket cfg @ ''.'' @ url_Host base,
                         url_Path := joinURLPath [url_Path base, escapedKey]\<rparr>))
      else Inr (empty_URL\<lparr>url_Scheme := ''https'',
                  url_Host := s3_Bucket cfg @ ''.s3.'' @ s3_Region cfg @ ''.amazonaws.com'',
                  url_Path := ''/'' @ escapedKey\<rparr>))"

text \<open>\<open>http.NewRequestWithContext\<close>: the URL is written and parsed again.\<close>

definition hasPort :: "string \<Rightarrow> bool" where
  "hasPort s \<longleftrightarrow>
     (case cut_last (CHR '':'') s of
        None \<Rightarrow> False
      | Some (_, rest) \<Rightarrow> CHR '']'' \<notin> set rest)"

definition removeEmptyPort :: "string \<Rightarrow> string" where
  "removeEmptyPort host = (if hasPort host then trimSuffix host '':'' else host)"

definition NewRequest :: "string \<Rightarrow> string \<Rightarrow> bytes \<Rightarrow> request result" where
  "NewRequest method url body =
     ebind (Parse url) (\<lambda>u0.
       let u = u0\<lparr>url_Host := removeEmptyPort (url_Host u0)\<rparr>
       in Inr \<lparr>rq_Method = method, rq_URL = u, rq_Host = url_Host u, rq_Header = [],
               rq_ContentLength = int (length body), rq_Body = body\<rparr>)"

definition newRequest :: "S3Config \<Rightarrow> string \<Rightarrow> string \<Rightarrow> url_values \<Rightarrow> bytes \<Rightarrow> request result" where
  "newRequest cfg method k query body =
     ebind (objectURL cfg k) (\<lambda>u0.
       let u = (if query \<noteq> [] then u0\<lparr>url_RawQuery := values_Encode query\<rparr> else u0)
       in NewRequest method (URL_String u) body)"

section \<open>Signing\<close>

definition canonicalURI :: "string \<Rightarrow> string" where
  "canonicalURI p = (if p = [] then ''/'' else if \<not> hasPrefix p ''/'' then ''/'' @ p else p)"

definition canonicalQuery :: "url_values \<Rightarrow> string" where
  "canonicalQuery q =
     join ''&'' (concat (map (\<lambda>k. map (\<lambda>v. awsEscape k @ ''='' @ awsEscape v) (sort (values_of q k))) (sorted_names q)))"

definition header_value :: "string list \<Rightarrow> string" where
  "header_value vs = join '','' (map (\<lambda>v. join '' '' (fields v)) vs)"

text \<open>The names and the block of the signed headers.\<close>

definition canonicalHeaders :: "header \<Rightarrow> string \<Rightarrow> string \<times> string" where
  "canonicalHeaders h host =
     (let values = foldl (\<lambda>m (k, vs). AList.update (toLower k) (header_value vs) m) [(''host'', trimSpace host)] h;
          keys = sort (map fst values)
      in (join '';'' keys,
          concat (map (\<lambda>k. k @ '':'' @ the (map_of values k) @ [CHR 0x0A]) keys)))"

definition hmacSHA256 :: "bytes \<Rightarrow> bytes \<Rightarrow> bytes" where
  "hmacSHA256 k data = hmac_sha256 k data"

definition sigKey :: "string \<Rightarrow> string \<Rightarrow> string \<Rightarrow> string \<Rightarrow> bytes" where
  "sigKey secret date region service =
     (let kDate = hmacSHA256 (bytes_of (''AWS4'' @ secret)) (bytes_of date);
          kRegion = hmacSHA256 kDate (bytes_of region);
          kService = hmacSHA256 kRegion (bytes_of service)
      in hmacSHA256 kService (bytes_of ''aws4_request''))"

text \<open>The two texts of the clock reading, in UTC.\<close>

definition short_date :: "gotime \<Rightarrow> string" where
  "short_date t = zero_pad 4 (itoa (tm_year t)) @ dd (tm_month t) @ dd (tm_day t)"

definition amz_date :: "gotime \<Rightarrow> string" where
  "amz_date t = short_date t @ ''T'' @ dd (tm_hour t) @ dd (tm_minute t) @ dd (tm_second t) @ ''Z''"

definition canonical_request :: "request \<Rightarrow> string \<Rightarrow> string" where
  "canonical_request req payloadHash =
     (case canonicalHeaders (rq_Header req) (url_Host (rq_URL req)) of (signedHeaders, block) \<Rightarrow>
        join [CHR 0x0A] [rq_Method req, canonicalURI (EscapedPath (rq_URL req)),
          canonicalQuery (ParseQuery (url_RawQuery (rq_URL req))), block, signedHeaders, payloadHash])"

definition credential_scope :: "S3Config \<Rightarrow> gotime \<Rightarrow> string" where
  "credential_scope cfg now = join ''/'' [short_date now, s3_Region cfg, ''s3'', ''aws4_request'']"

definition string_to_sign :: "S3Config \<Rightarrow> gotime \<Rightarrow> string \<Rightarrow> string" where
  "string_to_sign cfg now canonicalRequest =
     join [CHR 0x0A] [''AWS4-HMAC-SHA256'', amz_date now, credential_scope cfg now,
       hex_encode (sha256 (bytes_of canonicalRequest))]"

text \<open>The headers set before signing, then the signature over them.\<close>

definition sign_headers :: "S3Config \<Rightarrow> gotime \<Rightarrow> request \<Rightarrow> request" where
  "sign_headers cfg now req =
     (let h1 = Header_Set ''Host'' (url_Host (rq_URL req)) (rq_Header req);
          h2 = Header_Set ''x-amz-content-sha256'' (hex_encode (sha256 (rq_Body req))) h1;
          h3 = Header_Set ''x-amz-date'' (amz_date now) h2;
          h4 = (if s3_SessionToken cfg \<noteq> [] then Header_Set ''x-amz-security-token'' (s3_SessionToken cfg) h3 else h3)
      in req\<lparr>rq_Header := h4\<rparr>)"

definition sign :: "S3Config \<Rightarrow> gotime \<Rightarrow> request \<Rightarrow> request" where
  "sign cfg now req0 =
     (let req = sign_headers cfg now req0;
          payloadHash = hex_encode (sha256 (rq_Body req));
          signedHeaders = fst (canonicalHeaders (rq_Header req) (url_Host (rq_URL req)));
          toSign = string_to_sign cfg now (canonical_request req payloadHash);
          signingKey = sigKey (s3_SecretAccessKey cfg) (short_date now) (s3_Region cfg) ''s3'';
          signature = hex_encode (hmacSHA256 signingKey (bytes_of toSign));
          auth = ''AWS4-HMAC-SHA256 Credential='' @ s3_AccessKeyID cfg @ ''/'' @ credential_scope cfg now @
            '', SignedHeaders='' @ signedHeaders @ '', Signature='' @ signature
      in req\<lparr>rq_Header := Header_Set ''Authorization'' auth (rq_Header req)\<rparr>)"

section \<open>Operations\<close>

definition s3_do :: "S3Config \<Rightarrow> ('s \<Rightarrow> gotime) \<Rightarrow> 's http \<Rightarrow> ctx \<Rightarrow> request \<Rightarrow> 's \<Rightarrow> response result \<times> 's" where
  "s3_do cfg now http ctx req s = http ctx (sign cfg (now s) req) s"

text \<open>\<open>URL.Redacted\<close>\<close>

definition Redacted :: "URL \<Rightarrow> string" where
  "Redacted u =
     (case url_User u of
        Some (n, Some _) \<Rightarrow> URL_String (u\<lparr>url_User := Some (n, Some ''xxxxx'')\<rparr>)
      | _ \<Rightarrow> URL_String u)"

definition statusError :: "response \<Rightarrow> err" where
  "statusError resp =
     (let body = trimSpace (string_of (take 4096 (rs_Body resp)));
          msg = (if body = [] then rs_Status resp else body)
      in ErrText (''s3 '' @ rs_Method resp @ '' '' @ Redacted (rs_URL resp) @ '': '' @ msg))"

definition doNoBody ::
  "S3Config \<Rightarrow> ('s \<Rightarrow> gotime) \<Rightarrow> 's http \<Rightarrow> ctx \<Rightarrow> request \<Rightarrow> int list \<Rightarrow> 's \<Rightarrow> err option \<times> 's" where
  "doNoBody cfg now http ctx req success s =
     (case s3_do cfg now http ctx req s of
        (Inl e, s') \<Rightarrow> (Some e, s')
      | (Inr resp, s') \<Rightarrow>
          (if rs_StatusCode resp \<in> set success then None
           else if rs_StatusCode resp = 404 then Some ErrNotFound
           else Some (statusError resp), s'))"

definition s3_PutObject ::
  "S3Config \<Rightarrow> ('s \<Rightarrow> gotime) \<Rightarrow> 's http \<Rightarrow> ctx \<Rightarrow> string \<Rightarrow> bytes \<Rightarrow> PutOptions \<Rightarrow> 's \<Rightarrow> err option \<times> 's" where
  "s3_PutObject cfg now http ctx k data opts s =
     (case newRequest cfg ''PUT'' k [] data of
        Inl e \<Rightarrow> (Some e, s)
      | Inr req \<Rightarrow>
          let h1 = (if opt_content_type opts \<noteq> [] then Header_Set ''Content-Type'' (opt_content_type opts) (rq_Header req)
                    else rq_Header req);
              h2 = foldl (\<lambda>h (m, v). Header_Set (''x-amz-meta-'' @ toLower m) v h) h1 (opt_metadata opts)
          in doNoBody cfg now http ctx (req\<lparr>rq_Header := h2, rq_ContentLength := int (length data)\<rparr>) [200] s)"

definition s3_GetObject ::
  "S3Config \<Rightarrow> ('s \<Rightarrow> gotime) \<Rightarrow> 's http \<Rightarrow> ctx \<Rightarrow> string \<Rightarrow> 's \<Rightarrow> bytes result \<times> 's" where
  "s3_GetObject cfg now http ctx k s =
     (case newRequest cfg ''GET'' k [] [] of
        Inl e \<Rightarrow> (Inl e, s)
      | Inr req \<Rightarrow>
          (case s3_do cfg now http ctx req s of
             (Inl e, s') \<Rightarrow> (Inl e, s')
           | (Inr resp, s') \<Rightarrow>
               (if rs_StatusCode resp = 404 then Inl ErrNotFound
                else if rs_StatusCode resp \<noteq> 200 then Inl (statusError resp)
                else case rs_BodyErr resp of Some e \<Rightarrow> Inl e | None \<Rightarrow> Inr (rs_Body resp), s')))"

definition metadataFromHeader :: "header \<Rightarrow> (string \<times> string) list" where
  "metadataFromHeader h =
     foldl (\<lambda>m (k, vs).
       let lk = toLower k in
       if hasPrefix lk ''x-amz-meta-'' \<and> vs \<noteq> [] then AList.update (trimPrefix lk ''x-amz-meta-'') (hd vs) m else m) [] h"

definition s3_HeadObject ::
  "S3Config \<Rightarrow> ('s \<Rightarrow> gotime) \<Rightarrow> 's http \<Rightarrow> ctx \<Rightarrow> string \<Rightarrow> 's \<Rightarrow> ObjectInfo result \<times> 's" where
  "s3_HeadObject cfg now http ctx k s =
     (case newRequest cfg ''HEAD'' k [] [] of
        Inl e \<Rightarrow> (Inl e, s)
      | Inr req \<Rightarrow>
          (case s3_do cfg now http ctx req s of
             (Inl e, s') \<Rightarrow> (Inl e, s')
           | (Inr resp, s') \<Rightarrow>
               (if rs_StatusCode resp = 404 then Inl ErrNotFound
                else if rs_StatusCode resp \<noteq> 200 then Inl (statusError resp)
                else Inr \<lparr>info_key = k, info_size = rs_ContentLength resp,
                          info_metadata = metadataFromHeader (rs_Header resp)\<rparr>, s')))"

text \<open>The structure a listing is decoded into, and the decoding.\<close>

record listBucketResult =
  lb_IsTruncated :: bool
  lb_NextContinuationToken :: string
  lb_Contents :: "string list"

fun contents_key :: "xml list \<Rightarrow> string \<Rightarrow> string" where
  "contents_key [] k = k"
| "contents_key (XElem n cs # es) k = contents_key es (if n = ''Key'' then xml_text cs else k)"
| "contents_key (XText t # es) k = contents_key es k"

fun decode_listing :: "xml list \<Rightarrow> listBucketResult \<Rightarrow> listBucketResult result" where
  "decode_listing [] r = Inr r"
| "decode_listing (XText t # es) r = decode_listing es r"
| "decode_listing (XElem n cs # es) r =
     (if n = ''IsTruncated'' then
        (if xml_text cs = [] then decode_listing es (r\<lparr>lb_IsTruncated := False\<rparr>)
         else case ParseBool (trimSpace (xml_text cs)) of
           None \<Rightarrow> Inl (ErrText (''strconv.ParseBool: parsing '' @ quote (trimSpace (xml_text cs)) @ '': invalid syntax''))
         | Some b \<Rightarrow> decode_listing es (r\<lparr>lb_IsTruncated := b\<rparr>))
      else if n = ''NextContinuationToken'' then decode_listing es (r\<lparr>lb_NextContinuationToken := xml_text cs\<rparr>)
      else if n = ''Contents'' then decode_listing es (r\<lparr>lb_Contents := lb_Contents r @ [contents_key cs []]\<rparr>)
      else decode_listing es r)"

definition Decode_listing :: "bytes \<Rightarrow> listBucketResult result" where
  "Decode_listing body =
     ebind (parse_xml (string_of body)) (\<lambda>x. case x of
       XElem _ cs \<Rightarrow> decode_listing cs \<lparr>lb_IsTruncated = False, lb_NextContinuationToken = [], lb_Contents = []\<rparr>
     | XText _ \<Rightarrow> Inl IoEOF)"

definition list_query :: "string \<Rightarrow> ListOptions \<Rightarrow> url_values" where
  "list_query prefx opts =
     (let q1 = values_Set ''prefix'' prefx (values_Set ''list-type'' ''2'' []);
          q2 = (if opt_max_keys opts > 0 then values_Set ''max-keys'' (itoa (nat (opt_max_keys opts))) q1 else q1)
      in if opt_token opts \<noteq> [] then values_Set ''continuation-token'' (opt_token opts) q2 else q2)"

text \<open>When the body of a listing breaks off, its read error stands for whatever the decoder met.\<close>

definition s3_ListPrefixPage ::
  "S3Config \<Rightarrow> ('s \<Rightarrow> gotime) \<Rightarrow> 's http \<Rightarrow> ctx \<Rightarrow> string \<Rightarrow> ListOptions \<Rightarrow> 's \<Rightarrow> ListPage result \<times> 's" where
  "s3_ListPrefixPage cfg now http ctx prefx opts s =
     (case newRequest cfg ''GET'' [] (list_query prefx opts) [] of
        Inl e \<Rightarrow> (Inl e, s)
      | Inr req \<Rightarrow>
          (case s3_do cfg now http ctx req s of
             (Inl e, s') \<Rightarrow> (Inl e, s')
           | (Inr resp, s') \<Rightarrow>
               (if rs_StatusCode resp \<noteq> 200 then Inl (statusError resp)
                else case (Decode_listing (rs_Body resp), rs_BodyErr resp) of
                  (Inr out, _) \<Rightarrow> Inr \<lparr>page_keys = sort (lb_Contents out), page_truncated = lb_IsTruncated out,
                                     page_next_token = lb_NextContinuationToken out\<rparr>
                | (Inl e, None) \<Rightarrow> Inl e
                | (Inl e, Some b) \<Rightarrow> Inl b, s')))"

definition s3_ListPrefix ::
  "S3Config \<Rightarrow> ('s \<Rightarrow> gotime) \<Rightarrow> 's http \<Rightarrow> ctx \<Rightarrow> string \<Rightarrow> ListOptions \<Rightarrow> 's \<Rightarrow> string list result \<times> 's" where
  "s3_ListPrefix cfg now http ctx prefx opts s = keys_of_page (s3_ListPrefixPage cfg now http ctx prefx opts s)"

definition s3_DeleteObject ::
  "S3Config \<Rightarrow> ('s \<Rightarrow> gotime) \<Rightarrow> 's http \<Rightarrow> ctx \<Rightarrow> string \<Rightarrow> 's \<Rightarrow> err option \<times> 's" where
  "s3_DeleteObject cfg now http ctx k s =
     (case newRequest cfg ''DELETE'' k [] [] of
        Inl e \<Rightarrow> (Some e, s)
      | Inr req \<Rightarrow> doNoBody cfg now http ctx req [204, 200] s)"

definition s3_store :: "S3Config \<Rightarrow> ('s \<Rightarrow> gotime) \<Rightarrow> 's http \<Rightarrow> 's ObjectStore" where
  "s3_store cfg now http = \<lparr>PutObject = s3_PutObject cfg now http, GetObject = s3_GetObject cfg now http,
     HeadObject = s3_HeadObject cfg now http, ListPrefix = s3_ListPrefix cfg now http,
     ListPrefixPage = s3_ListPrefixPage cfg now http, DeleteObject = s3_DeleteObject cfg now http\<rparr>"

end
