(* ===== verification/S3Wire.thy ===== *)
theory S3Wire
  imports S3Store
begin

text \<open>
  How a key of the store travels to the service: escaping, the URL of an object, and
  the request that reaches the HTTP client.  A key is escaped by the store and, as
  part of a path, once more when the URL is written, so the service sees the escaped
  key.
\<close>

section \<open>Escaping\<close>

definition escape_char :: "char \<Rightarrow> string" where
  "escape_char c = (if unreserved c then [c] else percent c)"

lemma query_chars: "\<forall>c. shouldEscape EncQuery c = (\<not> unreserved c)"
  by code_simp

text \<open>A plus sign becomes an escaped space, everything else stays.\<close>

definition plus_space :: "char \<Rightarrow> string" where
  "plus_space c = (if c = CHR ''+'' then ''%20'' else [c])"

lemma special_chars: "\<not> unreserved (CHR ''+'')" "\<not> unreserved (CHR '' '')" "\<not> url_alnum (CHR ''+'')"
  "percent (CHR '' '') = ''%20''" "\<not> unreserved (CHR ''/'')" "\<not> url_alnum (CHR ''/'')"
  by code_simp+

lemma percent_chars: "c \<in> set (percent d) \<Longrightarrow> c = CHR ''%'' \<or> url_alnum c"
  using upper_hex_alnum [of "of_char d div 16"] upper_hex_alnum [of "of_char d mod 16"]
  by (auto simp: percent_def less_mult_imp_div_less)

lemma plus_space_percent: "concat (map plus_space (percent c)) = percent c"
proof -
  have "map plus_space (percent c) = map (\<lambda>x. [x]) (percent c)"
    using percent_chars [of "CHR ''+''" c] special_chars(3) by (auto simp: plus_space_def)
  then show ?thesis
    by (simp only: concat_map_singleton map_ident)
qed

lemma awsEscape_chars: "awsEscape s = concat (map escape_char s)"
proof (induction s)
  case (Cons c s)
  have step: "awsEscape (c # s) = concat (map plus_space (escape EncQuery [c])) @ awsEscape s"
    by (simp add: awsEscape_def plus_space_def [abs_def])
  have "concat (map plus_space (escape EncQuery [c])) = escape_char c"
  proof (cases "unreserved c")
    case True
    with special_chars(1) query_chars show ?thesis
      by (auto simp: plus_space_def escape_char_def)
  next
    case False
    with special_chars(4) query_chars plus_space_percent show ?thesis
      by (auto simp: plus_space_def escape_char_def)
  qed
  then show ?case
    by (simp add: step Cons.IH)
qed (simp add: awsEscape_def)

text \<open>
  \<open>awsEscape\<close> is the percent-encoding signatures need: unreserved characters are
  themselves, every other byte is \<open>%\<close> and two upper-case hexadecimal digits.
\<close>

theorem awsEscape_percent_encodes:
  "awsEscape s = concat (map (\<lambda>c. if unreserved c then [c] else percent c) s)"
  unfolding awsEscape_chars by (simp add: escape_char_def [abs_def])

section \<open>Paths\<close>

text \<open>The escaped path, character by character.\<close>

definition path_char :: "char \<Rightarrow> string" where
  "path_char c = (if c = CHR ''/'' then [c] else escape_char c)"

lemma join_map_splitc:
  "join [x] (map (\<lambda>w. concat (map f w)) (splitc x s)) = concat (map (\<lambda>c. if c = x then [x] else f c) s)"
proof (induction s)
  case (Cons c s)
  obtain w ws where "splitc x s = w # ws"
    by (meson list.exhaust splitc_nonempty)
  then show ?case
    using Cons.IH by (cases ws) (auto simp: join_Cons)
qed simp

lemma escapePath_chars: "escapePath k = concat (map path_char k)"
  using join_map_splitc [of "CHR ''/''" escape_char k]
  by (simp add: escapePath_def awsEscape_chars [abs_def] path_char_def [abs_def] if_distrib cong: if_cong)

lemma unescape_path_char: "unescape EncPath (path_char c @ s) = ebind (unescape EncPath s) (\<lambda>t. Inr (c # t))"
proof (cases "c = CHR ''/'' \<or> unreserved c")
  case True
  then have "c \<noteq> CHR ''%''"
    using unreserved_char [of c] by auto
  with True show ?thesis
    by (auto simp: path_char_def escape_char_def)
next
  case False
  then show ?thesis
    using unescape_percent [of EncPath c s] by (simp add: path_char_def escape_char_def plain_mode_def)
qed

lemma unescape_escapePath: "unescape EncPath (escapePath k) = Inr k"
  by (induction k) (simp_all add: escapePath_chars unescape_path_char)

lemma escapePath_inject [simp]: "escapePath k = escapePath k' \<longleftrightarrow> k = k'"
  by (metis unescape_escapePath sum.inject(2))

text \<open>Keys of unreserved characters and slashes are not changed.\<close>

definition plain_key :: "string \<Rightarrow> bool" where
  "plain_key k \<longleftrightarrow> list_all (\<lambda>c. unreserved c \<or> c = CHR ''/'') k"

lemma escapePath_plain: "plain_key k \<Longrightarrow> escapePath k = k"
  by (induction k) (auto simp: plain_key_def escapePath_chars path_char_def escape_char_def)

text \<open>The keys a path can carry: the slashes at the ends of a path are cut.\<close>

definition s3_keys :: "string set" where
  "s3_keys = {k. k \<noteq> [] \<and> hd k \<noteq> CHR ''/'' \<and> last k \<noteq> CHR ''/''}"

lemma path_char_ends: "path_char c \<noteq> [] \<and> (c \<noteq> CHR ''/'' \<longrightarrow> hd (path_char c) \<noteq> CHR ''/'' \<and> last (path_char c) \<noteq> CHR ''/'')"
  using percent_chars [of "CHR ''/''" c] special_chars(5,6)
  by (auto simp: path_char_def escape_char_def percent_def)

lemma escapePath_ends: "k \<in> s3_keys \<Longrightarrow> escapePath k \<in> s3_keys"
proof -
  assume k: "k \<in> s3_keys"
  then obtain c r where c: "k = c # r" "c \<noteq> CHR ''/''"
    by (cases k) (auto simp: s3_keys_def)
  from k obtain d q where d: "k = q @ [d]" "d \<noteq> CHR ''/''"
    by (cases k rule: rev_cases) (auto simp: s3_keys_def)
  have "hd (escapePath k) \<noteq> CHR ''/''" "escapePath k \<noteq> []"
    using path_char_ends [of c] c by (auto simp: escapePath_chars hd_append)
  moreover have "last (escapePath k) \<noteq> CHR ''/''"
    using path_char_ends [of d] d by (auto simp: escapePath_chars)
  ultimately show ?thesis
    by (simp add: s3_keys_def)
qed

lemma trim_s3_key: "k \<in> s3_keys \<Longrightarrow> trim k ''/'' = k"
  by (rule trim_id) (auto simp: s3_keys_def)

section \<open>Requests\<close>

text \<open>
  Where a store with a plain endpoint sends its requests: the scheme, the host and the
  part of the path before the escaped key.
\<close>

definition s3_address :: "S3Config \<Rightarrow> string \<Rightarrow> string \<Rightarrow> string \<Rightarrow> bool" where
  "s3_address cfg sch host pre \<longleftrightarrow>
     sch \<in> {''http'', ''https''} \<and> plain_host host \<and> last host \<noteq> CHR '':'' \<and>
     s3_Bucket cfg \<noteq> [] \<and> trim (s3_Bucket cfg) ''/'' = s3_Bucket cfg \<and>
     (if s3_Endpoint cfg = [] then
        sch = ''https'' \<and> host = s3_Bucket cfg @ ''.s3.'' @ s3_Region cfg @ ''.amazonaws.com'' \<and> pre = ''/''
      else (\<exists>h p. Parse (s3_Endpoint cfg) = Inr (plain_URL sch h p []) \<and>
        (if s3_ForcePathStyle cfg then host = h \<and> pre = joinURLPath [p, s3_Bucket cfg] @ ''/''
         else host = s3_Bucket cfg @ ''.'' @ h \<and> pre = (if trim p ''/'' = [] then ''/'' else joinURLPath [p] @ ''/''))))"

lemma objectURL_address:
  assumes "s3_address cfg sch host pre" and "k \<in> s3_keys"
  shows "objectURL cfg k = Inr (plain_URL sch host (pre @ escapePath k) []) \<and> hd (pre @ escapePath k) = CHR ''/'' \<and> pre \<noteq> []"
proof -
  have e: "trim (escapePath k) ''/'' = escapePath k" "escapePath k \<noteq> []"
    using escapePath_ends [OF assms(2)] trim_s3_key by (auto simp: s3_keys_def)
  show ?thesis
    using assms(1) e
    by (auto simp: s3_address_def objectURL_def plain_URL_def empty_URL_def joinURLPath_def Let_def split: if_splits)
qed

lemma removeEmptyPort_id: "h \<noteq> [] \<Longrightarrow> last h \<noteq> CHR '':'' \<Longrightarrow> removeEmptyPort h = h"
  by (auto simp: removeEmptyPort_def trimSuffix_def hasSuffix_iff)

lemma newRequest_address:
  assumes "s3_address cfg sch host pre" and "k \<in> s3_keys"
  shows "newRequest cfg m k [] body =
    Inr \<lparr>rq_Method = m, rq_URL = plain_URL sch host (pre @ escapePath k) [], rq_Host = host, rq_Header = [],
         rq_ContentLength = int (length body), rq_Body = body\<rparr>"
proof -
  note u = objectURL_address [OF assms]
  have h: "sch \<in> {''http'', ''https''}" "plain_host host" "last host \<noteq> CHR '':''" "host \<noteq> []"
    using assms(1) by (auto simp: s3_address_def plain_host_def)
  have "Parse (URL_String (plain_URL sch host (pre @ escapePath k) [])) = Inr (plain_URL sch host (pre @ escapePath k) [])"
    using u by (intro Parse_plain [OF h(1,2)]) (auto simp: query_text_def)
  moreover have "url_Host (plain_URL sch host p q) = host" "(plain_URL sch host p q)\<lparr>url_Host := host\<rparr> = plain_URL sch host p q" for p q
    by (simp_all add: plain_URL_def)
  ultimately show ?thesis
    using u removeEmptyPort_id [OF h(4,3)] by (simp add: newRequest_def NewRequest_def Let_def)
qed

lemma sign_keeps [simp]:
  "rq_Method (sign cfg now rq) = rq_Method rq" "rq_URL (sign cfg now rq) = rq_URL rq" "rq_Body (sign cfg now rq) = rq_Body rq"
  by (simp_all add: sign_def sign_headers_def Let_def)

lemma escapePath_fixed: "escapePath k = k \<longleftrightarrow> plain_key k"
proof
  have len: "length (path_char c) \<ge> 1" "length (path_char c) = 1 \<longleftrightarrow> unreserved c \<or> c = CHR ''/''" for c
    by (auto simp: path_char_def escape_char_def percent_def)
  have ge: "length s \<le> length (concat (map path_char s))" for s
  proof (induction s)
    case (Cons c s)
    then show ?case using len(1) [of c] by (simp add: add_le_mono)
  qed simp
  assume "escapePath k = k"
  then have "length (concat (map path_char k)) = length k"
    by (simp add: escapePath_chars)
  then show "plain_key k"
  proof (induction k)
    case (Cons c k)
    then have "length (path_char c) = 1" "length (concat (map path_char k)) = length k"
      using ge [of k] len(1) [of c] by auto
    then show ?case
      using Cons.IH len(2) [of c] by (simp add: plain_key_def)
  qed (simp add: plain_key_def)
qed (rule escapePath_plain)

text \<open>
  C28: the request for an object carries the escaped key as its decoded path, so the
  service stores the object under the escaped key.  That is the key itself exactly
  when it consists of unreserved characters and slashes: under any other prefix the
  objects are not where a listing of the prefix looks.
\<close>

theorem s3_path_is_escaped_key:
  assumes "s3_address cfg sch host pre" and "k \<in> s3_keys"
  shows "\<exists>rq. newRequest cfg m k [] body = Inr rq \<and> url_Host (rq_URL rq) = host \<and>
    url_Path (rq_URL rq) = pre @ escapePath k \<and> (escapePath k = k \<longleftrightarrow> plain_key k)"
  by (simp add: newRequest_address [OF assms] escapePath_fixed plain_URL_def)

definition minio_config :: S3Config where
  "minio_config = \<lparr>s3_Provider = ''minio'', s3_Bucket = ''box'', s3_Region = ''us-east-1'',
     s3_Endpoint = ''http://127.0.0.1:9000'', s3_ForcePathStyle = True, s3_AccessKeyID = ''id'',
     s3_SecretAccessKey = ''secret'', s3_SessionToken = []\<rparr>"

lemma minio_address: "s3_address minio_config ''http'' ''127.0.0.1:9000'' ''/box/''"
proof -
  have "Parse ''http://127.0.0.1:9000'' = Inr (plain_URL ''http'' ''127.0.0.1:9000'' [] [])"
    "plain_host ''127.0.0.1:9000''" "trim ''box'' ''/'' = ''box''" "joinURLPath [[], ''box''] = ''/box''"
    by code_simp+
  then show ?thesis
    by (auto simp: s3_address_def minio_config_def)
qed

theorem s3_path_is_escaped_key_witness:
  "\<exists>rq. newRequest minio_config ''PUT'' ''my prefix/v1'' [] [] = Inr rq \<and> url_Path (rq_URL rq) = ''/box/my%20prefix/v1''"
proof -
  have "escapePath ''my prefix/v1'' = ''my%20prefix/v1''"
    by code_simp
  then show ?thesis
    using s3_path_is_escaped_key [OF minio_address, of "''my prefix/v1''" "''PUT''" "[]"]
    by (auto simp: s3_keys_def)
qed

end
