(* ===== verification/Codec.thy ===== *)
theory Codec
  imports Messages GoCrypto
begin

text \<open>
  \<open>internal/crypto/codec.go\<close>: the codec interface, the codec that does nothing, and
  the codec keyed by a pre-shared secret, with its binary envelope for data objects
  and its JSON envelope for control objects.  \<open>rand.Reader\<close> is a parameter:
  \<open>rand_byte g\<close> is the next byte of the generator in state \<open>g\<close>, or its error.

  The laws of the interface are the locale \<open>codec\<close>: what was sealed under a type,
  session, direction and sequence number opens under the same ones.  Both codecs
  are interpreted in it.
\<close>

section \<open>The interface\<close>

record 'g Codec =
  Seal :: "string \<Rightarrow> string \<Rightarrow> string \<Rightarrow> u64 \<Rightarrow> bytes \<Rightarrow> 'g \<Rightarrow> bytes result \<times> 'g"
  Open :: "string \<Rightarrow> string \<Rightarrow> string \<Rightarrow> u64 \<Rightarrow> bytes \<Rightarrow> bytes result"
  SealData :: "string \<Rightarrow> string \<Rightarrow> u64 \<Rightarrow> bytes \<Rightarrow> 'g \<Rightarrow> bytes result \<times> 'g"
  OpenData :: "string \<Rightarrow> string \<Rightarrow> u64 \<Rightarrow> bytes \<Rightarrow> bytes result"
  Enabled :: bool

text \<open>The bound is that of the 32-bit length field of the data envelope.\<close>

locale codec =
  fixes C :: "'g Codec"
  assumes open_seal: "Seal C typ sid dir seq p g = (Inr s, g') \<Longrightarrow> Open C typ sid dir seq s = Inr p"
    and open_data: "SealData C sid dir seq p g = (Inr s, g') \<Longrightarrow> length p + 16 < 2 ^ 32 \<Longrightarrow>
      OpenData C sid dir seq s = Inr p"

section \<open>NoopCodec\<close>

definition NoopCodec :: "'g Codec" where
  "NoopCodec =
     \<lparr>Seal = (\<lambda>typ sid dir seq p g. (Inr p, g)),
      Open = (\<lambda>typ sid dir seq d. Inr d),
      SealData = (\<lambda>sid dir seq p g. (Inr p, g)),
      OpenData = (\<lambda>sid dir seq d. Inr d),
      Enabled = False\<rparr>"

interpretation noop: codec NoopCodec
  by unfold_locales (simp_all add: NoopCodec_def)

section \<open>Key derivation\<close>

text \<open>
  The loop of \<open>hkdfSHA256\<close>: \<open>out\<close> so far, the previous block and the counter.  Each
  turn adds 32 bytes, so \<open>n\<close> turns are enough.
\<close>

fun hkdf_loop :: "nat \<Rightarrow> bytes \<Rightarrow> bytes \<Rightarrow> nat \<Rightarrow> bytes \<Rightarrow> bytes \<Rightarrow> byte \<Rightarrow> bytes" where
  "hkdf_loop 0 prk info n out prev counter = out"
| "hkdf_loop (Suc k) prk info n out prev counter =
     (if length out < n then
        let prev' = hmac_sha256 prk (prev @ info @ [counter])
        in hkdf_loop k prk info n (out @ prev') prev' (counter + 1)
      else out)"

definition hkdfSHA256 :: "bytes \<Rightarrow> bytes \<Rightarrow> bytes \<Rightarrow> nat \<Rightarrow> bytes" where
  "hkdfSHA256 secret salt info n = take n (hkdf_loop n (hmac_sha256 salt secret) info n [] [] 1)"

lemma length_hkdf_loop: "n \<le> length out + 32 * k \<Longrightarrow> n \<le> length (hkdf_loop k prk info n out prev c)"
  by (induction k arbitrary: out prev c) (auto simp: Let_def)

lemma length_hkdfSHA256 [simp]: "length (hkdfSHA256 secret salt info n) = n"
  using length_hkdf_loop [of n "[]" n] by (simp add: hkdfSHA256_def)

record PSKCodec =
  psk :: bytes

definition NewPSKCodec :: "string \<Rightarrow> PSKCodec result" where
  "NewPSKCodec s =
     (if length s < 16 then Inl (ErrText ''S3S5_PSK must be at least 16 characters'')
      else Inr \<lparr>psk = bytes_of s\<rparr>)"

definition deriveKey :: "PSKCodec \<Rightarrow> string \<Rightarrow> string \<Rightarrow> bytes" where
  "deriveKey c sessionID direction =
     hkdfSHA256 (psk c) (bytes_of (''s3s5/v1/'' @ sessionID)) (bytes_of (''payload/'' @ direction)) 32"

definition associatedData :: "string \<Rightarrow> string \<Rightarrow> string \<Rightarrow> u64 \<Rightarrow> bytes" where
  "associatedData objectType sessionID direction seq =
     bytes_of (''s3s5/v1|'' @ objectType @ ''|'' @ sessionID @ ''|'' @ direction @ ''|'' @
       zero_pad 20 (itoa (unat seq)))"

section \<open>Sealing and opening\<close>

text \<open>\<open>aes.NewCipher\<close> fails for other key sizes; \<open>cipher.NewGCM\<close> does not fail on its result.\<close>

definition aes_NewCipher :: "bytes \<Rightarrow> (bytes \<Rightarrow> bytes) result" where
  "aes_NewCipher k = (if length k = 32 then Inr (aes256 k) else Inl (ErrText ''crypto/aes: invalid key size''))"

text \<open>\<open>io.ReadFull(rand.Reader, nonce)\<close> for a nonce of \<open>n\<close> bytes.\<close>

fun rand_full :: "('g \<Rightarrow> byte result \<times> 'g) \<Rightarrow> nat \<Rightarrow> 'g \<Rightarrow> bytes result \<times> 'g" where
  "rand_full rand_byte 0 g = (Inr [], g)"
| "rand_full rand_byte (Suc n) g =
     (case rand_byte g of
        (Inl e, g1) \<Rightarrow> (Inl e, g1)
      | (Inr b, g1) \<Rightarrow>
          (case rand_full rand_byte n g1 of
             (Inl e, g2) \<Rightarrow> (Inl e, g2)
           | (Inr bs, g2) \<Rightarrow> (Inr (b # bs), g2)))"

definition sealRaw ::
  "('g \<Rightarrow> byte result \<times> 'g) \<Rightarrow> PSKCodec \<Rightarrow> string \<Rightarrow> string \<Rightarrow> string \<Rightarrow> u64 \<Rightarrow> bytes \<Rightarrow> 'g
     \<Rightarrow> (bytes \<times> bytes) result \<times> 'g" where
  "sealRaw rand_byte c objectType sessionID direction seq plaintext g =
     (case aes_NewCipher (deriveKey c sessionID direction) of
        Inl e \<Rightarrow> (Inl e, g)
      | Inr block \<Rightarrow>
          (case rand_full rand_byte 12 g of
             (Inl e, g') \<Rightarrow> (Inl e, g')
           | (Inr nonce, g') \<Rightarrow>
               (Inr (nonce, gcm_seal block nonce plaintext (associatedData objectType sessionID direction seq)), g')))"

definition openRaw ::
  "PSKCodec \<Rightarrow> string \<Rightarrow> string \<Rightarrow> string \<Rightarrow> u64 \<Rightarrow> bytes \<Rightarrow> bytes \<Rightarrow> bytes result" where
  "openRaw c objectType sessionID direction seq nonce ct =
     ebind (aes_NewCipher (deriveKey c sessionID direction)) (\<lambda>block.
       if length nonce \<noteq> 12 then Inl (ErrText ''invalid crypto nonce size'')
       else gcm_open block nonce ct (associatedData objectType sessionID direction seq))"

section \<open>The binary envelope of data objects\<close>

definition dataMagic :: bytes where "dataMagic = [83, 53, 68, 49]"
definition dataEnvelopeVersion :: byte where "dataEnvelopeVersion = 1"
definition dataAlgorithmAESGCM :: byte where "dataAlgorithmAESGCM = 1"
definition dataHeaderLen :: nat where "dataHeaderLen = 12"

definition psk_SealData ::
  "('g \<Rightarrow> byte result \<times> 'g) \<Rightarrow> PSKCodec \<Rightarrow> string \<Rightarrow> string \<Rightarrow> u64 \<Rightarrow> bytes \<Rightarrow> 'g
     \<Rightarrow> bytes result \<times> 'g" where
  "psk_SealData rand_byte c sessionID direction seq plaintext g =
     (case sealRaw rand_byte c ''data'' sessionID direction seq plaintext g of
        (Inl e, g') \<Rightarrow> (Inl e, g')
      | (Inr (nonce, ciphertext), g') \<Rightarrow>
          (Inr (dataMagic @ [dataEnvelopeVersion, dataAlgorithmAESGCM, of_nat (length nonce), 0] @
                be32 (of_nat (length ciphertext)) @ nonce @ ciphertext), g'))"

definition psk_OpenData :: "PSKCodec \<Rightarrow> string \<Rightarrow> string \<Rightarrow> u64 \<Rightarrow> bytes \<Rightarrow> bytes result" where
  "psk_OpenData c sessionID direction seq data =
     (if length data < dataHeaderLen then Inl (ErrText ''truncated data crypto envelope'')
      else if take 4 data \<noteq> dataMagic then Inl (ErrText ''invalid data crypto envelope magic'')
      else if data ! 4 \<noteq> dataEnvelopeVersion then Inl (ErrText ''unsupported data crypto envelope version'')
      else if data ! 5 \<noteq> dataAlgorithmAESGCM then Inl (ErrText ''unsupported data crypto envelope algorithm'')
      else let nonceLen = unat (data ! 6)
           in if nonceLen \<noteq> 12 then Inl (ErrText ''invalid data crypto nonce size'')
              else let ctLen = unat (word32 (data ! 8) (data ! 9) (data ! 10) (data ! 11))
                   in if ctLen < 16 then Inl (ErrText ''invalid data crypto ciphertext size'')
                      else if length data \<noteq> dataHeaderLen + nonceLen + ctLen
                        then Inl (ErrText ''invalid data crypto envelope length'')
                      else openRaw c ''data'' sessionID direction seq
                             (take nonceLen (drop dataHeaderLen data)) (drop (dataHeaderLen + nonceLen) data))"

section \<open>The JSON envelope of control objects\<close>

record envelope =
  env_version :: int
  env_algorithm :: string
  env_nonce :: string
  env_ciphertext :: string

text \<open>\<open>base64.StdEncoding\<close>\<close>

definition b64_alphabet :: string where
  "b64_alphabet = ''ABCDEFGHIJKLMNOPQRSTUVWXYZabcdefghijklmnopqrstuvwxyz0123456789+/''"

definition b64_char :: "nat \<Rightarrow> char" where
  "b64_char n = b64_alphabet ! n"

definition b64_val :: "char \<Rightarrow> nat option" where
  "b64_val c = find (\<lambda>n. b64_char n = c) [0..<64]"

fun b64_encode :: "bytes \<Rightarrow> string" where
  "b64_encode [] = []"
| "b64_encode [a] =
     (let n = unat a * 16 in [b64_char (n div 64), b64_char (n mod 64), CHR ''='', CHR ''=''])"
| "b64_encode [a, b] =
     (let n = (unat a * 256 + unat b) * 4
      in [b64_char (n div 4096), b64_char (n div 64 mod 64), b64_char (n mod 64), CHR ''=''])"
| "b64_encode (a # b # c # r) =
     (let n = (unat a * 256 + unat b) * 256 + unat c
      in [b64_char (n div 262144), b64_char (n div 4096 mod 64), b64_char (n div 64 mod 64), b64_char (n mod 64)] @
         b64_encode r)"

text \<open>Decoding skips line ends; bits left over in the last group are not looked at.\<close>

fun b64_groups :: "string \<Rightarrow> bytes option" where
  "b64_groups [] = Some []"
| "b64_groups (w # x # y # z # r) =
     Option.bind (b64_val w) (\<lambda>a. Option.bind (b64_val x) (\<lambda>b.
       if y = CHR ''='' then
         (if z = CHR ''='' \<and> r = [] then Some [of_nat ((a * 64 + b) div 16)] else None)
       else Option.bind (b64_val y) (\<lambda>c.
         if z = CHR ''='' then
           (if r = [] then (let n = ((a * 64 + b) * 64 + c) div 4 in Some [of_nat (n div 256), of_nat n]) else None)
         else Option.bind (b64_val z) (\<lambda>d.
           let n = ((a * 64 + b) * 64 + c) * 64 + d
           in map_option (\<lambda>bs. [of_nat (n div 65536), of_nat (n div 256), of_nat n] @ bs) (b64_groups r)))))"
| "b64_groups _ = None"

definition b64_decode :: "string \<Rightarrow> bytes result" where
  "b64_decode s =
     (case b64_groups (filter (\<lambda>c. c \<noteq> CHR 0x0A \<and> c \<noteq> CHR 0x0D) s) of
        None \<Rightarrow> Inl (ErrText ''illegal base64 data'')
      | Some bs \<Rightarrow> Inr bs)"

definition json_envelope :: "envelope \<Rightarrow> json" where
  "json_envelope e = JObj [(''v'', json_int (env_version e)), (''alg'', JStr (env_algorithm e)),
     (''nonce'', JStr (env_nonce e)), (''ciphertext'', JStr (env_ciphertext e))]"

definition envelope_fields :: "envelope fields" where
  "envelope_fields =
     [(''v'', set_int (\<lambda>i r. r\<lparr>env_version := i\<rparr>)), (''alg'', set_str (\<lambda>s r. r\<lparr>env_algorithm := s\<rparr>)),
      (''nonce'', set_str (\<lambda>s r. r\<lparr>env_nonce := s\<rparr>)), (''ciphertext'', set_str (\<lambda>s r. r\<lparr>env_ciphertext := s\<rparr>))]"

definition zero_envelope :: envelope where
  "zero_envelope = \<lparr>env_version = 0, env_algorithm = [], env_nonce = [], env_ciphertext = []\<rparr>"

definition sealJSON ::
  "('g \<Rightarrow> byte result \<times> 'g) \<Rightarrow> PSKCodec \<Rightarrow> string \<Rightarrow> string \<Rightarrow> string \<Rightarrow> u64 \<Rightarrow> bytes \<Rightarrow> 'g
     \<Rightarrow> bytes result \<times> 'g" where
  "sealJSON rand_byte c objectType sessionID direction seq plaintext g =
     (case sealRaw rand_byte c objectType sessionID direction seq plaintext g of
        (Inl e, g') \<Rightarrow> (Inl e, g')
      | (Inr (nonce, ct), g') \<Rightarrow>
          (Inr (bytes_of (enc (json_envelope \<lparr>env_version = 1, env_algorithm = ''AES-256-GCM'',
             env_nonce = b64_encode nonce, env_ciphertext = b64_encode ct\<rparr>))), g'))"

definition openJSON :: "PSKCodec \<Rightarrow> string \<Rightarrow> string \<Rightarrow> string \<Rightarrow> u64 \<Rightarrow> bytes \<Rightarrow> bytes result" where
  "openJSON c objectType sessionID direction seq data =
     ebind (unmarshal envelope_fields zero_envelope data) (\<lambda>env.
       if env_version env \<noteq> 1 \<or> env_algorithm env \<noteq> ''AES-256-GCM''
       then Inl (ErrText ''unsupported crypto envelope'')
       else ebind (b64_decode (env_nonce env)) (\<lambda>nonce.
            ebind (b64_decode (env_ciphertext env)) (\<lambda>ct.
              openRaw c objectType sessionID direction seq nonce ct)))"

definition psk_codec :: "('g \<Rightarrow> byte result \<times> 'g) \<Rightarrow> PSKCodec \<Rightarrow> 'g Codec" where
  "psk_codec rand_byte c =
     \<lparr>Seal = sealJSON rand_byte c, Open = openJSON c,
      SealData = psk_SealData rand_byte c, OpenData = psk_OpenData c, Enabled = True\<rparr>"

section \<open>Opening what was sealed\<close>

lemma length_rand_full: "rand_full rand_byte n g = (Inr bs, g') \<Longrightarrow> length bs = n"
  by (induction n arbitrary: g bs) (auto split: prod.splits sum.splits)

lemma sealRaw_openRaw:
  assumes "sealRaw rand_byte c typ sid dir seq p g = (Inr (nonce, ct), g')"
  shows "openRaw c typ sid dir seq nonce ct = Inr p \<and> length nonce = 12 \<and> length ct = length p + 16"
proof -
  have k: "length (deriveKey c sid dir) = 32"
    by (simp add: deriveKey_def)
  with assms have n: "rand_full rand_byte 12 g = (Inr nonce, g')"
    and ct: "ct = gcm_seal (aes256 (deriveKey c sid dir)) nonce p (associatedData typ sid dir seq)"
    by (auto simp: sealRaw_def aes_NewCipher_def split: prod.splits sum.splits)
  then show ?thesis
    using length_rand_full [OF n] k
    by (simp add: openRaw_def aes_NewCipher_def gcm_open_seal length_gcm_seal)
qed

lemma unat_word32_be32: "n < 2 ^ 32 \<Longrightarrow>
  (case be32 (of_nat n) of [a, b, c, d] \<Rightarrow> unat (word32 a b c d) = n)"
proof -
  assume "n < 2 ^ 32"
  have "word32 (ucast (drop_bit 24 w)) (ucast (drop_bit 16 w)) (ucast (drop_bit 8 w)) (ucast w) = w" for w :: "32 word"
  proof (rule bit_word_eqI)
    fix n assume "n < LENGTH(32)"
    then consider "n < 8" | "8 \<le> n" "n < 16" | "16 \<le> n" "n < 24" | "24 \<le> n" "n < 32"
      by fastforce
    then show "bit (word32 (ucast (drop_bit 24 w)) (ucast (drop_bit 16 w)) (ucast (drop_bit 8 w)) (ucast w)) n = bit w n"
      unfolding word32_def by cases (auto simp: bit_simps)
  qed
  then show ?thesis
    using \<open>n < 2 ^ 32\<close> by (simp add: be32_def unat_of_nat)
qed

lemma psk_open_data:
  assumes "psk_SealData rand_byte c sid dir seq p g = (Inr s, g')" and "length p + 16 < 2 ^ 32"
  shows "psk_OpenData c sid dir seq s = Inr p"
proof -
  obtain nonce ct where raw: "sealRaw rand_byte c ''data'' sid dir seq p g = (Inr (nonce, ct), g')"
    and s: "s = dataMagic @ [dataEnvelopeVersion, dataAlgorithmAESGCM, of_nat (length nonce), 0] @
      be32 (of_nat (length ct)) @ nonce @ ct"
    using assms(1) by (auto simp: psk_SealData_def split: prod.splits sum.splits)
  note o = sealRaw_openRaw [OF raw]
  obtain a b c' d where be: "be32 (of_nat (length ct)) = [a, b, c', d]"
    by (simp add: be32_def)
  have "unat (word32 a b c' d) = length ct"
    using unat_word32_be32 [of "length ct"] o assms(2) unfolding be by simp
  moreover have "s = dataMagic @ [dataEnvelopeVersion, dataAlgorithmAESGCM, of_nat (length nonce), 0] @
      [a, b, c', d] @ nonce @ ct"
    using s unfolding be .
  ultimately show ?thesis
    using o by (simp add: psk_OpenData_def dataMagic_def dataHeaderLen_def Let_def)
qed

lemma b64_val_char: "n < 64 \<Longrightarrow> b64_val (b64_char n) = Some n"
proof -
  have "list_all (\<lambda>n. b64_val (b64_char n) = Some n) [0..<64]"
    by code_simp
  then show "n < 64 \<Longrightarrow> b64_val (b64_char n) = Some n"
    by (simp add: list_all_iff)
qed

lemma b64_char_plain: "n < 64 \<Longrightarrow> b64_char n \<noteq> CHR ''='' \<and> b64_char n \<noteq> CHR 0x0A \<and> b64_char n \<noteq> CHR 0x0D \<and> code (b64_char n) < 128"
proof -
  have "list_all (\<lambda>n. b64_char n \<noteq> CHR ''='' \<and> b64_char n \<noteq> CHR 0x0A \<and> b64_char n \<noteq> CHR 0x0D \<and>
      code (b64_char n) < 128) [0..<64]"
    by code_simp
  then show "n < 64 \<Longrightarrow> b64_char n \<noteq> CHR ''='' \<and> b64_char n \<noteq> CHR 0x0A \<and> b64_char n \<noteq> CHR 0x0D \<and> code (b64_char n) < 128"
    by (simp add: list_all_iff)
qed

text \<open>Joining and splitting 6-bit groups.\<close>

lemma sextets:
  fixes n :: nat
  shows "n div 64 * 64 + n mod 64 = n"
    and "(n div 4096 * 64 + n div 64 mod 64) * 64 + n mod 64 = n"
    and "((n div 262144 * 64 + n div 4096 mod 64) * 64 + n div 64 mod 64) * 64 + n mod 64 = n"
proof -
  have *: "n div 4096 = n div 64 div 64" "n div 262144 = n div 64 div 64 div 64"
    by (simp_all flip: div_mult2_eq)
  show "n div 64 * 64 + n mod 64 = n"
    "(n div 4096 * 64 + n div 64 mod 64) * 64 + n mod 64 = n"
    "((n div 262144 * 64 + n div 4096 mod 64) * 64 + n div 64 mod 64) * 64 + n mod 64 = n"
    unfolding * by (simp_all only: div_mult_mod_eq)
qed

lemma unat_byte: "unat (b :: byte) < 256"
  using unsigned_less [where ?'a = nat, of b] by simp

lemma unat_pair: "unat a * 256 + unat b < 65536" for a b :: byte
proof -
  have "unat a \<le> 255" "unat b \<le> 255"
    using unat_byte [of a] unat_byte [of b] by simp_all
  then show ?thesis by linarith
qed

lemma unat_triple: "(unat a * 256 + unat b) * 256 + unat c < 16777216" for a b c :: byte
proof -
  have "unat a * 256 + unat b \<le> 65535" "unat c \<le> 255"
    using unat_pair [of a b] unat_byte [of c] by simp_all
  moreover have "x * 256 + y < 16777216" if "x \<le> 65535" "y \<le> 255" for x y :: nat
    using that by linarith
  ultimately show ?thesis by blast
qed

lemma of_nat_bytes:
  fixes a b c :: byte
  shows "(of_nat ((unat a * 256 + unat b) * 256 + unat c) :: byte) = c"
    and "(of_nat (((unat a * 256 + unat b) * 256 + unat c) div 256) :: byte) = b"
    and "(of_nat (((unat a * 256 + unat b) * 256 + unat c) div 65536) :: byte) = a"
    and "(of_nat (unat a * 256 + unat b) :: byte) = b"
    and "(of_nat ((unat a * 256 + unat b) div 256) :: byte) = a"
proof -
  have z: "(of_nat (x * 256 + y) :: byte) = of_nat y" for x y
    unfolding word_of_nat_eq_iff take_bit_eq_mod by simp
  have 1: "((unat a * 256 + unat b) * 256 + unat c) div 256 = unat a * 256 + unat b"
    using unat_byte [of c] by (simp only: div_mult_self3 div_less)
  have 3: "(unat a * 256 + unat b) div 256 = unat a"
    using unat_byte [of b] by (simp only: div_mult_self3 div_less)
  have 2: "((unat a * 256 + unat b) * 256 + unat c) div 65536 = unat a"
  proof -
    have "n div 65536 = n div 256 div 256" for n :: nat
      by (simp flip: div_mult2_eq)
    then show ?thesis
      using unat_byte [of b] by (simp only: 1 div_mult_self3 div_less)
  qed
  show "(of_nat ((unat a * 256 + unat b) * 256 + unat c) :: byte) = c"
    "(of_nat (((unat a * 256 + unat b) * 256 + unat c) div 256) :: byte) = b"
    "(of_nat (((unat a * 256 + unat b) * 256 + unat c) div 65536) :: byte) = a"
    "(of_nat (unat a * 256 + unat b) :: byte) = b"
    "(of_nat ((unat a * 256 + unat b) div 256) :: byte) = a"
    unfolding 1 2 3 z by simp_all
qed

lemma b64_groups_encode: "b64_groups (b64_encode bs) = Some bs"
proof (induction bs rule: b64_encode.induct)
  case (2 a)
  let ?n = "unat a * 16"
  have "?n div 64 < 64"
    by (rule less_mult_imp_div_less) (use unat_byte [of a] in linarith)
  moreover have "?n mod 64 < 64"
    by simp
  ultimately show ?case
    by (simp only: b64_encode.simps Let_def b64_groups.simps b64_val_char bind.bind_lunit sextets)
      simp
next
  case (3 a b)
  let ?n = "(unat a * 256 + unat b) * 4"
  have "?n div 4096 < 64"
    by (rule less_mult_imp_div_less) (use unat_pair [of a b] in simp)
  moreover have "?n div 64 mod 64 < 64" "?n mod 64 < 64"
    by simp_all
  ultimately show ?case
    by (simp only: b64_encode.simps Let_def b64_groups.simps b64_val_char b64_char_plain bind.bind_lunit sextets
        if_False if_True simp_thms nonzero_mult_div_cancel_right zero_neq_numeral [symmetric] not_False_eq_True
        of_nat_bytes)
next
  case (4 a b c r)
  let ?n = "(unat a * 256 + unat b) * 256 + unat c"
  have "?n div 262144 < 64"
    by (rule less_mult_imp_div_less) (use unat_triple [of a b c] in simp)
  moreover have "?n div 4096 mod 64 < 64" "?n div 64 mod 64 < 64" "?n mod 64 < 64"
    by simp_all
  ultimately show ?case
    using 4
    by (simp only: b64_encode.simps Let_def append.simps b64_groups.simps b64_val_char b64_char_plain
        bind.bind_lunit sextets if_False of_nat_bytes option.map)
qed simp

lemma b64_encode_chars: "set (b64_encode bs) \<subseteq> insert (CHR ''='') (b64_char ` {..<64})"
proof (induction bs rule: b64_encode.induct)
  case (2 a)
  have "unat a * 16 div 64 < 64"
    by (rule less_mult_imp_div_less) (use unat_byte [of a] in linarith)
  then show ?case by (auto simp: Let_def intro!: imageI)
next
  case (3 a b)
  have "(unat a * 256 + unat b) * 4 div 4096 < 64"
    by (rule less_mult_imp_div_less) (use unat_pair [of a b] in simp)
  then show ?case by (auto simp: Let_def intro!: imageI)
next
  case (4 a b c r)
  have "((unat a * 256 + unat b) * 256 + unat c) div 262144 < 64"
    by (rule less_mult_imp_div_less) (use unat_triple [of a b c] in simp)
  then show ?case using 4 by (auto simp: Let_def intro!: imageI)
qed simp

lemma b64_decode_encode: "b64_decode (b64_encode bs) = Inr bs"
proof -
  have "c \<noteq> CHR 0x0A \<and> c \<noteq> CHR 0x0D" if "c \<in> set (b64_encode bs)" for c
    using subsetD [OF b64_encode_chars that] b64_char_plain by auto
  then have "filter (\<lambda>c. c \<noteq> CHR 0x0A \<and> c \<noteq> CHR 0x0D) (b64_encode bs) = b64_encode bs"
    by (simp add: filter_id_conv)
  then show ?thesis
    by (simp add: b64_decode_def b64_groups_encode)
qed

lemma ascii_b64_encode: "ascii (b64_encode bs)"
  unfolding ascii_def using b64_encode_chars [of bs] b64_char_plain by auto

lemma psk_open_seal:
  assumes "sealJSON rand_byte c typ sid dir seq p g = (Inr s, g')"
  shows "openJSON c typ sid dir seq s = Inr p"
proof -
  obtain nonce ct where raw: "sealRaw rand_byte c typ sid dir seq p g = (Inr (nonce, ct), g')"
    and s: "s = bytes_of (enc (json_envelope \<lparr>env_version = 1, env_algorithm = ''AES-256-GCM'',
             env_nonce = b64_encode nonce, env_ciphertext = b64_encode ct\<rparr>))"
    using assms by (auto simp: sealJSON_def split: prod.splits sum.splits)
  let ?e = "\<lparr>env_version = 1, env_algorithm = ''AES-256-GCM'', env_nonce = b64_encode nonce, env_ciphertext = b64_encode ct\<rparr>"
  have "wf_json (json_envelope ?e)"
    by (simp add: json_envelope_def)
  then have "parse_json (string_of s) = Some (norm (json_envelope ?e))"
    using parse_json_enc [of "json_envelope ?e"] by (simp only: s string_of_bytes_of)
  then have "unmarshal envelope_fields zero_envelope s = Inr ?e"
    by (simp add: unmarshal_def json_envelope_def envelope_fields_def find_field_def zero_envelope_def
        utf8_text_ascii ascii_b64_encode)
  then show ?thesis
    using sealRaw_openRaw [OF raw] by (simp add: openJSON_def b64_decode_encode)
qed

interpretation psk: codec "psk_codec rand_byte c"
  for rand_byte :: "'g \<Rightarrow> byte result \<times> 'g" and c
  by unfold_locales (auto simp: psk_codec_def psk_open_seal psk_open_data)

section \<open>Properties of the codec\<close>

text \<open>
  C4: a data object sealed for a session, direction and sequence number opens under
  the same ones to the plaintext, whatever bytes the random source delivers, and is
  40 bytes longer than it.
\<close>

theorem SealData_OpenData:
  assumes "psk_SealData rand_byte c sid dir seq p g = (Inr s, g')" and "length p + 16 < 2 ^ 32"
  shows "psk_OpenData c sid dir seq s = Inr p \<and> length s = length p + 40"
proof -
  have "length s = length p + 40"
    using assms(1)
    by (auto simp: psk_SealData_def dataMagic_def dest!: sealRaw_openRaw split: prod.splits sum.splits)
  then show ?thesis
    using psk_open_data [OF assms] by simp
qed

definition const_rand :: "byte \<Rightarrow> unit \<Rightarrow> byte result \<times> unit" where
  "const_rand b g = (Inr b, g)"

lemma rand_full_const: "rand_full (const_rand b) n g = (Inr (replicate n b), g)"
  by (induction n) (simp_all add: const_rand_def)

lemma sealRaw_const:
  "\<exists>ct. sealRaw (const_rand b) c typ sid dir seq p g = (Inr (replicate 12 b, ct), g)"
  by (simp add: sealRaw_def rand_full_const aes_NewCipher_def deriveKey_def)

theorem SealData_OpenData_witness:
  "\<exists>s. psk_SealData (const_rand 7) \<lparr>psk = replicate 16 1\<rparr> ''ab'' ''c2s'' 0 [1, 2, 3] () = (Inr s, ()) \<and>
     psk_OpenData \<lparr>psk = replicate 16 1\<rparr> ''ab'' ''c2s'' 0 s = Inr [1, 2, 3] \<and> length s = 43"
proof -
  obtain ct where "sealRaw (const_rand 7) \<lparr>psk = replicate 16 1\<rparr> ''data'' ''ab'' ''c2s'' 0 [1, 2, 3] () =
      (Inr (replicate 12 7, ct), ())"
    using sealRaw_const by blast
  then obtain s where s: "psk_SealData (const_rand 7) \<lparr>psk = replicate 16 1\<rparr> ''ab'' ''c2s'' 0 [1, 2, 3] () = (Inr s, ())"
    by (simp add: psk_SealData_def)
  from SealData_OpenData [OF this] s show ?thesis
    by simp
qed

text \<open>
  A control object sealed for a type, session and direction opens under the
  same ones to the plaintext: the JSON envelope, Base64 and AES-256-GCM are undone.
\<close>

theorem Seal_Open:
  assumes "sealJSON rand_byte c typ sid dir seq p g = (Inr s, g')"
  shows "openJSON c typ sid dir seq s = Inr p"
  using assms by (rule psk_open_seal)

theorem Seal_Open_witness:
  "\<exists>s. sealJSON (const_rand 9) \<lparr>psk = replicate 16 1\<rparr> ''ack'' ''ab'' ''s2c'' 0 [] () = (Inr s, ()) \<and>
     openJSON \<lparr>psk = replicate 16 1\<rparr> ''ack'' ''ab'' ''s2c'' 0 s = Inr []"
proof -
  obtain ct where "sealRaw (const_rand 9) \<lparr>psk = replicate 16 1\<rparr> ''ack'' ''ab'' ''s2c'' 0 [] () =
      (Inr (replicate 12 9, ct), ())"
    using sealRaw_const by blast
  then obtain s where s: "sealJSON (const_rand 9) \<lparr>psk = replicate 16 1\<rparr> ''ack'' ''ab'' ''s2c'' 0 [] () = (Inr s, ())"
    by (simp add: sealJSON_def)
  from Seal_Open [OF this] s show ?thesis
    by auto
qed

lemma word32_bytes: "be32 (word32 a b c d) = [a, b, c, d]"
proof -
  have "\<not> bit x (8 + n)" "\<not> bit x (16 + n)" "\<not> bit x (24 + n)" for x :: byte and n
    using bit_imp_le_length [of x "8 + n"] bit_imp_le_length [of x "16 + n"] bit_imp_le_length [of x "24 + n"]
    by auto
  then show ?thesis
    unfolding be32_def by (auto intro!: bit_word_eqI simp: word32_def bit_simps)
qed

text \<open>The fixed header of a data envelope, byte by byte, its nonce and its ciphertext.\<close>

lemma envelope_parts:
  assumes "12 \<le> length (d :: bytes)"
  shows "d = take 4 d @ [d ! 4, d ! 5, d ! 6, d ! 7] @ [d ! 8, d ! 9, d ! 10, d ! 11] @ take 12 (drop 12 d) @ drop 24 d"
proof -
  have "take 8 (drop 4 d) = [d ! 4, d ! 5, d ! 6, d ! 7, d ! 8, d ! 9, d ! 10, d ! 11]"
    using assms by (intro nth_equalityI) (auto simp: less_Suc_eq numeral_eq_Suc)
  moreover have "d = take 4 d @ take 8 (drop 4 d) @ take 12 (drop 12 d) @ drop 24 d"
  proof -
    have "drop 4 d = take 8 (drop 4 d) @ drop 12 d"
      using append_take_drop_id [of 8 "drop 4 d"] by simp
    moreover have "drop 12 d = take 12 (drop 12 d) @ drop 24 d"
      using append_take_drop_id [of 12 "drop 12 d"] by simp
    ultimately show ?thesis
      using append_take_drop_id [of 4 d] by metis
  qed
  ultimately show ?thesis by simp
qed

text \<open>
  C14: a data object is opened exactly when it is the magic, version 1, algorithm 1,
  nonce length 12, any flags byte, the length of what follows the nonce, a 12-byte
  nonce and a ciphertext that authenticates under the key of the session and
  direction with the type, session, direction and sequence number as associated
  data; every other input is an error.
\<close>

theorem OpenData_accepts:
  "psk_OpenData c sid dir seq d = Inr p \<longleftrightarrow>
   (\<exists>flags nonce ct. d = dataMagic @ [1, 1, 12, flags] @ be32 (of_nat (length ct)) @ nonce @ ct \<and>
      length nonce = 12 \<and> 16 \<le> length ct \<and> length ct < 2 ^ 32 \<and>
      gcm_open (aes256 (deriveKey c sid dir)) nonce ct (associatedData ''data'' sid dir seq) = Inr p)"
  (is "?l \<longleftrightarrow> ?r")
proof
  have raw: "openRaw c ''data'' sid dir seq nonce ct =
      gcm_open (aes256 (deriveKey c sid dir)) nonce ct (associatedData ''data'' sid dir seq)"
    if "length nonce = 12" for nonce ct
    using that by (simp add: openRaw_def aes_NewCipher_def deriveKey_def)
  {
    assume ?l
    then have d: "12 \<le> length d" "take 4 d = dataMagic" "d ! 4 = 1" "d ! 5 = 1" "unat (d ! 6) = 12"
      by (auto simp: psk_OpenData_def dataHeaderLen_def dataEnvelopeVersion_def dataAlgorithmAESGCM_def Let_def
          split: if_splits)
    let ?w = "word32 (d ! 8) (d ! 9) (d ! 10) (d ! 11)"
    from \<open>?l\<close> d have n: "16 \<le> unat ?w" "length d = 24 + unat ?w"
      and op: "openRaw c ''data'' sid dir seq (take 12 (drop 12 d)) (drop 24 d) = Inr p"
      by (auto simp: psk_OpenData_def dataHeaderLen_def dataEnvelopeVersion_def dataAlgorithmAESGCM_def Let_def
          split: if_splits)
    have six: "d ! 6 = 12"
      using d(5) by (simp add: word_unat_eq_iff)
    have "d = dataMagic @ [1, 1, 12, d ! 7] @ be32 ?w @ take 12 (drop 12 d) @ drop 24 d"
      using envelope_parts [OF d(1)] d six by (simp add: word32_bytes)
    moreover have "?w = of_nat (length (drop 24 d))"
      using n by simp
    moreover have "length (take 12 (drop 12 d)) = 12" "16 \<le> length (drop 24 d)" "length (drop 24 d) < 2 ^ 32"
      using n unsigned_less [where ?'a = nat, of ?w] by auto
    ultimately show ?r
      using op raw by metis
  }
  assume ?r
  then obtain flags nonce ct where d: "d = dataMagic @ [1, 1, 12, flags] @ be32 (of_nat (length ct)) @ nonce @ ct"
    and n: "length nonce = 12" "16 \<le> length ct" "length ct < 2 ^ 32"
    and op: "gcm_open (aes256 (deriveKey c sid dir)) nonce ct (associatedData ''data'' sid dir seq) = Inr p"
    by blast
  obtain x y z w where be: "be32 (of_nat (length ct)) = [x, y, z, w]"
    by (simp add: be32_def)
  have "unat (word32 x y z w) = length ct"
    using unat_word32_be32 [OF n(3)] unfolding be by simp
  then show ?l
    using n op raw [OF n(1)] unfolding d be
    by (simp add: psk_OpenData_def dataMagic_def dataHeaderLen_def dataEnvelopeVersion_def
        dataAlgorithmAESGCM_def Let_def)
qed

text \<open>
  The associated data of two objects are the same bytes only when the objects
  have the same type, session, direction and sequence number, provided that types,
  session identifiers and directions contain no bar.
\<close>

theorem associatedData_binds:
  assumes "CHR ''|'' \<notin> set ty" "CHR ''|'' \<notin> set sid" "CHR ''|'' \<notin> set dir"
    and "CHR ''|'' \<notin> set ty'" "CHR ''|'' \<notin> set sid'" "CHR ''|'' \<notin> set dir'"
  shows "associatedData ty sid dir seq = associatedData ty' sid' dir' seq' \<longleftrightarrow>
    ty = ty' \<and> sid = sid' \<and> dir = dir' \<and> seq = seq'"
proof -
  have bar: "CHR ''|'' \<notin> set (FormatSeq s)" for s
    using is_digit_digit by (auto simp: FormatSeq_def zero_pad_def is_digit_def dest: itoa_digits)
  have sp: "splitc (CHR ''|'') (''s3s5/v1|'' @ t @ ''|'' @ i @ ''|'' @ d @ ''|'' @ FormatSeq s) =
      [''s3s5/v1'', t, i, d, FormatSeq s]"
    if "CHR ''|'' \<notin> set t" "CHR ''|'' \<notin> set i" "CHR ''|'' \<notin> set d" for t i d s
    using that bar by (simp add: splitc_append_sep splitc_no_occ)
  have "associatedData ty sid dir seq = associatedData ty' sid' dir' seq' \<longleftrightarrow>
      ''s3s5/v1|'' @ ty @ ''|'' @ sid @ ''|'' @ dir @ ''|'' @ FormatSeq seq =
      ''s3s5/v1|'' @ ty' @ ''|'' @ sid' @ ''|'' @ dir' @ ''|'' @ FormatSeq seq'"
    unfolding associatedData_def FormatSeq_def [symmetric] by (rule bytes_of_inject)
  also have "\<dots> \<longleftrightarrow> ty = ty' \<and> sid = sid' \<and> dir = dir' \<and> seq = seq'"
    using sp [of ty sid dir seq] sp [of ty' sid' dir' seq'] assms by (metis FormatSeq_inject list.inject)
  finally show ?thesis .
qed

theorem associatedData_binds_witness:
  "associatedData ''data'' ''ab'' ''c2s'' 0 \<noteq> associatedData ''data'' ''ab'' ''c2s'' 1"
  using associatedData_binds [of "''data''" "''ab''" "''c2s''" "''data''" "''ab''" "''c2s''" 0 1] by simp

text \<open>
  Sealing fails only when the random source fails, and then with its error: key
  derivation always yields the 32 bytes AES-256 needs.
\<close>

theorem SealData_fails_iff_rand_fails:
  "fst (psk_SealData rand_byte c sid dir seq p g) = Inl e \<longleftrightarrow> fst (rand_full rand_byte 12 g) = Inl e"
  by (auto simp: psk_SealData_def sealRaw_def aes_NewCipher_def deriveKey_def split: prod.splits sum.splits)

end
