(* ===== verification/Stats.thy ===== *)
theory Stats
  imports GoStrings "HOL-Library.AList"
begin

text \<open>
  \<open>internal/tunnel/stats.go\<close>: the counters and duration samples of one process.  The
  64-bit counters wrap; times and durations are integers (nanoseconds).  Every
  method accepts a nil receiver, \<open>None\<close> here, and does nothing on it.

  The lemmas show that finishing or rejecting a session leaves nothing of it behind
  and that the time to the first data of a stream is recorded at most once.
\<close>

datatype FlushReason = FlushNone | FlushSize | FlushDeadline | FlushEOF | FlushError

definition DirectionC2S :: string where "DirectionC2S = ''c2s''"
definition DirectionS2C :: string where "DirectionS2C = ''s2c''"
definition SideClient :: string where "SideClient = ''client''"
definition SideServer :: string where "SideServer = ''server''"

record Stats =
  chunksSent :: u64
  chunksReceived :: u64
  bytesSent :: u64
  bytesReceived :: u64
  sealedSent :: u64
  sealedReceived :: u64
  putObjects :: u64
  getObjects :: u64
  headObjects :: u64
  listObjects :: u64
  deleteObjects :: u64
  activeSessions :: "64 word"
  socketReads :: u64
  flushSize :: u64
  flushDeadline :: u64
  flushEOF :: u64
  flushError :: u64
  st_started :: u64
  opened :: u64
  rejected :: u64
  completed :: u64
  failed :: u64
  sessionStarts :: "(string \<times> int) list"
  firstDataObserved :: "string list"
  timeToOpenResult :: "int list"
  sessionDurations :: "int list"
  timeToFirstC2SData :: "int list"
  timeToFirstS2CData :: "int list"

definition zero_Stats :: Stats where
  "zero_Stats = \<lparr>chunksSent = 0, chunksReceived = 0, bytesSent = 0, bytesReceived = 0, sealedSent = 0,
     sealedReceived = 0, putObjects = 0, getObjects = 0, headObjects = 0, listObjects = 0, deleteObjects = 0,
     activeSessions = 0, socketReads = 0, flushSize = 0, flushDeadline = 0, flushEOF = 0, flushError = 0,
     st_started = 0, opened = 0, rejected = 0, completed = 0, failed = 0, sessionStarts = [],
     firstDataObserved = [], timeToOpenResult = [], sessionDurations = [], timeToFirstC2SData = [],
     timeToFirstS2CData = []\<rparr>"

text \<open>\<open>Snapshot\<close> copies every field; the copy of the maps is not part of it.\<close>

definition Stats_Snapshot :: "Stats option \<Rightarrow> Stats" where
  "Stats_Snapshot s =
     (case s of None \<Rightarrow> zero_Stats
      | Some x \<Rightarrow> x\<lparr>sessionStarts := [], firstDataObserved := []\<rparr>)"

definition recordAggregation :: "FlushReason \<Rightarrow> nat \<Rightarrow> Stats option \<Rightarrow> Stats option" where
  "recordAggregation reason reads s =
     map_option (\<lambda>x.
       let y = (if reads > 0 then x\<lparr>socketReads := socketReads x + of_nat reads\<rparr> else x)
       in case reason of
            FlushSize \<Rightarrow> y\<lparr>flushSize := flushSize y + 1\<rparr>
          | FlushDeadline \<Rightarrow> y\<lparr>flushDeadline := flushDeadline y + 1\<rparr>
          | FlushEOF \<Rightarrow> y\<lparr>flushEOF := flushEOF y + 1\<rparr>
          | FlushError \<Rightarrow> y\<lparr>flushError := flushError y + 1\<rparr>
          | FlushNone \<Rightarrow> y) s"

definition incChunksSent :: "nat \<Rightarrow> nat \<Rightarrow> Stats option \<Rightarrow> Stats option" where
  "incChunksSent plain sealed s =
     map_option (\<lambda>x. x\<lparr>chunksSent := chunksSent x + 1, bytesSent := bytesSent x + of_nat plain,
       sealedSent := sealedSent x + of_nat sealed\<rparr>) s"

definition incChunksReceived :: "nat \<Rightarrow> nat \<Rightarrow> Stats option \<Rightarrow> Stats option" where
  "incChunksReceived plain sealed s =
     map_option (\<lambda>x. x\<lparr>chunksReceived := chunksReceived x + 1, bytesReceived := bytesReceived x + of_nat plain,
       sealedReceived := sealedReceived x + of_nat sealed\<rparr>) s"

definition incPut :: "Stats option \<Rightarrow> Stats option" where
  "incPut s = map_option (\<lambda>x. x\<lparr>putObjects := putObjects x + 1\<rparr>) s"
definition incGet :: "Stats option \<Rightarrow> Stats option" where
  "incGet s = map_option (\<lambda>x. x\<lparr>getObjects := getObjects x + 1\<rparr>) s"
definition incHead :: "Stats option \<Rightarrow> Stats option" where
  "incHead s = map_option (\<lambda>x. x\<lparr>headObjects := headObjects x + 1\<rparr>) s"
definition incList :: "Stats option \<Rightarrow> Stats option" where
  "incList s = map_option (\<lambda>x. x\<lparr>listObjects := listObjects x + 1\<rparr>) s"
definition incDelete :: "Stats option \<Rightarrow> Stats option" where
  "incDelete s = map_option (\<lambda>x. x\<lparr>deleteObjects := deleteObjects x + 1\<rparr>) s"
definition incActive :: "Stats option \<Rightarrow> Stats option" where
  "incActive s = map_option (\<lambda>x. x\<lparr>activeSessions := activeSessions x + 1\<rparr>) s"
definition decActive :: "Stats option \<Rightarrow> Stats option" where
  "decActive s = map_option (\<lambda>x. x\<lparr>activeSessions := activeSessions x - 1\<rparr>) s"

definition firstDataKey :: "string \<Rightarrow> string \<Rightarrow> string" where
  "firstDataKey sessionID direction = sessionID @ [CHR 0x00] @ direction"

definition startSession :: "string \<Rightarrow> int \<Rightarrow> Stats option \<Rightarrow> Stats option" where
  "startSession sessionID at s =
     map_option (\<lambda>x. x\<lparr>st_started := st_started x + 1,
       sessionStarts := AList.update sessionID at (sessionStarts x)\<rparr>) s"

definition openSession :: "int \<Rightarrow> Stats option \<Rightarrow> Stats option" where
  "openSession d s =
     map_option (\<lambda>x. x\<lparr>opened := opened x + 1, timeToOpenResult := timeToOpenResult x @ [d]\<rparr>) s"

definition forgetSession :: "string \<Rightarrow> Stats \<Rightarrow> Stats" where
  "forgetSession sessionID x =
     x\<lparr>sessionStarts := AList.delete sessionID (sessionStarts x),
       firstDataObserved := removeAll (firstDataKey sessionID DirectionS2C)
         (removeAll (firstDataKey sessionID DirectionC2S) (firstDataObserved x))\<rparr>"

definition rejectSession :: "string \<Rightarrow> int \<Rightarrow> Stats option \<Rightarrow> Stats option" where
  "rejectSession sessionID d s =
     map_option (\<lambda>x. forgetSession sessionID
       (x\<lparr>rejected := rejected x + 1, timeToOpenResult := timeToOpenResult x @ [d]\<rparr>)) s"

definition finishSession :: "string \<Rightarrow> int \<Rightarrow> err option \<Rightarrow> Stats option \<Rightarrow> Stats option" where
  "finishSession sessionID d e s =
     map_option (\<lambda>x.
       let y = (if e = None then x\<lparr>completed := completed x + 1\<rparr> else x\<lparr>failed := failed x + 1\<rparr>)
       in forgetSession sessionID (y\<lparr>sessionDurations := sessionDurations y @ [d]\<rparr>)) s"

definition recordFirstData :: "string \<Rightarrow> string \<Rightarrow> int \<Rightarrow> Stats option \<Rightarrow> Stats option" where
  "recordFirstData sessionID direction at s =
     map_option (\<lambda>x.
       let k = firstDataKey sessionID direction
       in if k \<in> set (firstDataObserved x) then x
          else case map_of (sessionStarts x) sessionID of
            None \<Rightarrow> x
          | Some start \<Rightarrow>
              let y = x\<lparr>firstDataObserved := k # firstDataObserved x\<rparr>
              in if direction = DirectionC2S
                 then y\<lparr>timeToFirstC2SData := timeToFirstC2SData y @ [at - start]\<rparr>
                 else if direction = DirectionS2C
                 then y\<lparr>timeToFirstS2CData := timeToFirstS2CData y @ [at - start]\<rparr>
                 else y) s"

section \<open>Sessions leave nothing behind\<close>

definition session_known :: "Stats \<Rightarrow> string \<Rightarrow> bool" where
  "session_known x sessionID \<longleftrightarrow>
     map_of (sessionStarts x) sessionID \<noteq> None \<or>
     firstDataKey sessionID DirectionC2S \<in> set (firstDataObserved x) \<or>
     firstDataKey sessionID DirectionS2C \<in> set (firstDataObserved x)"

lemma forgetSession_unknown: "\<not> session_known (forgetSession sid x) sid"
  by (simp add: session_known_def forgetSession_def delete_conv')

lemma forgetSession_other:
  assumes "CHR 0x00 \<notin> set sid" and "CHR 0x00 \<notin> set sid'" and "sid \<noteq> sid'"
  shows "session_known (forgetSession sid x) sid' = session_known x sid'"
proof -
  have "firstDataKey sid' b \<noteq> firstDataKey sid a" for a b
  proof
    assume "firstDataKey sid' b = firstDataKey sid a"
    then have "takeWhile (\<lambda>c. c \<noteq> CHR 0x00) (sid @ CHR 0x00 # a) = takeWhile (\<lambda>c. c \<noteq> CHR 0x00) (sid' @ CHR 0x00 # b)"
      by (simp add: firstDataKey_def)
    with assms show False
      by (simp add: span_to_sep)
  qed
  with assms(3) show ?thesis
    by (simp add: session_known_def forgetSession_def delete_conv')
qed

text \<open>
  When a session is finished or rejected nothing of it is left in the maps, and
  what is kept of every other session is unchanged (session identifiers contain no
  NUL byte); exactly one of the counters \<open>completed\<close>, \<open>failed\<close> and \<open>rejected\<close> grows.
\<close>

theorem session_end_forgets:
  assumes "CHR 0x00 \<notin> set sid" and "CHR 0x00 \<notin> set sid'" and "sid \<noteq> sid'"
  shows "(\<exists>y. finishSession sid d e (Some x) = Some y \<and> \<not> session_known y sid \<and>
      session_known y sid' = session_known x sid' \<and>
      completed y + failed y + rejected y = completed x + failed x + rejected x + 1) \<and>
    (\<exists>y. rejectSession sid d (Some x) = Some y \<and> \<not> session_known y sid \<and>
      session_known y sid' = session_known x sid' \<and>
      completed y + failed y + rejected y = completed x + failed x + rejected x + 1)"
proof -
  have k: "session_known (y\<lparr>sessionDurations := a\<rparr>) s = session_known y s"
    "session_known (y\<lparr>completed := b\<rparr>) s = session_known y s"
    "session_known (y\<lparr>failed := b\<rparr>) s = session_known y s"
    "session_known (y\<lparr>rejected := b, timeToOpenResult := a\<rparr>) s = session_known y s" for y s a b
    by (simp_all add: session_known_def)
  have f: "completed (forgetSession sid y) = completed y" "failed (forgetSession sid y) = failed y"
    "rejected (forgetSession sid y) = rejected y" for y
    by (simp_all add: forgetSession_def)
  show ?thesis
    by (simp add: finishSession_def rejectSession_def Let_def forgetSession_unknown forgetSession_other [OF assms] k f)
qed

theorem session_end_forgets_witness:
  "\<exists>y. finishSession ''a'' 5 None (startSession ''b'' 1 (startSession ''a'' 0 (Some zero_Stats))) = Some y \<and>
     \<not> session_known y ''a'' \<and> session_known y ''b''"
proof -
  obtain x where x: "startSession ''b'' 1 (startSession ''a'' 0 (Some zero_Stats)) = Some x" "session_known x ''b''"
    by (simp add: startSession_def session_known_def zero_Stats_def)
  show ?thesis
    using session_end_forgets [of "''a''" "''b''" 5 None x] x by auto
qed

text \<open>
  The time to the first data of a session's stream is recorded at most once: a
  second record of the same session and direction changes nothing.
\<close>

theorem recordFirstData_once:
  "recordFirstData sid dir at2 (recordFirstData sid dir at1 s) = recordFirstData sid dir at1 s"
  by (cases s) (auto simp: recordFirstData_def Let_def split: option.split)

end
