(* ===== verification/Aggregation.thy ===== *)
theory Aggregation
  imports Stats
begin

text \<open>
  \<open>internal/tunnel/aggregation.go\<close>: one \<open>Read\<close> of the aggregator, which collects
  the bytes of several socket reads into one chunk.  A reader is a record of
  functions on its state \<open>'r\<close>: a read into a buffer of a given size, setting and
  clearing the read deadline, and the state of the context.  The loop ends when
  the chunk is full or a read fails; it may spin on reads that return nothing, so
  it takes fuel, one unit per read, and returns \<open>None\<close> when that runs out.

  The lemmas show that a chunk is never larger than the limit, that fuel of one more
  than the limit is enough for a reader whose reads make progress, and that the
  aggregator neither drops, nor repeats, nor reorders a byte.
\<close>

record 'r Reader =
  rd_read :: "nat \<Rightarrow> 'r \<Rightarrow> (bytes \<times> err option) \<times> 'r"
  rd_set_deadline :: "int \<Rightarrow> 'r \<Rightarrow> bool \<times> 'r"
  rd_clear_deadline :: "'r \<Rightarrow> 'r"
  rd_ctx :: "'r \<Rightarrow> err option \<times> 'r"

record AggregatedRead =
  ar_data :: bytes
  ar_reason :: FlushReason
  ar_reads :: nat

record Aggregator =
  MaxBytes :: int
  FlushDelay :: int

definition reasonForErr :: "err \<Rightarrow> FlushReason" where
  "reasonForErr e = (if e = IoEOF then FlushEOF else FlushError)"

definition isTimeout :: "err \<Rightarrow> bool" where
  "isTimeout e = (case e of NetTimeout _ \<Rightarrow> True | CtxDeadlineExceeded \<Rightarrow> True | _ \<Rightarrow> False)"

type_synonym read_outcome = "AggregatedRead \<times> err option"

fun agg_loop :: "nat \<Rightarrow> nat \<Rightarrow> 'r Reader \<Rightarrow> bytes \<Rightarrow> nat \<Rightarrow> 'r \<Rightarrow> (read_outcome \<times> 'r) option" where
  "agg_loop 0 maxBytes R out reads r = None"
| "agg_loop (Suc n) maxBytes R out reads r =
     (if length out < maxBytes then
        (case rd_ctx R r of
           (Some e, r1) \<Rightarrow> Some ((\<lparr>ar_data = out, ar_reason = FlushError, ar_reads = 0\<rparr>, Some e), r1)
         | (None, r1) \<Rightarrow>
             (case rd_read R (maxBytes - length out) r1 of
                ((d, e), r2) \<Rightarrow>
                  let out' = out @ d; reads' = Suc reads
                  in if length out' \<ge> maxBytes
                     then Some ((\<lparr>ar_data = out', ar_reason = FlushSize, ar_reads = reads'\<rparr>, e), r2)
                     else case e of
                       Some x \<Rightarrow>
                         if isTimeout x
                         then Some ((\<lparr>ar_data = out', ar_reason = FlushDeadline, ar_reads = reads'\<rparr>, None), r2)
                         else Some ((\<lparr>ar_data = out', ar_reason = reasonForErr x, ar_reads = reads'\<rparr>, Some x), r2)
                     | None \<Rightarrow> agg_loop n maxBytes R out' reads' r2))
      else Some ((\<lparr>ar_data = out, ar_reason = FlushSize, ar_reads = reads\<rparr>, None), r))"

definition agg_limit :: "Aggregator \<Rightarrow> nat" where
  "agg_limit a = (if MaxBytes a \<le> 0 then 64 * 1024 else nat (MaxBytes a))"

definition Aggregator_Read :: "nat \<Rightarrow> Aggregator \<Rightarrow> 'r Reader \<Rightarrow> 'r \<Rightarrow> (read_outcome \<times> 'r) option" where
  "Aggregator_Read fuel a R r =
     (let maxBytes = agg_limit a
      in case rd_read R maxBytes r of
        ((d, e), r1) \<Rightarrow>
          if d = [] then Some ((\<lparr>ar_data = [], ar_reason = FlushNone, ar_reads = 0\<rparr>, e), r1)
          else case e of
            Some x \<Rightarrow> Some ((\<lparr>ar_data = d, ar_reason = reasonForErr x, ar_reads = 1\<rparr>, Some x), r1)
          | None \<Rightarrow>
              if length d \<ge> maxBytes
              then Some ((\<lparr>ar_data = d, ar_reason = FlushSize, ar_reads = 1\<rparr>, None), r1)
              else if FlushDelay a = 0
              then Some ((\<lparr>ar_data = d, ar_reason = FlushDeadline, ar_reads = 1\<rparr>, None), r1)
              else (case rd_set_deadline R (FlushDelay a) r1 of
                  (ok, r2) \<Rightarrow>
                    if \<not> ok then Some ((\<lparr>ar_data = d, ar_reason = FlushDeadline, ar_reads = 1\<rparr>, None), r2)
                    else map_option (map_prod id (rd_clear_deadline R)) (agg_loop fuel maxBytes R d 1 r2)))"

section \<open>Readers that keep their contract\<close>

text \<open>
  \<open>pending r\<close> are the bytes the reader has still to deliver.  A read delivers at
  most as many bytes as asked for, from the front of what is pending, and makes
  progress: it delivers a byte or fails.
\<close>

locale reader =
  fixes R :: "'r Reader" and pending :: "'r \<Rightarrow> bytes"
  assumes read_bound: "rd_read R k r = ((d, e), r') \<Longrightarrow> length d \<le> k"
    and read_pending: "rd_read R k r = ((d, e), r') \<Longrightarrow> pending r = d @ pending r'"
    and read_progress: "rd_read R k r = ((d, e), r') \<Longrightarrow> 0 < k \<Longrightarrow> d \<noteq> [] \<or> e \<noteq> None"
    and set_deadline_pending: "rd_set_deadline R t r = (ok, r') \<Longrightarrow> pending r' = pending r"
    and clear_deadline_pending: "pending (rd_clear_deadline R r) = pending r"
    and ctx_pending: "rd_ctx R r = (c, r') \<Longrightarrow> pending r' = pending r"
begin

lemma agg_loop_bound:
  "agg_loop n k R out reads r = Some ((res, e), r') \<Longrightarrow> length out \<le> k \<Longrightarrow> length (ar_data res) \<le> k"
proof (induction n arbitrary: out reads r)
  case (Suc n)
  then show ?case
    by (auto simp: Let_def split: if_splits prod.splits option.splits dest!: read_bound)
qed simp

lemma agg_loop_pending:
  "agg_loop n k R out reads r = Some ((res, e), r') \<Longrightarrow>
   out @ pending r = ar_data res @ pending r'"
proof (induction n arbitrary: out reads r)
  case (Suc n)
  then show ?case
    by (force simp: Let_def split: if_splits prod.splits option.splits dest: read_pending ctx_pending)
qed simp

lemma agg_loop_total:
  "k - length out < n \<Longrightarrow> agg_loop n k R out reads r \<noteq> None"
proof (induction n arbitrary: out reads r)
  case (Suc n)
  show ?case
  proof (cases "length out < k")
    case True
    obtain c r1 where c: "rd_ctx R r = (c, r1)" by (cases "rd_ctx R r")
    obtain d e r2 where rd: "rd_read R (k - length out) r1 = ((d, e), r2)"
      by (metis surj_pair)
    show ?thesis
    proof (cases "c = None \<and> length (out @ d) < k \<and> e = None")
      case True
      then have "d \<noteq> []" using read_progress [OF rd] \<open>length out < k\<close> by simp
      then have "0 < length d" by simp
      with Suc.prems \<open>length out < k\<close> have "k - length (out @ d) < n"
        unfolding length_append by linarith
      with Suc.IH [of "out @ d" "Suc reads" r2] True c rd \<open>length out < k\<close> show ?thesis
        by (simp add: Let_def)
    next
      case False
      with c rd \<open>length out < k\<close> show ?thesis
        by (auto simp: Let_def split: option.splits)
    qed
  qed simp
qed simp

lemma Aggregator_Read_bound:
  "Aggregator_Read fuel a R r = Some ((res, e), r') \<Longrightarrow> length (ar_data res) \<le> agg_limit a"
  by (auto simp: Aggregator_Read_def Let_def split: if_splits prod.splits option.splits
      dest: read_bound intro: agg_loop_bound)

lemma Aggregator_Read_pending:
  "Aggregator_Read fuel a R r = Some ((res, e), r') \<Longrightarrow> pending r = ar_data res @ pending r'"
  by (force simp: Aggregator_Read_def Let_def clear_deadline_pending split: if_splits prod.splits option.splits
      dest: read_pending set_deadline_pending agg_loop_pending)

lemma Aggregator_Read_total:
  "agg_limit a < fuel \<Longrightarrow> Aggregator_Read fuel a R r \<noteq> None"
proof -
  assume f: "agg_limit a < fuel"
  have "agg_loop fuel (agg_limit a) R d n x \<noteq> None" for d n x
    using f by (intro agg_loop_total) simp
  then show ?thesis
    by (simp add: Aggregator_Read_def Let_def del: not_None_eq split: prod.split option.split)
qed

end

section \<open>A scripted connection\<close>

text \<open>
  What arrives at a connection: pieces of data, each with the error that follows it
  (a timeout, the end of the stream).  A read takes at most the size of its buffer
  from the first piece; after the last piece it reports the end of the stream.
\<close>

record script =
  sc_events :: "(bytes \<times> err option) list"
  sc_has_deadline :: bool
  sc_cancel :: "err option"

fun script_events_read :: "nat \<Rightarrow> (bytes \<times> err option) list \<Rightarrow> (bytes \<times> err option) \<times> (bytes \<times> err option) list" where
  "script_events_read k [] = (([], Some IoEOF), [])"
| "script_events_read k ((d, e) # es) =
     (if d = [] \<and> e = None then script_events_read k es
      else if length d \<le> k then ((d, e), es)
      else ((take k d, None), (drop k d, e) # es))"

definition script_reader :: "script Reader" where
  "script_reader =
     \<lparr>rd_read = (\<lambda>k s. case script_events_read k (sc_events s) of (r, es) \<Rightarrow> (r, s\<lparr>sc_events := es\<rparr>)),
      rd_set_deadline = (\<lambda>t s. (sc_has_deadline s, s)),
      rd_clear_deadline = (\<lambda>s. s),
      rd_ctx = (\<lambda>s. (sc_cancel s, s))\<rparr>"

definition script_pending :: "script \<Rightarrow> bytes" where
  "script_pending s = concat (map fst (sc_events s))"

lemma script_events_read_spec:
  "script_events_read k es = ((d, e), es') \<Longrightarrow>
   length d \<le> k \<and> concat (map fst es) = d @ concat (map fst es') \<and> (0 < k \<longrightarrow> d \<noteq> [] \<or> e \<noteq> None)"
proof (induction k es arbitrary: d e es' rule: script_events_read.induct)
  case (2 k d0 e0 es)
  show ?case
  proof (cases "d0 = [] \<and> e0 = None")
    case True
    with 2 show ?thesis by simp
  next
    case False
    show ?thesis
    proof (cases "length d0 \<le> k")
      case True
      with False 2 show ?thesis by auto
    next
      case long: False
      with False 2(2) have "d = take k d0" "e = None" "es' = (drop k d0, e0) # es"
        by auto
      with long show ?thesis by (auto simp flip: append_assoc)
    qed
  qed
qed simp

interpretation script: reader script_reader script_pending
  by unfold_locales
    (auto simp: script_reader_def script_pending_def split: prod.splits dest: script_events_read_spec)

text \<open>
  C21: one read of the aggregator over any script of arrivals returns, with fuel of
  one more than the chunk limit; the chunk it returns is at most the limit long and
  is exactly what it took from the front of the stream.
\<close>

theorem Aggregator_Read_conserves:
  assumes "agg_limit a < fuel"
  shows "\<exists>res e s'. Aggregator_Read fuel a script_reader s = Some ((res, e), s') \<and>
    length (ar_data res) \<le> agg_limit a \<and> script_pending s = ar_data res @ script_pending s'"
proof -
  obtain res e s' where "Aggregator_Read fuel a script_reader s = Some ((res, e), s')"
    using script.Aggregator_Read_total [OF assms, of s] by (metis not_None_eq surj_pair)
  with script.Aggregator_Read_bound script.Aggregator_Read_pending show ?thesis
    by metis
qed

theorem Aggregator_Read_conserves_witness:
  "\<exists>res e s'. Aggregator_Read 5 \<lparr>MaxBytes = 4, FlushDelay = 1\<rparr> script_reader
      \<lparr>sc_events = [([1, 2], None), ([3, 4, 5], None)], sc_has_deadline = True, sc_cancel = None\<rparr> = Some ((res, e), s') \<and>
     [1, 2, 3, 4, 5] = ar_data res @ script_pending s'"
  using Aggregator_Read_conserves [of "\<lparr>MaxBytes = 4, FlushDelay = 1\<rparr>" 5
      "\<lparr>sc_events = [([1, 2], None), ([3, 4, 5], None)], sc_has_deadline = True, sc_cancel = None\<rparr>"]
  by (auto simp: agg_limit_def script_pending_def)

end
