(* ===== verification/MemoryStore.thy ===== *)
theory MemoryStore
  imports ObjectStore "HOL-Library.AList"
begin

text \<open>
  \<open>internal/objectstore/memory/memory.go\<close>: the in-memory store.  Its map is an
  association list; a Go map has no order of its own, and the only operation
  that iterates it sorts what it collects.  The interpretation at the end shows
  that the store keeps the contract of \<open>ObjectStore\<close>.
\<close>

record mem_object =
  mo_data :: bytes
  mo_metadata :: "(string \<times> string) list"

record mem_store =
  ms_objects :: "(string \<times> mem_object) list"

definition mem_new :: mem_store where
  "mem_new = \<lparr>ms_objects = []\<rparr>"

definition copyMetadata :: "(string \<times> string) list \<Rightarrow> (string \<times> string) list" where
  "copyMetadata m = m"

definition mem_PutObject ::
  "ctx \<Rightarrow> string \<Rightarrow> bytes \<Rightarrow> PutOptions \<Rightarrow> mem_store \<Rightarrow> err option \<times> mem_store" where
  "mem_PutObject ctx k data opts s =
     (case ctx of Some e \<Rightarrow> (Some e, s)
      | None \<Rightarrow>
          (None, s\<lparr>ms_objects :=
             AList.update k \<lparr>mo_data = data, mo_metadata = copyMetadata (opt_metadata opts)\<rparr> (ms_objects s)\<rparr>))"

definition mem_GetObject :: "ctx \<Rightarrow> string \<Rightarrow> mem_store \<Rightarrow> bytes result \<times> mem_store" where
  "mem_GetObject ctx k s =
     (case ctx of Some e \<Rightarrow> (Inl e, s)
      | None \<Rightarrow>
          (case map_of (ms_objects s) k of
             None \<Rightarrow> (Inl ErrNotFound, s)
           | Some obj \<Rightarrow> (Inr (mo_data obj), s)))"

definition mem_HeadObject :: "ctx \<Rightarrow> string \<Rightarrow> mem_store \<Rightarrow> ObjectInfo result \<times> mem_store" where
  "mem_HeadObject ctx k s =
     (case ctx of Some e \<Rightarrow> (Inl e, s)
      | None \<Rightarrow>
          (case map_of (ms_objects s) k of
             None \<Rightarrow> (Inl ErrNotFound, s)
           | Some obj \<Rightarrow>
               (Inr \<lparr>info_key = k, info_size = int (length (mo_data obj)),
                     info_metadata = copyMetadata (mo_metadata obj)\<rparr>, s)))"

text \<open>
  \<open>sort.SearchStrings\<close>: in a sorted list, the least index whose element is not
  below \<open>x\<close>.
\<close>

definition search_strings :: "string list \<Rightarrow> string \<Rightarrow> nat" where
  "search_strings keys x = length (takeWhile (\<lambda>k. k < x) keys)"

text \<open>Where the page starts: past the continuation token, never past the end.\<close>

definition list_start :: "string list \<Rightarrow> string \<Rightarrow> nat" where
  "list_start keys token =
     (let start = (if token = [] then 0
                   else let i = search_strings keys token
                        in if i < length keys \<and> keys ! i = token then i + 1 else i)
      in if start > length keys then length keys else start)"

definition mem_ListPrefixPage ::
  "ctx \<Rightarrow> string \<Rightarrow> ListOptions \<Rightarrow> mem_store \<Rightarrow> ListPage result \<times> mem_store" where
  "mem_ListPrefixPage ctx prefix opts s =
     (case ctx of Some e \<Rightarrow> (Inl e, s)
      | None \<Rightarrow>
          let keys = sort (filter (\<lambda>k. hasPrefix k prefix) (map fst (ms_objects s)));
              keys' = drop (list_start keys (opt_token opts)) keys
          in if 0 < opt_max_keys opts \<and> opt_max_keys opts < int (length keys')
             then let ps = take (nat (opt_max_keys opts)) keys'
                  in (Inr \<lparr>page_keys = ps, page_truncated = True, page_next_token = last ps\<rparr>, s)
             else (Inr \<lparr>page_keys = keys', page_truncated = False, page_next_token = []\<rparr>, s))"

definition mem_ListPrefix ::
  "ctx \<Rightarrow> string \<Rightarrow> ListOptions \<Rightarrow> mem_store \<Rightarrow> string list result \<times> mem_store" where
  "mem_ListPrefix ctx prefix opts s = keys_of_page (mem_ListPrefixPage ctx prefix opts s)"

definition mem_DeleteObject :: "ctx \<Rightarrow> string \<Rightarrow> mem_store \<Rightarrow> err option \<times> mem_store" where
  "mem_DeleteObject ctx k s =
     (case ctx of Some e \<Rightarrow> (Some e, s)
      | None \<Rightarrow> (None, s\<lparr>ms_objects := AList.delete k (ms_objects s)\<rparr>))"

definition memory_store :: "mem_store ObjectStore" where
  "memory_store =
     \<lparr>PutObject = mem_PutObject, GetObject = mem_GetObject, HeadObject = mem_HeadObject,
      ListPrefix = mem_ListPrefix, ListPrefixPage = mem_ListPrefixPage,
      DeleteObject = mem_DeleteObject\<rparr>"

section \<open>The contract\<close>

definition mem_objs :: "mem_store \<Rightarrow> string \<rightharpoonup> bytes" where
  "mem_objs s = map_option mo_data \<circ> map_of (ms_objects s)"

definition mem_inv :: "mem_store \<Rightarrow> bool" where
  "mem_inv s \<longleftrightarrow> distinct (map fst (ms_objects s))"

lemma dom_mem_objs: "dom (mem_objs s) = fst ` set (ms_objects s)"
  by (simp add: mem_objs_def dom_map_option_comp dom_map_of_conv_image_fst)

lemma mem_keys_sorted:
  assumes "mem_inv s"
  shows "sort (filter (\<lambda>k. hasPrefix k prefix) (map fst (ms_objects s))) = sorted_keys (mem_objs s) prefix"
    (is "sort ?ks = _")
proof -
  have "distinct ?ks" using assms by (simp add: mem_inv_def)
  then have "sort ?ks = sorted_list_of_set (set ?ks)"
    by (simp only: sorted_list_of_set_sort_remdups distinct_remdups_id)
  also have "set ?ks = keys_with_prefix (mem_objs s) prefix"
    by (auto simp: keys_with_prefix_def dom_mem_objs)
  finally show ?thesis by (simp add: sorted_keys_def)
qed

lemma search_strings_Cons:
  "search_strings (k # ks) t = (if k < t then Suc (search_strings ks t) else 0)"
  by (simp add: search_strings_def)

text \<open>The binary search and the step past an exact hit leave the keys after the token.\<close>

lemma drop_start_filter:
  fixes t :: string
  assumes "sorted ks" and "distinct ks"
  shows "drop (let i = search_strings ks t in if i < length ks \<and> ks ! i = t then i + 1 else i) ks
    = filter (\<lambda>k. t < k) ks"
  using assms
proof (induction ks)
  case (Cons k ks)
  show ?case
  proof (cases "k < t")
    case True
    with Cons show ?thesis
      by (auto simp: search_strings_Cons Let_def)
  next
    case False
    have "\<forall>x \<in> set ks. t < x"
    proof
      fix x assume "x \<in> set ks"
      with Cons.prems have "k \<le> x" and "k \<noteq> x" by auto
      with False show "t < x" by (simp add: not_less)
    qed
    then have "filter (\<lambda>x. t < x) ks = ks"
      by simp
    with False show ?thesis
      by (auto simp: search_strings_Cons Let_def)
  qed
qed simp

lemma drop_list_start:
  assumes "sorted ks" and "distinct ks"
  shows "drop (list_start ks t) ks = (if t = [] then ks else filter (\<lambda>k. t < k) ks)"
proof (cases "t = []")
  case False
  let ?i = "let i = search_strings ks t in if i < length ks \<and> ks ! i = t then i + 1 else i"
  have "drop (list_start ks t) ks = drop ?i ks"
    using False by (cases "?i > length ks") (simp_all add: list_start_def)
  with False show ?thesis
    by (simp only: drop_start_filter [OF assms]) simp
qed (simp add: list_start_def)

lemma mem_list_page:
  "mem_inv s \<Longrightarrow>
   mem_ListPrefixPage None prefix opts s = (Inr (page_spec (sorted_keys (mem_objs s) prefix) opts), s)"
  by (simp add: mem_ListPrefixPage_def page_spec_def mem_keys_sorted drop_list_start Let_def del: length_drop)

lemmas mem_ops_def = mem_PutObject_def mem_GetObject_def mem_HeadObject_def mem_ListPrefix_def
  mem_DeleteObject_def copyMetadata_def

lemma mem_objs_update:
  "mem_objs (s\<lparr>ms_objects := AList.update k ob (ms_objects s)\<rparr>) = (mem_objs s)(k \<mapsto> mo_data ob)"
  by (simp add: mem_objs_def update_conv' fun_eq_iff)

lemma mem_objs_delete:
  "mem_objs (s\<lparr>ms_objects := AList.delete k (ms_objects s)\<rparr>) = (mem_objs s)(k := None)"
  by (simp add: mem_objs_def delete_conv' fun_eq_iff)

interpretation mem: object_store memory_store mem_objs mem_inv
proof (unfold_locales, goal_cases)
  case (1 s)
  then show ?case by (simp add: dom_mem_objs)
next
  case (2 s k d opts)
  then show ?case
    by (simp add: memory_store_def mem_ops_def mem_objs_update mem_inv_def distinct_update)
next
  case (3 s k)
  then show ?case
    by (simp add: memory_store_def mem_ops_def get_spec_def mem_objs_def split: option.split)
next
  case (4 s k)
  then show ?case
    by (simp add: memory_store_def mem_ops_def mem_objs_def split: option.split)
next
  case (5 s prefix lopts)
  then show ?case by (simp add: memory_store_def mem_list_page)
next
  case (6 ctx prefix lopts s)
  then show ?case by (simp add: memory_store_def mem_ops_def)
next
  case (7 s k)
  then show ?case
    by (simp add: memory_store_def mem_ops_def mem_objs_delete mem_inv_def distinct_delete)
next
  case (11 s e prefix lopts)
  then show ?case by (simp add: memory_store_def mem_ListPrefixPage_def)
qed (simp_all add: memory_store_def mem_ops_def)

text \<open>
  C22: \<open>DeletePrefix\<close> on the in-memory store returns, given more fuel than there
  are keys to delete, with no error and the number of keys under the prefix;
  afterwards exactly the objects outside the prefix are left, unchanged.
\<close>

theorem DeletePrefix_memory:
  assumes "mem_inv s" and "card (keys_with_prefix (mem_objs s) prefix) < fuel"
  shows "\<exists>s'. DeletePrefix fuel memory_store None prefix s
      = Some ((card (keys_with_prefix (mem_objs s) prefix), None), s') \<and> mem_inv s' \<and>
    mem_objs s' = mem_objs s |` {k. \<not> hasPrefix k prefix}"
  using mem.DeletePrefix_loop_live [OF assms, of 0] by (simp add: DeletePrefix_def)

definition mem_example :: mem_store where
  "mem_example = \<lparr>ms_objects =
     [(''a/2'', \<lparr>mo_data = [2], mo_metadata = []\<rparr>), (''b/1'', \<lparr>mo_data = [7], mo_metadata = []\<rparr>),
      (''a/1'', \<lparr>mo_data = [1], mo_metadata = []\<rparr>)]\<rparr>"

lemma mem_example_inv: "mem_inv mem_example"
  by (simp add: mem_inv_def mem_example_def)

lemma mem_example_keys: "keys_with_prefix (mem_objs mem_example) ''a/'' = {''a/1'', ''a/2''}"
  by (auto simp: keys_with_prefix_def dom_mem_objs mem_example_def hasPrefix_def)

theorem DeletePrefix_memory_witness:
  "\<exists>s'. DeletePrefix 3 memory_store None ''a/'' mem_example = Some ((2, None), s') \<and> mem_inv s' \<and>
     mem_objs s' = mem_objs mem_example |` {k. \<not> hasPrefix k ''a/''}"
  using DeletePrefix_memory [OF mem_example_inv, of "''a/''" 3] by (simp add: mem_example_keys numeral_2_eq_2)

end
