(* ===== verification/Tunnel.thy ===== *)
theory Tunnel
  imports Codec Aggregation MemoryStore
begin

text \<open>
  \<open>internal/tunnel/tunnel.go\<close> and \<open>activity.go\<close>, the parts shared by client and
  server: the configuration and its defaults, the poll delays, the activity signal,
  and the operations that put, get and wait for the JSON objects of the mailbox.

  An operation acts on the process it runs in (its random generator, its statistics
  and its activity channel) and on the store.  \<open>now\<close> is the time a message is
  stamped with.  A loop that waits takes one \<open>tick\<close> per turn, with what the outside
  decides in it: the state of the context, whether the deadline has passed, how the
  sleep ends, and what the other processes do to the store meanwhile.  When the
  ticks run out the loop is still waiting, \<open>None\<close>.

  The lemmas are about the defaults, the delays, and the exact effect of each
  operation on a store that keeps its contract.
\<close>

section \<open>Configuration\<close>

record ('s, 'g) TunnelConfig =
  cfg_Store :: "'s ObjectStore"
  cfg_Codec :: "'g Codec"
  cfg_Prefix :: string
  cfg_ChunkSize :: int
  cfg_FlushDelay :: int
  cfg_PollMin :: int
  cfg_PollMax :: int
  cfg_ActivePollDuration :: int
  cfg_WindowChunks :: u64
  cfg_CloseCheckAfterMisses :: int
  cfg_IdleTimeout :: int

definition millisecond :: int where "millisecond = 1000000"
definition second :: int where "second = 1000 * millisecond"

definition defaultCloseCheckAfterMisses :: int where "defaultCloseCheckAfterMisses = 4"
definition defaultActivePollDuration :: int where "defaultActivePollDuration = 500 * millisecond"

text \<open>The three adjustments of the chunk size, one after the other, and the poll bounds.\<close>

definition default_chunk :: "int \<Rightarrow> int" where
  "default_chunk n =
     (let a = (if n \<le> 0 then 64 * 1024 else n);
          b = (if a < MinChunkSize then MinChunkSize else a)
      in if b > MaxChunkSize then MaxChunkSize else b)"

definition default_poll_min :: "int \<Rightarrow> int" where
  "default_poll_min d = (if d \<le> 0 then 50 * millisecond else d)"

definition default_poll_max :: "int \<Rightarrow> int \<Rightarrow> int" where
  "default_poll_max lo d =
     (let a = (if d \<le> 0 then 2 * second else d) in if a < lo then lo else a)"

definition default_active :: "int \<Rightarrow> int" where
  "default_active d =
     (let a = (if d < 0 then 0 else d) in if a = 0 then defaultActivePollDuration else a)"

definition withDefaults :: "('s, 'g) TunnelConfig \<Rightarrow> ('s, 'g) TunnelConfig" where
  "withDefaults cfg =
     cfg\<lparr>cfg_Prefix := NormalizePrefix (cfg_Prefix cfg),
         cfg_ChunkSize := default_chunk (cfg_ChunkSize cfg),
         cfg_FlushDelay := (if cfg_FlushDelay cfg < 0 then 0 else cfg_FlushDelay cfg),
         cfg_PollMin := default_poll_min (cfg_PollMin cfg),
         cfg_PollMax := default_poll_max (default_poll_min (cfg_PollMin cfg)) (cfg_PollMax cfg),
         cfg_WindowChunks := (if cfg_WindowChunks cfg = 0 then 16 else cfg_WindowChunks cfg),
         cfg_CloseCheckAfterMisses :=
           (if cfg_CloseCheckAfterMisses cfg \<le> 0 then defaultCloseCheckAfterMisses
            else cfg_CloseCheckAfterMisses cfg),
         cfg_ActivePollDuration := default_active (cfg_ActivePollDuration cfg),
         cfg_IdleTimeout := (if cfg_IdleTimeout cfg \<le> 0 then 120 * second else cfg_IdleTimeout cfg)\<rparr>"

lemmas default_defs = default_chunk_def default_poll_min_def default_poll_max_def default_active_def
  millisecond_def second_def defaultCloseCheckAfterMisses_def defaultActivePollDuration_def
  MinChunkSize_def MaxChunkSize_def

definition valid_config :: "('s, 'g) TunnelConfig \<Rightarrow> bool" where
  "valid_config cfg \<longleftrightarrow> ValidateChunkSize (cfg_ChunkSize cfg) = None \<and> 0 \<le> cfg_FlushDelay cfg \<and>
     0 < cfg_PollMin cfg \<and> cfg_PollMin cfg \<le> cfg_PollMax cfg \<and> cfg_WindowChunks cfg \<noteq> 0 \<and>
     0 < cfg_CloseCheckAfterMisses cfg \<and> 0 < cfg_ActivePollDuration cfg \<and> 0 < cfg_IdleTimeout cfg"

lemma NormalizePrefix_idem: "NormalizePrefix (NormalizePrefix p) = NormalizePrefix p"
proof -
  let ?t = "trim p ''/''"
  have "trim ?t ''/'' = ?t"
  proof (rule trim_id)
    show "?t = [] \<or> hd ?t \<notin> set ''/''" using trim_hd [of p "''/''"] by blast
    show "?t = [] \<or> last ?t \<notin> set ''/''"
      unfolding trim_def trimRight_def by (metis hd_dropWhile last_rev rev.simps(1))
  qed
  moreover have "trim ''s3s5'' ''/'' = ''s3s5''"
    by (rule trim_id) simp_all
  ultimately show ?thesis
    by (simp add: NormalizePrefix_def Let_def)
qed

lemma valid_withDefaults: "valid_config (withDefaults cfg)"
proof -
  have "ValidateChunkSize (default_chunk n) = None" for n
    by (simp add: ValidateChunkSize_def default_defs Let_def)
  then show ?thesis
    by (simp add: withDefaults_def valid_config_def) (simp add: default_defs Let_def)
qed

text \<open>
  Whatever configuration a client or server is given, the one it runs with has a
  chunk size within the protocol's bounds, positive poll delays in order, a window
  of at least one chunk and positive timeouts; filling in the defaults twice is the
  same as once.
\<close>

theorem withDefaults_valid:
  "valid_config (withDefaults cfg) \<and> withDefaults (withDefaults cfg) = withDefaults cfg"
proof -
  have "default_chunk (default_chunk n) = default_chunk n"
    "default_poll_min (default_poll_min d) = default_poll_min d"
    "default_poll_max (default_poll_min l) (default_poll_max (default_poll_min l) d) = default_poll_max (default_poll_min l) d"
    "default_active (default_active d) = default_active d" for n d l
    by (simp_all add: default_defs Let_def)
  then have "withDefaults (withDefaults cfg) = withDefaults cfg"
    by (simp add: withDefaults_def NormalizePrefix_idem)
  with valid_withDefaults show ?thesis ..
qed

section \<open>Delays\<close>

definition nextDelay :: "int \<Rightarrow> int \<Rightarrow> int" where
  "nextDelay current maxDelay =
     (if current \<le> 0 then maxDelay
      else let nxt = wrap64 (current * 2) in if nxt > maxDelay then maxDelay else nxt)"

lemma nextDelay_double:
  "0 < d \<Longrightarrow> d < 2 ^ 62 \<Longrightarrow> nextDelay d m = min (2 * d) m"
  by (simp add: nextDelay_def Let_def wrap64_id min_def)

lemma nextDelay_iter:
  assumes "0 < d" "d \<le> m" "m < 2 ^ 62"
  shows "((\<lambda>x. nextDelay x m) ^^ n) d = min (2 ^ n * d) m"
proof (induction n)
  case (Suc n)
  have "0 < min (2 ^ n * d) m" "min (2 ^ n * d) m < 2 ^ 62"
    using assms by auto
  then have "nextDelay (min (2 ^ n * d) m) m = min (2 * min (2 ^ n * d) m) m"
    by (rule nextDelay_double)
  also have "\<dots> = min (2 ^ Suc n * d) m"
    using assms by (simp add: min_def)
  finally show ?case
    using Suc by simp
qed (use assms in simp)

text \<open>
  The poll delay doubles from its minimum and stays at its maximum from then on,
  for every maximum below \<open>2 ^ 62\<close> nanoseconds (146 years): after \<open>n\<close> misses it is
  the smaller of \<open>2 ^ n\<close> times the minimum and the maximum.
\<close>

theorem poll_delay_backoff:
  assumes "valid_config cfg" and "cfg_PollMax cfg < 2 ^ 62"
  shows "((\<lambda>d. nextDelay d (cfg_PollMax cfg)) ^^ n) (cfg_PollMin cfg) =
    min (2 ^ n * cfg_PollMin cfg) (cfg_PollMax cfg)"
  using assms by (intro nextDelay_iter) (auto simp: valid_config_def)

definition test_config :: "(mem_store, unit) TunnelConfig" where
  "test_config = \<lparr>cfg_Store = memory_store, cfg_Codec = NoopCodec, cfg_Prefix = ''p'', cfg_ChunkSize = 1024,
     cfg_FlushDelay = 0, cfg_PollMin = 1, cfg_PollMax = 100, cfg_ActivePollDuration = 1, cfg_WindowChunks = 16,
     cfg_CloseCheckAfterMisses = 4, cfg_IdleTimeout = 1000\<rparr>"

lemma valid_test_config: "valid_config test_config"
  by (simp add: test_config_def valid_config_def ValidateChunkSize_def MinChunkSize_def MaxChunkSize_def)

theorem poll_delay_backoff_witness: "((\<lambda>d. nextDelay d 100) ^^ 5) 1 = 32"
  using poll_delay_backoff [OF valid_test_config, of 5] by (simp add: test_config_def)

section \<open>Processes and the outside\<close>

text \<open>
  The activity channel has room for one signal: it is full or empty; \<open>None\<close> is the
  nil signal.  \<open>tk_sleep\<close> says how a sleep of a given length ends.
\<close>

record 'g proc =
  pr_rng :: 'g
  pr_stats :: "Stats option"
  pr_activity :: "bool option"

record 's tick =
  tk_ctx :: ctx
  tk_expired :: bool
  tk_sleep :: "int \<Rightarrow> err option"
  tk_world :: "'s \<Rightarrow> 's"

definition notifyActivity :: "'g proc \<Rightarrow> 'g proc" where
  "notifyActivity p = p\<lparr>pr_activity := map_option (\<lambda>_. True) (pr_activity p)\<rparr>"

text \<open>
  \<open>sleepOrActivity\<close>: without active polling it sleeps; otherwise the first of the
  context, the timer and a signal ends it, and a signal is taken from the channel.
  \<open>signalled\<close> says that the signal, when there is one, comes first.
\<close>

definition sleepOrActivity ::
  "err option \<Rightarrow> bool \<Rightarrow> int \<Rightarrow> 'g proc \<Rightarrow> bool result \<times> 'g proc" where
  "sleepOrActivity slept signalled activeDuration p =
     (if pr_activity p = None \<or> activeDuration \<le> 0
      then (case slept of Some e \<Rightarrow> Inl e | None \<Rightarrow> Inr False, p)
      else if signalled \<and> pr_activity p = Some True then (Inr True, p\<lparr>pr_activity := Some False\<rparr>)
      else (case slept of Some e \<Rightarrow> Inl e | None \<Rightarrow> Inr False, p))"

definition with_stats :: "(Stats option \<Rightarrow> Stats option) \<Rightarrow> 'g proc \<Rightarrow> 'g proc" where
  "with_stats f p = p\<lparr>pr_stats := f (pr_stats p)\<rparr>"

section \<open>JSON objects of the mailbox\<close>

definition octet_stream :: PutOptions where
  "octet_stream = \<lparr>opt_content_type = ''application/octet-stream'', opt_metadata = []\<rparr>"

definition putJSON ::
  "ctx \<Rightarrow> ('s, 'g) TunnelConfig \<Rightarrow> string \<Rightarrow> string \<Rightarrow> string \<Rightarrow> string \<Rightarrow> bytes result
     \<Rightarrow> 'g proc \<Rightarrow> 's \<Rightarrow> err option \<times> 'g proc \<times> 's" where
  "putJSON ctx cfg k typ sessionID direction marshalled p s =
     (case marshalled of
        Inl e \<Rightarrow> (Some e, p, s)
      | Inr data \<Rightarrow>
          (case Seal (cfg_Codec cfg) typ sessionID direction 0 data (pr_rng p) of
             (Inl e, g) \<Rightarrow> (Some e, p\<lparr>pr_rng := g\<rparr>, s)
           | (Inr sealed, g) \<Rightarrow>
               (case PutObject (cfg_Store cfg) ctx k sealed octet_stream s of
                  (e, s') \<Rightarrow> (e, with_stats incPut (p\<lparr>pr_rng := g\<rparr>), s'))))"

definition getJSON ::
  "ctx \<Rightarrow> ('s, 'g) TunnelConfig \<Rightarrow> string \<Rightarrow> string \<Rightarrow> string \<Rightarrow> string \<Rightarrow> (bytes \<Rightarrow> 'm result)
     \<Rightarrow> 'g proc \<Rightarrow> 's \<Rightarrow> 'm result \<times> 'g proc \<times> 's" where
  "getJSON ctx cfg k typ sessionID direction decoder p s =
     (case GetObject (cfg_Store cfg) ctx k s of
        (r, s') \<Rightarrow>
          (ebind r (\<lambda>data. ebind (Open (cfg_Codec cfg) typ sessionID direction 0 data) decoder),
           with_stats incGet p, s'))"

fun wait_loop ::
  "'s tick list \<Rightarrow> int \<Rightarrow> ('s, 'g) TunnelConfig \<Rightarrow> string \<Rightarrow> string \<Rightarrow> string \<Rightarrow> string \<Rightarrow> (bytes \<Rightarrow> 'm result)
     \<Rightarrow> 'g proc \<Rightarrow> 's \<Rightarrow> ('m result \<times> 'g proc \<times> 's) option" where
  "wait_loop [] delay cfg k typ sessionID direction decoder p s = None"
| "wait_loop (t # ts) delay cfg k typ sessionID direction decoder p s =
     (case getJSON (tk_ctx t) cfg k typ sessionID direction decoder p s of
        (Inr m, p', s') \<Rightarrow> Some (Inr m, p', s')
      | (Inl e, p', s') \<Rightarrow>
          if \<not> IsNotFound (Some e) then Some (Inl e, p', s')
          else if tk_expired t then Some (Inl (ErrText (''timeout waiting for '' @ k)), p', s')
          else case tk_sleep t delay of
            Some x \<Rightarrow> Some (Inl x, p', s')
          | None \<Rightarrow> wait_loop ts (nextDelay delay (cfg_PollMax cfg)) cfg k typ sessionID direction decoder
                        p' (tk_world t s'))"

definition waitJSON ::
  "'s tick list \<Rightarrow> ('s, 'g) TunnelConfig \<Rightarrow> string \<Rightarrow> string \<Rightarrow> string \<Rightarrow> string \<Rightarrow> (bytes \<Rightarrow> 'm result)
     \<Rightarrow> 'g proc \<Rightarrow> 's \<Rightarrow> ('m result \<times> 'g proc \<times> 's) option" where
  "waitJSON ts cfg = wait_loop ts (cfg_PollMin cfg) cfg"

section \<open>Acknowledgements and close objects\<close>

definition putAck ::
  "ctx \<Rightarrow> gotime \<Rightarrow> ('s, 'g) TunnelConfig \<Rightarrow> string \<Rightarrow> string \<Rightarrow> u64 \<Rightarrow> 'g proc \<Rightarrow> 's
     \<Rightarrow> err option \<times> 'g proc \<times> 's" where
  "putAck ctx now cfg sessionID direction nxt p s =
     putJSON ctx cfg (AckKey (cfg_Prefix cfg) direction sessionID) ''ack'' sessionID direction
       (Marshal_Ack \<lparr>ack_version = Version, ack_session = sessionID, ack_direction = direction,
          ack_next_seq = nxt, ack_updated = now\<rparr>) p s"

definition getAck ::
  "ctx \<Rightarrow> ('s, 'g) TunnelConfig \<Rightarrow> string \<Rightarrow> string \<Rightarrow> 'g proc \<Rightarrow> 's \<Rightarrow> u64 result \<times> 'g proc \<times> 's" where
  "getAck ctx cfg sessionID direction p s =
     (case getJSON ctx cfg (AckKey (cfg_Prefix cfg) direction sessionID) ''ack'' sessionID direction
             Unmarshal_Ack p s of
        (Inl e, p', s') \<Rightarrow> (if IsNotFound (Some e) then Inr 0 else Inl e, p', s')
      | (Inr ack, p', s') \<Rightarrow> (Inr (ack_next_seq ack), p', s'))"

definition putClose ::
  "ctx \<Rightarrow> gotime \<Rightarrow> ('s, 'g) TunnelConfig \<Rightarrow> string \<Rightarrow> string \<Rightarrow> string \<Rightarrow> 'g proc \<Rightarrow> 's
     \<Rightarrow> err option \<times> 'g proc \<times> 's" where
  "putClose ctx now cfg sessionID side reason p s =
     putJSON ctx cfg (CloseKey (cfg_Prefix cfg) side sessionID) ''close'' sessionID side
       (Marshal_Close \<lparr>cl_version = Version, cl_session = sessionID, cl_side = side, cl_reason = reason,
          cl_created = now\<rparr>) p s"

definition closeExists ::
  "ctx \<Rightarrow> ('s, 'g) TunnelConfig \<Rightarrow> string \<Rightarrow> string \<Rightarrow> 'g proc \<Rightarrow> 's \<Rightarrow> bool result \<times> 'g proc \<times> 's" where
  "closeExists ctx cfg sessionID side p s =
     (case HeadObject (cfg_Store cfg) ctx (CloseKey (cfg_Prefix cfg) side sessionID) s of
        (r, s') \<Rightarrow>
          (case r of
             Inr _ \<Rightarrow> Inr True
           | Inl e \<Rightarrow> if IsNotFound (Some e) then Inr False else Inl e,
           with_stats incHead p, s'))"

definition ackInterval :: "u64 \<Rightarrow> u64" where
  "ackInterval window = (if window \<le> 2 then 1 else window div 2)"

definition isClosedConn :: "err option \<Rightarrow> bool" where
  "isClosedConn e =
     (case e of
        None \<Rightarrow> False
      | Some x \<Rightarrow>
          if errors_is x NetErrClosed \<or> errors_is x IoErrClosedPipe then True
          else let s = toLower (err_text x)
               in contains s ''use of closed network connection'' \<or> contains s ''closed pipe'')"

end
