(* ===== verification/Stream.thy ===== *)
theory Stream
  imports Tunnel
begin

text \<open>
  \<open>internal/tunnel/tunnel.go\<close>: \<open>streamToStore\<close>, \<open>waitWindow\<close> and \<open>streamFromStore\<close>, the
  two loops that move one direction of a session through the store.

  Both run concurrently with each other and with everything else that uses the
  store, so each is a machine that takes one operation on the store at a time: its
  program counter names the place in the loop, and between two steps anything may
  happen elsewhere.  What the outside decides in a step is an \<open>action\<close>: the state of
  the context, the clock, how a sleep ends, what a write to the socket returns.
  \<open>stream_step\<close> interleaves a sender, a receiver and the rest of the world, which
  may do anything to the store except to this stream's objects.

  The invariant of the interleaving, proved once for every store and codec that
  keep their contracts, gives the properties: order and integrity of the bytes, the
  bound on the chunks in flight, the absence of a flow-control deadlock when the
  windows fit together and the deadlock when they do not.
\<close>

section \<open>Actions\<close>

record action =
  ac_ctx :: ctx
  ac_now :: gotime
  ac_instant :: int
  ac_sleep :: "int \<Rightarrow> err option"
  ac_signalled :: bool
  ac_expired :: bool
  ac_write :: "(nat \<times> err) option"

section \<open>The sender\<close>

text \<open>
  \<open>SRead\<close>: at \<open>aggregator.Read\<close>.  \<open>SWindow\<close>: in the loop of \<open>waitWindow\<close>, with the
  chunk, the error of its read and the poll delay.  \<open>SPut\<close>: at \<open>SealData\<close> and the put
  of the chunk.  \<open>SClose\<close>: at \<open>putClose\<close> with a reason; the result is the given error,
  or that of \<open>putClose\<close> itself when none is given.  \<open>sd_log\<close> is a ghost: the chunks
  offered to the store so far.
\<close>

datatype send_pc =
    SRead
  | SWindow bytes "err option" int
  | SPut bytes "err option"
  | SClose string "err option"
  | SDone "err option"

record 'r sender =
  sd_pc :: send_pc
  sd_reader :: 'r
  sd_seq :: u64
  sd_acked :: u64
  sd_sent :: int
  sd_log :: "bytes list"

definition new_sender :: "'r \<Rightarrow> 'r sender" where
  "new_sender r = \<lparr>sd_pc = SRead, sd_reader = r, sd_seq = 0, sd_acked = 0, sd_sent = 0, sd_log = []\<rparr>"

definition after_read :: "err option \<Rightarrow> send_pc" where
  "after_read e =
     (case e of None \<Rightarrow> SRead
      | Some x \<Rightarrow> if x = IoEOF then SClose [] None else SClose (err_text x) (Some x))"

definition over_limit :: "int \<Rightarrow> int \<Rightarrow> bytes \<Rightarrow> bool" where
  "over_limit maxBytes n data \<longleftrightarrow> maxBytes > 0 \<and> wrap64 (n + int (length data)) > maxBytes"

definition limit_text :: string where "limit_text = ''max bytes per session exceeded''"

definition window_open :: "('s, 'g) TunnelConfig \<Rightarrow> u64 \<Rightarrow> u64 \<Rightarrow> bool" where
  "window_open cfg seq acked \<longleftrightarrow> cfg_WindowChunks cfg = 0 \<or> seq < acked + cfg_WindowChunks cfg"

definition send_read ::
  "('s, 'g) TunnelConfig \<Rightarrow> 'r Reader \<Rightarrow> int \<Rightarrow> 'r sender \<Rightarrow> 'g proc \<Rightarrow> 's \<Rightarrow> 'r sender \<times> 'g proc \<times> 's" where
  "send_read cfg R maxBytes sd p s =
     (let ag = \<lparr>MaxBytes = cfg_ChunkSize cfg, FlushDelay = cfg_FlushDelay cfg\<rparr>
      in case Aggregator_Read (Suc (agg_limit ag)) ag R (sd_reader sd) of
        None \<Rightarrow> (sd, p, s)
      | Some ((rd, e), r') \<Rightarrow>
          let sd' = sd\<lparr>sd_reader := r'\<rparr>; data = ar_data rd
          in if data = [] then (sd'\<lparr>sd_pc := after_read e\<rparr>, p, s)
             else let p' = notifyActivity (with_stats (recordAggregation (ar_reason rd) (ar_reads rd)) p)
               in if over_limit maxBytes (sd_sent sd) data
                  then (sd'\<lparr>sd_pc := SClose limit_text (Some (ErrText limit_text))\<rparr>, p', s)
                  else if window_open cfg (sd_seq sd) (sd_acked sd)
                  then (sd'\<lparr>sd_pc := SPut data e\<rparr>, p', s)
                  else (sd'\<lparr>sd_pc := SWindow data e (cfg_PollMin cfg)\<rparr>, p', s))"

definition send_window ::
  "('s, 'g) TunnelConfig \<Rightarrow> string \<Rightarrow> string \<Rightarrow> action \<Rightarrow> bytes \<Rightarrow> err option \<Rightarrow> int
     \<Rightarrow> 'r sender \<Rightarrow> 'g proc \<Rightarrow> 's \<Rightarrow> 'r sender \<times> 'g proc \<times> 's" where
  "send_window cfg sessionID direction a data e delay sd p s =
     (case getAck (ac_ctx a) cfg sessionID direction p s of
        (Inl x, p', s') \<Rightarrow> (sd\<lparr>sd_pc := SDone (Some x)\<rparr>, p', s')
      | (Inr nxt, p', s') \<Rightarrow>
          let sd' = (if nxt > sd_acked sd then sd\<lparr>sd_acked := nxt\<rparr> else sd)
          in if sd_seq sd' < sd_acked sd' + cfg_WindowChunks cfg then (sd'\<lparr>sd_pc := SPut data e\<rparr>, p', s')
             else (case ac_sleep a delay of
                 Some x \<Rightarrow> (sd'\<lparr>sd_pc := SDone (Some x)\<rparr>, p', s')
               | None \<Rightarrow> (sd'\<lparr>sd_pc := SWindow data e (nextDelay delay (cfg_PollMax cfg))\<rparr>, p', s')))"

definition send_put ::
  "('s, 'g) TunnelConfig \<Rightarrow> string \<Rightarrow> string \<Rightarrow> action \<Rightarrow> bytes \<Rightarrow> err option
     \<Rightarrow> 'r sender \<Rightarrow> 'g proc \<Rightarrow> 's \<Rightarrow> 'r sender \<times> 'g proc \<times> 's" where
  "send_put cfg sessionID direction a data e sd p s =
     (case SealData (cfg_Codec cfg) sessionID direction (sd_seq sd) data (pr_rng p) of
        (Inl x, g) \<Rightarrow> (sd\<lparr>sd_pc := SDone (Some x)\<rparr>, p\<lparr>pr_rng := g\<rparr>, s)
      | (Inr sealed, g) \<Rightarrow>
          (case PutObject (cfg_Store cfg) (ac_ctx a)
                  (DataKey (cfg_Prefix cfg) direction sessionID (sd_seq sd)) sealed octet_stream s of
             (Some x, s') \<Rightarrow>
               (sd\<lparr>sd_pc := SDone (Some x), sd_log := sd_log sd @ [data]\<rparr>,
                with_stats incPut (p\<lparr>pr_rng := g\<rparr>), s')
           | (None, s') \<Rightarrow>
               let p1 = notifyActivity (with_stats incPut (p\<lparr>pr_rng := g\<rparr>));
                   p2 = (if sd_seq sd = 0 then with_stats (recordFirstData sessionID direction (ac_instant a)) p1
                         else p1);
                   p3 = with_stats (incChunksSent (length data) (length sealed)) p2
               in (sd\<lparr>sd_pc := after_read e, sd_seq := sd_seq sd + 1,
                      sd_sent := wrap64 (sd_sent sd + int (length data)), sd_log := sd_log sd @ [data]\<rparr>, p3, s')))"

definition send_close ::
  "('s, 'g) TunnelConfig \<Rightarrow> string \<Rightarrow> string \<Rightarrow> action \<Rightarrow> string \<Rightarrow> err option
     \<Rightarrow> 'r sender \<Rightarrow> 'g proc \<Rightarrow> 's \<Rightarrow> 'r sender \<times> 'g proc \<times> 's" where
  "send_close cfg sessionID side a reason ret sd p s =
     (case putClose (ac_ctx a) (ac_now a) cfg sessionID side reason p s of
        (x, p', s') \<Rightarrow> (sd\<lparr>sd_pc := SDone (case ret of None \<Rightarrow> x | Some e \<Rightarrow> Some e)\<rparr>, p', s'))"

text \<open>\<open>streamToStore\<close>, one operation.\<close>

definition streamToStore ::
  "('s, 'g) TunnelConfig \<Rightarrow> 'r Reader \<Rightarrow> string \<Rightarrow> string \<Rightarrow> string \<Rightarrow> int \<Rightarrow> action
     \<Rightarrow> 'r sender \<Rightarrow> 'g proc \<Rightarrow> 's \<Rightarrow> 'r sender \<times> 'g proc \<times> 's" where
  "streamToStore cfg R sessionID direction side maxBytes a sd p s =
     (case sd_pc sd of
        SRead \<Rightarrow> send_read cfg R maxBytes sd p s
      | SWindow data e delay \<Rightarrow> send_window cfg sessionID direction a data e delay sd p s
      | SPut data e \<Rightarrow> send_put cfg sessionID direction a data e sd p s
      | SClose reason ret \<Rightarrow> send_close cfg sessionID side a reason ret sd p s
      | SDone x \<Rightarrow> (sd, p, s))"

section \<open>The receiver\<close>

text \<open>
  \<open>RGet\<close>: at the get of the next data object.  \<open>RAck\<close>: at \<open>putAck\<close>.  \<open>RHead\<close>: at
  \<open>closeExists\<close>.  \<open>RWait\<close>: at the deadline check and the sleep.  \<open>rv_out\<close> are the bytes
  written to the socket; a write that fails may have written some of its bytes.
\<close>

datatype recv_pc = RGet | RAck | RHead | RWait | RDone "err option"

record receiver =
  rv_pc :: recv_pc
  rv_seq :: u64
  rv_lastAck :: u64
  rv_received :: int
  rv_delay :: int
  rv_misses :: int
  rv_out :: bytes

definition new_receiver :: "('s, 'g) TunnelConfig \<Rightarrow> receiver" where
  "new_receiver cfg = \<lparr>rv_pc = RGet, rv_seq = 0, rv_lastAck = 0, rv_received = 0, rv_delay = cfg_PollMin cfg,
     rv_misses = 0, rv_out = []\<rparr>"

definition closeCheckEvery :: "('s, 'g) TunnelConfig \<Rightarrow> int" where
  "closeCheckEvery cfg =
     (if cfg_CloseCheckAfterMisses cfg \<le> 0 then defaultCloseCheckAfterMisses else cfg_CloseCheckAfterMisses cfg)"

definition next_chunk :: "('s, 'g) TunnelConfig \<Rightarrow> receiver \<Rightarrow> receiver" where
  "next_chunk cfg rv = rv\<lparr>rv_pc := RGet, rv_delay := cfg_PollMin cfg, rv_misses := 0\<rparr>"

definition write_chunk ::
  "('s, 'g) TunnelConfig \<Rightarrow> int \<Rightarrow> action \<Rightarrow> bytes \<Rightarrow> bytes \<Rightarrow> receiver \<Rightarrow> 'g proc \<Rightarrow> receiver \<times> 'g proc" where
  "write_chunk cfg maxBytes a plain data rv p =
     (if over_limit maxBytes (rv_received rv) plain
      then (rv\<lparr>rv_pc := RDone (Some (ErrText limit_text))\<rparr>, p)
      else case ac_write a of
        Some (n, x) \<Rightarrow> (rv\<lparr>rv_pc := RDone (Some x), rv_out := rv_out rv @ take n plain\<rparr>, p)
      | None \<Rightarrow>
          let p' = notifyActivity (with_stats (incChunksReceived (length plain) (length data)) p);
              rv' = rv\<lparr>rv_out := rv_out rv @ plain, rv_received := wrap64 (rv_received rv + int (length plain)),
                       rv_seq := rv_seq rv + 1\<rparr>
          in (if rv_seq rv' - rv_lastAck rv' \<ge> ackInterval (cfg_WindowChunks cfg)
              then rv'\<lparr>rv_pc := RAck\<rparr> else next_chunk cfg rv', p'))"

definition recv_get ::
  "('s, 'g) TunnelConfig \<Rightarrow> string \<Rightarrow> string \<Rightarrow> int \<Rightarrow> action
     \<Rightarrow> receiver \<Rightarrow> 'g proc \<Rightarrow> 's \<Rightarrow> receiver \<times> 'g proc \<times> 's" where
  "recv_get cfg sessionID direction maxBytes a rv p s =
     (case GetObject (cfg_Store cfg) (ac_ctx a) (DataKey (cfg_Prefix cfg) direction sessionID (rv_seq rv)) s of
        (r, s') \<Rightarrow>
          let p1 = with_stats incGet p
          in case r of
            Inr data \<Rightarrow>
              (case OpenData (cfg_Codec cfg) sessionID direction (rv_seq rv) data of
                 Inl x \<Rightarrow> (rv\<lparr>rv_pc := RDone (Some x)\<rparr>, p1, s')
               | Inr plain \<Rightarrow> (case write_chunk cfg maxBytes a plain data rv p1 of (rv', p2) \<Rightarrow> (rv', p2, s')))
          | Inl x \<Rightarrow>
              if \<not> IsNotFound (Some x) then (rv\<lparr>rv_pc := RDone (Some x)\<rparr>, p1, s')
              else if rv_misses rv + 1 \<ge> closeCheckEvery cfg
              then (rv\<lparr>rv_pc := RHead, rv_misses := 0\<rparr>, p1, s')
              else (rv\<lparr>rv_pc := RWait, rv_misses := rv_misses rv + 1\<rparr>, p1, s'))"

definition recv_ack ::
  "('s, 'g) TunnelConfig \<Rightarrow> string \<Rightarrow> string \<Rightarrow> action \<Rightarrow> receiver \<Rightarrow> 'g proc \<Rightarrow> 's \<Rightarrow> receiver \<times> 'g proc \<times> 's" where
  "recv_ack cfg sessionID direction a rv p s =
     (case putAck (ac_ctx a) (ac_now a) cfg sessionID direction (rv_seq rv) p s of
        (Some x, p', s') \<Rightarrow> (rv\<lparr>rv_pc := RDone (Some x)\<rparr>, p', s')
      | (None, p', s') \<Rightarrow> (next_chunk cfg (rv\<lparr>rv_lastAck := rv_seq rv\<rparr>), notifyActivity p', s'))"

definition recv_head ::
  "('s, 'g) TunnelConfig \<Rightarrow> string \<Rightarrow> string \<Rightarrow> action \<Rightarrow> receiver \<Rightarrow> 'g proc \<Rightarrow> 's \<Rightarrow> receiver \<times> 'g proc \<times> 's" where
  "recv_head cfg sessionID peerSide a rv p s =
     (case closeExists (ac_ctx a) cfg sessionID peerSide p s of
        (Inl x, p', s') \<Rightarrow> (rv\<lparr>rv_pc := RDone (Some x)\<rparr>, p', s')
      | (Inr True, p', s') \<Rightarrow> (rv\<lparr>rv_pc := RDone None\<rparr>, p', s')
      | (Inr False, p', s') \<Rightarrow> (rv\<lparr>rv_pc := RWait\<rparr>, p', s'))"

definition recv_wait ::
  "('s, 'g) TunnelConfig \<Rightarrow> string \<Rightarrow> action \<Rightarrow> receiver \<Rightarrow> 'g proc \<Rightarrow> receiver \<times> 'g proc" where
  "recv_wait cfg direction a rv p =
     (if ac_expired a
      then (rv\<lparr>rv_pc := RDone (Some (ErrText
              (''idle timeout waiting for '' @ direction @ '' seq '' @ itoa (unat (rv_seq rv)))))\<rparr>, p)
      else case sleepOrActivity (ac_sleep a (rv_delay rv)) (ac_signalled a) (cfg_ActivePollDuration cfg) p of
        (Inl x, p') \<Rightarrow> (rv\<lparr>rv_pc := RDone (Some x)\<rparr>, p')
      | (Inr woke, p') \<Rightarrow>
          (rv\<lparr>rv_pc := RGet,
              rv_delay := (if woke then cfg_PollMin cfg else nextDelay (rv_delay rv) (cfg_PollMax cfg))\<rparr>, p'))"

text \<open>\<open>streamFromStore\<close>, one operation.\<close>

definition streamFromStore ::
  "('s, 'g) TunnelConfig \<Rightarrow> string \<Rightarrow> string \<Rightarrow> string \<Rightarrow> int \<Rightarrow> action
     \<Rightarrow> receiver \<Rightarrow> 'g proc \<Rightarrow> 's \<Rightarrow> receiver \<times> 'g proc \<times> 's" where
  "streamFromStore cfg sessionID direction peerSide maxBytes a rv p s =
     (case rv_pc rv of
        RGet \<Rightarrow> recv_get cfg sessionID direction maxBytes a rv p s
      | RAck \<Rightarrow> recv_ack cfg sessionID direction a rv p s
      | RHead \<Rightarrow> recv_head cfg sessionID peerSide a rv p s
      | RWait \<Rightarrow> (case recv_wait cfg direction a rv p of (rv', p') \<Rightarrow> (rv', p', s))
      | RDone x \<Rightarrow> (rv, p, s))"

section \<open>One direction of a session\<close>

record ('s, 'g, 'r) stream_sys =
  sy_snd :: "'r sender"
  sy_rcv :: receiver
  sy_psnd :: "'g proc"
  sy_prcv :: "'g proc"
  sy_store :: 's

record ('s, 'g, 'r) stream_env =
  se_scfg :: "('s, 'g) TunnelConfig"
  se_rcfg :: "('s, 'g) TunnelConfig"
  se_reader :: "'r Reader"
  se_sid :: string
  se_dir :: string
  se_side :: string
  se_smax :: int
  se_rmax :: int

definition sender_step where
  "sender_step E a y =
     (case streamToStore (se_scfg E) (se_reader E) (se_sid E) (se_dir E) (se_side E) (se_smax E) a
             (sy_snd y) (sy_psnd y) (sy_store y) of
        (sd, p, s) \<Rightarrow> y\<lparr>sy_snd := sd, sy_psnd := p, sy_store := s\<rparr>)"

definition receiver_step where
  "receiver_step E a y =
     (case streamFromStore (se_rcfg E) (se_sid E) (se_dir E) (se_side E) (se_rmax E) a
             (sy_rcv y) (sy_prcv y) (sy_store y) of
        (rv, p, s) \<Rightarrow> y\<lparr>sy_rcv := rv, sy_prcv := p, sy_store := s\<rparr>)"

text \<open>
  The keys of the stream: its data objects, its ACK object and the sender's close
  object.  A context is never ended with the store's own not-found error.
\<close>

definition stream_keys :: "('s, 'g, 'r) stream_env \<Rightarrow> string set" where
  "stream_keys E =
     insert (AckKey (cfg_Prefix (se_scfg E)) (se_dir E) (se_sid E))
       (insert (CloseKey (cfg_Prefix (se_scfg E)) (se_side E) (se_sid E))
          (range (DataKey (cfg_Prefix (se_scfg E)) (se_dir E) (se_sid E))))"

definition wf_action :: "action \<Rightarrow> bool" where
  "wf_action a \<longleftrightarrow> \<not> IsNotFound (ac_ctx a) \<and> wf_time (ac_now a)"

inductive stream_step ::
  "('s \<Rightarrow> string \<rightharpoonup> bytes) \<Rightarrow> ('s \<Rightarrow> bool) \<Rightarrow> ('s, 'g, 'r) stream_env
     \<Rightarrow> ('s, 'g, 'r) stream_sys \<Rightarrow> ('s, 'g, 'r) stream_sys \<Rightarrow> bool"
  for objs wfs E where
  step_send: "wf_action a \<Longrightarrow> stream_step objs wfs E y (sender_step E a y)"
| step_recv: "wf_action a \<Longrightarrow> stream_step objs wfs E y (receiver_step E a y)"
| step_env: "wfs s' \<Longrightarrow> \<forall>k\<in>stream_keys E. objs s' k = objs (sy_store y) k \<Longrightarrow>
    stream_step objs wfs E y (y\<lparr>sy_psnd := p, sy_prcv := q, sy_store := s'\<rparr>)"

definition stream_init ::
  "('s \<Rightarrow> string \<rightharpoonup> bytes) \<Rightarrow> ('s \<Rightarrow> bool) \<Rightarrow> ('s, 'g, 'r) stream_env \<Rightarrow> ('s, 'g, 'r) stream_sys \<Rightarrow> bool" where
  "stream_init objs wfs E y \<longleftrightarrow>
     (\<exists>r. sy_snd y = new_sender r) \<and> sy_rcv y = new_receiver (se_rcfg E) \<and> wfs (sy_store y) \<and>
     (\<forall>k\<in>stream_keys E. objs (sy_store y) k = None)"

inductive stream_reach ::
  "('s \<Rightarrow> string \<rightharpoonup> bytes) \<Rightarrow> ('s \<Rightarrow> bool) \<Rightarrow> ('s, 'g, 'r) stream_env \<Rightarrow> 'r
     \<Rightarrow> ('s, 'g, 'r) stream_sys \<Rightarrow> bool"
  for objs wfs E r where
  reach_init: "stream_init objs wfs E y \<Longrightarrow> sd_reader (sy_snd y) = r \<Longrightarrow> stream_reach objs wfs E r y"
| reach_step: "stream_reach objs wfs E r y \<Longrightarrow> stream_step objs wfs E y y' \<Longrightarrow> stream_reach objs wfs E r y'"

end
