(* ===== verification/StreamInv.thy ===== *)
theory StreamInv
  imports Stream "HOL-Library.Sublist"
begin

text \<open>
  The invariant of one direction of a session: what the store holds of it, how far
  sender and receiver may be apart, and where every byte of the input is.  The
  locale \<open>stream\<close> puts together the contracts the proof rests on (two handles on one
  store, which may fail; a codec; a reader), and shows that every step of the
  interleaving keeps the invariant while the sequence numbers stay in range.
\<close>

section \<open>The invariant\<close>

definition ack_value :: "('s, 'g, 'r) stream_env \<Rightarrow> (string \<rightharpoonup> bytes) \<Rightarrow> u64 option" where
  "ack_value E m =
     (case m (AckKey (cfg_Prefix (se_scfg E)) (se_dir E) (se_sid E)) of
        None \<Rightarrow> Some 0
      | Some d \<Rightarrow>
          (case ebind (Open (cfg_Codec (se_scfg E)) ''ack'' (se_sid E) (se_dir E) 0 d) Unmarshal_Ack of
             Inl _ \<Rightarrow> None
           | Inr a \<Rightarrow> Some (ack_next_seq a)))"

definition data_ok :: "('s, 'g, 'r) stream_env \<Rightarrow> (string \<rightharpoonup> bytes) \<Rightarrow> bytes list \<Rightarrow> bool" where
  "data_ok E m log \<longleftrightarrow>
     (\<forall>i d. m (DataKey (cfg_Prefix (se_scfg E)) (se_dir E) (se_sid E) i) = Some d \<longrightarrow>
        unat i < length log \<and> OpenData (cfg_Codec (se_scfg E)) (se_sid E) (se_dir E) i d = Inr (log ! unat i))"

text \<open>Every chunk offered to the store is there, unless the sender failed.\<close>

definition sent_all :: "('s, 'g, 'r) stream_env \<Rightarrow> (string \<rightharpoonup> bytes) \<Rightarrow> bytes list \<Rightarrow> bool" where
  "sent_all E m log \<longleftrightarrow>
     (\<forall>i. unat i < length log \<longrightarrow> m (DataKey (cfg_Prefix (se_scfg E)) (se_dir E) (se_sid E) i) \<noteq> None)"

definition present :: "('s, 'g, 'r) stream_env \<Rightarrow> (string \<rightharpoonup> bytes) \<Rightarrow> 'r sender \<Rightarrow> bool" where
  "present E m sd \<longleftrightarrow> (\<exists>x. sd_pc sd = SDone (Some x)) \<or> sent_all E m (sd_log sd)"

definition is_rdone :: "recv_pc \<Rightarrow> bool" where
  "is_rdone pc = (case pc of RDone _ \<Rightarrow> True | _ \<Rightarrow> False)"

definition is_sdone :: "send_pc \<Rightarrow> bool" where
  "is_sdone pc = (case pc of SDone _ \<Rightarrow> True | _ \<Rightarrow> False)"

lemma is_done_simps [simp]:
  "is_rdone (RDone x)" "\<not> is_rdone RGet" "\<not> is_rdone RAck" "\<not> is_rdone RHead" "\<not> is_rdone RWait"
  "is_sdone (SDone x)" "\<not> is_sdone SRead" "\<not> is_sdone (SWindow d e t)" "\<not> is_sdone (SPut d e)"
  "\<not> is_sdone (SClose r z)"
  by (simp_all add: is_rdone_def is_sdone_def)

text \<open>An acknowledged number is zero or at least one interval of the receiver.\<close>

definition ack_step :: "('s, 'g, 'r) stream_env \<Rightarrow> u64 \<Rightarrow> bool" where
  "ack_step E v \<longleftrightarrow> v = 0 \<or> unat (ackInterval (cfg_WindowChunks (se_rcfg E))) \<le> unat v"

definition ack_ok :: "('s, 'g, 'r) stream_env \<Rightarrow> (string \<rightharpoonup> bytes) \<Rightarrow> receiver \<Rightarrow> bool" where
  "ack_ok E m rv \<longleftrightarrow>
     unat (rv_lastAck rv) \<le> unat (rv_seq rv) \<and>
     (\<exists>v. ack_value E m = Some v \<and> unat v \<le> unat (rv_seq rv) \<and> ack_step E v \<and>
        (\<not> is_rdone (rv_pc rv) \<longrightarrow> v = rv_lastAck rv)) \<and>
     (rv_pc rv = RAck \<longrightarrow> ack_step E (rv_seq rv)) \<and>
     (rv_pc rv \<in> {RGet, RHead, RWait} \<longrightarrow>
        unat (rv_seq rv) < unat (rv_lastAck rv) + unat (ackInterval (cfg_WindowChunks (se_rcfg E))))"

definition send_ok :: "('s, 'g, 'r) stream_env \<Rightarrow> 'r sender \<Rightarrow> u64 \<Rightarrow> bool" where
  "send_ok E sd q \<longleftrightarrow>
     unat (sd_acked sd) \<le> unat q \<and> ack_step E (sd_acked sd) \<and>
     length (sd_log sd) \<le> unat (sd_acked sd) + unat (cfg_WindowChunks (se_scfg E)) \<and>
     (\<not> is_sdone (sd_pc sd) \<longrightarrow> unat (sd_seq sd) = length (sd_log sd)) \<and>
     (\<forall>d e. sd_pc sd = SPut d e \<longrightarrow> length (sd_log sd) < unat (sd_acked sd) + unat (cfg_WindowChunks (se_scfg E)))"

definition recv_ok :: "receiver \<Rightarrow> bytes list \<Rightarrow> bool" where
  "recv_ok rv log \<longleftrightarrow>
     unat (rv_seq rv) \<le> length log \<and>
     (\<not> is_rdone (rv_pc rv) \<longrightarrow> rv_out rv = concat (take (unat (rv_seq rv)) log)) \<and>
     prefix (rv_out rv) (concat log)"

definition held :: "('r \<Rightarrow> bytes) \<Rightarrow> 'r sender \<Rightarrow> bytes option" where
  "held pending sd =
     (case sd_pc sd of
        SRead \<Rightarrow> Some (pending (sd_reader sd))
      | SWindow d e t \<Rightarrow> Some (d @ pending (sd_reader sd))
      | SPut d e \<Rightarrow> Some (d @ pending (sd_reader sd))
      | SClose r None \<Rightarrow> Some (pending (sd_reader sd))
      | SDone None \<Rightarrow> Some (pending (sd_reader sd))
      | _ \<Rightarrow> None)"

definition bytes_ok :: "('s, 'g, 'r) stream_env \<Rightarrow> ('r \<Rightarrow> bytes) \<Rightarrow> bytes \<Rightarrow> 'r sender \<Rightarrow> bool" where
  "bytes_ok E pending input sd \<longleftrightarrow>
     (case held pending sd of Some rest \<Rightarrow> input = concat (sd_log sd) @ rest
      | None \<Rightarrow> prefix (concat (sd_log sd)) input) \<and>
     (\<forall>d e t. sd_pc sd = SWindow d e t \<or> sd_pc sd = SPut d e \<longrightarrow> length d \<le> nat MaxChunkSize) \<and>
     (\<forall>d\<in>set (sd_log sd). length d \<le> nat MaxChunkSize)"

definition stream_inv where
  "stream_inv objs wfs pending input E y \<longleftrightarrow>
     wfs (sy_store y) \<and> present E (objs (sy_store y)) (sy_snd y) \<and>
     data_ok E (objs (sy_store y)) (sd_log (sy_snd y)) \<and> ack_ok E (objs (sy_store y)) (sy_rcv y) \<and> send_ok E (sy_snd y) (rv_seq (sy_rcv y)) \<and>
     recv_ok (sy_rcv y) (sd_log (sy_snd y)) \<and> bytes_ok E pending input (sy_snd y)"

text \<open>The endpoints agree on the store's contents, the codec and the prefix, and run with valid configurations.\<close>

definition agreed ::
  "'s ObjectStore \<Rightarrow> 's ObjectStore \<Rightarrow> 'g Codec \<Rightarrow> 'r Reader \<Rightarrow> ('s, 'g, 'r) stream_env \<Rightarrow> bool" where
  "agreed S1 S2 C R E \<longleftrightarrow>
     cfg_Store (se_scfg E) = S1 \<and> cfg_Store (se_rcfg E) = S2 \<and> cfg_Codec (se_scfg E) = C \<and>
     cfg_Codec (se_rcfg E) = C \<and> se_reader E = R \<and> cfg_Prefix (se_rcfg E) = cfg_Prefix (se_scfg E) \<and>
     valid_config (se_scfg E) \<and> valid_config (se_rcfg E) \<and>
     plain_comp (se_sid E) \<and> plain_comp (se_dir E) \<and> plain_comp (se_side E)"

text \<open>The same, with the keys of the stream among those the store keeps its contract for.\<close>

definition agreed_in where
  "agreed_in K S1 S2 C R E \<longleftrightarrow> agreed S1 S2 C R E \<and> stream_keys E \<subseteq> K"

lemma agreed_in_UNIV [simp]: "agreed_in UNIV S1 S2 C R E = agreed S1 S2 C R E"
  by (simp add: agreed_in_def)

lemma agreed_in_agreed: "agreed_in K S1 S2 C R E \<Longrightarrow> agreed S1 S2 C R E"
  by (simp add: agreed_in_def)

lemma agreed_in_keys:
  assumes "agreed_in K S1 S2 C R E"
  shows "DataKey (cfg_Prefix (se_scfg E)) (se_dir E) (se_sid E) i \<in> K"
    "AckKey (cfg_Prefix (se_scfg E)) (se_dir E) (se_sid E) \<in> K"
    "CloseKey (cfg_Prefix (se_scfg E)) (se_side E) (se_sid E) \<in> K"
  using assms by (auto simp: agreed_in_def stream_keys_def)

lemma stream_key_facts:
  assumes "plain_comp sid" "plain_comp dir"
  shows "DataKey px dir sid i = DataKey px dir sid j \<longleftrightarrow> i = j"
    "DataKey px dir sid i \<noteq> AckKey px dir sid"
    "plain_comp side \<Longrightarrow> DataKey px dir sid i \<noteq> CloseKey px side sid"
    "plain_comp side \<Longrightarrow> AckKey px dir sid \<noteq> CloseKey px side sid"
  using object_key_inject [of "DataObj dir sid i" "DataObj dir sid j" px]
    object_key_inject [of "DataObj dir sid i" "AckObj dir sid" px]
    object_key_inject [of "DataObj dir sid i" "CloseObj side sid" px]
    object_key_inject [of "AckObj dir sid" "CloseObj side sid" px] assms
  by auto

lemma agreed_keys:
  assumes "agreed S1 S2 C R E"
  shows "DataKey px (se_dir E) (se_sid E) i = DataKey px (se_dir E) (se_sid E) j \<longleftrightarrow> i = j"
    "DataKey px (se_dir E) (se_sid E) i \<noteq> AckKey px (se_dir E) (se_sid E)"
    "DataKey px (se_dir E) (se_sid E) i \<noteq> CloseKey px (se_side E) (se_sid E)"
    "AckKey px (se_dir E) (se_sid E) \<noteq> CloseKey px (se_side E) (se_sid E)"
  using assms by (auto simp: agreed_def stream_key_facts)

section \<open>The effect of the JSON operations\<close>

context store_safety begin

lemma putJSON_safe:
  assumes "inv s" and "cfg_Store cfg = S" and "k \<in> K" and "putJSON c cfg k ty sid dir m p s = (e, p', s')"
  shows "inv s' \<and> (objs s' = objs s \<and> e \<noteq> None \<or>
    (\<exists>data sealed g. m = Inr data \<and> Seal (cfg_Codec cfg) ty sid dir 0 data (pr_rng p) = (Inr sealed, g) \<and>
       objs s' = (objs s)(k \<mapsto> sealed)))"
proof (cases m)
  case (Inl x)
  with assms show ?thesis by (auto simp: putJSON_def)
next
  case (Inr data)
  obtain z g where sl: "Seal (cfg_Codec cfg) ty sid dir 0 data (pr_rng p) = (z, g)" by force
  show ?thesis
  proof (cases z)
    case (Inl x)
    with sl Inr assms show ?thesis by (auto simp: putJSON_def)
  next
    case (Inr sealed)
    obtain r s0 where put: "PutObject S c k sealed octet_stream s = (r, s0)" by force
    have "e = r" "s' = s0"
      using assms(2,4) sl \<open>m = Inr data\<close> Inr put by (simp_all add: putJSON_def)
    then show ?thesis
      using put put_failed [OF assms(1,3), of c sealed octet_stream _ s0]
        sl \<open>m = Inr data\<close> Inr
      by (cases r) (auto dest!: put_done [OF assms(1,3)])
  qed
qed

lemma getJSON_safe:
  assumes "inv s" and "\<not> IsNotFound c" and "cfg_Store cfg = S" and "k \<in> K"
    and "getJSON c cfg k ty sid dir dec p s = (r, p', s')"
  shows "inv s' \<and> objs s' = objs s \<and>
    (case r of
       Inr x \<Rightarrow> \<exists>d. objs s k = Some d \<and> ebind (Open (cfg_Codec cfg) ty sid dir 0 d) dec = Inr x
     | Inl e \<Rightarrow> IsNotFound (Some e) \<longrightarrow>
         objs s k = None \<or> (\<exists>d. objs s k = Some d \<and> ebind (Open (cfg_Codec cfg) ty sid dir 0 d) dec = Inl e))"
proof -
  obtain r0 s0 where g: "GetObject S c k s = (r0, s0)" by force
  show ?thesis
  proof (cases r0)
    case (Inl e)
    with g assms get_failed [of s k c e s0] show ?thesis
      by (auto simp: getJSON_def)
  next
    case (Inr d)
    with g assms get_found [of s k c d s0] show ?thesis
      by (auto simp: getJSON_def split: sum.splits)
  qed
qed

end

lemma ack_value_simps:
  "m (AckKey (cfg_Prefix (se_scfg E)) (se_dir E) (se_sid E)) = None \<Longrightarrow> ack_value E m = Some 0"
  "m (AckKey (cfg_Prefix (se_scfg E)) (se_dir E) (se_sid E)) = Some d \<Longrightarrow>
     ebind (Open (cfg_Codec (se_scfg E)) ''ack'' (se_sid E) (se_dir E) 0 d) Unmarshal_Ack = Inr a \<Longrightarrow>
     ack_value E m = Some (ack_next_seq a)"
  by (simp_all add: ack_value_def)

context store_safety begin

lemma getAck_safe:
  assumes "inv s" and "\<not> IsNotFound c" and "cfg_Store (se_scfg E) = S" and "ack_value E (objs s) = Some v"
    and "AckKey (cfg_Prefix (se_scfg E)) (se_dir E) (se_sid E) \<in> K"
    and "getAck c (se_scfg E) (se_sid E) (se_dir E) p s = (r, p', s')"
  shows "inv s' \<and> objs s' = objs s \<and> (\<forall>x. r = Inr x \<longrightarrow> x = v)"
proof -
  let ?k = "AckKey (cfg_Prefix (se_scfg E)) (se_dir E) (se_sid E)"
  obtain r0 p0 s0 where g: "getJSON c (se_scfg E) ?k ''ack'' (se_sid E) (se_dir E) Unmarshal_Ack p s = (r0, p0, s0)"
    by (metis prod_cases3)
  note safe = getJSON_safe [OF assms(1-3) assms(5) g]
  have "r0 = Inr a \<Longrightarrow> ack_next_seq a = v" for a
    using safe assms(4) by (auto simp: ack_value_simps)
  moreover have "r0 = Inl e \<Longrightarrow> IsNotFound (Some e) \<Longrightarrow> v = 0" for e
    using safe assms(4) by (auto simp: ack_value_simps) (auto simp: ack_value_def)
  ultimately show ?thesis
    using safe g assms(6) by (auto simp: getAck_def split: sum.splits if_splits)
qed

lemma putAck_safe:
  assumes "codec (cfg_Codec cfg)" and "inv s" and "cfg_Store cfg = S" and "wf_time now"
    and "cfg_Prefix cfg = cfg_Prefix (se_scfg E)" and "cfg_Codec cfg = cfg_Codec (se_scfg E)"
    and "AckKey (cfg_Prefix (se_scfg E)) (se_dir E) (se_sid E) \<in> K"
    and "putAck c now cfg (se_sid E) (se_dir E) q p s = (e, p', s')"
  shows "inv s' \<and> (objs s' = objs s \<and> e \<noteq> None \<or>
    ack_value E (objs s') = Some q \<and>
    (\<exists>d. objs s' = (objs s)(AckKey (cfg_Prefix (se_scfg E)) (se_dir E) (se_sid E) \<mapsto> d)))"
proof -
  let ?a = "\<lparr>ack_version = Version, ack_session = se_sid E, ack_direction = se_dir E, ack_next_seq = q, ack_updated = now\<rparr>"
  have a: "ebind (Marshal_Ack ?a) Unmarshal_Ack = Inr (clean_Ack ?a)"
    using assms(4) by (intro unmarshal_Ack) (simp add: wf_message_defs Version_def)
  show ?thesis
    using putJSON_safe [OF assms(2,3) _ assms(8) [unfolded putAck_def]] a assms(7)
    by (auto simp: ack_value_def assms(5) assms(6) [symmetric] clean_Ack_def dest!: codec.open_seal [OF assms(1)])
qed

lemma putClose_safe:
  assumes "inv s" and "cfg_Store cfg = S" and "CloseKey (cfg_Prefix cfg) side sid \<in> K" and "putClose c now cfg sid side reason p s = (e, p', s')"
  shows "inv s' \<and> (objs s' = objs s \<or> (\<exists>d. objs s' = (objs s)(CloseKey (cfg_Prefix cfg) side sid \<mapsto> d)))"
  using putJSON_safe [OF assms(1,2,3) assms(4) [unfolded putClose_def]] by auto

lemma closeExists_safe:
  assumes "inv s" and "\<not> IsNotFound c" and "cfg_Store cfg = S"
    and "CloseKey (cfg_Prefix cfg) side sid \<in> K" and "closeExists c cfg sid side p s = (r, p', s')"
  shows "inv s' \<and> objs s' = objs s \<and>
    (\<forall>b. r = Inr b \<longrightarrow> b = (objs s (CloseKey (cfg_Prefix cfg) side sid) \<noteq> None))"
proof -
  obtain r0 s0 where g: "HeadObject S c (CloseKey (cfg_Prefix cfg) side sid) s = (r0, s0)" by force
  show ?thesis
    using g assms head_found [OF assms(1,4), of c _ s0] head_failed [OF assms(1,4,2), of _ s0]
    by (cases r0) (auto simp: closeExists_def split: if_splits)
qed

end


section \<open>The sender keeps the invariant\<close>

definition sender_inv where
  "sender_inv objs wfs pending input E sd s q \<longleftrightarrow>
     wfs s \<and> present E (objs s) sd \<and> data_ok E (objs s) (sd_log sd) \<and> send_ok E sd q \<and> bytes_ok E pending input sd"

lemma valid_window: "valid_config cfg \<Longrightarrow> cfg_WindowChunks cfg \<noteq> 0"
  by (simp add: valid_config_def)

lemma valid_chunk: "valid_config cfg \<Longrightarrow> 0 < cfg_ChunkSize cfg \<and> cfg_ChunkSize cfg \<le> MaxChunkSize"
  by (auto simp: valid_config_def ValidateChunkSize_None MinChunkSize_def)

text \<open>The comparison of words in \<open>waitWindow\<close> is the one of numbers while they stay in range.\<close>

lemma window_less:
  fixes seq acked w :: u64
  assumes "unat acked + unat w < 2 ^ 64"
  shows "seq < acked + w \<longleftrightarrow> unat seq < unat acked + unat w"
  using assms by (simp add: word_less_nat_alt unat_word_ariths)

lemma after_read_cases:
  "after_read e = SRead \<or> (\<exists>r. after_read e = SClose r None) \<or> (\<exists>r x. after_read e = SClose r (Some x))"
  by (auto simp: after_read_def split: option.splits)

locale stream = snd: store_safety S1 objs inv K + rcv: store_safety S2 objs inv K + codec C + reader R pending
  for S1 S2 :: "'s ObjectStore" and objs inv K and C :: "'g Codec" and R :: "'r Reader" and pending
begin

lemma bytes_ok_after_read:
  assumes "input = concat (sd_log sd) @ pending (sd_reader sd)" "\<forall>d\<in>set (sd_log sd). length d \<le> nat MaxChunkSize"
  shows "bytes_ok E pending input (sd\<lparr>sd_pc := after_read e\<rparr>)"
  using after_read_cases [of e] assms by (auto simp: bytes_ok_def held_def)

lemma send_ok_after_read:
  assumes "send_ok E sd q" "\<not> is_sdone (sd_pc sd)"
  shows "send_ok E (sd\<lparr>sd_pc := after_read e\<rparr>) q"
  using after_read_cases [of e] assms by (auto simp: send_ok_def)

lemma send_read_inv:
  assumes E: "agreed_in K S1 S2 C R E" and pc: "sd_pc sd = SRead"
    and inv: "sender_inv objs inv pending input E sd s q" and qn: "unat q \<le> length (sd_log sd)"
    and small: "length (sd_log sd) + unat (cfg_WindowChunks (se_scfg E)) < 2 ^ 64"
    and step: "send_read (se_scfg E) R maxBytes sd p s = (sd', p', s')"
  shows "sender_inv objs inv pending input E sd' s' q \<and> s' = s \<and> sd_log sd' = sd_log sd"
proof -
  let ?cfg = "se_scfg E"
  let ?ag = "\<lparr>MaxBytes = cfg_ChunkSize ?cfg, FlushDelay = cfg_FlushDelay ?cfg\<rparr>"
  have chunk: "0 < cfg_ChunkSize ?cfg" "cfg_ChunkSize ?cfg \<le> MaxChunkSize" "cfg_WindowChunks ?cfg \<noteq> 0"
    using E valid_chunk valid_window by (auto simp: agreed_in_def agreed_def)
  then have limit: "agg_limit ?ag \<le> nat MaxChunkSize"
    by (simp add: agg_limit_def MaxChunkSize_def)
  show ?thesis
  proof (cases "Aggregator_Read (Suc (agg_limit ?ag)) ?ag R (sd_reader sd)")
    case None
    with step inv show ?thesis by (simp add: send_read_def)
  next
    case (Some x)
    obtain rd e r' where x: "x = ((rd, e), r')" by (metis surj_pair)
    have len: "length (ar_data rd) \<le> nat MaxChunkSize"
      using Aggregator_Read_bound [OF Some [unfolded x]] limit by simp
    have pend: "pending (sd_reader sd) = ar_data rd @ pending r'"
      using Aggregator_Read_pending [OF Some [unfolded x]] .
    have tot: "input = concat (sd_log sd) @ ar_data rd @ pending r'"
      using inv pc pend by (simp add: sender_inv_def bytes_ok_def held_def)
    show ?thesis
    proof (cases "ar_data rd = []")
      case True
      have "sd' = sd\<lparr>sd_reader := r', sd_pc := after_read e\<rparr>" "s' = s"
        using step Some x True by (simp_all add: send_read_def Let_def)
      moreover have "send_ok E (sd\<lparr>sd_reader := r', sd_pc := after_read e\<rparr>) q"
        using send_ok_after_read [of E "sd\<lparr>sd_reader := r'\<rparr>" q e] inv pc
        by (simp add: sender_inv_def send_ok_def)
      moreover have "bytes_ok E pending input (sd\<lparr>sd_reader := r', sd_pc := after_read e\<rparr>)"
        using bytes_ok_after_read [of input "sd\<lparr>sd_reader := r'\<rparr>" E e] tot True inv
        by (simp add: sender_inv_def bytes_ok_def [of _ _ _ sd])
      ultimately show ?thesis
        using inv pc by (simp add: sender_inv_def present_def)
    next
      case False
      have acked: "unat (sd_acked sd) \<le> length (sd_log sd)"
        using inv qn by (simp add: sender_inv_def send_ok_def)
      have wo: "window_open ?cfg (sd_seq sd) (sd_acked sd) \<longleftrightarrow>
          unat (sd_seq sd) < unat (sd_acked sd) + unat (cfg_WindowChunks ?cfg)"
        using window_less [of "sd_acked sd" "cfg_WindowChunks ?cfg" "sd_seq sd"] acked small chunk(3)
        by (simp add: window_open_def)
      show ?thesis
        using step Some x False inv pc len tot wo
        by (auto simp: send_read_def Let_def sender_inv_def send_ok_def bytes_ok_def held_def present_def split: if_splits)
    qed
  qed
qed

lemma send_window_inv:
  assumes E: "agreed_in K S1 S2 C R E" and pc: "sd_pc sd = SWindow data e delay" and a: "wf_action a"
    and inv: "sender_inv objs inv pending input E sd s q"
    and v: "ack_value E (objs s) = Some v" "unat v \<le> unat q" "ack_step E v" and qn: "unat q \<le> length (sd_log sd)"
    and small: "length (sd_log sd) + unat (cfg_WindowChunks (se_scfg E)) < 2 ^ 64"
    and step: "send_window (se_scfg E) (se_sid E) (se_dir E) a data e delay sd p s = (sd', p', s')"
  shows "sender_inv objs inv pending input E sd' s' q \<and> objs s' = objs s \<and> sd_log sd' = sd_log sd"
proof -
  let ?W = "cfg_WindowChunks (se_scfg E)"
  obtain r p1 s1 where g: "getAck (ac_ctx a) (se_scfg E) (se_sid E) (se_dir E) p s = (r, p1, s1)"
    by (metis prod_cases3)
  have "cfg_Store (se_scfg E) = S1" "inv s" "\<not> IsNotFound (ac_ctx a)"
    using E a inv by (simp_all add: agreed_in_def agreed_def wf_action_def sender_inv_def)
  then have safe: "inv s1" "objs s1 = objs s" "\<And>x. r = Inr x \<Longrightarrow> x = v"
    using snd.getAck_safe [OF _ _ _ v(1) agreed_in_keys(2) [OF E] g] by auto
  show ?thesis
  proof (cases r)
    case (Inl x)
    with step g safe inv pc show ?thesis
      by (auto simp: send_window_def sender_inv_def send_ok_def bytes_ok_def held_def present_def)
  next
    case (Inr x)
    define acked where "acked = (if v > sd_acked sd then v else sd_acked sd)"
    have acked: "unat (sd_acked sd) \<le> unat acked" "unat acked \<le> unat q" "ack_step E acked"
      using inv v(2,3) by (auto simp: acked_def word_less_nat_alt sender_inv_def send_ok_def)
    have less: "sd_seq sd < acked + ?W \<longleftrightarrow> unat (sd_seq sd) < unat acked + unat ?W"
      using acked qn small by (intro window_less) simp
    have sd': "sd' = (let sd1 = sd\<lparr>sd_acked := acked\<rparr> in
        if sd_seq sd < acked + ?W then sd1\<lparr>sd_pc := SPut data e\<rparr>
        else case ac_sleep a delay of Some y \<Rightarrow> sd1\<lparr>sd_pc := SDone (Some y)\<rparr>
          | None \<Rightarrow> sd1\<lparr>sd_pc := SWindow data e (nextDelay delay (cfg_PollMax (se_scfg E)))\<rparr>)" "s' = s1"
      using step g Inr safe(3) [OF Inr]
      by (auto simp: send_window_def Let_def acked_def split: if_splits option.splits)
    have "send_ok E sd' q"
      using inv pc acked less by (auto simp: sd' Let_def sender_inv_def send_ok_def split: option.splits)
    moreover have "bytes_ok E pending input sd'"
      using inv pc by (auto simp: sd' Let_def sender_inv_def bytes_ok_def held_def split: option.splits)
    ultimately show ?thesis
      using sd' safe inv pc by (auto simp: sender_inv_def present_def Let_def split: option.splits)
  qed
qed

lemma send_put_inv:
  assumes E: "agreed_in K S1 S2 C R E" and pc: "sd_pc sd = SPut data e"
    and inv: "sender_inv objs inv pending input E sd s q"
    and small: "Suc (length (sd_log sd)) < 2 ^ 64"
    and step: "send_put (se_scfg E) (se_sid E) (se_dir E) a data e sd p s = (sd', p', s')"
  shows "sender_inv objs inv pending input E sd' s' q \<and> ack_value E (objs s') = ack_value E (objs s) \<and>
    (sd_log sd' = sd_log sd \<or> sd_log sd' = sd_log sd @ [data])"
proof -
  let ?k = "DataKey (cfg_Prefix (se_scfg E)) (se_dir E) (se_sid E)"
  note env = E [unfolded agreed_in_def agreed_def]
  have seq: "unat (sd_seq sd) = length (sd_log sd)"
    and lt: "length (sd_log sd) < unat (sd_acked sd) + unat (cfg_WindowChunks (se_scfg E))"
    and tot: "input = concat (sd_log sd) @ data @ pending (sd_reader sd)" and len: "length data \<le> nat MaxChunkSize"
    and lens: "\<forall>d\<in>set (sd_log sd). length d \<le> nat MaxChunkSize" and all: "sent_all E (objs s) (sd_log sd)"
    using inv pc by (auto simp: sender_inv_def send_ok_def bytes_ok_def held_def present_def)
  obtain z g where sl: "SealData C (se_sid E) (se_dir E) (sd_seq sd) data (pr_rng p) = (z, g)" by force
  show ?thesis
  proof (cases z)
    case (Inl x)
    with step sl env inv tot show ?thesis
      by (auto simp: send_put_def sender_inv_def send_ok_def bytes_ok_def held_def prefix_def present_def)
  next
    case (Inr sealed)
    have "length data + 16 < 2 ^ 32"
      using len by (simp add: MaxChunkSize_def)
    then have open': "OpenData C (se_sid E) (se_dir E) (sd_seq sd) sealed = Inr data"
      using open_data [OF sl [unfolded Inr]] by simp
    have data: "data_ok E m (sd_log sd @ [data])" if "m = objs s \<or> m = (objs s)(?k (sd_seq sd) \<mapsto> sealed)" for m
      unfolding data_ok_def
    proof (intro allI impI)
      fix i d assume i: "m (?k i) = Some d"
      show "unat i < length (sd_log sd @ [data]) \<and>
        OpenData (cfg_Codec (se_scfg E)) (se_sid E) (se_dir E) i d = Inr ((sd_log sd @ [data]) ! unat i)"
      proof (cases "i = sd_seq sd \<and> d = sealed")
        case True
        with open' seq env show ?thesis by simp
      next
        case False
        then have "objs s (?k i) = Some d"
          using that i agreed_keys(1) [OF agreed_in_agreed [OF E]] by (auto split: if_splits)
        then show ?thesis
          using inv by (auto simp: sender_inv_def data_ok_def nth_append less_Suc_eq)
      qed
    qed
    have ack: "ack_value E m = ack_value E (objs s)"
      if "m = objs s \<or> m = (objs s)(?k (sd_seq sd) \<mapsto> sealed)" for m
      using that agreed_keys(2) [OF agreed_in_agreed [OF E], symmetric] by (auto simp: ack_value_def)
    obtain r s1 where put: "PutObject S1 (ac_ctx a) (?k (sd_seq sd)) sealed octet_stream s = (r, s1)" by force
    have s1: "inv s1" "objs s1 = objs s \<or> objs s1 = (objs s)(?k (sd_seq sd) \<mapsto> sealed)"
      using snd.put_done [of s "?k (sd_seq sd)" "ac_ctx a" sealed octet_stream s1]
        snd.put_failed [of s "?k (sd_seq sd)" "ac_ctx a" sealed octet_stream _ s1] put inv agreed_in_keys(1) [OF E]
      by (cases r; simp add: sender_inv_def)+
    show ?thesis
    proof (cases r)
      case None
      have sd': "sd' = sd\<lparr>sd_pc := after_read e, sd_seq := sd_seq sd + 1,
          sd_sent := wrap64 (sd_sent sd + int (length data)), sd_log := sd_log sd @ [data]\<rparr>" "s' = s1"
        using step sl Inr put None env by (simp_all add: send_put_def Let_def)
      have "unat (sd_seq sd + 1) = Suc (length (sd_log sd))"
        using seq small by (simp add: unat_word_ariths)
      then have "send_ok E sd' q"
        using inv lt after_read_cases [of e] by (auto simp: sd' sender_inv_def send_ok_def)
      moreover have "bytes_ok E pending input sd'"
        using tot after_read_cases [of e] len lens by (auto simp: sd' bytes_ok_def held_def)
      moreover have "objs s1 = (objs s)(?k (sd_seq sd) \<mapsto> sealed)"
        using put None snd.put_done agreed_in_keys(1) [OF E] inv by (simp add: sender_inv_def)
      then have "sent_all E (objs s1) (sd_log sd @ [data])"
        unfolding sent_all_def
      proof (intro allI impI)
        fix i :: u64 assume "unat i < length (sd_log sd @ [data])"
        then have "i = sd_seq sd \<or> unat i < length (sd_log sd)"
          using seq by (auto simp: less_Suc_eq word_unat_eq_iff)
        with all \<open>objs s1 = _\<close> show "objs s1 (?k i) \<noteq> None"
          by (auto simp: sent_all_def)
      qed
      ultimately show ?thesis
        using s1 data [OF s1(2)] ack [OF s1(2)] sd' by (simp add: sender_inv_def present_def)
    next
      case (Some x)
      have sd': "sd' = sd\<lparr>sd_pc := SDone (Some x), sd_log := sd_log sd @ [data]\<rparr>" "s' = s1"
        using step sl Inr put Some env by (simp_all add: send_put_def)
      have "send_ok E sd' q" "bytes_ok E pending input sd'"
        using inv lt tot len lens by (auto simp: sd' sender_inv_def send_ok_def bytes_ok_def held_def prefix_def)
      then show ?thesis
        using s1 data [OF s1(2)] ack [OF s1(2)] sd' by (simp add: sender_inv_def present_def)
    qed
  qed
qed

lemma send_close_inv:
  assumes E: "agreed_in K S1 S2 C R E" and pc: "sd_pc sd = SClose reason ret"
    and inv: "sender_inv objs inv pending input E sd s q"
    and step: "send_close (se_scfg E) (se_sid E) (se_side E) a reason ret sd p s = (sd', p', s')"
  shows "sender_inv objs inv pending input E sd' s' q \<and> ack_value E (objs s') = ack_value E (objs s) \<and>
    sd_log sd' = sd_log sd"
proof -
  obtain x p1 s1 where c: "putClose (ac_ctx a) (ac_now a) (se_scfg E) (se_sid E) (se_side E) reason p s = (x, p1, s1)"
    by (metis prod_cases3)
  have s1: "inv s1" "objs s1 = objs s \<or>
      (\<exists>d. objs s1 = (objs s)(CloseKey (cfg_Prefix (se_scfg E)) (se_side E) (se_sid E) \<mapsto> d))"
    using snd.putClose_safe [OF _ _ agreed_in_keys(3) [OF E] c] inv E by (simp_all add: sender_inv_def agreed_in_def agreed_def)
  have other: "objs s1 (DataKey px (se_dir E) (se_sid E) i) = objs s (DataKey px (se_dir E) (se_sid E) i)"
    if "px = cfg_Prefix (se_scfg E)" for px i
    using s1(2) agreed_keys(3) [OF agreed_in_agreed [OF E]] that by auto
  have "ack_value E (objs s1) = ack_value E (objs s)"
    using s1(2) agreed_keys(4) [OF agreed_in_agreed [OF E]] by (auto simp: ack_value_def)
  moreover have "data_ok E (objs s1) (sd_log sd)" "sent_all E (objs s1) (sd_log sd)"
    using inv pc other by (simp_all add: sender_inv_def data_ok_def present_def sent_all_def)
  ultimately show ?thesis
    using step c inv pc s1(1)
    by (auto simp: send_close_def sender_inv_def send_ok_def bytes_ok_def held_def present_def split: option.splits)
qed

end

section \<open>The receiver keeps the invariant\<close>

definition receiver_inv where
  "receiver_inv objs wfs E rv s log \<longleftrightarrow>
     wfs s \<and> data_ok E (objs s) log \<and> ack_ok E (objs s) rv \<and> recv_ok rv log"

lemma prefix_concat_take: "prefix (concat (take n xs)) (concat xs)"
  by (metis append_take_drop_id concat_append prefixI)

lemma recv_ok_done:
  assumes "recv_ok rv log" and "ack_ok E m rv"
  shows "recv_ok (rv\<lparr>rv_pc := RDone x\<rparr>) log" "ack_ok E m (rv\<lparr>rv_pc := RDone x\<rparr>)"
  using assms by (auto simp: recv_ok_def ack_ok_def)

lemma unat_ackInterval: "unat (ackInterval w) = (if unat w \<le> 2 then 1 else unat w div 2)"
  by (simp add: ackInterval_def word_le_nat_alt unat_div)

lemma ackInterval_pos: "0 < unat (ackInterval w)"
  unfolding unat_ackInterval by auto

text \<open>The comparison of the words in the receiver's check, with \<open>lastAck\<close> behind \<open>seq\<close>.\<close>

lemma ack_due:
  fixes seq lastAck k :: u64
  assumes "unat lastAck \<le> unat seq"
  shows "seq - lastAck \<ge> k \<longleftrightarrow> unat lastAck + unat k \<le> unat seq"
  using assms by (auto simp: word_le_nat_alt unat_sub)

context stream begin

lemma write_chunk_inv:
  assumes inv: "receiver_inv objs inv E rv s log" and pc: "rv_pc rv = RGet"
    and plain: "unat (rv_seq rv) < length log" "log ! unat (rv_seq rv) = plain"
    and small: "length log < 2 ^ 64"
    and step: "write_chunk (se_rcfg E) maxBytes a plain data rv p = (rv', p')"
  shows "receiver_inv objs inv E rv' s log \<and>
    (rv_seq rv' = rv_seq rv \<or> unat (rv_seq rv') = Suc (unat (rv_seq rv)))"
proof -
  let ?n = "unat (rv_seq rv)"
  have I: "ack_ok E (objs s) rv" "recv_ok rv log" "inv s" "data_ok E (objs s) log"
    using inv by (simp_all add: receiver_inv_def)
  have out: "rv_out rv = concat (take ?n log)"
    using I(2) pc by (simp add: recv_ok_def)
  have next': "concat (take (Suc ?n) log) = rv_out rv @ plain"
    using plain out by (simp add: take_Suc_conv_app_nth)
  then have pre: "prefix (rv_out rv @ take k plain) (concat log)" for k
    by (intro prefix_order.trans [OF _ prefix_concat_take [of "Suc ?n" log]]) (simp add: next' take_is_prefix)
  have seq: "unat (rv_seq rv + 1) = Suc ?n"
    using plain(1) small by (simp add: unat_word_ariths)
  show ?thesis
  proof (cases "over_limit maxBytes (rv_received rv) plain \<or> ac_write a \<noteq> None")
    case True
    have "\<exists>x k. rv' = rv\<lparr>rv_pc := RDone x, rv_out := rv_out rv @ take k plain\<rparr>"
    proof (cases "over_limit maxBytes (rv_received rv) plain")
      case True
      with step have "rv' = rv\<lparr>rv_pc := RDone (Some (ErrText limit_text)), rv_out := rv_out rv @ take 0 plain\<rparr>"
        by (cases rv) (auto simp: write_chunk_def)
      then show ?thesis by blast
    next
      case False
      with True obtain k x where "ac_write a = Some (k, x)"
        by (cases "ac_write a") auto
      with False step have "rv' = rv\<lparr>rv_pc := RDone (Some x), rv_out := rv_out rv @ take k plain\<rparr>"
        by (simp add: write_chunk_def)
      then show ?thesis by blast
    qed
    then obtain x k where "rv' = rv\<lparr>rv_pc := RDone x, rv_out := rv_out rv @ take k plain\<rparr>"
      by blast
    then show ?thesis
      using I pre [of k] by (auto simp: receiver_inv_def recv_ok_def ack_ok_def)
  next
    case False
    then have nolim: "\<not> over_limit maxBytes (rv_received rv) plain" "ac_write a = None"
      by blast+
    define rv1 where "rv1 = rv\<lparr>rv_out := rv_out rv @ plain,
      rv_received := wrap64 (rv_received rv + int (length plain)), rv_seq := rv_seq rv + 1\<rparr>"
    have la: "unat (rv_lastAck rv) \<le> Suc ?n"
      using I(1) by (simp add: ack_ok_def)
    have due: "ackInterval (cfg_WindowChunks (se_rcfg E)) \<le> rv_seq rv + 1 - rv_lastAck rv \<longleftrightarrow>
        unat (rv_lastAck rv) + unat (ackInterval (cfg_WindowChunks (se_rcfg E))) \<le> Suc ?n"
      using ack_due [of "rv_lastAck rv" "rv_seq rv + 1"] la seq by simp
    have rv': "rv' = (if unat (rv_lastAck rv) + unat (ackInterval (cfg_WindowChunks (se_rcfg E))) \<le> Suc ?n
        then rv1\<lparr>rv_pc := RAck\<rparr> else next_chunk (se_rcfg E) rv1)"
      using step by (simp add: write_chunk_def Let_def nolim due rv1_def) (simp split: if_splits)
    have "recv_ok rv' log"
      using plain(1) seq next' pre [of "length plain"] by (auto simp: rv' rv1_def recv_ok_def next_chunk_def)
    moreover have "ack_ok E (objs s) rv'"
      using I(1) pc seq by (auto simp: rv' rv1_def ack_ok_def ack_step_def next_chunk_def)
    ultimately show ?thesis
      using I seq by (auto simp: receiver_inv_def rv' rv1_def next_chunk_def)
  qed
qed

lemma recv_get_inv:
  assumes E: "agreed_in K S1 S2 C R E" and pc: "rv_pc rv = RGet" and a: "wf_action a"
    and inv: "receiver_inv objs inv E rv s log" and small: "length log < 2 ^ 64"
    and step: "recv_get (se_rcfg E) (se_sid E) (se_dir E) maxBytes a rv p s = (rv', p', s')"
  shows "receiver_inv objs inv E rv' s' log \<and> objs s' = objs s \<and> unat (rv_seq rv) \<le> unat (rv_seq rv')"
proof -
  let ?k = "DataKey (cfg_Prefix (se_rcfg E)) (se_dir E) (se_sid E) (rv_seq rv)"
  note env = E [unfolded agreed_in_def agreed_def]
  have I: "ack_ok E (objs s) rv" "recv_ok rv log" "inv s" "data_ok E (objs s) log"
    using inv by (simp_all add: receiver_inv_def)
  obtain r s1 where g: "GetObject S2 (ac_ctx a) ?k s = (r, s1)" by force
  show ?thesis
  proof (cases r)
    case (Inl x)
    have s1: "inv s1" "objs s1 = objs s"
      using rcv.get_failed [OF I(3) _ _ g [unfolded Inl]] agreed_in_keys(1) [OF E] env a by (auto simp: wf_action_def)
    show ?thesis
      using step g Inl env s1 I pc
      by (auto simp: recv_get_def Let_def receiver_inv_def recv_ok_def ack_ok_def split: if_splits)
  next
    case (Inr data)
    have s1: "inv s1" "objs s1 = objs s" "objs s ?k = Some data"
      using rcv.get_found [OF I(3) _ g [unfolded Inr]] agreed_in_keys(1) [OF E] env by auto
    then have n: "unat (rv_seq rv) < length log"
      and od: "OpenData C (se_sid E) (se_dir E) (rv_seq rv) data = Inr (log ! unat (rv_seq rv))"
      using I(4) env by (auto simp: data_ok_def)
    obtain rv1 p1 where w: "write_chunk (se_rcfg E) maxBytes a (log ! unat (rv_seq rv)) data rv (with_stats incGet p) = (rv1, p1)"
      by force
    have "rv' = rv1" "s' = s1"
      using step g Inr env od w by (simp_all add: recv_get_def Let_def)
    then show ?thesis
      using write_chunk_inv [OF inv pc n refl small w] s1 by (auto simp: receiver_inv_def)
  qed
qed

lemma recv_ack_inv:
  assumes E: "agreed_in K S1 S2 C R E" and pc: "rv_pc rv = RAck" and a: "wf_action a"
    and inv: "receiver_inv objs inv E rv s log"
    and step: "recv_ack (se_rcfg E) (se_sid E) (se_dir E) a rv p s = (rv', p', s')"
  shows "receiver_inv objs inv E rv' s' log \<and> unat (rv_seq rv) \<le> unat (rv_seq rv') \<and>
    (\<forall>k. k \<noteq> AckKey (cfg_Prefix (se_scfg E)) (se_dir E) (se_sid E) \<longrightarrow> objs s' k = objs s k)"
proof -
  note env = E [unfolded agreed_in_def agreed_def]
  have I: "ack_ok E (objs s) rv" "recv_ok rv log" "inv s" "data_ok E (objs s) log"
    using inv by (simp_all add: receiver_inv_def)
  obtain e p1 s1 where g: "putAck (ac_ctx a) (ac_now a) (se_rcfg E) (se_sid E) (se_dir E) (rv_seq rv) p s = (e, p1, s1)"
    by (metis prod_cases3)
  have "codec (cfg_Codec (se_rcfg E))"
    using env codec_axioms by simp
  then have s1: "inv s1" "objs s1 = objs s \<and> e \<noteq> None \<or> ack_value E (objs s1) = Some (rv_seq rv) \<and>
      (\<exists>d. objs s1 = (objs s)(AckKey (cfg_Prefix (se_scfg E)) (se_dir E) (se_sid E) \<mapsto> d))"
    using rcv.putAck_safe [OF _ I(3) _ _ _ _ agreed_in_keys(2) [OF E] g] env a by (simp_all add: wf_action_def)
  have data: "data_ok E (objs s1) log" and other: "\<forall>k. k \<noteq> AckKey (cfg_Prefix (se_scfg E)) (se_dir E) (se_sid E) \<longrightarrow> objs s1 k = objs s k"
    using s1(2) I(4) agreed_keys(2) [OF agreed_in_agreed [OF E]] by (auto simp: data_ok_def)
  show ?thesis
  proof (cases e)
    case None
    have eq: "rv' = next_chunk (se_rcfg E) (rv\<lparr>rv_lastAck := rv_seq rv\<rparr>)" "s' = s1"
      using step g None by (simp_all add: recv_ack_def)
    have "ack_value E (objs s1) = Some (rv_seq rv)" "ack_step E (rv_seq rv)"
      using s1(2) None I(1) pc by (simp_all add: ack_ok_def)
    then have "ack_ok E (objs s1) rv'"
      using ackInterval_pos by (simp add: eq ack_ok_def next_chunk_def)
    moreover have "recv_ok rv' log"
      using I(2) pc prefix_concat_take by (simp add: eq recv_ok_def next_chunk_def)
    ultimately show ?thesis
      using s1(1) data other by (simp add: eq receiver_inv_def next_chunk_def)
  next
    case (Some x)
    have eq: "rv' = rv\<lparr>rv_pc := RDone (Some x)\<rparr>" "s' = s1"
      using step g Some by (simp_all add: recv_ack_def)
    have "\<exists>v. ack_value E (objs s1) = Some v \<and> unat v \<le> unat (rv_seq rv) \<and> ack_step E v"
      using s1(2) I(1) pc by (auto simp: ack_ok_def)
    then have "ack_ok E (objs s1) rv'" "recv_ok rv' log"
      using I(1,2) by (simp_all add: eq ack_ok_def recv_ok_def)
    then show ?thesis
      using s1(1) data other by (simp add: eq receiver_inv_def)
  qed
qed

lemma recv_head_inv:
  assumes E: "agreed_in K S1 S2 C R E" and pc: "rv_pc rv = RHead" and a: "wf_action a"
    and inv: "receiver_inv objs inv E rv s log"
    and step: "recv_head (se_rcfg E) (se_sid E) (se_side E) a rv p s = (rv', p', s')"
  shows "receiver_inv objs inv E rv' s' log \<and> objs s' = objs s \<and> rv_seq rv' = rv_seq rv"
proof -
  have I: "ack_ok E (objs s) rv" "recv_ok rv log" "inv s" "data_ok E (objs s) log"
    using inv by (simp_all add: receiver_inv_def)
  obtain r p1 s1 where c: "closeExists (ac_ctx a) (se_rcfg E) (se_sid E) (se_side E) p s = (r, p1, s1)"
    by (metis prod_cases3)
  have "inv s1" "objs s1 = objs s"
    using rcv.closeExists_safe [OF I(3) _ _ _ c] agreed_in_keys(3) [OF E] E a by (auto simp: agreed_in_def agreed_def wf_action_def)
  then show ?thesis
    using step c I pc
    by (auto simp: recv_head_def receiver_inv_def recv_ok_def ack_ok_def split: sum.splits bool.splits)
qed

lemma recv_wait_inv:
  assumes pc: "rv_pc rv = RWait" and inv: "receiver_inv objs inv E rv s log"
    and step: "recv_wait cfg dir a rv p = (rv', p')"
  shows "receiver_inv objs inv E rv' s log \<and> rv_seq rv' = rv_seq rv"
  using step inv pc
  by (auto simp: recv_wait_def receiver_inv_def recv_ok_def ack_ok_def split: sum.splits prod.splits if_splits)

end

section \<open>The interleaving keeps the invariant\<close>

definition in_range :: "('s, 'g, 'r) stream_env \<Rightarrow> ('s, 'g, 'r) stream_sys \<Rightarrow> bool" where
  "in_range E y \<longleftrightarrow> length (sd_log (sy_snd y)) + unat (cfg_WindowChunks (se_scfg E)) < 2 ^ 64"

lemma recv_ok_append: "recv_ok rv log \<Longrightarrow> recv_ok rv (log @ zs)"
  by (auto simp: recv_ok_def intro: prefix_order.trans)

lemma send_ok_mono: "send_ok E sd q \<Longrightarrow> unat q \<le> unat q' \<Longrightarrow> send_ok E sd q'"
  by (auto simp: send_ok_def)

lemma streamToStore_log:
  "streamToStore cfg R sid dir side mx a sd p s = (sd', p', s') \<Longrightarrow> \<exists>zs. sd_log sd' = sd_log sd @ zs"
  by (auto simp: streamToStore_def send_read_def send_window_def send_put_def send_close_def Let_def
      split: send_pc.splits option.splits prod.splits sum.splits if_splits)

lemma stream_step_log:
  "stream_step objs wfs E y y' \<Longrightarrow> \<exists>zs. sd_log (sy_snd y') = sd_log (sy_snd y) @ zs"
  by (erule stream_step.cases)
    (auto simp: sender_step_def receiver_step_def split: prod.splits dest: streamToStore_log)

lemma stream_step_in_range: "stream_step objs wfs E y y' \<Longrightarrow> in_range E y' \<Longrightarrow> in_range E y"
  using stream_step_log [of objs wfs E y y'] by (auto simp: in_range_def)

context stream begin

lemma sender_step_inv:
  assumes E: "agreed_in K S1 S2 C R E" and a: "wf_action a" and inv: "stream_inv objs inv pending input E y"
    and small: "in_range E y"
  shows "stream_inv objs inv pending input E (sender_step E a y)"
proof -
  obtain sd p s where st: "streamToStore (se_scfg E) (se_reader E) (se_sid E) (se_dir E) (se_side E) (se_smax E) a
      (sy_snd y) (sy_psnd y) (sy_store y) = (sd, p, s)"
    by (metis prod_cases3)
  let ?sd = "sy_snd y" and ?s = "sy_store y" and ?q = "rv_seq (sy_rcv y)"
  have I: "sender_inv objs inv pending input E ?sd ?s ?q" "ack_ok E (objs ?s) (sy_rcv y)" "recv_ok (sy_rcv y) (sd_log ?sd)"
    using inv by (simp_all add: stream_inv_def sender_inv_def)
  have n: "unat ?q \<le> length (sd_log ?sd)"
    using I(3) by (simp add: recv_ok_def)
  have sm: "length (sd_log ?sd) + unat (cfg_WindowChunks (se_scfg E)) < 2 ^ 64"
    using small by (simp add: in_range_def)
  moreover have "cfg_WindowChunks (se_scfg E) \<noteq> 0"
    using E valid_window by (auto simp: agreed_in_def agreed_def)
  then have "0 < unat (cfg_WindowChunks (se_scfg E))"
    by (simp add: unat_gt_0)
  ultimately have sm1: "Suc (length (sd_log ?sd)) < 2 ^ 64"
    by linarith
  obtain v where v: "ack_value E (objs ?s) = Some v" "unat v \<le> unat ?q" "ack_step E v"
    using I(2) by (auto simp: ack_ok_def)
  have R: "se_reader E = R" using E by (simp add: agreed_in_def agreed_def)
  have "sender_inv objs inv pending input E sd s ?q \<and> ack_value E (objs s) = ack_value E (objs ?s)"
  proof (cases "sd_pc ?sd")
    case SRead
    then have "send_read (se_scfg E) R (se_smax E) ?sd (sy_psnd y) ?s = (sd, p, s)"
      using st R by (simp add: streamToStore_def)
    from send_read_inv [OF E SRead I(1) n sm this] show ?thesis by auto
  next
    case (SWindow d e t)
    then show ?thesis
      using st send_window_inv [OF E SWindow a I(1) v n sm] by (auto simp: streamToStore_def)
  next
    case (SPut d e)
    then show ?thesis
      using st send_put_inv [OF E SPut I(1) sm1] by (auto simp: streamToStore_def)
  next
    case (SClose r z)
    then show ?thesis
      using st send_close_inv [OF E SClose I(1)] by (auto simp: streamToStore_def)
  next
    case (SDone x)
    then show ?thesis
      using st I by (auto simp: streamToStore_def)
  qed
  then show ?thesis
    using I streamToStore_log [OF st] recv_ok_append
    by (auto simp: sender_step_def st stream_inv_def sender_inv_def ack_ok_def)
qed

lemma receiver_step_parts:
  assumes E: "agreed_in K S1 S2 C R E" and a: "wf_action a" and inv: "stream_inv objs inv pending input E y"
    and small: "in_range E y"
  shows "sy_snd (receiver_step E a y) = sy_snd y \<and>
    receiver_inv objs inv E (sy_rcv (receiver_step E a y)) (sy_store (receiver_step E a y)) (sd_log (sy_snd y)) \<and>
    unat (rv_seq (sy_rcv y)) \<le> unat (rv_seq (sy_rcv (receiver_step E a y))) \<and>
    (\<forall>k. k \<noteq> AckKey (cfg_Prefix (se_scfg E)) (se_dir E) (se_sid E) \<longrightarrow>
       objs (sy_store (receiver_step E a y)) k = objs (sy_store y) k)"
proof -
  obtain rv p s where st: "streamFromStore (se_rcfg E) (se_sid E) (se_dir E) (se_side E) (se_rmax E) a
      (sy_rcv y) (sy_prcv y) (sy_store y) = (rv, p, s)"
    by (metis prod_cases3)
  let ?rv = "sy_rcv y" and ?s = "sy_store y" and ?log = "sd_log (sy_snd y)"
  have I: "receiver_inv objs inv E ?rv ?s ?log"
    using inv by (simp add: stream_inv_def receiver_inv_def)
  have sm: "length ?log < 2 ^ 64"
    using small by (simp add: in_range_def)
  have "receiver_inv objs inv E rv s ?log \<and> unat (rv_seq ?rv) \<le> unat (rv_seq rv) \<and>
    (\<forall>k. k \<noteq> AckKey (cfg_Prefix (se_scfg E)) (se_dir E) (se_sid E) \<longrightarrow> objs s k = objs ?s k)"
  proof (cases "rv_pc ?rv")
    case RGet
    then show ?thesis
      using st recv_get_inv [OF E RGet a I sm] by (auto simp: streamFromStore_def)
  next
    case RAck
    then show ?thesis
      using st recv_ack_inv [OF E RAck a I] by (auto simp: streamFromStore_def)
  next
    case RHead
    then show ?thesis
      using st recv_head_inv [OF E RHead a I] by (auto simp: streamFromStore_def)
  next
    case RWait
    then have "recv_wait (se_rcfg E) (se_dir E) a ?rv (sy_prcv y) = (rv, p)" "s = ?s"
      using st by (auto simp: streamFromStore_def split: prod.splits)
    with recv_wait_inv [OF RWait I this(1)] show ?thesis by auto
  next
    case (RDone x)
    then show ?thesis
      using st I by (auto simp: streamFromStore_def)
  qed
  then show ?thesis
    by (simp add: receiver_step_def st)
qed

lemma receiver_step_inv:
  assumes E: "agreed_in K S1 S2 C R E" and a: "wf_action a" and inv: "stream_inv objs inv pending input E y"
    and small: "in_range E y"
  shows "stream_inv objs inv pending input E (receiver_step E a y)"
proof -
  note parts = receiver_step_parts [OF assms]
  have I: "send_ok E (sy_snd y) (rv_seq (sy_rcv y))" "bytes_ok E pending input (sy_snd y)"
    "present E (objs (sy_store y)) (sy_snd y)"
    using inv by (simp_all add: stream_inv_def)
  then have "present E (objs (sy_store (receiver_step E a y))) (sy_snd y)"
    using parts agreed_keys(2) [OF agreed_in_agreed [OF E]] by (simp add: present_def sent_all_def)
  with parts show ?thesis
    using I(1,2) send_ok_mono by (auto simp: stream_inv_def receiver_inv_def)
qed

lemma env_step_inv:
  assumes "stream_inv objs inv pending input E y" and "inv s'"
    and keys: "\<forall>k\<in>stream_keys E. objs s' k = objs (sy_store y) k"
  shows "stream_inv objs inv pending input E (y\<lparr>sy_psnd := p, sy_prcv := q, sy_store := s'\<rparr>)"
proof -
  have "data_ok E (objs s') log = data_ok E (objs (sy_store y)) log" for log
    using keys by (simp add: data_ok_def stream_keys_def)
  moreover have "present E (objs s') (sy_snd y) = present E (objs (sy_store y)) (sy_snd y)"
    using keys by (simp add: present_def sent_all_def stream_keys_def)
  moreover have "ack_value E (objs s') = ack_value E (objs (sy_store y))"
    using keys by (simp add: ack_value_def stream_keys_def)
  then have "ack_ok E (objs s') (sy_rcv y) = ack_ok E (objs (sy_store y)) (sy_rcv y)"
    by (simp add: ack_ok_def)
  ultimately show ?thesis
    using assms by (simp add: stream_inv_def)
qed

lemma step_inv:
  assumes "agreed_in K S1 S2 C R E" and "stream_step objs inv E y y'" and "stream_inv objs inv pending input E y"
    and "in_range E y"
  shows "stream_inv objs inv pending input E y'"
  using assms(2)
proof cases
  case (step_send a)
  with sender_step_inv assms show ?thesis by blast
next
  case (step_recv a)
  with receiver_step_inv assms show ?thesis by blast
next
  case (step_env s' p q)
  with env_step_inv assms(3) show ?thesis by blast
qed

lemma init_inv:
  assumes "agreed_in K S1 S2 C R E" and "stream_init objs inv E y"
  shows "stream_inv objs inv pending (pending (sd_reader (sy_snd y))) E y"
  using assms ackInterval_pos [of "cfg_WindowChunks (se_rcfg E)"]
  by (auto simp: stream_init_def stream_inv_def data_ok_def ack_ok_def ack_value_def send_ok_def recv_ok_def
      bytes_ok_def held_def new_sender_def new_receiver_def stream_keys_def present_def sent_all_def ack_step_def)

lemma reach_inv:
  assumes "agreed_in K S1 S2 C R E" and "stream_reach objs inv E r y"
  shows "in_range E y \<Longrightarrow> stream_inv objs inv pending (pending r) E y"
  using assms(2)
proof (induction rule: stream_reach.induct)
  case (reach_init y)
  then show ?case using init_inv [OF assms(1)] by blast
next
  case (reach_step y y')
  then show ?case
    using step_inv [OF assms(1)] stream_step_in_range by blast
qed

end

end
