(* ===== verification/DelayStore.thy ===== *)
theory DelayStore
  imports MemoryStore
begin

text \<open>
  \<open>internal/objectstore/delay/delay.go\<close>: a store that waits before it passes each
  operation on.  The random number generator is state of type \<open>'r\<close> with
  \<open>int63n\<close> for \<open>rand.Int63n\<close>.  The context of a call is its error by the time the
  wait ends, so \<open>wait\<close> returns that error in both of its branches.

  The sublocale shows that the wrapper keeps the contract of the store it wraps.
\<close>

record DelayProfile =
  PutDelay :: int
  GetDelay :: int
  HeadDelay :: int
  ListDelay :: int
  DeleteDelay :: int
  Jitter :: int
  Seed :: int

record ('s, 'r) delay_state =
  dl_next :: 's
  dl_rng :: 'r
  dl_waited :: int

text \<open>\<open>dl_waited\<close> adds up the time slept, the only effect of a wait.\<close>

definition delay_New :: "(int \<Rightarrow> 'r) \<Rightarrow> 's \<Rightarrow> DelayProfile \<Rightarrow> DelayProfile \<times> ('s, 'r) delay_state" where
  "delay_New newSource next profile =
     (let profile = (if Seed profile = 0 then profile\<lparr>Seed := 1\<rparr> else profile)
      in (profile, \<lparr>dl_next = next, dl_rng = newSource (Seed profile), dl_waited = 0\<rparr>))"

definition jitter ::
  "('r \<Rightarrow> int \<Rightarrow> int \<times> 'r) \<Rightarrow> DelayProfile \<Rightarrow> ('s, 'r) delay_state \<Rightarrow> int \<times> ('s, 'r) delay_state" where
  "jitter int63n profile s =
     (if Jitter profile \<le> 0 then (0, s)
      else case int63n (dl_rng s) (Jitter profile + 1) of (n, r) \<Rightarrow> (n, s\<lparr>dl_rng := r\<rparr>))"

definition wait ::
  "('r \<Rightarrow> int \<Rightarrow> int \<times> 'r) \<Rightarrow> DelayProfile \<Rightarrow> ctx \<Rightarrow> int \<Rightarrow> ('s, 'r) delay_state
     \<Rightarrow> err option \<times> ('s, 'r) delay_state" where
  "wait int63n profile ctx base s =
     (case jitter int63n profile s of (j, s') \<Rightarrow>
        let d = base + j
        in if d \<le> 0 then (ctx, s')
           else (case ctx of
                   Some e \<Rightarrow> (Some e, s')
                 | None \<Rightarrow> (None, s'\<lparr>dl_waited := dl_waited s' + d\<rparr>)))"

text \<open>A wait, then the wrapped operation unless the wait failed.\<close>

definition delay_err_op ::
  "(('s, 'r) delay_state \<Rightarrow> err option \<times> ('s, 'r) delay_state) \<Rightarrow> ('s \<Rightarrow> err option \<times> 's)
     \<Rightarrow> ('s, 'r) delay_state \<Rightarrow> err option \<times> ('s, 'r) delay_state" where
  "delay_err_op w f s =
     (case w s of
        (Some e, s') \<Rightarrow> (Some e, s')
      | (None, s') \<Rightarrow> (case f (dl_next s') of (r, n) \<Rightarrow> (r, s'\<lparr>dl_next := n\<rparr>)))"

definition delay_res_op ::
  "(('s, 'r) delay_state \<Rightarrow> err option \<times> ('s, 'r) delay_state) \<Rightarrow> ('s \<Rightarrow> 'a result \<times> 's)
     \<Rightarrow> ('s, 'r) delay_state \<Rightarrow> 'a result \<times> ('s, 'r) delay_state" where
  "delay_res_op w f s =
     (case w s of
        (Some e, s') \<Rightarrow> (Inl e, s')
      | (None, s') \<Rightarrow> (case f (dl_next s') of (r, n) \<Rightarrow> (r, s'\<lparr>dl_next := n\<rparr>)))"

definition delay_PutObject where
  "delay_PutObject int63n profile Next ctx k data opts =
     delay_err_op (wait int63n profile ctx (PutDelay profile)) (PutObject Next ctx k data opts)"

definition delay_GetObject where
  "delay_GetObject int63n profile Next ctx k =
     delay_res_op (wait int63n profile ctx (GetDelay profile)) (GetObject Next ctx k)"

definition delay_HeadObject where
  "delay_HeadObject int63n profile Next ctx k =
     delay_res_op (wait int63n profile ctx (HeadDelay profile)) (HeadObject Next ctx k)"

definition delay_ListPrefixPage where
  "delay_ListPrefixPage int63n profile Next ctx prefix opts =
     delay_res_op (wait int63n profile ctx (ListDelay profile)) (ListPrefixPage Next ctx prefix opts)"

definition delay_ListPrefix where
  "delay_ListPrefix int63n profile Next ctx prefix opts s =
     keys_of_page (delay_ListPrefixPage int63n profile Next ctx prefix opts s)"

definition delay_DeleteObject where
  "delay_DeleteObject int63n profile Next ctx k =
     delay_err_op (wait int63n profile ctx (DeleteDelay profile)) (DeleteObject Next ctx k)"

definition delay_store ::
  "('r \<Rightarrow> int \<Rightarrow> int \<times> 'r) \<Rightarrow> DelayProfile \<Rightarrow> 's ObjectStore \<Rightarrow> ('s, 'r) delay_state ObjectStore" where
  "delay_store int63n profile Next =
     \<lparr>PutObject = delay_PutObject int63n profile Next,
      GetObject = delay_GetObject int63n profile Next,
      HeadObject = delay_HeadObject int63n profile Next,
      ListPrefix = delay_ListPrefix int63n profile Next,
      ListPrefixPage = delay_ListPrefixPage int63n profile Next,
      DeleteObject = delay_DeleteObject int63n profile Next\<rparr>"

lemmas delay_ops_def = delay_store_def delay_PutObject_def delay_GetObject_def delay_HeadObject_def
  delay_ListPrefixPage_def delay_ListPrefix_def delay_DeleteObject_def

lemma wait_outcome: "\<exists>s'. wait int63n profile ctx base s = (ctx, s') \<and> dl_next s' = dl_next s"
  by (auto simp: wait_def jitter_def Let_def split: prod.split option.split)

lemma delay_err_op_live:
  assumes "\<exists>n. f (dl_next s) = (r, n) \<and> I n \<and> ob n = m"
  shows "\<exists>s'. delay_err_op (wait int63n profile None base) f s = (r, s') \<and> I (dl_next s') \<and> ob (dl_next s') = m"
proof -
  obtain s1 where "wait int63n profile None base s = (None, s1)" "dl_next s1 = dl_next s"
    using wait_outcome by blast
  with assms show ?thesis
    by (auto simp: delay_err_op_def)
qed

lemma delay_res_op_live:
  assumes "\<exists>n. f (dl_next s) = (r, n) \<and> I n \<and> ob n = m"
  shows "\<exists>s'. delay_res_op (wait int63n profile None base) f s = (r, s') \<and> I (dl_next s') \<and> ob (dl_next s') = m"
proof -
  obtain s1 where "wait int63n profile None base s = (None, s1)" "dl_next s1 = dl_next s"
    using wait_outcome by blast
  with assms show ?thesis
    by (auto simp: delay_res_op_def)
qed

lemma delay_err_op_ended:
  "I (dl_next s) \<Longrightarrow> \<exists>s'. delay_err_op (wait int63n profile (Some e) base) f s = (Some e, s') \<and>
     I (dl_next s') \<and> ob (dl_next s') = ob (dl_next s)"
proof -
  obtain s1 where "wait int63n profile (Some e) base s = (Some e, s1)" "dl_next s1 = dl_next s"
    using wait_outcome by blast
  then show "I (dl_next s) \<Longrightarrow> ?thesis" by (auto simp: delay_err_op_def)
qed

lemma delay_res_op_ended:
  "I (dl_next s) \<Longrightarrow> \<exists>s'. delay_res_op (wait int63n profile (Some e) base) f s = (Inl e, s') \<and>
     I (dl_next s') \<and> ob (dl_next s') = ob (dl_next s)"
proof -
  obtain s1 where "wait int63n profile (Some e) base s = (Some e, s1)" "dl_next s1 = dl_next s"
    using wait_outcome by blast
  then show "I (dl_next s) \<Longrightarrow> ?thesis" by (auto simp: delay_res_op_def)
qed

locale delayed = object_store S objs inv
  for S :: "'s ObjectStore" and objs inv +
  fixes int63n :: "'r \<Rightarrow> int \<Rightarrow> int \<times> 'r" and profile :: DelayProfile

sublocale delayed \<subseteq> del: object_store "delay_store int63n profile S"
  "\<lambda>s. objs (dl_next s)" "\<lambda>s. inv (dl_next s)"
proof (unfold_locales, goal_cases)
  case (1 s)
  then show ?case by (rule finite_objs)
next
  case (2 s k d opts)
  then show ?case
    unfolding delay_ops_def ObjectStore.simps by (rule delay_err_op_live [OF put_live])
next
  case (3 s k)
  then show ?case
    unfolding delay_ops_def ObjectStore.simps by (rule delay_res_op_live [OF get_live])
next
  case (4 s k)
  then obtain r n where "HeadObject S None k (dl_next s) = (r, n)" "inv n" "objs n = objs (dl_next s)"
    "case objs (dl_next s) k of None \<Rightarrow> r = Inl ErrNotFound
       | Some d \<Rightarrow> \<exists>i. r = Inr i \<and> info_key i = k \<and> info_size i = int (length d)"
    using head_live by blast
  then show ?case
    unfolding delay_ops_def
    using delay_res_op_live [of "HeadObject S None k" s r inv objs "objs (dl_next s)"]
    by simp metis
next
  case (5 s prefix lopts)
  then show ?case
    unfolding delay_ops_def ObjectStore.simps by (rule delay_res_op_live [OF list_live])
next
  case (6 ctx prefix lopts s)
  show ?case by (simp add: delay_ops_def)
next
  case (7 s k)
  then show ?case
    unfolding delay_ops_def ObjectStore.simps by (rule delay_err_op_live [OF delete_live])
next
  case (8 s e k d opts)
  then show ?case
    unfolding delay_ops_def ObjectStore.simps by (rule delay_err_op_ended)
next
  case (9 s e k)
  then show ?case
    unfolding delay_ops_def ObjectStore.simps by (rule delay_res_op_ended)
next
  case (10 s e k)
  then show ?case
    unfolding delay_ops_def ObjectStore.simps by (rule delay_res_op_ended)
next
  case (11 s e prefix lopts)
  then show ?case
    unfolding delay_ops_def ObjectStore.simps by (rule delay_res_op_ended)
next
  case (12 s e k)
  then show ?case
    unfolding delay_ops_def ObjectStore.simps by (rule delay_err_op_ended)
qed

interpretation delay_mem: delayed memory_store mem_objs mem_inv int63n profile
  for int63n :: "'r \<Rightarrow> int \<Rightarrow> int \<times> 'r" and profile
  by unfold_locales

end
