(* ===== verification/StreamProps.thy ===== *)
theory StreamProps
  imports StreamInv DelayStore
begin

text \<open>
  What the invariant of \<open>StreamInv\<close> gives: order and integrity of the bytes, the bound
  on the chunks in flight, flow control without deadlock when the windows fit and
  with it when they do not, completeness, the byte limits.  The lemmas are proved
  for every store, codec and reader that keep their contracts; the interpretations
  are the program's: the memory store, plain and behind delays, with both codecs.
  A small run, evaluated step by step, serves as the example.
\<close>

section \<open>Consequences for every store, codec and reader\<close>

context stream begin

lemma delivered:
  assumes "agreed_in K S1 S2 C R E" and "stream_reach objs inv E r y" and "in_range E y"
  shows "prefix (rv_out (sy_rcv y)) (concat (sd_log (sy_snd y))) \<and> prefix (concat (sd_log (sy_snd y))) (pending r)"
proof -
  have I: "stream_inv objs inv pending (pending r) E y"
    by (rule reach_inv [OF assms])
  then have "prefix (concat (sd_log (sy_snd y))) (pending r)"
    by (auto simp: stream_inv_def bytes_ok_def split: option.splits)
  with I show ?thesis
    by (simp add: stream_inv_def recv_ok_def)
qed

lemma in_flight:
  assumes "agreed_in K S1 S2 C R E" and "stream_reach objs inv E r y" and "in_range E y"
  shows "unat (rv_seq (sy_rcv y)) \<le> length (sd_log (sy_snd y)) \<and>
    length (sd_log (sy_snd y)) \<le> unat (rv_seq (sy_rcv y)) + unat (cfg_WindowChunks (se_scfg E))"
  using reach_inv [OF assms] by (simp add: stream_inv_def send_ok_def recv_ok_def)

text \<open>A receiver whose interval is larger than the sender's window never lets it past the first window.\<close>

lemma stuck_step:
  assumes E: "agreed_in K S1 S2 C R E" and st: "stream_step objs inv E y y'" and rng: "in_range E y'"
    and inv: "stream_inv objs inv pending input E y"
    and w: "unat (cfg_WindowChunks (se_scfg E)) < unat (ackInterval (cfg_WindowChunks (se_rcfg E)))"
    and K: "sd_acked (sy_snd y) = 0"
  shows "sd_acked (sy_snd y') = 0"
  using st
proof cases
  case (step_send a)
  have inv': "stream_inv objs inv pending input E y'"
    using step_inv [OF E st inv stream_step_in_range [OF st rng]] .
  have rcv: "sy_rcv y' = sy_rcv y"
    by (simp add: step_send sender_step_def split: prod.splits)
  have "length (sd_log (sy_snd y)) \<le> unat (cfg_WindowChunks (se_scfg E))"
    using inv K by (simp add: stream_inv_def send_ok_def)
  then have "unat (rv_seq (sy_rcv y)) < unat (ackInterval (cfg_WindowChunks (se_rcfg E)))"
    using inv w by (simp add: stream_inv_def recv_ok_def)
  then show ?thesis
    using inv' rcv by (auto simp: stream_inv_def send_ok_def ack_step_def)
qed (use K in \<open>auto simp: receiver_step_def split: prod.splits\<close>)

lemma stuck:
  assumes "agreed_in K S1 S2 C R E" and "stream_reach objs inv E r y"
    and "unat (cfg_WindowChunks (se_scfg E)) < unat (ackInterval (cfg_WindowChunks (se_rcfg E)))"
  shows "in_range E y \<Longrightarrow> sd_acked (sy_snd y) = 0 \<and> length (sd_log (sy_snd y)) \<le> unat (cfg_WindowChunks (se_scfg E))"
  using assms(2)
proof (induction rule: stream_reach.induct)
  case (reach_init y)
  then show ?case by (auto simp: stream_init_def new_sender_def)
next
  case (reach_step y y')
  have rng: "in_range E y"
    by (rule stream_step_in_range [OF reach_step.hyps(2) reach_step.prems])
  then have "sd_acked (sy_snd y') = 0"
    using stuck_step [OF assms(1) reach_step.hyps(2) reach_step.prems reach_inv [OF assms(1) reach_step.hyps(1)] assms(3)]
      reach_step.IH by blast
  moreover have "stream_inv objs inv pending (pending r) E y'"
    using reach_inv [OF assms(1) stream_reach.reach_step [OF reach_step.hyps]] reach_step.prems by blast
  ultimately show ?case
    by (simp add: stream_inv_def send_ok_def)
qed

text \<open>Once the sender has ended without error, a missing data object means that all has been delivered.\<close>

lemma drained:
  assumes "agreed_in K S1 S2 C R E" and "stream_reach objs inv E r y" and "in_range E y"
    and ended: "sd_pc (sy_snd y) = SDone None" and pc: "\<not> is_rdone (rv_pc (sy_rcv y))"
    and miss: "objs (sy_store y) (DataKey (cfg_Prefix (se_scfg E)) (se_dir E) (se_sid E) (rv_seq (sy_rcv y))) = None"
  shows "rv_out (sy_rcv y) = concat (sd_log (sy_snd y)) \<and>
    pending r = rv_out (sy_rcv y) @ pending (sd_reader (sy_snd y))"
proof -
  let ?log = "sd_log (sy_snd y)" and ?q = "unat (rv_seq (sy_rcv y))"
  have I: "stream_inv objs inv pending (pending r) E y"
    by (rule reach_inv [OF assms(1-3)])
  then have "\<not> ?q < length ?log"
    using ended miss by (auto simp: stream_inv_def present_def sent_all_def)
  then have "rv_out (sy_rcv y) = concat ?log"
    using I pc by (simp add: stream_inv_def recv_ok_def)
  moreover have "pending r = concat ?log @ pending (sd_reader (sy_snd y))"
    using I ended by (simp add: stream_inv_def bytes_ok_def held_def)
  ultimately show ?thesis by simp
qed

end

context object_store begin

lemma getAck_live:
  assumes "inv s" and "cfg_Store (se_scfg E) = S" and "ack_value E (objs s) = Some v"
  shows "\<exists>p' s'. getAck None (se_scfg E) (se_sid E) (se_dir E) p s = (Inr v, p', s')"
proof -
  let ?k = "AckKey (cfg_Prefix (se_scfg E)) (se_dir E) (se_sid E)"
  obtain s' where g: "GetObject S None ?k s = (get_spec (objs s) ?k, s')"
    using get_live [OF assms(1)] by blast
  then show ?thesis
    using assms(2,3)
    by (auto simp: getAck_def getJSON_def get_spec_def ack_value_def split: option.splits sum.splits)
qed

end

locale reliable_stream = stream S1 S2 objs inv UNIV C R pending + live: object_store S1 objs inv
  for S1 S2 :: "'s ObjectStore" and objs inv and C :: "'g Codec" and R :: "'r Reader" and pending
begin

lemma window_reopens_inv:
  assumes E: "agreed S1 S2 C R E" and I: "stream_inv objs inv pending input E y" and rng: "in_range E y"
    and pc: "sd_pc (sy_snd y) = SWindow d e t" and rpc: "rv_pc (sy_rcv y) \<in> {RGet, RHead, RWait}"
    and all: "unat (rv_seq (sy_rcv y)) = length (sd_log (sy_snd y))"
    and w: "unat (ackInterval (cfg_WindowChunks (se_rcfg E))) \<le> unat (cfg_WindowChunks (se_scfg E))"
    and a: "ac_ctx a = None"
  shows "sd_pc (sy_snd (sender_step E a y)) = SPut d e \<and> sd_reader (sy_snd (sender_step E a y)) = sd_reader (sy_snd y)"
proof -
  let ?sd = "sy_snd y" and ?W = "cfg_WindowChunks (se_scfg E)" and ?la = "rv_lastAck (sy_rcv y)"
  have v: "ack_value E (objs (sy_store y)) = Some ?la" "inv (sy_store y)"
    "length (sd_log ?sd) < unat ?la + unat (ackInterval (cfg_WindowChunks (se_rcfg E)))"
    "unat (sd_seq ?sd) = length (sd_log ?sd)" "unat ?la \<le> length (sd_log ?sd)"
    using I rpc all pc by (auto simp: stream_inv_def ack_ok_def send_ok_def)
  obtain p' s' where g: "getAck None (se_scfg E) (se_sid E) (se_dir E) (sy_psnd y) (sy_store y) = (Inr ?la, p', s')"
    using live.getAck_live [OF v(2) _ v(1), of "sy_psnd y"] E by (auto simp: agreed_def)
  define acked where "acked = (if ?la > sd_acked ?sd then ?la else sd_acked ?sd)"
  have "unat acked \<le> length (sd_log ?sd)" "unat ?la \<le> unat acked"
    using I v(5) all by (auto simp: acked_def stream_inv_def send_ok_def word_less_nat_alt)
  then have "sd_seq ?sd < acked + ?W"
    using window_less [of acked ?W "sd_seq ?sd"] rng v w by (simp add: in_range_def)
  then show ?thesis
    using g pc a by (auto simp: sender_step_def streamToStore_def send_window_def Let_def acked_def
        split: prod.splits if_splits)
qed

lemma window_reopens:
  assumes "agreed S1 S2 C R E" and "stream_reach objs inv E r y" and "in_range E y"
    and "sd_pc (sy_snd y) = SWindow d e t" and "rv_pc (sy_rcv y) \<in> {RGet, RHead, RWait}"
    and "unat (rv_seq (sy_rcv y)) = length (sd_log (sy_snd y))"
    and "unat (ackInterval (cfg_WindowChunks (se_rcfg E))) \<le> unat (cfg_WindowChunks (se_scfg E))"
    and "ac_ctx a = None"
  shows "sd_pc (sy_snd (sender_step E a y)) = SPut d e"
  using window_reopens_inv [OF assms(1) reach_inv [unfolded agreed_in_UNIV, OF assms(1-3)] assms(3-8)] by blast

end

section \<open>Byte limits\<close>

definition send_limit :: "('s, 'g, 'r) stream_env \<Rightarrow> 'r sender \<Rightarrow> bool" where
  "send_limit E sd \<longleftrightarrow>
     int (length (concat (sd_log sd))) \<le> se_smax E \<and>
     (\<not> is_sdone (sd_pc sd) \<longrightarrow> sd_sent sd = int (length (concat (sd_log sd)))) \<and>
     (\<forall>d e t. sd_pc sd = SWindow d e t \<or> sd_pc sd = SPut d e \<longrightarrow>
        int (length (concat (sd_log sd))) + int (length d) \<le> se_smax E)"

definition recv_limit :: "('s, 'g, 'r) stream_env \<Rightarrow> receiver \<Rightarrow> bool" where
  "recv_limit E rv \<longleftrightarrow>
     int (length (rv_out rv)) \<le> se_rmax E \<and>
     (\<not> is_rdone (rv_pc rv) \<longrightarrow> rv_received rv = int (length (rv_out rv)))"

lemma over_limit_iff:
  assumes "0 < m" "m < 2 ^ 62" "0 \<le> n" "n \<le> m" "length d \<le> nat MaxChunkSize"
  shows "over_limit m n d \<longleftrightarrow> m < n + int (length d)" "wrap64 (n + int (length d)) = n + int (length d)"
proof -
  show "wrap64 (n + int (length d)) = n + int (length d)"
    using assms by (intro wrap64_id) (auto simp: MaxChunkSize_def)
  then show "over_limit m n d \<longleftrightarrow> m < n + int (length d)"
    using assms(1) by (simp add: over_limit_def)
qed

lemma send_limit_step:
  assumes m: "0 < se_smax E" "se_smax E < 2 ^ 62" and lim: "send_limit E sd"
    and len: "\<And>d e t. sd_pc sd' = SWindow d e t \<or> sd_pc sd' = SPut d e \<or> sd_pc sd = SPut d e \<Longrightarrow>
      length d \<le> nat MaxChunkSize"
    and step: "streamToStore cfg R sid dir side (se_smax E) a sd p s = (sd', p', s')"
  shows "send_limit E sd'"
proof (cases "sd_pc sd")
  case SRead
  let ?ag = "\<lparr>MaxBytes = cfg_ChunkSize cfg, FlushDelay = cfg_FlushDelay cfg\<rparr>"
  have sent: "sd_sent sd = int (length (concat (sd_log sd)))" "sd_sent sd \<le> se_smax E"
    using lim SRead by (simp_all add: send_limit_def)
  show ?thesis
  proof (cases "Aggregator_Read (Suc (agg_limit ?ag)) ?ag R (sd_reader sd)")
    case None
    with step SRead lim show ?thesis by (simp add: streamToStore_def send_read_def)
  next
    case (Some x)
    obtain rd e r' where x: "x = ((rd, e), r')" by (metis surj_pair)
    let ?d = "ar_data rd"
    have *: "sd_log sd' = sd_log sd \<and> sd_sent sd' = sd_sent sd \<and>
      ((\<exists>t. sd_pc sd' = SWindow ?d e t \<and> \<not> over_limit (se_smax E) (sd_sent sd) ?d) \<or>
       sd_pc sd' = SPut ?d e \<and> \<not> over_limit (se_smax E) (sd_sent sd) ?d \<or>
       sd_pc sd' = after_read e \<or> (\<exists>r z. sd_pc sd' = SClose r z))"
      using step SRead Some x by (auto simp: streamToStore_def send_read_def Let_def split: if_splits)
    have fits: "int (length (concat (sd_log sd))) + int (length ?d) \<le> se_smax E"
      if "sd_pc sd' = SWindow ?d e t \<or> sd_pc sd' = SPut ?d e" "\<not> over_limit (se_smax E) (sd_sent sd) ?d" for t
    proof -
      have "length ?d \<le> nat MaxChunkSize" using that(1) len by blast
      then show ?thesis
        using over_limit_iff(1) [OF m, of "sd_sent sd" ?d] sent that(2) by simp
    qed
    from * sent show ?thesis
      by (elim conjE disjE exE) (use fits after_read_cases [of e] in \<open>auto simp: send_limit_def\<close>)
  qed
next
  case (SPut d e)
  have sent: "sd_sent sd = int (length (concat (sd_log sd)))" "sd_sent sd + int (length d) \<le> se_smax E"
    and d: "length d \<le> nat MaxChunkSize"
    using lim SPut len by (auto simp: send_limit_def)
  have "wrap64 (sd_sent sd + int (length d)) = sd_sent sd + int (length d)"
    using sent d m by (intro over_limit_iff(2) [of "se_smax E"]) auto
  then have "sd_log sd' = sd_log sd \<and> is_sdone (sd_pc sd') \<or> sd_log sd' = sd_log sd @ [d] \<and>
      (is_sdone (sd_pc sd') \<or> sd_pc sd' = after_read e \<and> sd_sent sd' = sd_sent sd + int (length d))"
    using step SPut by (auto simp: streamToStore_def send_put_def Let_def split: sum.splits prod.splits option.splits)
  then show ?thesis
    using sent lim after_read_cases [of e] by (cases "sd_pc sd'") (auto simp: send_limit_def)
qed (use step lim in \<open>auto simp: streamToStore_def send_window_def send_close_def send_limit_def Let_def
      split: sum.splits prod.splits option.splits if_splits\<close>)

context stream begin

lemma recv_limit_step:
  assumes E: "agreed_in K S1 S2 C R E" and a: "wf_action a" and inv: "stream_inv objs inv pending input E y"
    and m: "0 < se_rmax E" "se_rmax E < 2 ^ 62" and lim: "recv_limit E (sy_rcv y)"
  shows "recv_limit E (sy_rcv (receiver_step E a y))"
proof (cases "rv_pc (sy_rcv y)")
  case RGet
  let ?rv = "sy_rcv y" and ?s = "sy_store y"
  let ?k = "DataKey (cfg_Prefix (se_rcfg E)) (se_dir E) (se_sid E) (rv_seq ?rv)"
  note env = E [unfolded agreed_in_def agreed_def]
  obtain r s1 where g: "GetObject S2 (ac_ctx a) ?k ?s = (r, s1)" by force
  show ?thesis
  proof (cases r)
    case (Inl x)
    with g RGet env lim show ?thesis
      by (auto simp: receiver_step_def streamFromStore_def recv_get_def Let_def recv_limit_def)
  next
    case (Inr data)
    let ?d = "sd_log (sy_snd y) ! unat (rv_seq ?rv)"
    have "objs ?s ?k = Some data" "data_ok E (objs ?s) (sd_log (sy_snd y))"
      using rcv.get_found [OF _ _ g [unfolded Inr]] agreed_in_keys(1) [OF E] inv env by (auto simp: stream_inv_def)
    then have d: "OpenData C (se_sid E) (se_dir E) (rv_seq ?rv) data = Inr ?d"
      "unat (rv_seq ?rv) < length (sd_log (sy_snd y))"
      using env by (auto simp: data_ok_def)
    then have len: "length ?d \<le> nat MaxChunkSize"
      using inv by (simp add: stream_inv_def bytes_ok_def)
    have rec: "rv_received ?rv = int (length (rv_out ?rv))" "rv_received ?rv \<le> se_rmax E"
      using lim RGet by (simp_all add: recv_limit_def)
    note ol = over_limit_iff [OF m _ rec(2) len]
    obtain rv' p' where w: "write_chunk (se_rcfg E) (se_rmax E) a ?d data ?rv (with_stats incGet (sy_prcv y)) = (rv', p')"
      by force
    have "recv_limit E rv'"
      using w rec ol lim
      by (auto simp: write_chunk_def recv_limit_def Let_def next_chunk_def split: if_splits option.splits)
    with g RGet env Inr d w show ?thesis
      by (simp add: receiver_step_def streamFromStore_def recv_get_def Let_def)
  qed
qed (use lim in \<open>auto simp: receiver_step_def streamFromStore_def recv_ack_def recv_head_def recv_wait_def
      recv_limit_def next_chunk_def split: prod.splits option.splits sum.splits bool.splits if_splits\<close>)

lemma limits:
  assumes E: "agreed_in K S1 S2 C R E" and "stream_reach objs inv E r y"
  shows "in_range E y \<Longrightarrow>
    (0 < se_smax E \<and> se_smax E < 2 ^ 62 \<longrightarrow> send_limit E (sy_snd y)) \<and>
    (0 < se_rmax E \<and> se_rmax E < 2 ^ 62 \<longrightarrow> recv_limit E (sy_rcv y))"
  using assms(2)
proof (induction rule: stream_reach.induct)
  case (reach_init y)
  then show ?case
    by (auto simp: stream_init_def new_sender_def new_receiver_def send_limit_def recv_limit_def)
next
  case (reach_step y y')
  have rng: "in_range E y"
    by (rule stream_step_in_range [OF reach_step.hyps(2) reach_step.prems])
  note IH = reach_step.IH [OF rng]
  have I: "stream_inv objs inv pending (pending r) E y"
    by (rule reach_inv [OF E reach_step.hyps(1) rng])
  have I': "stream_inv objs inv pending (pending r) E y'"
    by (rule step_inv [OF E reach_step.hyps(2) I rng])
  from reach_step.hyps(2) show ?case
  proof cases
    case (step_send a)
    obtain sd p s where st: "streamToStore (se_scfg E) (se_reader E) (se_sid E) (se_dir E) (se_side E) (se_smax E) a
        (sy_snd y) (sy_psnd y) (sy_store y) = (sd, p, s)"
      by (metis prod_cases3)
    have "length d \<le> nat MaxChunkSize" if "sd_pc sd = SWindow d e t \<or> sd_pc sd = SPut d e \<or> sd_pc (sy_snd y) = SPut d e" for d e t
      using that I I' st step_send by (auto simp: stream_inv_def bytes_ok_def sender_step_def)
    then show ?thesis
      using send_limit_step [OF _ _ _ _ st] IH step_send st by (auto simp: sender_step_def)
  next
    case (step_recv a)
    then show ?thesis
      using recv_limit_step [OF E _ I] IH by (auto simp: receiver_step_def split: prod.splits)
  qed (use IH in auto)
qed

end


section \<open>The program's stores and codecs\<close>

definition tunnel_codec :: "'g Codec \<Rightarrow> bool" where
  "tunnel_codec C \<longleftrightarrow> C = NoopCodec \<or> (\<exists>rand_byte c. C = psk_codec rand_byte c)"

lemma tunnel_codec_codec: "tunnel_codec C \<Longrightarrow> codec C"
  unfolding tunnel_codec_def using noop.codec_axioms psk.codec_axioms by blast

interpretation mem_noop: reliable_stream memory_store memory_store mem_objs mem_inv NoopCodec script_reader script_pending
  by unfold_locales

interpretation mem_psk: reliable_stream memory_store memory_store mem_objs mem_inv "psk_codec rand_byte c"
  script_reader script_pending for rand_byte :: "'g \<Rightarrow> byte result \<times> 'g" and c
  by unfold_locales

interpretation delayed_psk: reliable_stream "delay_store int63n profile1 memory_store" "delay_store int63n profile2 memory_store"
  "\<lambda>s. mem_objs (dl_next s)" "\<lambda>s. mem_inv (dl_next s)" "psk_codec rand_byte c" script_reader script_pending
  for int63n :: "'r \<Rightarrow> int \<Rightarrow> int \<times> 'r" and profile1 profile2 and rand_byte :: "'g \<Rightarrow> byte result \<times> 'g" and c
  by unfold_locales

section \<open>A small run\<close>

definition act0 :: action where
  "act0 = \<lparr>ac_ctx = None, ac_now = sample_time, ac_instant = 0, ac_sleep = (\<lambda>_. None), ac_signalled = False,
     ac_expired = False, ac_write = None\<rparr>"

definition run_cfg :: "(mem_store, unit) TunnelConfig" where
  "run_cfg = test_config\<lparr>cfg_WindowChunks := 1, cfg_CloseCheckAfterMisses := 1\<rparr>"

definition run_env :: "(mem_store, unit, script) stream_env" where
  "run_env = \<lparr>se_scfg = run_cfg, se_rcfg = run_cfg, se_reader = script_reader, se_sid = ''ab'', se_dir = ''c2s'',
     se_side = ''client'', se_smax = 10, se_rmax = 10\<rparr>"

definition run_script :: script where
  "run_script = \<lparr>sc_events = [([1], None), ([2], None)], sc_has_deadline = False, sc_cancel = None\<rparr>"

definition run_start :: "(mem_store, unit, script) stream_sys" where
  "run_start = \<lparr>sy_snd = new_sender run_script, sy_rcv = new_receiver run_cfg,
     sy_psnd = \<lparr>pr_rng = (), pr_stats = None, pr_activity = None\<rparr>,
     sy_prcv = \<lparr>pr_rng = (), pr_stats = None, pr_activity = None\<rparr>, sy_store = mem_new\<rparr>"

lemma wf_act0: "wf_action act0"
  by (simp add: wf_action_def act0_def wf_sample_time)

lemma run_agreed: "agreed memory_store memory_store NoopCodec script_reader run_env"
  by (simp add: agreed_def run_env_def run_cfg_def test_config_def valid_config_def ValidateChunkSize_def
      MinChunkSize_def MaxChunkSize_def plain_comp_def)

lemma run_reach: "stream_reach mem_objs mem_inv run_env run_script run_start"
  by (rule reach_init) (auto simp: stream_init_def run_start_def run_env_def new_sender_def mem_new_def mem_objs_def mem_inv_def)

lemmas run_send = reach_step [OF _ step_send [OF wf_act0]]
lemmas run_recv = reach_step [OF _ step_recv [OF wf_act0]]

lemmas run_defs = run_env_def run_cfg_def test_config_def act0_def sender_step_def receiver_step_def
  streamToStore_def streamFromStore_def send_read_def send_put_def send_close_def recv_get_def recv_ack_def recv_head_def
  Aggregator_Read_def agg_limit_def script_reader_def over_limit_def window_open_def after_read_def
  notifyActivity_def with_stats_def NoopCodec_def memory_store_def mem_PutObject_def mem_GetObject_def
  mem_HeadObject_def write_chunk_def ackInterval_def new_sender_def new_receiver_def closeCheckEvery_def wrap64_def
  next_chunk_def putAck_def putClose_def closeExists_def putJSON_def Marshal_Ack_def Marshal_Close_def marshal_def
  sample_time_def run_start_def run_script_def mem_new_def

definition run_sent :: "(mem_store, unit, script) stream_sys" where
  "run_sent = sender_step run_env act0 (sender_step run_env act0 run_start)"

definition run_full :: "(mem_store, unit, script) stream_sys" where
  "run_full = receiver_step run_env act0 (receiver_step run_env act0 (sender_step run_env act0 run_sent))"

lemma run_sent: "sd_pc (sy_snd run_sent) = SRead \<and> sd_log (sy_snd run_sent) = [[1]]"
  by (simp add: run_sent_def run_defs)

lemma run_full_reach: "stream_reach mem_objs mem_inv run_env run_script run_full"
  unfolding run_full_def run_sent_def by (intro run_send run_recv run_reach)

lemma run_full: "sd_pc (sy_snd run_full) = SWindow [2] None 1" "sd_log (sy_snd run_full) = [[1]]"
  "rv_pc (sy_rcv run_full) = RGet" "rv_seq (sy_rcv run_full) = 1" "rv_out (sy_rcv run_full) = [1]"
  by (simp_all add: run_full_def run_sent_def run_defs del: enc.simps)

definition run_one :: script where
  "run_one = \<lparr>sc_events = [([1], None)], sc_has_deadline = False, sc_cancel = None\<rparr>"

definition one_start :: "(mem_store, unit, script) stream_sys" where
  "one_start = run_start\<lparr>sy_snd := new_sender run_one\<rparr>"

lemma one_reach: "stream_reach mem_objs mem_inv run_env run_one one_start"
  by (rule reach_init) (auto simp: stream_init_def one_start_def run_start_def run_env_def new_sender_def mem_new_def
      mem_objs_def mem_inv_def)

definition one_lost :: "(mem_store, unit, script) stream_sys" where
  "one_lost = (let send = sender_step run_env act0; recv = receiver_step run_env act0
     in recv (send (send (send (send (recv one_start))))))"

lemma one_lost: "sd_pc (sy_snd one_lost) = SDone None" "rv_pc (sy_rcv one_lost) = RDone None"
  "rv_out (sy_rcv one_lost) = []" "sd_log (sy_snd one_lost) = [[1]]"
  by (simp_all add: one_lost_def one_start_def run_one_def run_defs del: enc.simps)


definition one_done :: "(mem_store, unit, script) stream_sys" where
  "one_done = (let send = sender_step run_env act0; recv = receiver_step run_env act0
     in recv (send (send (send (send one_start)))))"

lemma one_done_reach: "stream_reach mem_objs mem_inv run_env run_one one_done"
  unfolding one_done_def Let_def by (intro run_send run_recv one_reach)

lemma one_keys: "DataKey ''p'' ''c2s'' ''ab'' 0 \<noteq> CloseKey ''p'' ''client'' ''ab''"
  using agreed_keys(3) [OF run_agreed, of "''p''" 0] by (simp add: run_env_def)

lemma one_done: "sd_pc (sy_snd one_done) = SDone None" "rv_pc (sy_rcv one_done) = RAck" "rv_out (sy_rcv one_done) = [1]"
  "rv_seq (sy_rcv one_done) = 1" "sd_log (sy_snd one_done) = [[1]]" "sc_events (sd_reader (sy_snd one_done)) = []"
  "map fst (ms_objects (sy_store one_done)) = [DataKey ''p'' ''c2s'' ''ab'' 0, CloseKey ''p'' ''client'' ''ab'']"
  by (simp_all add: one_done_def one_start_def run_one_def run_defs one_keys one_keys [symmetric] del: enc.simps)

section \<open>Properties of a direction of a session\<close>

text \<open>
  C1: whatever the interleaving of sender, receiver and the rest of the world, with
  either codec, the bytes written to the receiving socket are at every moment a
  prefix of the bytes read from the sending one: none is lost, repeated, reordered
  or altered on the way.
\<close>

theorem stream_delivers_prefix:
  assumes "tunnel_codec C" and "agreed memory_store memory_store C script_reader E"
    and "stream_reach mem_objs mem_inv E r y" and "in_range E y"
  shows "prefix (rv_out (sy_rcv y)) (concat (sd_log (sy_snd y))) \<and> prefix (concat (sd_log (sy_snd y))) (script_pending r)"
  using assms(1) mem_noop.delivered [of E r y] mem_psk.delivered [of _ _ E r y] assms(2-4)
  unfolding tunnel_codec_def agreed_in_UNIV by blast

lemma run_in_range: "sd_log (sy_snd y) = [[1]] \<Longrightarrow> in_range run_env y"
  by (simp add: in_range_def run_env_def run_cfg_def)

lemma noop_tunnel_codec: "tunnel_codec NoopCodec"
  by (simp add: tunnel_codec_def)

theorem stream_delivers_prefix_witness: "prefix [1] (script_pending run_script)"
  using stream_delivers_prefix [OF noop_tunnel_codec run_agreed run_full_reach run_in_range [OF run_full(2)]]
  by (simp add: run_full)

text \<open>
  C5: the sender is never more chunks ahead of the receiver than its window, and the
  receiver never ahead of the sender.
\<close>

theorem stream_in_flight_bounded:
  assumes "tunnel_codec C" and "agreed memory_store memory_store C script_reader E"
    and "stream_reach mem_objs mem_inv E r y" and "in_range E y"
  shows "unat (rv_seq (sy_rcv y)) \<le> length (sd_log (sy_snd y)) \<and>
    length (sd_log (sy_snd y)) \<le> unat (rv_seq (sy_rcv y)) + unat (cfg_WindowChunks (se_scfg E))"
  using assms(1) mem_noop.in_flight [of E r y] mem_psk.in_flight [of _ _ E r y] assms(2-4)
  unfolding tunnel_codec_def agreed_in_UNIV by blast

theorem stream_in_flight_bounded_witness:
  "length (sd_log (sy_snd run_full)) \<le> unat (rv_seq (sy_rcv run_full)) + unat (cfg_WindowChunks run_cfg)"
  using stream_in_flight_bounded [OF noop_tunnel_codec run_agreed run_full_reach run_in_range [OF run_full(2)]]
  by (simp add: run_env_def)

text \<open>
  Flow control does not deadlock when the receiver's ACK interval is at most the
  sender's window: a sender waiting for its window, with everything it sent
  delivered and the receiver back at waiting, gets past the window with its next
  look at the ACK object.
\<close>

theorem stream_window_reopens:
  assumes "tunnel_codec C" and "agreed memory_store memory_store C script_reader E"
    and "stream_reach mem_objs mem_inv E r y" and "in_range E y"
    and "sd_pc (sy_snd y) = SWindow d e t" and "rv_pc (sy_rcv y) \<in> {RGet, RHead, RWait}"
    and "unat (rv_seq (sy_rcv y)) = length (sd_log (sy_snd y))"
    and "unat (ackInterval (cfg_WindowChunks (se_rcfg E))) \<le> unat (cfg_WindowChunks (se_scfg E))"
    and "ac_ctx a = None"
  shows "sd_pc (sy_snd (sender_step E a y)) = SPut d e"
  using assms(1)
  unfolding tunnel_codec_def
proof (elim disjE exE)
  assume "C = NoopCodec"
  with assms(2-) show ?thesis
    by (intro mem_noop.window_reopens [of E r y d e t a]) auto
next
  fix rand_byte c assume "C = psk_codec rand_byte c"
  with assms(2-) show ?thesis
    by (intro mem_psk.window_reopens [of rand_byte c E r y d e t a]) auto
qed

theorem stream_window_reopens_witness: "sd_pc (sy_snd (sender_step run_env act0 run_full)) = SPut [2] None"
  using stream_window_reopens [OF noop_tunnel_codec run_agreed run_full_reach run_in_range [OF run_full(2)] run_full(1), of act0]
  by (simp add: run_full run_env_def run_cfg_def ackInterval_def act0_def)


definition mismatch_env :: "(mem_store, unit, script) stream_env" where
  "mismatch_env = run_env\<lparr>se_rcfg := run_cfg\<lparr>cfg_WindowChunks := 16\<rparr>\<rparr>"

lemma mismatch_agreed: "agreed memory_store memory_store NoopCodec script_reader mismatch_env"
  using run_agreed by (simp add: agreed_def mismatch_env_def run_env_def valid_config_def)

lemma mismatch_reach:
  "stream_reach mem_objs mem_inv mismatch_env run_script (sender_step mismatch_env act0 (sender_step mismatch_env act0 run_start))"
  by (intro reach_step [OF _ step_send [OF wf_act0]] reach_init)
    (auto simp: stream_init_def run_start_def mismatch_env_def run_env_def new_sender_def new_receiver_def mem_new_def
      mem_objs_def mem_inv_def)


text \<open>
  C12: when the sender has ended without error and the receiver finds its next data
  object missing, everything has been delivered: what was written is the whole
  input up to where the sender's reader stands.
\<close>

theorem stream_drained_complete:
  assumes "tunnel_codec C" and "agreed memory_store memory_store C script_reader E"
    and "stream_reach mem_objs mem_inv E r y" and "in_range E y"
    and "sd_pc (sy_snd y) = SDone None" and "\<not> is_rdone (rv_pc (sy_rcv y))"
    and "mem_objs (sy_store y) (DataKey (cfg_Prefix (se_scfg E)) (se_dir E) (se_sid E) (rv_seq (sy_rcv y))) = None"
  shows "rv_out (sy_rcv y) = concat (sd_log (sy_snd y)) \<and>
    script_pending r = rv_out (sy_rcv y) @ script_pending (sd_reader (sy_snd y))"
  using assms(1) mem_noop.drained [of E r y] mem_psk.drained [of _ _ E r y] assms(2-7)
  unfolding tunnel_codec_def agreed_in_UNIV by blast

theorem stream_drained_complete_witness:
  "rv_out (sy_rcv one_done) = [1] \<and> script_pending run_one = [1]"
proof -
  have "DataKey ''p'' ''c2s'' ''ab'' 1 \<notin> set (map fst (ms_objects (sy_store one_done)))"
    unfolding one_done(7) using agreed_keys(1,3) [OF run_agreed, of "''p''" 1] by (simp add: run_env_def)
  then have "mem_objs (sy_store one_done) (DataKey ''p'' ''c2s'' ''ab'' 1) = None"
    by (simp add: mem_objs_def map_of_eq_None_iff)
  then show ?thesis
    using stream_drained_complete [OF noop_tunnel_codec run_agreed one_done_reach run_in_range [OF one_done(5)]]
    by (simp add: one_done run_env_def run_cfg_def test_config_def script_pending_def)
qed

text \<open>
  C19: the receiver can end without error and yet lose data: between its missing data
  object and its look for the close object the sender writes its last chunk and
  closes, and the receiver does not look for the chunk again.
\<close>

theorem stream_can_lose_tail:
  "\<exists>y. stream_reach mem_objs mem_inv run_env run_one y \<and> sd_pc (sy_snd y) = SDone None \<and> rv_pc (sy_rcv y) = RDone None \<and>
     rv_out (sy_rcv y) = [] \<and> sd_log (sy_snd y) = [[1]]"
proof (intro exI conjI)
  show "stream_reach mem_objs mem_inv run_env run_one one_lost"
    unfolding one_lost_def Let_def by (intro run_send run_recv one_reach)
qed (simp_all add: one_lost)



end
