(* ===== verification/S3Service.thy ===== *)
theory S3Service
  imports S3Wire StreamProps
begin

text \<open>
  The store of \<open>internal/objectstore/s3\<close> over a service that keeps the documented
  contract of the S3 API: a put, get, head or delete addresses one object by the
  decoded path of its URL, a success status means that the operation took effect, 404
  that the object is absent, and any other outcome of a put or delete leaves the object
  as it was or as asked.  The store then keeps the contract the safety of the
  tunnel rests on, and the stream properties hold over S3.
\<close>

section \<open>The contract of the service\<close>

text \<open>The request is for the object of a key of the service.\<close>

definition addressed :: "string \<Rightarrow> string \<Rightarrow> request \<Rightarrow> string \<Rightarrow> bool" where
  "addressed host pre rq p \<longleftrightarrow>
     url_Host (rq_URL rq) = host \<and> url_Path (rq_URL rq) = pre @ p \<and> p \<noteq> [] \<and> url_RawQuery (rq_URL rq) = []"

definition status :: "response result \<Rightarrow> int option" where
  "status r = (case r of Inl _ \<Rightarrow> None | Inr resp \<Rightarrow> Some (rs_StatusCode resp))"

definition s3_service ::
  "'s http \<Rightarrow> string \<Rightarrow> string \<Rightarrow> ('s \<Rightarrow> string \<rightharpoonup> bytes) \<Rightarrow> ('s \<Rightarrow> bool) \<Rightarrow> bool" where
  "s3_service http host pre content ok \<longleftrightarrow>
     (\<forall>c rq s r s' p. ok s \<and> addressed host pre rq p \<and> http c rq s = (r, s') \<longrightarrow>
        ok s' \<and>
        (\<not> IsNotFound c \<longrightarrow> (case r of Inl e \<Rightarrow> \<not> IsNotFound (Some e) | Inr resp \<Rightarrow> \<not> IsNotFound (rs_BodyErr resp))) \<and>
        (rq_Method rq = ''PUT'' \<longrightarrow>
           content s' = (content s)(p \<mapsto> rq_Body rq) \<or> content s' = content s \<and> status r \<noteq> Some 200) \<and>
        (rq_Method rq = ''DELETE'' \<longrightarrow>
           content s' = (content s)(p := None) \<or> content s' = content s \<and> status r \<notin> {Some 200, Some 204}) \<and>
        (rq_Method rq \<in> {''GET'', ''HEAD''} \<longrightarrow>
           content s' = content s \<and>
           (status r = Some 404 \<longrightarrow> content s p = None) \<and>
           (status r = Some 200 \<longrightarrow> content s p \<noteq> None)) \<and>
        (rq_Method rq = ''GET'' \<longrightarrow>
           (\<forall>resp. r = Inr resp \<and> rs_StatusCode resp = 200 \<and> rs_BodyErr resp = None \<longrightarrow>
              content s p = Some (rs_Body resp))))"

text \<open>What the store shows of the service: the objects of the keys a path can carry.\<close>

definition s3_objs :: "('s \<Rightarrow> string \<rightharpoonup> bytes) \<Rightarrow> 's \<Rightarrow> string \<rightharpoonup> bytes" where
  "s3_objs content s = (\<lambda>k. if k \<in> s3_keys then content s (escapePath k) else None)"

lemma s3_objs_update:
  "k \<in> s3_keys \<Longrightarrow> content s' = (content s)(escapePath k := v) \<Longrightarrow> s3_objs content s' = (s3_objs content s)(k := v)"
  by (auto simp: s3_objs_def fun_eq_iff)

lemma s3_objs_same: "content s' = content s \<Longrightarrow> s3_objs content s' = s3_objs content s"
  by (simp add: s3_objs_def fun_eq_iff)

section \<open>The store keeps the contract of the tunnel\<close>

text \<open>The signed request for a key is addressed to its escaped form.\<close>

lemma addressed_key:
  assumes "k \<in> s3_keys"
  shows "addressed host pre (sign cfg t \<lparr>rq_Method = m, rq_URL = plain_URL sch host (pre @ escapePath k) [], rq_Host = h,
    rq_Header = hs, rq_ContentLength = n, rq_Body = b\<rparr>) (escapePath k)"
  using escapePath_ends [OF assms] by (simp add: addressed_def s3_keys_def plain_URL_def)

lemma service_step:
  assumes "s3_service http host pre content ok" and "ok s" and "addressed host pre rq p" and "http c rq s = (r, s')"
  shows "ok s'"
    "\<not> IsNotFound c \<Longrightarrow> r = Inl e \<Longrightarrow> \<not> IsNotFound (Some e)"
    "\<not> IsNotFound c \<Longrightarrow> r = Inr resp \<Longrightarrow> \<not> IsNotFound (rs_BodyErr resp)"
    "rq_Method rq = ''PUT'' \<Longrightarrow>
       content s' = (content s)(p \<mapsto> rq_Body rq) \<or> content s' = content s \<and> status r \<noteq> Some 200"
    "rq_Method rq = ''DELETE'' \<Longrightarrow>
       content s' = (content s)(p := None) \<or> content s' = content s \<and> status r \<notin> {Some 200, Some 204}"
    "rq_Method rq \<in> {''GET'', ''HEAD''} \<Longrightarrow> content s' = content s"
    "rq_Method rq \<in> {''GET'', ''HEAD''} \<Longrightarrow> status r = Some 404 \<Longrightarrow> content s p = None"
    "rq_Method rq \<in> {''GET'', ''HEAD''} \<Longrightarrow> status r = Some 200 \<Longrightarrow> content s p \<noteq> None"
    "rq_Method rq = ''GET'' \<Longrightarrow> r = Inr resp \<Longrightarrow> rs_StatusCode resp = 200 \<Longrightarrow> rs_BodyErr resp = None \<Longrightarrow>
       content s p = Some (rs_Body resp)"
  using assms(1) [unfolded s3_service_def, rule_format, of s rq p c r s'] assms(2-4) by auto

lemma s3_put:
  assumes "s3_address cfg sch host pre" and "s3_service http host pre content ok" and "ok s" and "k \<in> s3_keys"
    and "s3_PutObject cfg now http c k d opts s = (e, s')"
  shows "ok s' \<and> (content s' = (content s)(escapePath k \<mapsto> d) \<or> content s' = content s \<and> e \<noteq> None)"
proof -
  obtain h rq r where rq: "rq = sign cfg (now s) \<lparr>rq_Method = ''PUT'', rq_URL = plain_URL sch host (pre @ escapePath k) [],
      rq_Host = host, rq_Header = h, rq_ContentLength = int (length d), rq_Body = d\<rparr>"
    and r: "http c rq s = (r, s')" "e = None \<Longrightarrow> status r = Some 200"
    using assms(5) newRequest_address [OF assms(1,4), of "''PUT''" d]
    by (auto simp: s3_PutObject_def doNoBody_def s3_do_def status_def Let_def split: prod.splits sum.splits if_splits)
  have "addressed host pre rq (escapePath k)"
    unfolding rq by (rule addressed_key [OF assms(4)])
  from service_step(1,4) [OF assms(2,3) this r(1)] r(2) show ?thesis
    by (auto simp: rq)
qed

lemma s3_delete:
  assumes "s3_address cfg sch host pre" and "s3_service http host pre content ok" and "ok s" and "k \<in> s3_keys"
    and "s3_DeleteObject cfg now http c k s = (e, s')"
  shows "ok s' \<and> (content s' = (content s)(escapePath k := None) \<or> content s' = content s \<and> e \<noteq> None)"
proof -
  obtain rq r where rq: "rq = sign cfg (now s) \<lparr>rq_Method = ''DELETE'', rq_URL = plain_URL sch host (pre @ escapePath k) [],
      rq_Host = host, rq_Header = [], rq_ContentLength = 0, rq_Body = []\<rparr>"
    and r: "http c rq s = (r, s')" "e = None \<Longrightarrow> status r \<in> {Some 200, Some 204}"
    using assms(5) newRequest_address [OF assms(1,4), of "''DELETE''" "[]"]
    by (auto simp: s3_DeleteObject_def doNoBody_def s3_do_def status_def split: prod.splits sum.splits if_splits)
  have "addressed host pre rq (escapePath k)"
    unfolding rq by (rule addressed_key [OF assms(4)])
  from service_step(1,5) [OF assms(2,3) this r(1)] r(2) show ?thesis
    by (auto simp: rq)
qed

lemma s3_get:
  assumes "s3_address cfg sch host pre" and "s3_service http host pre content ok" and "ok s" and "k \<in> s3_keys"
    and "s3_GetObject cfg now http c k s = (e, s')"
  shows "ok s' \<and> content s' = content s \<and>
    (case e of Inr d \<Rightarrow> content s (escapePath k) = Some d
     | Inl x \<Rightarrow> \<not> IsNotFound c \<longrightarrow> IsNotFound (Some x) \<longrightarrow> content s (escapePath k) = None)"
proof -
  define rq where "rq = sign cfg (now s) \<lparr>rq_Method = ''GET'', rq_URL = plain_URL sch host (pre @ escapePath k) [],
      rq_Host = host, rq_Header = [], rq_ContentLength = 0, rq_Body = []\<rparr>"
  have m: "rq_Method rq = ''GET''" by (simp add: rq_def)
  obtain r s1 where r: "http c rq s = (r, s1)" by force
  have "addressed host pre rq (escapePath k)"
    unfolding rq_def by (rule addressed_key [OF assms(4)])
  note step = service_step [OF assms(2,3) this r]
  have run: "s1 = s'" "(case r of Inl x \<Rightarrow> e = Inl x
      | Inr resp \<Rightarrow> e = (if rs_StatusCode resp = 404 then Inl ErrNotFound
          else if rs_StatusCode resp \<noteq> 200 then Inl (statusError resp)
          else case rs_BodyErr resp of Some x \<Rightarrow> Inl x | None \<Rightarrow> Inr (rs_Body resp)))"
    using assms(5) newRequest_address [OF assms(1,4), of "''GET''" "[]"] r
    by (auto simp: s3_GetObject_def s3_do_def rq_def split: sum.splits)
  show ?thesis
  proof (cases r)
    case (Inl x)
    with run step(1) step(2) [OF _ Inl] step(6) m show ?thesis by auto
  next
    case (Inr resp)
    have st: "status r = Some (rs_StatusCode resp)"
      by (simp add: Inr status_def)
    from Inr run step(1) step(3) [OF _ Inr] step(6,7) step(9) [OF _ Inr] m st show ?thesis
      by (auto simp: statusError_def Let_def IsNotFound_def split: option.splits if_splits)
  qed
qed

lemma s3_head:
  assumes "s3_address cfg sch host pre" and "s3_service http host pre content ok" and "ok s" and "k \<in> s3_keys"
    and "s3_HeadObject cfg now http c k s = (e, s')"
  shows "ok s' \<and> content s' = content s \<and>
    (case e of Inr i \<Rightarrow> content s (escapePath k) \<noteq> None
     | Inl x \<Rightarrow> \<not> IsNotFound c \<longrightarrow> IsNotFound (Some x) \<longrightarrow> content s (escapePath k) = None)"
proof -
  define rq where "rq = sign cfg (now s) \<lparr>rq_Method = ''HEAD'', rq_URL = plain_URL sch host (pre @ escapePath k) [],
      rq_Host = host, rq_Header = [], rq_ContentLength = 0, rq_Body = []\<rparr>"
  have m: "rq_Method rq = ''HEAD''" by (simp add: rq_def)
  obtain r s1 where r: "http c rq s = (r, s1)" by force
  have "addressed host pre rq (escapePath k)"
    unfolding rq_def by (rule addressed_key [OF assms(4)])
  note step = service_step [OF assms(2,3) this r]
  have run: "s1 = s'" "(case r of Inl x \<Rightarrow> e = Inl x
      | Inr resp \<Rightarrow> (if rs_StatusCode resp = 404 then e = Inl ErrNotFound
          else if rs_StatusCode resp \<noteq> 200 then e = Inl (statusError resp) else \<exists>i. e = Inr i))"
    using assms(5) newRequest_address [OF assms(1,4), of "''HEAD''" "[]"] r
    by (auto simp: s3_HeadObject_def s3_do_def rq_def split: sum.splits)
  show ?thesis
  proof (cases r)
    case (Inl x)
    with run step(1) step(2) [OF _ Inl] step(6) m show ?thesis by auto
  next
    case (Inr resp)
    have st: "status r = Some (rs_StatusCode resp)"
      by (simp add: Inr status_def)
    from Inr run step(1) step(6-8) m st show ?thesis
      by (auto simp: statusError_def Let_def IsNotFound_def split: if_splits)
  qed
qed

lemma s3_store_safety:
  assumes "s3_address cfg sch host pre" and "s3_service http host pre content ok"
  shows "store_safety (s3_store cfg now http) (s3_objs content) ok s3_keys"
proof (unfold_locales, goal_cases)
  case (1 s k c d opts s')
  then have "s3_PutObject cfg now http c k d opts s = (None, s')" by (simp add: s3_store_def)
  from s3_put [OF assms 1(1,2) this] show ?case
    using s3_objs_update [OF 1(2), of content s' s] by blast
next
  case (2 s k c d opts e s')
  then have "s3_PutObject cfg now http c k d opts s = (Some e, s')" by (simp add: s3_store_def)
  from s3_put [OF assms 2(1,2) this] show ?case
    using s3_objs_same [of content s' s] s3_objs_update [OF 2(2), of content s' s] by blast
next
  case (3 s k c d s')
  then show ?case using s3_get [OF assms 3(1,2), of now c] s3_objs_same [of content s' s]
    by (fastforce simp: s3_store_def s3_objs_def)
next
  case (4 s k c e s')
  then show ?case using s3_get [OF assms 4(1,2), of now c] s3_objs_same [of content s' s]
    by (fastforce simp: s3_store_def s3_objs_def)
next
  case (5 s k c i s')
  then show ?case using s3_head [OF assms 5(1,2), of now c] s3_objs_same [of content s' s]
    by (fastforce simp: s3_store_def s3_objs_def)
next
  case (6 s k c e s')
  then show ?case using s3_head [OF assms 6(1,2), of now c] s3_objs_same [of content s' s]
    by (fastforce simp: s3_store_def s3_objs_def)
next
  case (7 s k c s')
  then have "s3_DeleteObject cfg now http c k s = (None, s')" by (simp add: s3_store_def)
  from s3_delete [OF assms 7(1,2) this] show ?case
    using s3_objs_update [OF 7(2), of content s' s] by blast
next
  case (8 s k c e s')
  then have "s3_DeleteObject cfg now http c k s = (Some e, s')" by (simp add: s3_store_def)
  from s3_delete [OF assms 8(1,2) this] show ?case
    using s3_objs_same [of content s' s] s3_objs_update [OF 8(2), of content s' s] by blast
qed

section \<open>The keys of the tunnel\<close>

lemma last_join: "l \<noteq> [] \<Longrightarrow> last (join sep (xs @ [l])) = last l"
  by (cases "xs = []") (simp_all add: join_append)

lemma object_key_s3: "wf_object ob \<Longrightarrow> object_key px ob \<in> s3_keys"
proof -
  assume wf: "wf_object ob"
  let ?cs = "prefix_comps px @ object_parts ob"
  have k: "object_key px ob = join ''/'' ?cs"
    by (rule object_key_join [OF wf])
  have form: "clean_form ?cs"
    using clean_form_prefix_comps object_parts_plain [OF wf] by (rule clean_form_append_plain)
  obtain xs l where l: "?cs = xs @ [l]"
    using object_parts_nonempty [of ob] by (metis append_is_Nil_conv rev_exhaust)
  then have l': "l \<noteq> []" "CHR ''/'' \<notin> set l"
    using form by (auto intro: clean_form_no_slash clean_form_nonempty_comp dest: clean_form_no_slash clean_form_nonempty_comp)
  have "last (object_key px ob) \<noteq> CHR ''/''"
    using l' last_in_set [OF l'(1)] unfolding k l by (metis last_join)
  moreover have "object_key px ob \<noteq> []" "hd (object_key px ob) \<noteq> CHR ''/''"
  proof -
    show "object_key px ob \<noteq> []"
      unfolding k l using l' by (cases "xs = []") (simp_all add: join_append)
    then show "hd (object_key px ob) \<noteq> CHR ''/''"
      using join_not_rooted [OF form] unfolding k by (cases "join ''/'' ?cs") (auto simp: hasPrefix_def)
  qed
  ultimately show ?thesis
    by (simp add: s3_keys_def)
qed

lemma stream_keys_s3: "agreed S1 S2 C R E \<Longrightarrow> stream_keys E \<subseteq> s3_keys"
  using object_key_s3 [of "DataObj (se_dir E) (se_sid E) _"] object_key_s3 [of "AckObj (se_dir E) (se_sid E)"]
    object_key_s3 [of "CloseObj (se_side E) (se_sid E)"]
  by (auto simp: stream_keys_def agreed_def)

section \<open>A direction of a session over S3\<close>

lemma stream_s3:
  assumes "tunnel_codec C"
    and "s3_address cfg1 sch1 host1 pre1" and "s3_service http1 host1 pre1 content ok"
    and "s3_address cfg2 sch2 host2 pre2" and "s3_service http2 host2 pre2 content ok"
  shows "stream (s3_store cfg1 now1 http1) (s3_store cfg2 now2 http2) (s3_objs content) ok s3_keys C script_reader script_pending"
  by (intro stream.intro s3_store_safety [OF assms(2,3)] s3_store_safety [OF assms(4,5)]
      tunnel_codec_codec [OF assms(1)] script.reader_axioms)

text \<open>
  C26: over any service that keeps the contract of the S3 API, each endpoint with its
  own configuration, clock and HTTP client, whatever fails and however the steps
  interleave, the bytes written to the receiving socket are a prefix of the bytes read
  from the sending one, and the sender is at most its window ahead.
\<close>

theorem stream_over_s3:
  assumes "tunnel_codec C"
    and "s3_address cfg1 sch1 host1 pre1" and "s3_service http1 host1 pre1 content ok"
    and "s3_address cfg2 sch2 host2 pre2" and "s3_service http2 host2 pre2 content ok"
    and "agreed (s3_store cfg1 now1 http1) (s3_store cfg2 now2 http2) C script_reader E"
    and "stream_reach (s3_objs content) ok E r y" and "in_range E y"
  shows "prefix (rv_out (sy_rcv y)) (script_pending r) \<and>
    unat (rv_seq (sy_rcv y)) \<le> length (sd_log (sy_snd y)) \<and>
    length (sd_log (sy_snd y)) \<le> unat (rv_seq (sy_rcv y)) + unat (cfg_WindowChunks (se_scfg E))"
proof -
  note st = stream_s3 [OF assms(1-5)]
  have E: "agreed_in s3_keys (s3_store cfg1 now1 http1) (s3_store cfg2 now2 http2) C script_reader E"
    using assms(6) stream_keys_s3 [OF assms(6)] by (simp add: agreed_in_def)
  show ?thesis
    using stream.delivered [OF st E assms(7,8)] stream.in_flight [OF st E assms(7,8)]
    by (blast intro: prefix_order.order_trans)
qed

section \<open>A run against a service\<close>

text \<open>A service that holds the objects of one bucket in a map.\<close>

definition bucket_response :: "request \<Rightarrow> int \<Rightarrow> bytes \<Rightarrow> response" where
  "bucket_response rq n body = \<lparr>rs_StatusCode = n, rs_Status = [], rs_Header = [], rs_ContentLength = int (length body),
     rs_Body = body, rs_BodyErr = None, rs_Method = rq_Method rq, rs_URL = rq_URL rq\<rparr>"

definition bucket_http :: "(string \<rightharpoonup> bytes) http" where
  "bucket_http c rq s =
     (case c of Some e \<Rightarrow> (Inl e, s)
      | None \<Rightarrow>
          let p = drop (length ''/box/'') (url_Path (rq_URL rq)); answer = (\<lambda>n body. Inr (bucket_response rq n body))
          in if rq_Method rq = ''PUT'' then (answer 200 [], s(p \<mapsto> rq_Body rq))
             else if rq_Method rq = ''DELETE'' then (answer 204 [], s(p := None))
             else (case s p of None \<Rightarrow> (answer 404 [], s) | Some d \<Rightarrow> (answer 200 d, s)))"

lemma bucket_service: "s3_service bucket_http ''127.0.0.1:9000'' ''/box/'' (\<lambda>s. s) (\<lambda>_. True)"
  by (auto simp: s3_service_def bucket_http_def addressed_def status_def bucket_response_def Let_def
      split: option.splits if_splits)

definition bucket_clock :: "(string \<rightharpoonup> bytes) \<Rightarrow> gotime" where
  "bucket_clock s = sample_time"

abbreviation bucket_store :: "(string \<rightharpoonup> bytes) ObjectStore" where
  "bucket_store \<equiv> s3_store minio_config bucket_clock bucket_http"

lemma bucket_put:
  "k \<in> s3_keys \<Longrightarrow> s3_PutObject minio_config bucket_clock bucket_http None k d opts s = (None, s(escapePath k \<mapsto> d))"
  by (simp add: s3_PutObject_def newRequest_address [OF minio_address] doNoBody_def s3_do_def bucket_http_def
      bucket_response_def plain_URL_def Let_def)

lemma bucket_get:
  "k \<in> s3_keys \<Longrightarrow> s3_GetObject minio_config bucket_clock bucket_http None k s = (get_spec s (escapePath k), s)"
  by (simp add: s3_GetObject_def newRequest_address [OF minio_address] s3_do_def bucket_http_def
      bucket_response_def plain_URL_def get_spec_def Let_def split: option.splits)

definition bucket_cfg :: "(string \<rightharpoonup> bytes, unit) TunnelConfig" where
  "bucket_cfg = \<lparr>cfg_Store = bucket_store, cfg_Codec = NoopCodec, cfg_Prefix = ''p'', cfg_ChunkSize = 1024,
     cfg_FlushDelay = 0, cfg_PollMin = 1, cfg_PollMax = 100, cfg_ActivePollDuration = 1, cfg_WindowChunks = 16,
     cfg_CloseCheckAfterMisses = 4, cfg_IdleTimeout = 1000\<rparr>"

definition bucket_env :: "(string \<rightharpoonup> bytes, unit, script) stream_env" where
  "bucket_env = \<lparr>se_scfg = bucket_cfg, se_rcfg = bucket_cfg, se_reader = script_reader, se_sid = ''ab'',
     se_dir = ''c2s'', se_side = ''client'', se_smax = 10, se_rmax = 10\<rparr>"

definition bucket_start :: "(string \<rightharpoonup> bytes, unit, script) stream_sys" where
  "bucket_start = \<lparr>sy_snd = new_sender run_script, sy_rcv = new_receiver bucket_cfg,
     sy_psnd = \<lparr>pr_rng = (), pr_stats = None, pr_activity = None\<rparr>,
     sy_prcv = \<lparr>pr_rng = (), pr_stats = None, pr_activity = None\<rparr>, sy_store = Map.empty\<rparr>"

definition bucket_sent :: "(string \<rightharpoonup> bytes, unit, script) stream_sys" where
  "bucket_sent = receiver_step bucket_env act0 (sender_step bucket_env act0 (sender_step bucket_env act0 bucket_start))"

lemma bucket_agreed: "agreed bucket_store bucket_store NoopCodec script_reader bucket_env"
  by (simp add: agreed_def bucket_env_def bucket_cfg_def valid_config_def ValidateChunkSize_def
      MinChunkSize_def MaxChunkSize_def plain_comp_def)

lemma bucket_reach: "stream_reach (s3_objs (\<lambda>s. s)) (\<lambda>_. True) bucket_env run_script bucket_sent"
  unfolding bucket_sent_def
  by (intro run_send run_recv reach_init)
    (auto simp: stream_init_def bucket_start_def bucket_env_def new_sender_def s3_objs_def)

lemma bucket_key: "DataKey ''p'' ''c2s'' ''ab'' i \<in> s3_keys"
  using object_key_s3 [of "DataObj ''c2s'' ''ab'' i"] by (simp add: plain_comp_def)

lemma bucket_sent: "rv_out (sy_rcv bucket_sent) = [1]" "sd_log (sy_snd bucket_sent) = [[1]]"
  by (simp_all add: bucket_sent_def bucket_start_def bucket_env_def bucket_cfg_def act0_def sender_step_def
      receiver_step_def streamToStore_def streamFromStore_def send_read_def send_put_def recv_get_def
      Aggregator_Read_def agg_limit_def script_reader_def over_limit_def window_open_def after_read_def
      notifyActivity_def with_stats_def NoopCodec_def s3_store_def write_chunk_def ackInterval_def new_sender_def
      new_receiver_def wrap64_def next_chunk_def run_script_def bucket_put [OF bucket_key] bucket_get [OF bucket_key]
      get_spec_def Let_def)

theorem stream_over_s3_witness: "prefix (rv_out (sy_rcv bucket_sent)) (script_pending run_script) \<and> rv_out (sy_rcv bucket_sent) = [1]"
proof -
  have "in_range bucket_env bucket_sent"
    by (simp add: in_range_def bucket_env_def bucket_cfg_def bucket_sent)
  from stream_over_s3 [OF noop_tunnel_codec minio_address bucket_service minio_address bucket_service bucket_agreed
      bucket_reach this]
  show ?thesis
    by (simp add: bucket_sent)
qed

end
