(* ===== verification/StreamLive.thy ===== *)
theory StreamLive
  imports StreamProps
begin

text \<open>
  One direction of a session comes to its end: from every state the two loops can
  reach, whatever the world did to them before, they can still deliver all of the
  input and stop without error, when from there on no operation fails.  The locale
  \<open>live_stream\<close> adds to the contracts of a reliable stream what progress needs: a
  codec whose random source does not fail and a reader that ends only at the end of
  its input.

  The argument has three parts: the receiver catches up with what was sent; a sender
  whose receiver has caught up takes a step that brings it nearer to its end; and when
  it has ended, the receiver's misses add up to the look for the close object.
\<close>

section \<open>What progress needs\<close>

text \<open>An action in which nothing fails and no deadline passes.\<close>

definition smooth :: "action \<Rightarrow> bool" where
  "smooth a \<longleftrightarrow> ac_ctx a = None \<and> wf_time (ac_now a) \<and> ac_sleep a = (\<lambda>_. None) \<and> \<not> ac_expired a \<and> ac_write a = None"

lemma smooth_wf: "smooth a \<Longrightarrow> wf_action a"
  by (simp add: smooth_def wf_action_def)

definition loop_step where
  "loop_step E a y y' \<longleftrightarrow> y' = sender_step E a y \<or> y' = receiver_step E a y"

locale sealing_codec = codec C for C :: "'g Codec" +
  assumes seal_total: "\<exists>s g'. Seal C typ sid dir seq p g = (Inr s, g')"
    and seal_data_total: "\<exists>s g'. SealData C sid dir seq p g = (Inr s, g')"

text \<open>A reader whose reads fail only with the end of the stream, when nothing is pending.\<close>

locale clean_reader = reader R pending for R :: "'r Reader" and pending +
  fixes clean :: "'r \<Rightarrow> bool"
  assumes read_clean: "rd_read R k r = ((d, e), r') \<Longrightarrow> clean r \<Longrightarrow>
      clean r' \<and> (e = None \<or> e = Some IoEOF \<and> pending r' = [])"
    and set_deadline_clean: "rd_set_deadline R t r = (ok, r') \<Longrightarrow> clean r \<Longrightarrow> clean r'"
    and clear_deadline_clean: "clean r \<Longrightarrow> clean (rd_clear_deadline R r)"
    and ctx_clean: "rd_ctx R r = (c, r') \<Longrightarrow> clean r \<Longrightarrow> c = None \<and> clean r'"
begin

lemma agg_loop_grows:
  "agg_loop n k R out reads r = Some ((res, e), r') \<Longrightarrow> length out \<le> length (ar_data res)"
proof (induction n arbitrary: out reads r)
  case (Suc n)
  then show ?case
    by (fastforce simp: Let_def split: if_splits prod.splits option.splits)
qed simp

lemma agg_loop_clean:
  "agg_loop n k R out reads r = Some ((res, e), r') \<Longrightarrow> clean r \<Longrightarrow>
   clean r' \<and> (e = None \<or> e = Some IoEOF \<and> pending r' = [])"
proof (induction n arbitrary: out reads r)
  case (Suc n)
  show ?case
  proof (cases "length out < k")
    case True
    obtain c r1 where c: "rd_ctx R r = (c, r1)" by (cases "rd_ctx R r")
    obtain d x r2 where rd: "rd_read R (k - length out) r1 = ((d, x), r2)"
      by (metis surj_pair)
    have r1: "c = None" "clean r1"
      using ctx_clean [OF c Suc.prems(2)] by simp_all
    then show ?thesis
      using Suc.prems(1) Suc.IH [of "out @ d" "Suc reads" r2] True c rd read_clean [OF rd r1(2)]
      by (auto simp: Let_def split: if_splits option.splits)
  qed (use Suc.prems in auto)
qed simp

lemma Aggregator_Read_clean:
  assumes "Aggregator_Read fuel a R r = Some ((res, e), r')" and "clean r" and "0 < agg_limit a"
  shows "clean r' \<and> (e = None \<or> e = Some IoEOF \<and> pending r' = []) \<and> (ar_data res = [] \<longrightarrow> e = Some IoEOF)"
proof -
  obtain d x r1 where rd: "rd_read R (agg_limit a) r = ((d, x), r1)"
    by (metis surj_pair)
  obtain ok r2 where sd: "rd_set_deadline R (FlushDelay a) r1 = (ok, r2)"
    by (cases "rd_set_deadline R (FlushDelay a) r1")
  note r1 = read_clean [OF rd assms(2)] read_progress [OF rd assms(3)]
  show ?thesis
  proof (cases "d = [] \<or> x \<noteq> None \<or> agg_limit a \<le> length d \<or> FlushDelay a = 0 \<or> \<not> ok")
    case True
    with assms(1) r1 rd sd set_deadline_clean [OF sd] show ?thesis
      by (auto simp: Aggregator_Read_def Let_def split: if_splits)
  next
    case False
    then obtain r3 where l: "agg_loop fuel (agg_limit a) R d 1 r2 = Some ((res, e), r3)" "r' = rd_clear_deadline R r3"
      using assms(1) rd sd by (auto simp: Aggregator_Read_def)
    have "clean r3 \<and> (e = None \<or> e = Some IoEOF \<and> pending r3 = [])"
      using agg_loop_clean [OF l(1)] set_deadline_clean [OF sd] r1 by blast
    moreover have "d @ pending r2 = ar_data res @ pending r3" "length (ar_data res) \<ge> length d"
      using agg_loop_pending [OF l(1)] agg_loop_grows [OF l(1)] by blast+
    ultimately show ?thesis
      using False l(2) clear_deadline_clean clear_deadline_pending by auto
  qed
qed

end

section \<open>The state of the sender in a run without limits\<close>

definition ends :: "('r \<Rightarrow> bytes) \<Rightarrow> 'r sender \<Rightarrow> err option \<Rightarrow> bool" where
  "ends pending sd e \<longleftrightarrow> e = None \<or> e = Some IoEOF \<and> pending (sd_reader sd) = []"

definition closing :: "('s, 'g, 'r) stream_env \<Rightarrow> ('r \<Rightarrow> bytes) \<Rightarrow> (string \<rightharpoonup> bytes) \<Rightarrow> 'r sender \<Rightarrow> bool" where
  "closing E pending m sd \<longleftrightarrow>
     (case sd_pc sd of
        SRead \<Rightarrow> True
      | SWindow d e t \<Rightarrow> d \<noteq> [] \<and> ends pending sd e
      | SPut d e \<Rightarrow> d \<noteq> [] \<and> ends pending sd e
      | SClose r z \<Rightarrow> z = None \<and> pending (sd_reader sd) = []
      | SDone None \<Rightarrow> pending (sd_reader sd) = [] \<and> m (CloseKey (cfg_Prefix (se_scfg E)) (se_side E) (se_sid E)) \<noteq> None
      | SDone (Some x) \<Rightarrow> True)"

definition live_inv where
  "live_inv objs wfs pending clean input E y \<longleftrightarrow>
     stream_inv objs wfs pending input E y \<and> in_range E y \<and> clean (sd_reader (sy_snd y)) \<and>
     (\<forall>d\<in>set (sd_log (sy_snd y)). d \<noteq> []) \<and> closing E pending (objs (sy_store y)) (sy_snd y)"

lemma nonempty_chunks: "\<forall>d\<in>set xs. d \<noteq> [] \<Longrightarrow> length xs \<le> length (concat xs)"
proof (induction xs)
  case (Cons x xs)
  then have "1 \<le> length x" by (simp add: Suc_le_eq)
  with Cons show ?case by simp
qed simp

text \<open>The input bounds the number of chunks, and with it the sequence numbers.\<close>

lemma input_in_range:
  assumes "bytes_ok E pending input (sy_snd y)" and "\<forall>d\<in>set (sd_log (sy_snd y)). d \<noteq> []"
    and "length input + unat (cfg_WindowChunks (se_scfg E)) < 2 ^ 64"
  shows "in_range E y"
proof -
  have "prefix (concat (sd_log (sy_snd y))) input"
    using assms(1) by (auto simp: bytes_ok_def split: option.splits)
  then have "length (concat (sd_log (sy_snd y))) \<le> length input"
    by (rule prefix_length_le)
  with nonempty_chunks [OF assms(2)] assms(3) show ?thesis
    by (simp add: in_range_def)
qed

lemma send_window_shape:
  assumes "send_window cfg sid dir a d e t sd p s = (sd', p', s')"
  shows "sd_reader sd' = sd_reader sd \<and> sd_log sd' = sd_log sd \<and>
    (sd_pc sd' = SPut d e \<or> (\<exists>t'. sd_pc sd' = SWindow d e t') \<or> (\<exists>x. sd_pc sd' = SDone (Some x)))"
  using assms by (simp add: send_window_def Let_def split: prod.splits sum.splits option.splits if_splits) auto

lemma send_put_shape:
  assumes "send_put cfg sid dir a d e sd p s = (sd', p', s')"
  shows "sd_reader sd' = sd_reader sd \<and> (sd_log sd' = sd_log sd \<or> sd_log sd' = sd_log sd @ [d]) \<and>
    (sd_pc sd' = after_read e \<or> (\<exists>x. sd_pc sd' = SDone (Some x)))"
  using assms by (simp add: send_put_def Let_def split: prod.splits sum.splits option.splits) auto

lemma closing_cases:
  "sd_pc sd = SRead \<Longrightarrow> closing E pending m sd"
  "sd_pc sd = SWindow d e t \<Longrightarrow> closing E pending m sd \<longleftrightarrow> d \<noteq> [] \<and> ends pending sd e"
  "sd_pc sd = SPut d e \<Longrightarrow> closing E pending m sd \<longleftrightarrow> d \<noteq> [] \<and> ends pending sd e"
  "sd_pc sd = SClose z w \<Longrightarrow> closing E pending m sd \<longleftrightarrow> w = None \<and> pending (sd_reader sd) = []"
  "sd_pc sd = SDone None \<Longrightarrow> closing E pending m sd \<longleftrightarrow>
     pending (sd_reader sd) = [] \<and> m (CloseKey (cfg_Prefix (se_scfg E)) (se_side E) (se_sid E)) \<noteq> None"
  "sd_pc sd = SDone (Some x) \<Longrightarrow> closing E pending m sd"
  by (simp_all add: closing_def)

lemma ends_reader: "sd_reader sd' = sd_reader sd \<Longrightarrow> ends pending sd' e = ends pending sd e"
  by (simp add: ends_def)

lemma closing_after_read:
  "sd_pc sd = after_read e \<Longrightarrow> ends pending sd e \<Longrightarrow> closing E pending m sd"
  by (auto simp: ends_def closing_def after_read_def)

locale live_stream = reliable_stream S1 S2 objs inv C R pending + live2: object_store S2 objs inv +
    sealing_codec C + clean_reader R pending clean
  for S1 S2 :: "'s ObjectStore" and objs inv and C :: "'g Codec" and R :: "'r Reader" and pending clean
begin

lemma send_read_live:
  assumes E: "agreed S1 S2 C R E" and pc: "sd_pc sd = SRead" and clean: "clean (sd_reader sd)"
    and nolim: "se_smax E \<le> 0"
    and step: "send_read (se_scfg E) R (se_smax E) sd p s = (sd', p', s')"
  shows "clean (sd_reader sd') \<and> sd_log sd' = sd_log sd \<and> s' = s \<and>
    ((\<exists>d e. ((\<exists>t. sd_pc sd' = SWindow d e t) \<or> sd_pc sd' = SPut d e) \<and> d \<noteq> [] \<and> ends pending sd' e \<and>
        pending (sd_reader sd) = d @ pending (sd_reader sd')) \<or>
     sd_pc sd' = SClose [] None \<and> pending (sd_reader sd') = [])"
proof -
  let ?cfg = "se_scfg E"
  let ?ag = "\<lparr>MaxBytes = cfg_ChunkSize ?cfg, FlushDelay = cfg_FlushDelay ?cfg\<rparr>"
  obtain rd e r' where rd: "Aggregator_Read (Suc (agg_limit ?ag)) ?ag R (sd_reader sd) = Some ((rd, e), r')"
    using Aggregator_Read_total [of ?ag "Suc (agg_limit ?ag)" "sd_reader sd"] by (metis lessI not_None_eq surj_pair)
  have "0 < agg_limit ?ag"
    using E valid_chunk [of ?cfg] by (auto simp: agreed_def agg_limit_def)
  note r' = Aggregator_Read_clean [OF rd clean this] Aggregator_Read_pending [OF rd]
  have "\<not> over_limit (se_smax E) n d" for n d
    using nolim by (simp add: over_limit_def)
  then show ?thesis
    using step rd r' by (auto simp: send_read_def Let_def ends_def after_read_def split: if_splits)
qed

lemma putJSON_live:
  assumes "inv s" and "object_store S objs inv" and "cfg_Store cfg = S" and "cfg_Codec cfg = C" and "m = Inr data"
  shows "\<exists>p' s' d. putJSON None cfg k ty sid dir m p s = (None, p', s') \<and> inv s' \<and> objs s' = (objs s)(k \<mapsto> d)"
proof -
  obtain z g where "Seal C ty sid dir 0 data (pr_rng p) = (Inr z, g)"
    using seal_total by blast
  moreover obtain s' where "PutObject S None k z octet_stream s = (None, s')" "inv s'" "objs s' = (objs s)(k \<mapsto> z)"
    using object_store.put_live [OF assms(2,1)] by blast
  ultimately show ?thesis
    using assms(3-) by (auto simp: putJSON_def)
qed

lemma sender_closing:
  assumes E: "agreed S1 S2 C R E" and nolim: "se_smax E \<le> 0" and J: "live_inv objs inv pending clean input E y"
  shows "clean (sd_reader (sy_snd (sender_step E a y))) \<and> (\<forall>d\<in>set (sd_log (sy_snd (sender_step E a y))). d \<noteq> []) \<and>
    closing E pending (objs (sy_store (sender_step E a y))) (sy_snd (sender_step E a y))"
proof -
  let ?sd = "sy_snd y" and ?s = "sy_store y"
  obtain sd p s where st: "streamToStore (se_scfg E) R (se_sid E) (se_dir E) (se_side E) (se_smax E) a
      ?sd (sy_psnd y) ?s = (sd, p, s)"
    by (metis prod_cases3)
  have R: "se_reader E = R" using E by (simp add: agreed_def)
  have I: "inv ?s" "clean (sd_reader ?sd)" "\<forall>d\<in>set (sd_log ?sd). d \<noteq> []" "closing E pending (objs ?s) ?sd"
    using J by (simp_all add: live_inv_def stream_inv_def)
  have "clean (sd_reader sd) \<and> (\<forall>d\<in>set (sd_log sd). d \<noteq> []) \<and> closing E pending (objs s) sd"
  proof (cases "sd_pc ?sd")
    case SRead
    then have "send_read (se_scfg E) R (se_smax E) ?sd (sy_psnd y) ?s = (sd, p, s)"
      using st by (simp add: streamToStore_def)
    from send_read_live [OF E SRead I(2) nolim this] show ?thesis
      using I by (auto simp: closing_def)
  next
    case (SWindow d e t)
    then have "send_window (se_scfg E) (se_sid E) (se_dir E) a d e t ?sd (sy_psnd y) ?s = (sd, p, s)"
      using st by (simp add: streamToStore_def)
    note shape = send_window_shape [OF this]
    have e: "d \<noteq> [] \<and> ends pending sd e"
      using I(4) shape closing_cases(2) [OF SWindow] ends_reader by blast
    have "closing E pending (objs s) sd"
      using shape e closing_cases(2,3,6) [of sd] by blast
    with shape I show ?thesis by simp
  next
    case (SPut d e)
    then have "send_put (se_scfg E) (se_sid E) (se_dir E) a d e ?sd (sy_psnd y) ?s = (sd, p, s)"
      using st by (simp add: streamToStore_def)
    note shape = send_put_shape [OF this]
    have e: "ends pending sd e" "d \<noteq> []"
      using shape I(4) closing_cases(3) [OF SPut] ends_reader by blast+
    have "closing E pending (objs s) sd"
      using shape closing_after_read [OF _ e(1)] closing_cases(6) by blast
    with shape e I show ?thesis by auto
  next
    case (SClose r z)
    then have z: "z = None" "pending (sd_reader ?sd) = []"
      using I by (simp_all add: closing_def)
    obtain x p1 s1 where c: "putClose (ac_ctx a) (ac_now a) (se_scfg E) (se_sid E) (se_side E) r (sy_psnd y) ?s = (x, p1, s1)"
      by (metis prod_cases3)
    have sd: "sd = ?sd\<lparr>sd_pc := SDone x\<rparr>" "s = s1"
      using st SClose c z by (simp_all add: streamToStore_def send_close_def)
    have "x = None \<Longrightarrow> objs s1 (CloseKey (cfg_Prefix (se_scfg E)) (se_side E) (se_sid E)) \<noteq> None"
      using snd.putJSON_safe [OF I(1) _ _ c [unfolded putClose_def]] E by (auto simp: agreed_def)
    then have "closing E pending (objs s) sd"
      using z(2) by (cases x) (simp_all add: sd closing_cases)
    with I show ?thesis by (simp add: sd)
  next
    case (SDone x)
    with st I show ?thesis
      by (simp add: streamToStore_def)
  qed
  with st R show ?thesis
    by (simp add: sender_step_def)
qed

lemma live_sender_step:
  assumes E: "agreed S1 S2 C R E" and nolim: "se_smax E \<le> 0" and a: "wf_action a"
    and small: "length input + unat (cfg_WindowChunks (se_scfg E)) < 2 ^ 64"
    and J: "live_inv objs inv pending clean input E y"
  shows "live_inv objs inv pending clean input E (sender_step E a y)"
proof -
  have "stream_inv objs inv pending input E (sender_step E a y)"
    using sender_step_inv [unfolded agreed_in_UNIV, OF E a] J by (simp add: live_inv_def)
  moreover from this have "bytes_ok E pending input (sy_snd (sender_step E a y))"
    by (simp add: stream_inv_def)
  moreover note closing = sender_closing [OF E nolim J, of a]
  ultimately show ?thesis
    using input_in_range [OF _ _ small] by (simp add: live_inv_def)
qed

lemma live_receiver_step:
  assumes E: "agreed S1 S2 C R E" and a: "wf_action a" and J: "live_inv objs inv pending clean input E y"
  shows "live_inv objs inv pending clean input E (receiver_step E a y)" "sy_snd (receiver_step E a y) = sy_snd y"
proof -
  have I: "stream_inv objs inv pending input E y" "in_range E y"
    using J by (simp_all add: live_inv_def)
  note parts = receiver_step_parts [unfolded agreed_in_UNIV, OF E a I]
  have "closing E pending (objs (sy_store (receiver_step E a y))) (sy_snd y)"
    using J parts agreed_keys(4) [OF E, symmetric] by (simp add: live_inv_def closing_def cong: send_pc.case_cong option.case_cong)
  then show "live_inv objs inv pending clean input E (receiver_step E a y)"
    using J parts receiver_step_inv [unfolded agreed_in_UNIV, OF E a I] by (simp add: live_inv_def in_range_def)
  show "sy_snd (receiver_step E a y) = sy_snd y"
    using parts by blast
qed

lemma live_reach:
  assumes E: "agreed S1 S2 C R E" and nolim: "se_smax E \<le> 0" and clean: "clean r"
    and small: "length (pending r) + unat (cfg_WindowChunks (se_scfg E)) < 2 ^ 64"
    and reach: "stream_reach objs inv E r y"
  shows "live_inv objs inv pending clean (pending r) E y"
  using reach
proof (induction rule: stream_reach.induct)
  case (reach_init y)
  have "stream_inv objs inv pending (pending r) E y"
    using init_inv [unfolded agreed_in_UNIV, OF E reach_init(1)] reach_init(2) by simp
  with reach_init small clean show ?case
    by (auto simp: live_inv_def stream_init_def new_sender_def in_range_def closing_def)
next
  case (reach_step y y')
  from reach_step.hyps(2) show ?case
  proof cases
    case (step_send a)
    with live_sender_step [OF E nolim _ small reach_step.IH] show ?thesis by blast
  next
    case (step_recv a)
    with live_receiver_step(1) [OF E _ reach_step.IH] show ?thesis by blast
  next
    case (step_env s' p q)
    have "closing E pending (objs s') (sy_snd y)"
      using reach_step.IH step_env(3)
      by (simp add: live_inv_def closing_def stream_keys_def cong: send_pc.case_cong option.case_cong)
    then show ?thesis
      using reach_step.IH env_step_inv [OF _ step_env(2,3)] step_env(1) by (simp add: live_inv_def in_range_def)
  qed
qed

end

section \<open>Steps of the receiver\<close>

context live_stream begin

lemma recv_wait_live:
  assumes "smooth a" and "rv_pc (sy_rcv y) = RWait"
  shows "\<exists>t. sy_rcv (receiver_step E a y) = (sy_rcv y)\<lparr>rv_pc := RGet, rv_delay := t\<rparr>"
  using assms by (auto simp: smooth_def receiver_step_def streamFromStore_def recv_wait_def sleepOrActivity_def
      split: prod.splits if_splits sum.splits)

lemma recv_ack_live:
  assumes E: "agreed S1 S2 C R E" and "smooth a" and "rv_pc (sy_rcv y) = RAck" and "inv (sy_store y)"
  shows "sy_rcv (receiver_step E a y) = next_chunk (se_rcfg E) ((sy_rcv y)\<lparr>rv_lastAck := rv_seq (sy_rcv y)\<rparr>)"
proof -
  let ?a = "\<lparr>ack_version = Version, ack_session = se_sid E, ack_direction = se_dir E,
    ack_next_seq = rv_seq (sy_rcv y), ack_updated = ac_now a\<rparr>"
  have "ebind (Marshal_Ack ?a) Unmarshal_Ack = Inr (clean_Ack ?a)"
    using assms(2) by (intro unmarshal_Ack) (simp add: wf_message_defs Version_def smooth_def)
  then obtain data where "Marshal_Ack ?a = Inr data"
    by (cases "Marshal_Ack ?a") auto
  then obtain p' s' where "putAck None (ac_now a) (se_rcfg E) (se_sid E) (se_dir E) (rv_seq (sy_rcv y)) (sy_prcv y) (sy_store y) =
      (None, p', s')"
    using putJSON_live [OF assms(4) live2.object_store_axioms, of "se_rcfg E"] E unfolding agreed_def putAck_def by metis
  with assms(2,3) show ?thesis
    by (auto simp: smooth_def receiver_step_def streamFromStore_def recv_ack_def)
qed

lemma recv_head_live:
  assumes E: "agreed S1 S2 C R E" and "smooth a" and "rv_pc (sy_rcv y) = RHead" and "inv (sy_store y)"
  shows "sy_rcv (receiver_step E a y) = (sy_rcv y)\<lparr>rv_pc :=
    (if objs (sy_store y) (CloseKey (cfg_Prefix (se_scfg E)) (se_side E) (se_sid E)) = None then RWait else RDone None)\<rparr>"
proof -
  let ?k = "CloseKey (cfg_Prefix (se_scfg E)) (se_side E) (se_sid E)"
  obtain r s' where "HeadObject S2 None ?k (sy_store y) = (r, s')"
    "case objs (sy_store y) ?k of None \<Rightarrow> r = Inl ErrNotFound | Some d \<Rightarrow> \<exists>i. r = Inr i"
    using live2.head_live [OF assms(4), of ?k] by (auto split: option.splits)
  with assms(2,3) E show ?thesis
    by (auto simp: agreed_def smooth_def receiver_step_def streamFromStore_def recv_head_def closeExists_def
        split: option.splits)
qed

lemma recv_get_live:
  assumes E: "agreed S1 S2 C R E" and a: "smooth a" and pc: "rv_pc (sy_rcv y) = RGet" and nolim: "se_rmax E \<le> 0"
    and J: "live_inv objs inv pending clean input E y" and up: "\<And>x. sd_pc (sy_snd y) \<noteq> SDone (Some x)"
  shows "unat (rv_seq (sy_rcv y)) < length (sd_log (sy_snd y)) \<Longrightarrow>
      rv_pc (sy_rcv (receiver_step E a y)) \<in> {RGet, RAck} \<and>
      unat (rv_seq (sy_rcv (receiver_step E a y))) = Suc (unat (rv_seq (sy_rcv y)))"
    and "unat (rv_seq (sy_rcv y)) = length (sd_log (sy_snd y)) \<Longrightarrow>
      sy_rcv (receiver_step E a y) =
        (if closeCheckEvery (se_rcfg E) \<le> rv_misses (sy_rcv y) + 1 then (sy_rcv y)\<lparr>rv_pc := RHead, rv_misses := 0\<rparr>
         else (sy_rcv y)\<lparr>rv_pc := RWait, rv_misses := rv_misses (sy_rcv y) + 1\<rparr>)"
proof -
  let ?q = "rv_seq (sy_rcv y)" and ?log = "sd_log (sy_snd y)"
  let ?k = "DataKey (cfg_Prefix (se_scfg E)) (se_dir E) (se_sid E) ?q"
  have I: "inv (sy_store y)" "sent_all E (objs (sy_store y)) ?log" "data_ok E (objs (sy_store y)) ?log"
    "length ?log < 2 ^ 64"
    using J up by (auto simp: live_inv_def stream_inv_def present_def in_range_def)
  obtain s' where g: "GetObject S2 None ?k (sy_store y) = (get_spec (objs (sy_store y)) ?k, s')"
    using live2.get_live [OF I(1)] by blast
  have nl: "\<not> over_limit (se_rmax E) n d" for n d
    using nolim by (simp add: over_limit_def)
  {
    assume lt: "unat ?q < length ?log"
    then obtain d where d: "objs (sy_store y) ?k = Some d"
      using I(2) by (auto simp: sent_all_def)
    then have od: "OpenData C (se_sid E) (se_dir E) ?q d = Inr (?log ! unat ?q)"
      using I(3) E by (auto simp: data_ok_def agreed_def)
    have "unat (?q + 1) = Suc (unat ?q)"
      using lt I(4) by (simp add: unat_word_ariths)
    with g d od nl pc a E show "rv_pc (sy_rcv (receiver_step E a y)) \<in> {RGet, RAck} \<and>
        unat (rv_seq (sy_rcv (receiver_step E a y))) = Suc (unat ?q)"
      by (auto simp: agreed_def smooth_def receiver_step_def streamFromStore_def recv_get_def get_spec_def
          write_chunk_def next_chunk_def Let_def)
  next
    assume "unat ?q = length ?log"
    then have "objs (sy_store y) ?k = None"
      using I(3) unfolding data_ok_def by (metis less_irrefl not_Some_eq)
    with g pc a E show "sy_rcv (receiver_step E a y) =
        (if closeCheckEvery (se_rcfg E) \<le> rv_misses (sy_rcv y) + 1 then (sy_rcv y)\<lparr>rv_pc := RHead, rv_misses := 0\<rparr>
         else (sy_rcv y)\<lparr>rv_pc := RWait, rv_misses := rv_misses (sy_rcv y) + 1\<rparr>)"
      by (simp add: agreed_def smooth_def receiver_step_def streamFromStore_def recv_get_def get_spec_def Let_def)
  }
qed

end

section \<open>The receiver catches up\<close>

definition receiving :: "receiver \<Rightarrow> bool" where
  "receiving rv \<longleftrightarrow> rv_pc rv \<in> {RGet, RAck, RWait}"

lemma loop_step_receiver: "loop_step E a y (receiver_step E a y)"
  and loop_step_sender: "loop_step E a y (sender_step E a y)"
  by (simp_all add: loop_step_def)

lemmas loop_run_receiver = converse_rtranclp_into_rtranclp [where r = "loop_step E a" for E a, OF loop_step_receiver]
lemmas loop_run_sender = converse_rtranclp_into_rtranclp [where r = "loop_step E a" for E a, OF loop_step_sender]

context live_stream begin

lemma to_get:
  assumes E: "agreed S1 S2 C R E" and a: "smooth a" and J: "live_inv objs inv pending clean input E y"
    and pc: "receiving (sy_rcv y)"
  shows "\<exists>y'. (loop_step E a)\<^sup>*\<^sup>* y y' \<and> live_inv objs inv pending clean input E y' \<and> sy_snd y' = sy_snd y \<and>
    rv_pc (sy_rcv y') = RGet \<and> rv_seq (sy_rcv y') = rv_seq (sy_rcv y)"
proof (cases "rv_pc (sy_rcv y) = RGet")
  case False
  have inv: "inv (sy_store y)"
    using J by (simp add: live_inv_def stream_inv_def)
  let ?y = "receiver_step E a y"
  have "rv_pc (sy_rcv ?y) = RGet \<and> rv_seq (sy_rcv ?y) = rv_seq (sy_rcv y)"
    using False pc recv_wait_live [OF a, of y E] recv_ack_live [OF E a _ inv] by (auto simp: receiving_def next_chunk_def)
  then show ?thesis
    using live_receiver_step [OF E smooth_wf [OF a] J] loop_run_receiver [OF rtranclp.rtrancl_refl, of E a y] by blast
qed (use J in blast)

lemma catch_up:
  assumes E: "agreed S1 S2 C R E" and a: "smooth a" and nolim: "se_rmax E \<le> 0"
    and "live_inv objs inv pending clean input E y" and "receiving (sy_rcv y)"
    and up: "\<And>x. sd_pc (sy_snd y) \<noteq> SDone (Some x)"
  shows "\<exists>y'. (loop_step E a)\<^sup>*\<^sup>* y y' \<and> live_inv objs inv pending clean input E y' \<and> sy_snd y' = sy_snd y \<and>
    rv_pc (sy_rcv y') = RGet \<and> unat (rv_seq (sy_rcv y')) = length (sd_log (sy_snd y'))"
  using assms(4-)
proof (induction "length (sd_log (sy_snd y)) - unat (rv_seq (sy_rcv y))" arbitrary: y rule: less_induct)
  case less
  obtain y1 where y1: "(loop_step E a)\<^sup>*\<^sup>* y y1" "live_inv objs inv pending clean input E y1" "sy_snd y1 = sy_snd y"
    "rv_pc (sy_rcv y1) = RGet" "rv_seq (sy_rcv y1) = rv_seq (sy_rcv y)"
    using to_get [OF E a less.prems(1,2)] by blast
  have le: "unat (rv_seq (sy_rcv y1)) \<le> length (sd_log (sy_snd y1))"
    using y1(2) by (simp add: live_inv_def stream_inv_def recv_ok_def)
  show ?case
  proof (cases "unat (rv_seq (sy_rcv y1)) = length (sd_log (sy_snd y1))")
    case True
    with y1 show ?thesis by blast
  next
    case False
    let ?y = "receiver_step E a y1"
    have step: "rv_pc (sy_rcv ?y) \<in> {RGet, RAck}" "unat (rv_seq (sy_rcv ?y)) = Suc (unat (rv_seq (sy_rcv y1)))"
      using recv_get_live(1) [OF E a y1(4) nolim y1(2)] less.prems(3) y1(3) le False by auto
    note J = live_receiver_step [OF E smooth_wf [OF a] y1(2)]
    have "length (sd_log (sy_snd ?y)) - unat (rv_seq (sy_rcv ?y)) < length (sd_log (sy_snd y)) - unat (rv_seq (sy_rcv y))"
      using step(2) le False y1(3,5) J(2) by simp
    from less.hyps [OF this J(1)] step(1) less.prems(3) J(2) y1(3) obtain y' where
      "(loop_step E a)\<^sup>*\<^sup>* ?y y'" "live_inv objs inv pending clean input E y'" "sy_snd y' = sy_snd ?y"
      "rv_pc (sy_rcv y') = RGet" "unat (rv_seq (sy_rcv y')) = length (sd_log (sy_snd y'))"
      by (auto simp: receiving_def)
    then show ?thesis
      using y1(1,3) J(2) loop_run_receiver [of E a y1 y'] rtranclp_trans [of "loop_step E a" y y1 y'] by auto
  qed
qed

text \<open>After the last chunk the misses add up, and the look for the close object finds it.\<close>

lemma receiver_finishes:
  assumes E: "agreed S1 S2 C R E" and a: "smooth a" and nolim: "se_rmax E \<le> 0"
    and "live_inv objs inv pending clean input E y" and "rv_pc (sy_rcv y) = RGet"
    and "unat (rv_seq (sy_rcv y)) = length (sd_log (sy_snd y))" and "sd_pc (sy_snd y) = SDone None"
  shows "\<exists>y'. (loop_step E a)\<^sup>*\<^sup>* y y' \<and> sy_snd y' = sy_snd y \<and> rv_pc (sy_rcv y') = RDone None \<and>
    rv_out (sy_rcv y') = concat (sd_log (sy_snd y))"
  using assms(4-)
proof (induction "nat (closeCheckEvery (se_rcfg E) - rv_misses (sy_rcv y))" arbitrary: y rule: less_induct)
  case less
  let ?y = "receiver_step E a y" and ?z = "receiver_step E a (receiver_step E a y)"
  note J = less.prems(1) and Jy = live_receiver_step [OF E smooth_wf [OF a] less.prems(1)]
  note Jz = live_receiver_step [OF E smooth_wf [OF a] Jy(1)]
  have run: "(loop_step E a)\<^sup>*\<^sup>* y ?z"
    by (rule loop_run_receiver, rule loop_run_receiver, rule rtranclp.rtrancl_refl)
  have inv: "inv (sy_store ?y)" "objs (sy_store ?y) (CloseKey (cfg_Prefix (se_scfg E)) (se_side E) (se_sid E)) \<noteq> None"
    using Jy less.prems(4) by (simp_all add: live_inv_def stream_inv_def closing_def)
  have y: "sy_rcv ?y = (if closeCheckEvery (se_rcfg E) \<le> rv_misses (sy_rcv y) + 1
      then (sy_rcv y)\<lparr>rv_pc := RHead, rv_misses := 0\<rparr>
      else (sy_rcv y)\<lparr>rv_pc := RWait, rv_misses := rv_misses (sy_rcv y) + 1\<rparr>)"
    using recv_get_live(2) [OF E a less.prems(2) nolim J _ less.prems(3)] less.prems(4) by simp
  show ?case
  proof (cases "closeCheckEvery (se_rcfg E) \<le> rv_misses (sy_rcv y) + 1")
    case True
    then have "rv_pc (sy_rcv ?z) = RDone None" "rv_out (sy_rcv ?z) = rv_out (sy_rcv y)"
      using recv_head_live [OF E a _ inv(1)] inv(2) y by simp_all
    moreover have "rv_out (sy_rcv y) = concat (sd_log (sy_snd y))"
      using J less.prems(2,3) by (simp add: live_inv_def stream_inv_def recv_ok_def)
    ultimately show ?thesis
      using run Jy(2) Jz(2) by (intro exI [of _ ?z]) simp
  next
    case False
    then have z: "rv_pc (sy_rcv ?z) = RGet" "rv_misses (sy_rcv ?z) = rv_misses (sy_rcv y) + 1" "rv_seq (sy_rcv ?z) = rv_seq (sy_rcv y)"
      using recv_wait_live [OF a, of ?y E] y by auto
    have "nat (closeCheckEvery (se_rcfg E) - rv_misses (sy_rcv ?z)) < nat (closeCheckEvery (se_rcfg E) - rv_misses (sy_rcv y))"
      using False z by simp
    from less.hyps [OF this Jz(1)] z less.prems(3,4) Jy(2) Jz(2) obtain y' where
      "(loop_step E a)\<^sup>*\<^sup>* ?z y'" "sy_snd y' = sy_snd y" "rv_pc (sy_rcv y') = RDone None"
      "rv_out (sy_rcv y') = concat (sd_log (sy_snd y))"
      by auto
    then show ?thesis
      using rtranclp_trans [OF run] by blast
  qed
qed

end

section \<open>The sender nears its end\<close>

definition to_send :: "('r \<Rightarrow> bytes) \<Rightarrow> 'r sender \<Rightarrow> nat" where
  "to_send pending sd = 4 * length (pending (sd_reader sd)) +
     (case sd_pc sd of SRead \<Rightarrow> 2 | SWindow d e t \<Rightarrow> 4 | SPut d e \<Rightarrow> 3 | SClose r z \<Rightarrow> 1 | SDone x \<Rightarrow> 0)"

context live_stream begin

lemma sender_progress:
  assumes E: "agreed S1 S2 C R E" and a: "smooth a" and nolim: "se_smax E \<le> 0"
    and J: "live_inv objs inv pending clean input E y" and run: "\<And>x. sd_pc (sy_snd y) \<noteq> SDone x"
    and rcv: "rv_pc (sy_rcv y) = RGet" "unat (rv_seq (sy_rcv y)) = length (sd_log (sy_snd y))"
    and w: "unat (ackInterval (cfg_WindowChunks (se_rcfg E))) \<le> unat (cfg_WindowChunks (se_scfg E))"
  shows "to_send pending (sy_snd (sender_step E a y)) < to_send pending (sy_snd y)"
    "sd_pc (sy_snd (sender_step E a y)) \<noteq> SDone (Some x)"
proof -
  let ?sd = "sy_snd y" and ?s = "sy_store y" and ?y = "sender_step E a y"
  obtain sd p s where st: "streamToStore (se_scfg E) R (se_sid E) (se_dir E) (se_side E) (se_smax E) a
      ?sd (sy_psnd y) ?s = (sd, p, s)"
    by (metis prod_cases3)
  have y: "sy_snd ?y = sd"
    using st E by (simp add: sender_step_def agreed_def)
  have I: "inv ?s" "clean (sd_reader ?sd)" "closing E pending (objs ?s) ?sd"
    "stream_inv objs inv pending input E y" "in_range E y"
    using J by (simp_all add: live_inv_def stream_inv_def)
  have "to_send pending sd < to_send pending ?sd \<and> sd_pc sd \<noteq> SDone (Some x)"
  proof (cases "sd_pc ?sd")
    case SRead
    then have "send_read (se_scfg E) R (se_smax E) ?sd (sy_psnd y) ?s = (sd, p, s)"
      using st by (simp add: streamToStore_def)
    from send_read_live [OF E SRead I(2) nolim this] show ?thesis
      using SRead by (auto simp: to_send_def neq_Nil_conv)
  next
    case (SWindow d e t)
    with window_reopens_inv [OF E I(4,5) SWindow _ rcv(2) w, of a] rcv(1) a y show ?thesis
      by (simp add: to_send_def smooth_def)
  next
    case (SPut d e)
    obtain z g where "SealData C (se_sid E) (se_dir E) (sd_seq ?sd) d (pr_rng (sy_psnd y)) = (Inr z, g)"
      using seal_data_total by blast
    moreover obtain s' where "PutObject S1 None (DataKey (cfg_Prefix (se_scfg E)) (se_dir E) (se_sid E) (sd_seq ?sd)) z
        octet_stream ?s = (None, s')"
      using live.put_live [OF I(1)] by blast
    ultimately have "sd_pc sd = after_read e \<and> sd_reader sd = sd_reader ?sd"
      using st SPut E a by (auto simp: streamToStore_def send_put_def agreed_def smooth_def Let_def)
    then show ?thesis
      using SPut I(3) by (auto simp: to_send_def closing_def ends_def after_read_def)
  next
    case (SClose r z)
    then have z: "z = None"
      using I(3) by (simp add: closing_def)
    let ?c = "\<lparr>cl_version = Version, cl_session = se_sid E, cl_side = se_side E, cl_reason = r, cl_created = ac_now a\<rparr>"
    have "ebind (Marshal_Close ?c) Unmarshal_Close = Inr (clean_Close ?c)"
      using a by (intro unmarshal_Close) (simp add: wf_message_defs Version_def smooth_def)
    then obtain data where "Marshal_Close ?c = Inr data"
      by (cases "Marshal_Close ?c") auto
    then obtain p' s' where "putClose None (ac_now a) (se_scfg E) (se_sid E) (se_side E) r (sy_psnd y) ?s = (None, p', s')"
      using putJSON_live [OF I(1) live.object_store_axioms, of "se_scfg E"] E unfolding agreed_def putClose_def by metis
    then show ?thesis
      using st SClose z a by (auto simp: streamToStore_def send_close_def smooth_def to_send_def)
  next
    case (SDone x)
    with run show ?thesis by blast
  qed
  then show "to_send pending (sy_snd ?y) < to_send pending (sy_snd y)" "sd_pc (sy_snd ?y) \<noteq> SDone (Some x)"
    using y by simp_all
qed

lemma completes:
  assumes E: "agreed S1 S2 C R E" and a: "smooth a" and nolim: "se_smax E \<le> 0" "se_rmax E \<le> 0"
    and w: "unat (ackInterval (cfg_WindowChunks (se_rcfg E))) \<le> unat (cfg_WindowChunks (se_scfg E))"
    and small: "length input + unat (cfg_WindowChunks (se_scfg E)) < 2 ^ 64"
    and "live_inv objs inv pending clean input E y" and "receiving (sy_rcv y)"
    and "\<And>x. sd_pc (sy_snd y) \<noteq> SDone (Some x)"
  shows "\<exists>y'. (loop_step E a)\<^sup>*\<^sup>* y y' \<and> sd_pc (sy_snd y') = SDone None \<and> rv_pc (sy_rcv y') = RDone None \<and>
    rv_out (sy_rcv y') = input"
  using assms(7-)
proof (induction "to_send pending (sy_snd y)" arbitrary: y rule: less_induct)
  case less
  obtain y1 where y1: "(loop_step E a)\<^sup>*\<^sup>* y y1" "live_inv objs inv pending clean input E y1" "sy_snd y1 = sy_snd y"
    "rv_pc (sy_rcv y1) = RGet" "unat (rv_seq (sy_rcv y1)) = length (sd_log (sy_snd y1))"
    using catch_up [OF E a nolim(2) less.prems] by blast
  show ?case
  proof (cases "sd_pc (sy_snd y1) = SDone None")
    case True
    then have "input = concat (sd_log (sy_snd y1))"
      using y1(2) by (simp add: live_inv_def stream_inv_def bytes_ok_def held_def closing_def)
    with receiver_finishes [OF E a nolim(2) y1(2,4,5) True] True show ?thesis
      using rtranclp_trans [OF y1(1)] by metis
  next
    case False
    with less.prems(3) y1(3) have up: "\<And>x. sd_pc (sy_snd y1) \<noteq> SDone x"
      by (metis not_Some_eq)
    let ?y = "sender_step E a y1"
    note step = sender_progress [OF E a nolim(1) y1(2) up y1(4,5) w]
    have "sy_rcv ?y = sy_rcv y1"
      by (simp add: sender_step_def split: prod.splits)
    then have "receiving (sy_rcv ?y)"
      using y1(4) by (simp add: receiving_def)
    from less.hyps [OF _ live_sender_step [OF E nolim(1) smooth_wf [OF a] small y1(2)] this step(2)] step(1) y1(3)
    obtain y' where "(loop_step E a)\<^sup>*\<^sup>* ?y y'" "sd_pc (sy_snd y') = SDone None" "rv_pc (sy_rcv y') = RDone None"
      "rv_out (sy_rcv y') = input"
      by auto
    then show ?thesis
      using rtranclp_trans [OF y1(1)] loop_run_sender by metis
  qed
qed

text \<open>A receiver at its look for the close object is in the same position when there is none yet.\<close>

lemma completes_from:
  assumes E: "agreed S1 S2 C R E" and a: "smooth a" and nolim: "se_smax E \<le> 0" "se_rmax E \<le> 0"
    and w: "unat (ackInterval (cfg_WindowChunks (se_rcfg E))) \<le> unat (cfg_WindowChunks (se_scfg E))"
    and small: "length (pending r) + unat (cfg_WindowChunks (se_scfg E)) < 2 ^ 64"
    and clean: "clean r" and reach: "stream_reach objs inv E r y"
    and rcv: "\<not> is_rdone (rv_pc (sy_rcv y))"
      "rv_pc (sy_rcv y) = RHead \<Longrightarrow> objs (sy_store y) (CloseKey (cfg_Prefix (se_scfg E)) (se_side E) (se_sid E)) = None"
    and up: "\<And>x. sd_pc (sy_snd y) \<noteq> SDone (Some x)"
  shows "\<exists>y'. (loop_step E a)\<^sup>*\<^sup>* y y' \<and> sd_pc (sy_snd y') = SDone None \<and> rv_pc (sy_rcv y') = RDone None \<and>
    rv_out (sy_rcv y') = pending r"
proof -
  note J = live_reach [OF E nolim(1) clean small reach]
  note run = completes [OF E a nolim w small]
  show ?thesis
  proof (cases "rv_pc (sy_rcv y) = RHead")
    case True
    have "inv (sy_store y)"
      using J by (simp add: live_inv_def stream_inv_def)
    then have "receiving (sy_rcv (receiver_step E a y))"
      using recv_head_live [OF E a True] rcv(2) [OF True] by (simp add: receiving_def)
    moreover note live_receiver_step [OF E smooth_wf [OF a] J]
    ultimately show ?thesis
      using run [of "receiver_step E a y"] up loop_run_receiver [of E a y] by metis
  next
    case False
    then have "receiving (sy_rcv y)"
      using rcv(1) by (cases "rv_pc (sy_rcv y)") (simp_all add: receiving_def)
    with run J up show ?thesis by blast
  qed
qed

end

section \<open>The program's readers, codecs and stores\<close>

text \<open>A script with neither errors nor a cancelled context.\<close>

definition script_clean :: "script \<Rightarrow> bool" where
  "script_clean s \<longleftrightarrow> sc_cancel s = None \<and> list_all (\<lambda>ev. snd ev = None) (sc_events s)"

lemma script_events_read_clean:
  "script_events_read k es = ((d, e), es') \<Longrightarrow> list_all (\<lambda>ev. snd ev = None) es \<Longrightarrow>
   list_all (\<lambda>ev. snd ev = None) es' \<and> (e = None \<or> e = Some IoEOF \<and> es' = [])"
proof (induction k es arbitrary: d e es' rule: script_events_read.induct)
  case (2 k d0 e0 es)
  then show ?case by (auto split: if_splits)
qed simp

interpretation script_live: clean_reader script_reader script_pending script_clean
  by unfold_locales
    (auto simp: script_reader_def script_pending_def script_clean_def split: prod.splits dest: script_events_read_clean)

text \<open>A random source that does not fail, and the codecs over one.\<close>

definition sure_rand :: "('g \<Rightarrow> byte \<times> 'g) \<Rightarrow> 'g \<Rightarrow> byte result \<times> 'g" where
  "sure_rand draw g = (case draw g of (b, g') \<Rightarrow> (Inr b, g'))"

definition sure_codec :: "'g Codec \<Rightarrow> bool" where
  "sure_codec C \<longleftrightarrow> C = NoopCodec \<or> (\<exists>draw c. C = psk_codec (sure_rand draw) c)"

lemma rand_full_sure: "\<exists>bs g'. rand_full (sure_rand draw) n g = (Inr bs, g')"
proof (induction n arbitrary: g)
  case (Suc n)
  obtain b g1 where "draw g = (b, g1)" by force
  with Suc [of g1] show ?case by (auto simp: sure_rand_def)
qed simp

lemma sealRaw_sure: "\<exists>z g'. sealRaw (sure_rand draw) c typ sid dir seq p g = (Inr z, g')"
  using rand_full_sure [of draw 12 g] by (auto simp: sealRaw_def aes_NewCipher_def deriveKey_def)

interpretation noop_sealing: sealing_codec NoopCodec
  by unfold_locales (simp_all add: NoopCodec_def)

interpretation psk_sealing: sealing_codec "psk_codec (sure_rand draw) c" for draw :: "'g \<Rightarrow> byte \<times> 'g" and c
proof (unfold_locales, goal_cases)
  case (1 ty sid dir seq p g)
  show ?case
    using sealRaw_sure [of draw c ty sid dir seq p g] by (auto simp: psk_codec_def sealJSON_def)
next
  case (2 sid dir seq p g)
  show ?case
    using sealRaw_sure [of draw c "''data''" sid dir seq p g] by (auto simp: psk_codec_def psk_SealData_def)
qed

interpretation live_noop: live_stream memory_store memory_store mem_objs mem_inv NoopCodec script_reader script_pending script_clean
  by unfold_locales

interpretation live_psk: live_stream memory_store memory_store mem_objs mem_inv "psk_codec (sure_rand draw) c"
  script_reader script_pending script_clean for draw :: "'g \<Rightarrow> byte \<times> 'g" and c
  by unfold_locales

interpretation delayed_live: live_stream "delay_store int63n profile1 memory_store" "delay_store int63n profile2 memory_store"
  "\<lambda>s. mem_objs (dl_next s)" "\<lambda>s. mem_inv (dl_next s)" "psk_codec (sure_rand draw) c" script_reader script_pending script_clean
  for int63n :: "'r \<Rightarrow> int \<Rightarrow> int \<times> 'r" and profile1 profile2 and draw :: "'g \<Rightarrow> byte \<times> 'g" and c
  by unfold_locales

section \<open>Completion\<close>


definition open_env :: "(mem_store, unit, script) stream_env" where
  "open_env = run_env\<lparr>se_smax := 0, se_rmax := 0\<rparr>"

definition open_sent :: "(mem_store, unit, script) stream_sys" where
  "open_sent = sender_step open_env act0 (sender_step open_env act0 run_start)"

lemma open_sent: "sd_pc (sy_snd open_sent) = SRead" "rv_pc (sy_rcv open_sent) = RGet" "sd_log (sy_snd open_sent) = [[1]]"
  by (simp_all add: open_sent_def open_env_def run_defs)

lemma open_reach: "stream_reach mem_objs mem_inv open_env run_script open_sent"
  unfolding open_sent_def
  by (intro reach_step [OF _ step_send [OF wf_act0]] reach_init)
    (auto simp: stream_init_def run_start_def open_env_def run_env_def new_sender_def mem_new_def mem_objs_def mem_inv_def)


end
