(* ===== verification/Metrics.thy ===== *)
theory Metrics
  imports Protocol DelayStore
begin

text \<open>
  \<open>internal/metrics/objectstore.go\<close>: the classes a key, a listing prefix and a
  result fall into, the collector of counts, and the store wrapper that records
  every operation.  The time an operation takes is read from a clock state of
  type \<open>'c\<close> by \<open>elapsed\<close>.

  The lemmas show that every mailbox key is classified by its family, that the
  wrapper is transparent (it keeps the contract of the store it wraps), and that
  it records exactly one operation per call.
\<close>

section \<open>Classes\<close>

definition OperationPut :: string where "OperationPut = ''put''"
definition OperationGet :: string where "OperationGet = ''get''"
definition OperationHead :: string where "OperationHead = ''head''"
definition OperationList :: string where "OperationList = ''list''"
definition OperationDelete :: string where "OperationDelete = ''delete''"

definition KeyOpen :: string where "KeyOpen = ''open''"
definition KeyOpenResult :: string where "KeyOpenResult = ''open-result''"
definition KeyDataC2S :: string where "KeyDataC2S = ''data-c2s''"
definition KeyDataS2C :: string where "KeyDataS2C = ''data-s2c''"
definition KeyAckC2S :: string where "KeyAckC2S = ''ack-c2s''"
definition KeyAckS2C :: string where "KeyAckS2C = ''ack-s2c''"
definition KeyCloseClient :: string where "KeyCloseClient = ''close-client''"
definition KeyCloseServer :: string where "KeyCloseServer = ''close-server''"
definition KeyHeartbeatClient :: string where "KeyHeartbeatClient = ''heartbeat-client''"
definition KeyHeartbeatServer :: string where "KeyHeartbeatServer = ''heartbeat-server''"
definition KeyListOpen :: string where "KeyListOpen = ''list-open''"
definition KeyUnknown :: string where "KeyUnknown = ''unknown''"

definition ResultSuccess :: string where "ResultSuccess = ''success''"
definition ResultNotFound :: string where "ResultNotFound = ''not_found''"
definition ResultCancelled :: string where "ResultCancelled = ''cancelled''"
definition ResultTimeout :: string where "ResultTimeout = ''timeout''"
definition ResultError :: string where "ResultError = ''error''"

definition splitKey :: "string \<Rightarrow> string list" where
  "splitKey k =
     (let clean = path_clean (trim k ''/'')
      in if clean = ''.'' \<or> clean = [] then [] else splitc (CHR ''/'') clean)"

text \<open>The class from the elements after the first \<open>v1\<close>.\<close>

definition classify_parts :: "string list \<Rightarrow> string" where
  "classify_parts parts =
     (let n = length parts; kind = parts ! 0; sub = parts ! 1
      in if n = 0 then KeyUnknown
         else if kind = ''open'' then (if n = 2 then KeyOpen else KeyUnknown)
         else if kind = ''open-result'' then (if n = 2 then KeyOpenResult else KeyUnknown)
         else if kind = ''data'' then
           (if n \<ge> 4 then (if sub = ''c2s'' then KeyDataC2S else if sub = ''s2c'' then KeyDataS2C else KeyUnknown)
            else KeyUnknown)
         else if kind = ''ack'' then
           (if n \<ge> 3 then (if sub = ''c2s'' then KeyAckC2S else if sub = ''s2c'' then KeyAckS2C else KeyUnknown)
            else KeyUnknown)
         else if kind = ''close'' then
           (if n \<ge> 3 then (if sub = ''client'' then KeyCloseClient else if sub = ''server'' then KeyCloseServer
                          else KeyUnknown)
            else KeyUnknown)
         else if kind = ''heartbeat'' then
           (if n \<ge> 3 then (if sub = ''client'' then KeyHeartbeatClient
                          else if sub = ''server'' then KeyHeartbeatServer else KeyUnknown)
            else KeyUnknown)
         else KeyUnknown)"

definition ClassifyKey :: "string \<Rightarrow> string" where
  "ClassifyKey k = classify_parts (tl (dropWhile (\<lambda>part. part \<noteq> ''v1'') (splitKey k)))"

definition ClassifyListPrefix :: "string \<Rightarrow> string" where
  "ClassifyListPrefix prefix =
     (if ClassifyKey (trimSuffix prefix ''/'' @ ''/placeholder.json'') = KeyOpen then KeyListOpen
      else KeyUnknown)"

definition ClassifyResult :: "err option \<Rightarrow> string" where
  "ClassifyResult e =
     (case e of
        None \<Rightarrow> ResultSuccess
      | Some x \<Rightarrow>
          if IsNotFound e then ResultNotFound
          else if errors_is x CtxCanceled then ResultCancelled
          else if errors_is x CtxDeadlineExceeded then ResultTimeout
          else ResultError)"

section \<open>The collector\<close>

type_synonym operation_key = "string \<times> string \<times> string"

record operationAggregate =
  agg_count :: u64
  agg_durations :: "int list"
  agg_request_bytes :: u64
  agg_response_bytes :: u64

type_synonym Collector = "(operation_key \<times> operationAggregate) list"

definition NewCollector :: Collector where
  "NewCollector = []"

definition ObserveObjectStore ::
  "string \<Rightarrow> string \<Rightarrow> string \<Rightarrow> int \<Rightarrow> u64 \<Rightarrow> u64 \<Rightarrow> Collector option \<Rightarrow> Collector option" where
  "ObserveObjectStore operation keyClass res duration requestBytes responseBytes c =
     (case c of
        None \<Rightarrow> None
      | Some ops \<Rightarrow>
          let k = (operation, keyClass, res);
              agg = (case map_of ops k of
                       None \<Rightarrow> \<lparr>agg_count = 0, agg_durations = [], agg_request_bytes = 0, agg_response_bytes = 0\<rparr>
                     | Some a \<Rightarrow> a)
          in Some (AList.update k
               (agg\<lparr>agg_count := agg_count agg + 1,
                    agg_durations := agg_durations agg @ [duration],
                    agg_request_bytes := agg_request_bytes agg + requestBytes,
                    agg_response_bytes := agg_response_bytes agg + responseBytes\<rparr>) ops))"

section \<open>The instrumented store\<close>

record ('s, 'c) instr_state =
  in_next :: 's
  in_collector :: "Collector option"
  in_clock :: 'c

definition err_of :: "'a result \<Rightarrow> err option" where
  "err_of r = (case r of Inl e \<Rightarrow> Some e | Inr _ \<Rightarrow> None)"

definition observe ::
  "('c \<Rightarrow> int \<times> 'c) \<Rightarrow> string \<Rightarrow> string \<Rightarrow> err option \<Rightarrow> u64 \<Rightarrow> u64 \<Rightarrow> ('s, 'c) instr_state
     \<Rightarrow> ('s, 'c) instr_state" where
  "observe elapsed operation keyClass e requestBytes responseBytes s =
     (case elapsed (in_clock s) of (d, clk) \<Rightarrow>
        s\<lparr>in_collector := ObserveObjectStore operation keyClass (ClassifyResult e) d requestBytes
             responseBytes (in_collector s),
          in_clock := clk\<rparr>)"

definition instr_PutObject where
  "instr_PutObject elapsed Next ctx k data opts s =
     (case PutObject Next ctx k data opts (in_next s) of (e, n) \<Rightarrow>
        (e, observe elapsed OperationPut (ClassifyKey k) e (of_nat (length data)) 0 (s\<lparr>in_next := n\<rparr>)))"

definition instr_GetObject where
  "instr_GetObject elapsed Next ctx k s =
     (case GetObject Next ctx k (in_next s) of (r, n) \<Rightarrow>
        let responseBytes = (case r of Inl _ \<Rightarrow> 0 | Inr d \<Rightarrow> of_nat (length d))
        in (r, observe elapsed OperationGet (ClassifyKey k) (err_of r) 0 responseBytes (s\<lparr>in_next := n\<rparr>)))"

definition instr_HeadObject where
  "instr_HeadObject elapsed Next ctx k s =
     (case HeadObject Next ctx k (in_next s) of (r, n) \<Rightarrow>
        (r, observe elapsed OperationHead (ClassifyKey k) (err_of r) 0 0 (s\<lparr>in_next := n\<rparr>)))"

definition instr_ListPrefixPage where
  "instr_ListPrefixPage elapsed Next ctx prefix opts s =
     (case ListPrefixPage Next ctx prefix opts (in_next s) of (r, n) \<Rightarrow>
        let responseBytes = (case r of Inl _ \<Rightarrow> 0
              | Inr page \<Rightarrow> foldl (\<lambda>acc k. acc + of_nat (length k)) 0 (page_keys page))
        in (r, observe elapsed OperationList (ClassifyListPrefix prefix) (err_of r) 0 responseBytes
                 (s\<lparr>in_next := n\<rparr>)))"

definition instr_ListPrefix where
  "instr_ListPrefix elapsed Next ctx prefix opts s =
     keys_of_page (instr_ListPrefixPage elapsed Next ctx prefix opts s)"

definition instr_DeleteObject where
  "instr_DeleteObject elapsed Next ctx k s =
     (case DeleteObject Next ctx k (in_next s) of (e, n) \<Rightarrow>
        (e, observe elapsed OperationDelete (ClassifyKey k) e 0 0 (s\<lparr>in_next := n\<rparr>)))"

definition instrumented_store ::
  "('c \<Rightarrow> int \<times> 'c) \<Rightarrow> 's ObjectStore \<Rightarrow> ('s, 'c) instr_state ObjectStore" where
  "instrumented_store elapsed Next =
     \<lparr>PutObject = instr_PutObject elapsed Next,
      GetObject = instr_GetObject elapsed Next,
      HeadObject = instr_HeadObject elapsed Next,
      ListPrefix = instr_ListPrefix elapsed Next,
      ListPrefixPage = instr_ListPrefixPage elapsed Next,
      DeleteObject = instr_DeleteObject elapsed Next\<rparr>"

lemmas instr_ops_def = instrumented_store_def instr_PutObject_def instr_GetObject_def
  instr_HeadObject_def instr_ListPrefixPage_def instr_ListPrefix_def instr_DeleteObject_def

lemma observe_next [simp]: "in_next (observe elapsed opn kc e rq rs s) = in_next s"
  by (simp add: observe_def split: prod.split)

locale instrumented = object_store S objs inv
  for S :: "'s ObjectStore" and objs inv +
  fixes elapsed :: "'c \<Rightarrow> int \<times> 'c"

sublocale instrumented \<subseteq> ins: object_store "instrumented_store elapsed S"
  "\<lambda>s. objs (in_next s)" "\<lambda>s. inv (in_next s)"
proof (unfold_locales, goal_cases)
  case (1 s)
  then show ?case by (rule finite_objs)
next
  case (2 s k d opts)
  then show ?case using put_live [OF 2, of k d opts] by (auto simp: instr_ops_def)
next
  case (3 s k)
  then show ?case using get_live [OF 3, of k] by (auto simp: instr_ops_def Let_def)
next
  case (4 s k)
  then show ?case using head_live [OF 4, of k] by (auto simp: instr_ops_def)
next
  case (5 s prefix lopts)
  then show ?case using list_live [OF 5, of prefix lopts] by (auto simp: instr_ops_def Let_def)
next
  case (6 ctx prefix lopts s)
  show ?case by (simp add: instr_ops_def)
next
  case (7 s k)
  then show ?case using delete_live [OF 7, of k] by (auto simp: instr_ops_def)
next
  case (8 s e k d opts)
  then show ?case using put_ended [OF 8, of e k d opts] by (auto simp: instr_ops_def)
next
  case (9 s e k)
  then show ?case using get_ended [OF 9, of e k] by (auto simp: instr_ops_def Let_def)
next
  case (10 s e k)
  then show ?case using head_ended [OF 10, of e k] by (auto simp: instr_ops_def)
next
  case (11 s e prefix lopts)
  then show ?case using list_ended [OF 11, of e prefix lopts] by (auto simp: instr_ops_def Let_def)
next
  case (12 s e k)
  then show ?case using delete_ended [OF 12, of e k] by (auto simp: instr_ops_def)
qed

interpretation instr_mem: instrumented memory_store mem_objs mem_inv elapsed
  for elapsed :: "'c \<Rightarrow> int \<times> 'c"
  by unfold_locales

text \<open>The benchmark's stack: metrics over delay over memory.\<close>

interpretation instr_delay_mem: instrumented "delay_store int63n profile memory_store"
  "\<lambda>s. mem_objs (dl_next s)" "\<lambda>s. mem_inv (dl_next s)" elapsed
  for int63n :: "'r \<Rightarrow> int \<Rightarrow> int \<times> 'r" and profile and elapsed :: "'c \<Rightarrow> int \<times> 'c"
  by unfold_locales

section \<open>Classes of mailbox keys\<close>

fun object_class :: "mailbox_object \<Rightarrow> string" where
  "object_class (OpenObj sid) = KeyOpen"
| "object_class (OpenResultObj sid) = KeyOpenResult"
| "object_class (DataObj dir sid seq) = (if dir = ''c2s'' then KeyDataC2S else KeyDataS2C)"
| "object_class (AckObj dir sid) = (if dir = ''c2s'' then KeyAckC2S else KeyAckS2C)"
| "object_class (CloseObj side sid) = (if side = ''client'' then KeyCloseClient else KeyCloseServer)"
| "object_class (HeartbeatObj side sid) =
     (if side = ''client'' then KeyHeartbeatClient else KeyHeartbeatServer)"

text \<open>Objects the tunnel makes: its two directions, its two sides, a plain session.\<close>

fun tunnel_object :: "mailbox_object \<Rightarrow> bool" where
  "tunnel_object (OpenObj sid) = plain_comp sid"
| "tunnel_object (OpenResultObj sid) = plain_comp sid"
| "tunnel_object (DataObj dir sid seq) = (dir \<in> {''c2s'', ''s2c''} \<and> plain_comp sid)"
| "tunnel_object (AckObj dir sid) = (dir \<in> {''c2s'', ''s2c''} \<and> plain_comp sid)"
| "tunnel_object (CloseObj side sid) = (side \<in> {''client'', ''server''} \<and> plain_comp sid)"
| "tunnel_object (HeartbeatObj side sid) = (side \<in> {''client'', ''server''} \<and> plain_comp sid)"

lemma tunnel_object_wf: "tunnel_object ob \<Longrightarrow> wf_object ob"
  by (cases ob) auto

lemma trim_slash_id:
  assumes "clean_form cs" and "cs \<noteq> []"
  shows "trim (join ''/'' cs) ''/'' = join ''/'' cs"
proof (rule trim_id)
  show "join ''/'' cs = [] \<or> hd (join ''/'' cs) \<notin> set ''/''"
    using join_not_rooted [OF assms(1)] by (cases "join ''/'' cs") (auto simp: hasPrefix_def)
  obtain ds c where cs: "cs = ds @ [c]"
    using assms(2) by (metis append_butlast_last_id)
  then have "c \<noteq> []" and "CHR ''/'' \<notin> set c"
    using assms(1) by (auto dest: clean_form_nonempty_comp clean_form_no_slash)
  moreover have "join ''/'' cs = (if ds = [] then [] else join ''/'' ds @ ''/'') @ c"
    by (simp add: cs join_append)
  ultimately have "last (join ''/'' cs) = last c"
    by simp
  with \<open>c \<noteq> []\<close> \<open>CHR ''/'' \<notin> set c\<close> show "join ''/'' cs = [] \<or> last (join ''/'' cs) \<notin> set ''/''"
    by (metis empty_iff empty_set last_in_set set_ConsD)
qed

lemma splitKey_join:
  assumes "clean_form cs" and "cs \<noteq> []"
  shows "splitKey (join ''/'' cs) = cs"
proof -
  have sp: "splitc (CHR ''/'') (join ''/'' cs) = cs"
    using assms by (auto intro!: splitc_join dest: clean_form_no_slash)
  have "cs \<noteq> [[]]"
    using assms(1) by (auto dest: clean_form_nonempty_comp)
  then have 1: "join ''/'' cs \<noteq> []"
    using sp by (metis splitc.simps(1))
  have "cs \<noteq> [''.'']"
    using clean_form_mem [OF assms(1), of "''.''"] by (auto simp: plain_comp_def)
  moreover have "splitc (CHR ''/'') ''.'' = [''.'']"
    by simp
  ultimately have 2: "join ''/'' cs \<noteq> ''.''"
    using sp by metis
  from sp 1 2 show ?thesis
    by (simp add: splitKey_def trim_slash_id [OF assms] path_clean_join [OF assms])
qed

lemma splitKey_object:
  assumes "wf_object ob"
  shows "splitKey (object_key prefix ob) = prefix_comps prefix @ object_parts ob"
  unfolding object_key_join [OF assms]
  using clean_form_append_plain [OF clean_form_prefix_comps object_parts_plain [OF assms]]
  by (simp add: splitKey_join)

lemma dropWhile_v1: "''v1'' \<notin> set cs \<Longrightarrow> dropWhile (\<lambda>p. p \<noteq> ''v1'') (cs @ ''v1'' # ds) = ''v1'' # ds"
  by (induction cs) auto

text \<open>
  Every key the tunnel uses is put in the class of its family, direction and
  side, provided that the configured prefix has no element \<open>v1\<close> of its own.
\<close>

theorem ClassifyKey_object:
  assumes "tunnel_object ob" and "''v1'' \<notin> set (prefix_comps prefix)"
  shows "ClassifyKey (object_key prefix ob) = object_class ob"
proof -
  have "object_parts ob = ''v1'' # tl (object_parts ob)"
    by (cases ob) simp_all
  then have "tl (dropWhile (\<lambda>p. p \<noteq> ''v1'') (splitKey (object_key prefix ob))) = tl (object_parts ob)"
    using splitKey_object [OF tunnel_object_wf [OF assms(1)]] dropWhile_v1 [OF assms(2)] by (metis list.sel(3))
  then show ?thesis
    using assms(1) by (cases ob) (auto simp: ClassifyKey_def classify_parts_def Let_def)
qed

lemma prefix_comps_pre: "prefix_comps ''pre'' = [''pre'']"
  by (simp add: prefix_comps_def NormalizePrefix_def trim_def trimRight_def clean_comps_def clean_step_def)

theorem ClassifyKey_object_witness:
  "ClassifyKey (object_key ''pre'' (AckObj ''s2c'' ''ab'')) = KeyAckS2C"
  using ClassifyKey_object [of "AckObj ''s2c'' ''ab''" "''pre''"]
  by (simp add: prefix_comps_pre plain_comp_def)

text \<open>
  A prefix that has an element \<open>v1\<close> defeats the classification: the first
  \<open>v1\<close> is taken, so under the prefix \<open>app/v1\<close> every open request, every ACK of the
  client's stream and every data chunk counts as unknown.
\<close>

theorem ClassifyKey_v1_prefix:
  assumes "plain_comp sid"
  shows "ClassifyKey (OpenKey ''app/v1'' sid) = KeyUnknown \<and>
    ClassifyKey (AckKey ''app/v1'' ''c2s'' sid) = KeyUnknown \<and>
    ClassifyKey (DataKey ''app/v1'' ''c2s'' sid seq) = KeyUnknown"
proof -
  have pc: "prefix_comps ''app/v1'' = [''app'', ''v1'']"
    by (simp add: prefix_comps_def NormalizePrefix_def trim_def trimRight_def clean_comps_def clean_step_def)
  have "ClassifyKey (object_key ''app/v1'' ob) = classify_parts (object_parts ob)" if "wf_object ob" for ob
    by (simp add: ClassifyKey_def splitKey_object [OF that] pc)
  from this [of "OpenObj sid"] this [of "AckObj ''c2s'' sid"] this [of "DataObj ''c2s'' sid seq"] assms
  show ?thesis
    by (simp add: classify_parts_def)
qed

theorem ClassifyKey_v1_prefix_witness: "ClassifyKey (OpenKey ''app/v1'' ''ab'') = KeyUnknown"
  using ClassifyKey_v1_prefix [of "''ab''"] by (simp add: plain_comp_def)

section \<open>Transparency and exact accounting\<close>

text \<open>A call of the store interface, its result, and the error it is classified by.\<close>

datatype store_call =
    CallPut string bytes PutOptions
  | CallGet string
  | CallHead string
  | CallList string ListOptions
  | CallDelete string

datatype call_result =
    GotErr "err option"
  | GotBytes "bytes result"
  | GotInfo "ObjectInfo result"
  | GotPage "ListPage result"

fun exec_call :: "'s ObjectStore \<Rightarrow> ctx \<Rightarrow> store_call \<Rightarrow> 's \<Rightarrow> call_result \<times> 's" where
  "exec_call S ctx (CallPut k d opts) s = map_prod GotErr id (PutObject S ctx k d opts s)"
| "exec_call S ctx (CallGet k) s = map_prod GotBytes id (GetObject S ctx k s)"
| "exec_call S ctx (CallHead k) s = map_prod GotInfo id (HeadObject S ctx k s)"
| "exec_call S ctx (CallList p opts) s = map_prod GotPage id (ListPrefixPage S ctx p opts s)"
| "exec_call S ctx (CallDelete k) s = map_prod GotErr id (DeleteObject S ctx k s)"

fun exec_calls :: "'s ObjectStore \<Rightarrow> (ctx \<times> store_call) list \<Rightarrow> 's \<Rightarrow> call_result list \<times> 's" where
  "exec_calls S [] s = ([], s)"
| "exec_calls S ((ctx, c) # cs) s =
     (case exec_call S ctx c s of (r, s1) \<Rightarrow>
      case exec_calls S cs s1 of (rs, s2) \<Rightarrow> (r # rs, s2))"

fun call_error :: "call_result \<Rightarrow> err option" where
  "call_error (GotErr e) = e"
| "call_error (GotBytes r) = err_of r"
| "call_error (GotInfo r) = err_of r"
| "call_error (GotPage r) = err_of r"

fun call_class :: "store_call \<Rightarrow> string \<times> string" where
  "call_class (CallPut k d opts) = (OperationPut, ClassifyKey k)"
| "call_class (CallGet k) = (OperationGet, ClassifyKey k)"
| "call_class (CallHead k) = (OperationHead, ClassifyKey k)"
| "call_class (CallList p opts) = (OperationList, ClassifyListPrefix p)"
| "call_class (CallDelete k) = (OperationDelete, ClassifyKey k)"

definition call_key :: "store_call \<Rightarrow> call_result \<Rightarrow> operation_key" where
  "call_key c r = (fst (call_class c), snd (call_class c), ClassifyResult (call_error r))"

definition op_count :: "Collector option \<Rightarrow> operation_key \<Rightarrow> u64" where
  "op_count c q = (case c of None \<Rightarrow> 0
     | Some ops \<Rightarrow> (case map_of ops q of None \<Rightarrow> 0 | Some a \<Rightarrow> agg_count a))"

lemma observe_collector_None [simp]:
  "(in_collector (observe el opn kc e rq rs s) = None) = (in_collector s = None)"
  by (simp add: observe_def ObserveObjectStore_def Let_def split: prod.split option.split)

lemma op_count_observe:
  "in_collector s \<noteq> None \<Longrightarrow>
   op_count (in_collector (observe el opn kc e rq rs s)) q =
     op_count (in_collector s) q + (if q = (opn, kc, ClassifyResult e) then 1 else 0)"
  by (auto simp: observe_def ObserveObjectStore_def op_count_def Let_def update_conv'
      split: prod.split option.split)

lemma exec_call_instrumented:
  "exec_call (instrumented_store el S) ctx c s = (r, s') \<Longrightarrow>
   exec_call S ctx c (in_next s) = (r, in_next s') \<and>
   (in_collector s' = None) = (in_collector s = None) \<and>
   (in_collector s \<noteq> None \<longrightarrow>
    op_count (in_collector s') q = op_count (in_collector s) q + (if q = call_key c r then 1 else 0))"
  by (cases c) (auto simp: instr_ops_def call_key_def Let_def op_count_observe
      simp del: not_None_eq split: prod.splits)


lemma exec_calls_counts:
  assumes "in_collector s \<noteq> None"
    and "exec_calls (instrumented_store el S) cs s = (rs, s')"
  shows "op_count (in_collector s') q = op_count (in_collector s) q +
    of_nat (length (filter (\<lambda>(c, r). call_key (snd c) r = q) (zip cs rs)))"
  using assms
proof (induction cs arbitrary: s rs)
  case (Cons x cs)
  obtain ctx c where x: "x = (ctx, c)" by (cases x)
  obtain r s1 where 1: "exec_call (instrumented_store el S) ctx c s = (r, s1)"
    by (cases "exec_call (instrumented_store el S) ctx c s")
  with Cons.prems obtain rt where 2: "exec_calls (instrumented_store el S) cs s1 = (rt, s')" "rs = r # rt"
    by (auto simp: x split: prod.splits)
  have 3: "in_collector s1 \<noteq> None"
    using exec_call_instrumented [OF 1, of q] Cons.prems(1) by simp
  have "op_count (in_collector s1) q = op_count (in_collector s) q + (if q = call_key c r then 1 else 0)"
    using exec_call_instrumented [OF 1, of q] Cons.prems(1) by simp
  with Cons.IH [OF 3 2(1)] show ?case
    by (auto simp: x 2(2))
qed simp

text \<open>
  The collector's count of an operation, key class and result grows by
  exactly the number of calls of that kind (modulo \<open>2 ^ 64\<close>, the width of the
  counter), over any sequence of operations on any store.
\<close>

theorem instrumented_counts_calls:
  assumes "in_collector s \<noteq> None"
    and "exec_calls (instrumented_store el S) cs s = (rs, s')"
  shows "op_count (in_collector s') q = op_count (in_collector s) q +
    of_nat (length (filter (\<lambda>(c, r). call_key (snd c) r = q) (zip cs rs)))"
  using assms by (rule exec_calls_counts)

theorem instrumented_counts_calls_witness:
  "op_count (in_collector (snd (exec_calls (instrumented_store (\<lambda>c. (0, c)) memory_store)
      [(None, CallGet ''a''), (None, CallGet ''b'')]
      \<lparr>in_next = mem_new, in_collector = Some NewCollector, in_clock = ()\<rparr>)))
     (OperationGet, KeyUnknown, ResultNotFound) = 2"
proof -
  let ?s = "\<lparr>in_next = mem_new, in_collector = Some NewCollector, in_clock = ()\<rparr>"
  let ?cs = "[(None, CallGet ''a''), (None, CallGet ''b'')] :: (ctx \<times> store_call) list"
  let ?q = "(OperationGet, KeyUnknown, ResultNotFound)"
  obtain rs s' where ex: "exec_calls (instrumented_store (\<lambda>c. (0, c)) memory_store) ?cs ?s = (rs, s')"
    by (meson surj_pair)
  have "fst (exec_calls (instrumented_store (\<lambda>c. (0, c)) memory_store) ?cs ?s) =
      [GotBytes (Inl ErrNotFound), GotBytes (Inl ErrNotFound)]"
    by code_simp
  with ex have rs: "rs = [GotBytes (Inl ErrNotFound), GotBytes (Inl ErrNotFound)]"
    by simp
  have k: "call_key (CallGet ''a'') (GotBytes (Inl ErrNotFound)) = ?q"
    "call_key (CallGet ''b'') (GotBytes (Inl ErrNotFound)) = ?q"
    by code_simp+
  have "op_count (in_collector s') ?q = op_count (in_collector ?s) ?q +
      of_nat (length (filter (\<lambda>(c, r). call_key (snd c) r = ?q) (zip ?cs rs)))"
    by (rule instrumented_counts_calls [OF _ ex]) simp
  also have "\<dots> = 2"
    by (simp add: rs k) (simp add: op_count_def NewCollector_def)
  finally show ?thesis
    unfolding ex snd_conv .
qed

end
