(* ===== verification/Summary.thy ===== *)
theory Summary
  imports Metrics GoTime "HOL-Library.Product_Lexorder"
begin

text \<open>
  \<open>internal/metrics/objectstore.go\<close>, the reading side: the snapshot of a collector
  and the summary of its durations.  \<open>float64\<close> values are rationals, every operation
  rounded (\<open>flr\<close> of the theory GoTime); the product and the sum in the index of a
  percentile are rounded one after the other, as without fused multiply-add.

  The lemmas show that the percentiles are durations that were measured and in order,
  and that a snapshot accounts for every call made through an instrumented store.
\<close>

section \<open>Durations\<close>

record DurationStats =
  ds_Count :: u64
  ds_TotalMillis :: rat
  ds_MinMillis :: rat
  ds_P50Millis :: rat
  ds_P95Millis :: rat
  ds_P99Millis :: rat
  ds_MaxMillis :: rat

definition millis :: "int \<Rightarrow> rat" where
  "millis d = flr (flr (of_int d) / 10 ^ 6)"

text \<open>The index is clamped at both ends.\<close>

definition clamp_index :: "nat \<Rightarrow> int \<Rightarrow> nat" where
  "clamp_index n idx = (if idx < 0 then 0 else if idx \<ge> int n then n - 1 else nat idx)"

definition percentile_index :: "nat \<Rightarrow> rat \<Rightarrow> nat" where
  "percentile_index n p = clamp_index n \<lfloor>flr (flr (p * flr (of_nat (n - 1))) + 1 / 2)\<rfloor>"

definition percentile :: "int list \<Rightarrow> rat \<Rightarrow> int" where
  "percentile ds p =
     (if ds = [] then 0 else if length ds = 1 then hd ds else ds ! percentile_index (length ds) p)"

definition SummarizeDurations :: "int list \<Rightarrow> DurationStats" where
  "SummarizeDurations samples0 =
     (if samples0 = [] then
        \<lparr>ds_Count = 0, ds_TotalMillis = 0, ds_MinMillis = 0, ds_P50Millis = 0, ds_P95Millis = 0,
         ds_P99Millis = 0, ds_MaxMillis = 0\<rparr>
      else
        let samples = sort samples0 in
        \<lparr>ds_Count = of_nat (length samples),
         ds_TotalMillis = millis (foldl (\<lambda>tm d. wrap64 (tm + d)) 0 samples),
         ds_MinMillis = millis (hd samples),
         ds_P50Millis = millis (percentile samples (flr (50 / 100))),
         ds_P95Millis = millis (percentile samples (flr (95 / 100))),
         ds_P99Millis = millis (percentile samples (flr (99 / 100))),
         ds_MaxMillis = millis (last samples)\<rparr>)"

lemma millis_mono: "a \<le> b \<Longrightarrow> millis a \<le> millis b"
  unfolding millis_def by (intro flr_mono divide_right_mono) (simp_all add: flr_mono)

lemma flr_nonneg: "0 \<le> x \<Longrightarrow> 0 \<le> flr x"
  by (simp add: flr_def fl_nonneg)

lemma percentile_index_less: "0 < n \<Longrightarrow> percentile_index n p < n"
  by (auto simp: percentile_index_def clamp_index_def nat_less_iff)

lemma clamp_index_mono: "a \<le> b \<Longrightarrow> clamp_index n a \<le> clamp_index n b"
  by (auto simp: clamp_index_def)

lemma percentile_index_mono: "p \<le> q \<Longrightarrow> percentile_index n p \<le> percentile_index n q"
  unfolding percentile_index_def
  by (intro clamp_index_mono floor_mono flr_mono add_right_mono mult_right_mono flr_nonneg) simp_all

lemma percentile_mem: "ds \<noteq> [] \<Longrightarrow> percentile ds p \<in> set ds"
  by (auto simp: percentile_def percentile_index_less)

lemma percentile_mono: "sorted ds \<Longrightarrow> p \<le> q \<Longrightarrow> percentile ds p \<le> percentile ds q"
  by (auto simp: percentile_def sorted_nth_mono percentile_index_mono percentile_index_less)

lemma sorted_hd_last:
  fixes ds :: "int list"
  assumes "sorted ds" and "x \<in> set ds"
  shows "hd ds \<le> x \<and> x \<le> last ds"
proof -
  obtain a r where "ds = a # r" using assms(2) by (cases ds) auto
  moreover obtain b q where "ds = q @ [b]" using assms(2) by (cases ds rule: rev_cases) auto
  ultimately show ?thesis
    using assms by (metis list.sel(1) last_snoc list.set_cases order_refl set_ConsD sorted_append sorted_simps(2) Un_iff set_append empty_iff list.set(1) list.set_intros(1))
qed

text \<open>
  The summary of any samples counts them, its minimum, median, 95th and 99th
  percentile and maximum are in this order, and each is one of the samples in
  milliseconds (zero without samples): no rounding puts them out of order.
\<close>

theorem SummarizeDurations_ordered:
  "ds_Count (SummarizeDurations samples) = of_nat (length samples) \<and>
   sorted [ds_MinMillis (SummarizeDurations samples), ds_P50Millis (SummarizeDurations samples),
     ds_P95Millis (SummarizeDurations samples), ds_P99Millis (SummarizeDurations samples),
     ds_MaxMillis (SummarizeDurations samples)] \<and>
   {ds_MinMillis (SummarizeDurations samples), ds_P50Millis (SummarizeDurations samples),
     ds_P95Millis (SummarizeDurations samples), ds_P99Millis (SummarizeDurations samples),
     ds_MaxMillis (SummarizeDurations samples)} \<subseteq> (if samples = [] then {0} else millis ` set samples)"
proof (cases "samples = []")
  case False
  let ?s = "sort samples"
  have s: "sorted ?s" "set ?s = set samples" "?s \<noteq> []"
    using False by (simp_all, metis set_empty set_sort)
  have p: "flr (50 / 100) \<le> flr (95 / 100)" "flr (95 / 100) \<le> flr (99 / 100)"
    by (simp_all add: flr_mono)
  have m: "percentile ?s q \<in> set samples" "hd ?s \<in> set samples" "last ?s \<in> set samples" for q
    using s(2) percentile_mem [OF s(3)] hd_in_set [OF s(3)] last_in_set [OF s(3)] by simp_all
  then have b: "hd ?s \<le> percentile ?s q" "percentile ?s q \<le> last ?s" for q
    using sorted_hd_last [OF s(1)] s(2) by simp_all
  have e: "hd ?s \<le> last ?s"
    using sorted_hd_last [OF s(1)] m(3) s(2) by simp
  note mono = percentile_mono [OF s(1) p(1)] percentile_mono [OF s(1) p(2)]
  show ?thesis
    using False m b mono [THEN millis_mono] b [THEN millis_mono] millis_mono [OF e]
    by (auto simp: SummarizeDurations_def Let_def intro: order_trans)
qed (simp add: SummarizeDurations_def)

section \<open>Snapshots\<close>

record OperationMetrics =
  om_Operation :: string
  om_KeyClass :: string
  om_Result :: string
  om_Count :: u64
  om_Duration :: DurationStats
  om_RequestBytes :: u64
  om_ResponseBytes :: u64

definition om_key :: "OperationMetrics \<Rightarrow> operation_key" where
  "om_key op = (om_Operation op, om_KeyClass op, om_Result op)"

fun operation_metrics :: "operation_key \<times> operationAggregate \<Rightarrow> OperationMetrics" where
  "operation_metrics ((opn, kc, res), agg) =
     \<lparr>om_Operation = opn, om_KeyClass = kc, om_Result = res, om_Count = agg_count agg,
      om_Duration = SummarizeDurations (agg_durations agg), om_RequestBytes = agg_request_bytes agg,
      om_ResponseBytes = agg_response_bytes agg\<rparr>"

text \<open>The entries in the order of operation, key class and result; a nil collector has none.\<close>

definition Snapshot :: "Collector option \<Rightarrow> OperationMetrics list" where
  "Snapshot c = (case c of None \<Rightarrow> [] | Some ops \<Rightarrow> sort_key om_key (map operation_metrics ops))"

text \<open>One entry per key, with as many durations as it counts.\<close>

definition collector_inv :: "Collector \<Rightarrow> bool" where
  "collector_inv ops \<longleftrightarrow> distinct (map fst ops) \<and>
     (\<forall>(q, a) \<in> set ops. agg_durations a \<noteq> [] \<and> agg_count a = of_nat (length (agg_durations a)))"

lemma om_key_metrics [simp]: "om_key (operation_metrics x) = fst x"
  by (cases x) (auto simp: om_key_def)

lemma om_Count_metrics [simp]: "om_Count (operation_metrics x) = agg_count (snd x)"
  by (cases x) auto

lemma om_Duration_metrics [simp]: "om_Duration (operation_metrics x) = SummarizeDurations (agg_durations (snd x))"
  by (cases x) auto

lemma keys_update: "fst ` set (AList.update k v al) = insert k (fst ` set al)"
  by (induction al) auto

lemma collector_inv_observe:
  assumes "collector_inv ops"
  shows "\<exists>ops'. ObserveObjectStore opn kc res d rq rs (Some ops) = Some ops' \<and> collector_inv ops' \<and>
    fst ` set ops' = insert (opn, kc, res) (fst ` set ops)"
proof -
  let ?k = "(opn, kc, res)"
  let ?a = "case map_of ops ?k of None \<Rightarrow> \<lparr>agg_count = 0, agg_durations = [], agg_request_bytes = 0, agg_response_bytes = 0\<rparr>
    | Some a \<Rightarrow> a"
  let ?b = "?a\<lparr>agg_count := agg_count ?a + 1, agg_durations := agg_durations ?a @ [d],
    agg_request_bytes := agg_request_bytes ?a + rq, agg_response_bytes := agg_response_bytes ?a + rs\<rparr>"
  have "agg_count ?a = of_nat (length (agg_durations ?a))"
    using assms by (auto simp: collector_inv_def dest: map_of_SomeD split: option.split)
  then have "agg_count ?b = of_nat (length (agg_durations ?b))" "agg_durations ?b \<noteq> []"
    by simp_all
  moreover have "set (AList.update ?k ?b ops) \<subseteq> insert (?k, ?b) (set ops)"
    by (induction ops) auto
  ultimately have "collector_inv (AList.update ?k ?b ops)"
    using assms by (fastforce simp: collector_inv_def distinct_update)
  moreover have "ObserveObjectStore opn kc res d rq rs (Some ops) = Some (AList.update ?k ?b ops)"
    by (simp add: ObserveObjectStore_def Let_def)
  moreover have "fst ` set (AList.update ?k ?b ops) = insert ?k (fst ` set ops)"
    by (rule keys_update)
  ultimately show ?thesis by blast
qed

lemma exec_call_collector:
  assumes "exec_call (instrumented_store el S) ctx c s = (r, s')"
    and "in_collector s = Some ops" and "collector_inv ops"
  shows "\<exists>ops'. in_collector s' = Some ops' \<and> collector_inv ops' \<and>
    fst ` set ops' = insert (call_key c r) (fst ` set ops)"
proof -
  have "\<exists>d rq rs. in_collector s' =
      ObserveObjectStore (fst (call_class c)) (snd (call_class c)) (ClassifyResult (call_error r)) d rq rs (in_collector s)"
    using assms(1) by (cases c) (fastforce simp: instr_ops_def observe_def Let_def split: prod.splits)+
  then show ?thesis
    using collector_inv_observe [OF assms(3)] assms(2) by (metis call_key_def)
qed

lemma exec_calls_collector:
  assumes "exec_calls (instrumented_store el S) cs s = (rs, s')"
    and "in_collector s = Some ops" and "collector_inv ops"
  shows "\<exists>ops'. in_collector s' = Some ops' \<and> collector_inv ops' \<and>
    fst ` set ops' = fst ` set ops \<union> (\<lambda>(c, r). call_key (snd c) r) ` set (zip cs rs)"
  using assms
proof (induction cs arbitrary: s rs ops)
  case (Cons x cs)
  obtain ctx c where x: "x = (ctx, c)" by (cases x)
  obtain r s1 where 1: "exec_call (instrumented_store el S) ctx c s = (r, s1)"
    by (cases "exec_call (instrumented_store el S) ctx c s")
  with Cons.prems(1) obtain rt where 2: "exec_calls (instrumented_store el S) cs s1 = (rt, s')" "rs = r # rt"
    by (auto simp: x split: prod.splits)
  obtain ops1 where 3: "in_collector s1 = Some ops1" "collector_inv ops1"
    "fst ` set ops1 = insert (call_key c r) (fst ` set ops)"
    using exec_call_collector [OF 1 Cons.prems(2,3)] by blast
  from Cons.IH [OF 2(1) 3(1,2)] show ?case
    by (auto simp: x 2(2) 3(3))
qed auto

lemma Snapshot_Some: "set (Snapshot (Some ops)) = operation_metrics ` set ops"
  by (simp add: Snapshot_def)

lemma sorted_om_keys: "sorted (map om_key (Snapshot c))"
  by (simp add: Snapshot_def split: option.split)

lemma distinct_om_keys: "collector_inv ops \<Longrightarrow> distinct (map om_key (Snapshot (Some ops)))"
proof -
  assume "collector_inv ops"
  then have "distinct (map om_key (map operation_metrics ops))"
    by (simp add: collector_inv_def comp_def)
  then show ?thesis
    unfolding Snapshot_def option.case distinct_map [of om_key] distinct_sort set_sort .
qed

lemma set_om_keys: "set (map om_key (Snapshot (Some ops))) = fst ` set ops"
  by (simp add: Snapshot_Some image_image)

lemma exec_calls_snapshot:
  assumes "in_collector s = Some NewCollector"
    and "exec_calls (instrumented_store el S) cs s = (rs, s')"
  shows "sorted (map om_key (Snapshot (in_collector s'))) \<and> distinct (map om_key (Snapshot (in_collector s'))) \<and>
    set (map om_key (Snapshot (in_collector s'))) = (\<lambda>(c, r). call_key (snd c) r) ` set (zip cs rs) \<and>
    (\<forall>op \<in> set (Snapshot (in_collector s')).
       om_Count op = of_nat (length (filter (\<lambda>(c, r). call_key (snd c) r = om_key op) (zip cs rs))) \<and>
       ds_Count (om_Duration op) = om_Count op)"
proof -
  obtain ops where ops: "in_collector s' = Some ops" "collector_inv ops"
    "fst ` set ops = (\<lambda>(c, r). call_key (snd c) r) ` set (zip cs rs)"
    using exec_calls_collector [OF assms(2,1)] by (auto simp: NewCollector_def collector_inv_def)
  have count: "agg_count a = of_nat (length (filter (\<lambda>(c, r). call_key (snd c) r = q) (zip cs rs)))"
    if "(q, a) \<in> set ops" for q a
  proof -
    have "map_of ops q = Some a"
      using that ops(2) by (auto simp: collector_inv_def)
    moreover have "op_count (in_collector s') q = op_count (in_collector s) q +
        of_nat (length (filter (\<lambda>(c, r). call_key (snd c) r = q) (zip cs rs)))"
      by (rule exec_calls_counts [OF _ assms(2)]) (simp add: assms(1))
    ultimately show ?thesis
      by (simp add: op_count_def ops(1) assms(1) NewCollector_def)
  qed
  have "ds_Count (SummarizeDurations (agg_durations a)) = agg_count a" if "(q, a) \<in> set ops" for q a
    using that ops(2) by (auto simp: collector_inv_def SummarizeDurations_def Let_def)
  with count have "\<forall>op \<in> set (Snapshot (Some ops)).
       om_Count op = of_nat (length (filter (\<lambda>(c, r). call_key (snd c) r = om_key op) (zip cs rs))) \<and>
       ds_Count (om_Duration op) = om_Count op"
    by (auto simp: Snapshot_Some)
  then show ?thesis
    unfolding ops(1) set_om_keys ops(3) using sorted_om_keys distinct_om_keys [OF ops(2)] by blast
qed

text \<open>
  The snapshot of a collector that started empty accounts for every call made
  through the instrumented store: it has one entry for each combination of operation,
  key class and result that occurred, in that order, whose count is the number of
  such calls (modulo \<open>2 ^ 64\<close>) and the number of durations it summarises.
\<close>

theorem Snapshot_accounts:
  assumes "in_collector s = Some NewCollector"
    and "exec_calls (instrumented_store el S) cs s = (rs, s')"
  shows "sorted (map om_key (Snapshot (in_collector s'))) \<and> distinct (map om_key (Snapshot (in_collector s'))) \<and>
    set (map om_key (Snapshot (in_collector s'))) = (\<lambda>(c, r). call_key (snd c) r) ` set (zip cs rs) \<and>
    (\<forall>op \<in> set (Snapshot (in_collector s')).
       om_Count op = of_nat (length (filter (\<lambda>(c, r). call_key (snd c) r = om_key op) (zip cs rs))) \<and>
       ds_Count (om_Duration op) = om_Count op)"
  using assms by (rule exec_calls_snapshot)

theorem Snapshot_accounts_witness:
  "map om_key (Snapshot (in_collector (snd (exec_calls (instrumented_store (\<lambda>c. (0, c)) memory_store)
      [(None, CallGet ''a''), (None, CallDelete ''b''), (None, CallGet ''b'')]
      \<lparr>in_next = mem_new, in_collector = Some NewCollector, in_clock = ()\<rparr>)))) =
   [(OperationDelete, KeyUnknown, ResultSuccess), (OperationGet, KeyUnknown, ResultNotFound)]"
proof -
  let ?cs = "[(None, CallGet ''a''), (None, CallDelete ''b''), (None, CallGet ''b'')] :: (ctx \<times> store_call) list"
  let ?s = "\<lparr>in_next = mem_new, in_collector = Some NewCollector, in_clock = ()\<rparr>"
  let ?del = "(OperationDelete, KeyUnknown, ResultSuccess)" and ?get = "(OperationGet, KeyUnknown, ResultNotFound)"
  obtain rs s' where ex: "exec_calls (instrumented_store (\<lambda>c. (0, c)) memory_store) ?cs ?s = (rs, s')"
    by (meson surj_pair)
  have "fst (exec_calls (instrumented_store (\<lambda>c. (0, c)) memory_store) ?cs ?s) =
      [GotBytes (Inl ErrNotFound), GotErr None, GotBytes (Inl ErrNotFound)]"
    by code_simp
  with ex have rs: "rs = [GotBytes (Inl ErrNotFound), GotErr None, GotBytes (Inl ErrNotFound)]"
    by simp
  have k: "call_key (CallGet ''a'') (GotBytes (Inl ErrNotFound)) = ?get"
    "call_key (CallDelete ''b'') (GotErr None) = ?del" "call_key (CallGet ''b'') (GotBytes (Inl ErrNotFound)) = ?get"
    by code_simp+
  let ?keys = "map om_key (Snapshot (in_collector s'))"
  have all: "sorted ?keys" "distinct ?keys" "set ?keys = {?get, ?del}"
    using Snapshot_accounts [of ?s "\<lambda>c. (0, c)" memory_store ?cs rs s', OF _ ex] by (auto simp: rs k)
  have "sorted [?del, ?get]" "distinct [?del, ?get]" "set [?del, ?get] = {?get, ?del}"
    by code_simp+
  with all have "?keys = [?del, ?get]"
    by (metis sorted_distinct_set_unique)
  then show ?thesis
    by (simp only: ex snd_conv)
qed

end
