(* ===== verification/Doctor.thy ===== *)
theory Doctor
  imports Tunnel CommonConfig "HOL-Library.Signed_Division"
begin

text \<open>
  \<open>cmd/s3s5-doctor/main.go\<close>: the checks of a configuration against its store, and the
  removal of a mailbox.  \<open>runDoctor\<close> seals an object, puts it, asks for its size, gets
  it back, opens it and lists it, as many times as there are rounds; \<open>elapsed i\<close> is
  the time the clock measures for round \<open>i\<close>.  An error ends the run with the report as
  it is by then.

  The lemmas show, for every store that keeps the contract and every codec that
  opens what it sealed, that the doctor finds nothing wrong and leaves nothing
  behind, and what the removal of a prefix removes.
\<close>

record report =
  rep_Provider :: string
  rep_Bucket :: string
  rep_Prefix :: string
  rep_Region :: string
  rep_Endpoint :: string
  rep_Crypto :: string
  rep_Latency :: int
  rep_Rounds :: int
  rep_PutOK :: bool
  rep_HeadOK :: bool
  rep_GetOK :: bool
  rep_ListOK :: bool
  rep_DeleteOK :: bool
  rep_Error :: string

section \<open>The run\<close>

definition doctor_fail :: "err \<Rightarrow> report \<Rightarrow> report" where
  "doctor_fail e rep = rep\<lparr>rep_Error := err_text e\<rparr>"

definition doctor_payload :: "nat \<Rightarrow> bytes" where
  "doctor_payload i = bytes_of (''s3s5 doctor round '' @ itoa i)"

text \<open>One round: the report at its end, \<open>Inl\<close> when the run ends with it.\<close>

definition doctor_round ::
  "'s ObjectStore \<Rightarrow> 'g Codec \<Rightarrow> ctx \<Rightarrow> string \<Rightarrow> string \<Rightarrow> string \<Rightarrow> nat \<Rightarrow> report \<Rightarrow> 'g \<Rightarrow> 's
     \<Rightarrow> (report + report) \<times> 'g \<times> 's" where
  "doctor_round S C ctx k listed sessionID i rep g s =
     (case Seal C ''doctor'' sessionID ''control'' (of_nat i) (doctor_payload i) g of
        (Inl e, g') \<Rightarrow> (Inl (doctor_fail e rep), g', s)
      | (Inr sealed, g') \<Rightarrow>
          (case PutObject S ctx k sealed \<lparr>opt_content_type = ''application/octet-stream'', opt_metadata = []\<rparr> s of
             (Some e, s1) \<Rightarrow> (Inl (doctor_fail e rep), g', s1)
           | (None, s1) \<Rightarrow>
               let rep1 = rep\<lparr>rep_PutOK := True\<rparr> in
               (case HeadObject S ctx k s1 of
                  (Inl e, s2) \<Rightarrow> (Inl (doctor_fail e rep1), g', s2)
                | (Inr _, s2) \<Rightarrow>
                    let rep2 = rep1\<lparr>rep_HeadOK := True\<rparr> in
                    (case GetObject S ctx k s2 of
                       (Inl e, s3) \<Rightarrow> (Inl (doctor_fail e rep2), g', s3)
                     | (Inr got, s3) \<Rightarrow>
                         (case Open C ''doctor'' sessionID ''control'' (of_nat i) got of
                            Inl e \<Rightarrow> (Inl (doctor_fail e rep2), g', s3)
                          | Inr plain \<Rightarrow>
                              if plain \<noteq> doctor_payload i
                              then (Inl (doctor_fail (ErrText ''doctor payload mismatch'') rep2), g', s3)
                              else
                                let rep3 = rep2\<lparr>rep_GetOK := True\<rparr> in
                                (case ListPrefix S ctx listed \<lparr>opt_max_keys = 10, opt_token = []\<rparr> s3 of
                                   (Inl e, s4) \<Rightarrow> (Inl (doctor_fail e rep3), g', s4)
                                 | (Inr _, s4) \<Rightarrow> (Inr (rep3\<lparr>rep_ListOK := True\<rparr>), g', s4)))))))"

text \<open>The loop over the rounds still to run, from round \<open>i\<close>, with the time so far.\<close>

fun doctor_rounds ::
  "nat \<Rightarrow> 's ObjectStore \<Rightarrow> 'g Codec \<Rightarrow> ctx \<Rightarrow> string \<Rightarrow> string \<Rightarrow> string \<Rightarrow> (nat \<Rightarrow> int) \<Rightarrow> nat \<Rightarrow> report
     \<Rightarrow> int \<Rightarrow> 'g \<Rightarrow> 's \<Rightarrow> (report + report \<times> int) \<times> 'g \<times> 's" where
  "doctor_rounds 0 S C ctx k listed sessionID elapsed i rep tm g s = (Inr (rep, tm), g, s)"
| "doctor_rounds (Suc n) S C ctx k listed sessionID elapsed i rep tm g s =
     (case doctor_round S C ctx k listed sessionID i rep g s of
        (Inl rep', g', s') \<Rightarrow> (Inl rep', g', s')
      | (Inr rep', g', s') \<Rightarrow>
          doctor_rounds n S C ctx k listed sessionID elapsed (Suc i) rep' (wrap64 (tm + elapsed i)) g' s')"

definition new_report :: "Common \<Rightarrow> bool \<Rightarrow> int \<Rightarrow> report" where
  "new_report c enabled rounds =
     \<lparr>rep_Provider = com_Provider c, rep_Bucket = com_Bucket c, rep_Prefix = com_Prefix c,
      rep_Region = com_Region c, rep_Endpoint = com_Endpoint c,
      rep_Crypto = (if enabled then ''psk-aes-256-gcm'' else ''disabled''),
      rep_Latency = 0, rep_Rounds = rounds, rep_PutOK = False, rep_HeadOK = False, rep_GetOK = False,
      rep_ListOK = False, rep_DeleteOK = False, rep_Error = []\<rparr>"

definition doctor_key :: "Common \<Rightarrow> string \<Rightarrow> string" where
  "doctor_key c sessionID = NormalizePrefix (com_Prefix c) @ ''/doctor/'' @ sessionID @ ''.bin''"

definition runDoctor ::
  "ctx \<Rightarrow> Common \<Rightarrow> 'g Codec \<Rightarrow> 's ObjectStore \<Rightarrow> bool \<Rightarrow> int \<Rightarrow> bytes result \<Rightarrow> (nat \<Rightarrow> int) \<Rightarrow> 'g \<Rightarrow> 's
     \<Rightarrow> report \<times> 'g \<times> 's" where
  "runDoctor ctx c C S cleanup rounds0 rnd elapsed g s =
     (let rounds = (if rounds0 \<le> 0 then 1 else rounds0);
          rep = new_report c (Enabled C) rounds
      in case NewSessionID rnd of
           Inl e \<Rightarrow> (doctor_fail e rep, g, s)
         | Inr sessionID \<Rightarrow>
             let k = doctor_key c sessionID in
             (case doctor_rounds (nat rounds) S C ctx k (NormalizePrefix (com_Prefix c) @ ''/doctor/'') sessionID
                     elapsed 0 rep 0 g s of
                (Inl rep', g', s') \<Rightarrow> (rep', g', s')
              | (Inr (rep', tm), g', s') \<Rightarrow>
                  let last_report = (\<lambda>r. r\<lparr>rep_Latency := tm sdiv rounds\<rparr>) in
                  if cleanup then
                    (case DeleteObject S ctx k s' of
                       (Some e, s'') \<Rightarrow> (doctor_fail e rep', g', s'')
                     | (None, s'') \<Rightarrow> (last_report (rep'\<lparr>rep_DeleteOK := True\<rparr>), g', s''))
                  else (last_report rep', g', s')))"

text \<open>\<open>--cleanup-prefix\<close>: everything under the prefix, with the fuel of \<open>DeletePrefix\<close>.\<close>

definition doctor_cleanup_prefix ::
  "nat \<Rightarrow> Common \<Rightarrow> 's ObjectStore \<Rightarrow> 's \<Rightarrow> ((nat \<times> err option) \<times> 's) option" where
  "doctor_cleanup_prefix fuel c S s = DeletePrefix fuel S None (NormalizePrefix (com_Prefix c) @ ''/'') s"

section \<open>Over a store and a codec that keep their contracts\<close>

text \<open>A store and a codec together, where sealing does not fail.\<close>

locale sealed_store = object_store S objs inv + codec C
  for S :: "'s ObjectStore" and objs :: "'s \<Rightarrow> string \<rightharpoonup> bytes" and inv :: "'s \<Rightarrow> bool"
    and C :: "'g Codec" +
  assumes seals: "\<exists>x g'. Seal C typ sid dir seq p g = (Inr x, g')"
begin

lemma doctor_round_ok:
  assumes "inv s"
  shows "\<exists>g' s' d. doctor_round S C None k listed sid i rep g s =
      (Inr (rep\<lparr>rep_PutOK := True, rep_HeadOK := True, rep_GetOK := True, rep_ListOK := True\<rparr>), g', s') \<and>
    inv s' \<and> objs s' = (objs s)(k \<mapsto> d)"
proof -
  obtain x g' where x: "Seal C ''doctor'' sid ''control'' (of_nat i) (doctor_payload i) g = (Inr x, g')"
    using seals by blast
  note o = open_seal [OF x]
  obtain s1 where s1: "PutObject S None k x \<lparr>opt_content_type = ''application/octet-stream'', opt_metadata = []\<rparr> s = (None, s1)"
    "inv s1" "objs s1 = (objs s)(k \<mapsto> x)"
    using put_live [OF assms] by blast
  obtain h s2 where s2: "HeadObject S None k s1 = (Inr h, s2)" "inv s2" "objs s2 = objs s1"
    using head_live [OF s1(2), of k] s1(3) by auto
  obtain s3 where s3: "GetObject S None k s2 = (Inr x, s3)" "inv s3" "objs s3 = objs s2"
    using get_live [OF s2(2), of k] s1(3) s2(3) by (auto simp: get_spec_def)
  obtain ks s4 where s4: "ListPrefix S None listed \<lparr>opt_max_keys = 10, opt_token = []\<rparr> s3 = (Inr ks, s4)"
    "inv s4" "objs s4 = objs s3"
    using list_live [OF s3(2), of listed "\<lparr>opt_max_keys = 10, opt_token = []\<rparr>"] by (auto simp: list_keys)
  have "doctor_round S C None k listed sid i rep g s =
      (Inr (rep\<lparr>rep_PutOK := True, rep_HeadOK := True, rep_GetOK := True, rep_ListOK := True\<rparr>), g', s4)"
    by (simp add: doctor_round_def x s1(1) s2(1) s3(1) s4(1) o Let_def)
  then show ?thesis
    using s1(3) s2(3) s3(3) s4(2,3) by auto
qed

lemma doctor_rounds_ok:
  assumes "inv s" and "\<And>i. 0 \<le> elapsed i" and "0 \<le> tm" and "tm + (\<Sum>j<n. elapsed (i + j)) < 2 ^ 63"
  shows "\<exists>g' s' d. doctor_rounds n S C None k listed sid elapsed i rep tm g s =
      (Inr (if n = 0 then rep
            else rep\<lparr>rep_PutOK := True, rep_HeadOK := True, rep_GetOK := True, rep_ListOK := True\<rparr>,
            tm + (\<Sum>j<n. elapsed (i + j))), g', s') \<and>
    inv s' \<and> objs s' = (if n = 0 then objs s else (objs s)(k \<mapsto> d))"
  using assms
proof (induction n arbitrary: i rep tm g s)
  case (Suc n)
  let ?rep = "rep\<lparr>rep_PutOK := True, rep_HeadOK := True, rep_GetOK := True, rep_ListOK := True\<rparr>"
  obtain g1 s1 d1 where 1: "doctor_round S C None k listed sid i rep g s = (Inr ?rep, g1, s1)"
    "inv s1" "objs s1 = (objs s)(k \<mapsto> d1)"
    using doctor_round_ok [OF Suc.prems(1)] by blast
  have sum: "(\<Sum>j<Suc n. elapsed (i + j)) = elapsed i + (\<Sum>j<n. elapsed (Suc i + j))"
    by (simp add: sum.lessThan_Suc_shift del: sum.lessThan_Suc)
  have pos: "0 \<le> (\<Sum>j<n. elapsed (Suc i + j))"
    by (simp add: sum_nonneg Suc.prems(2))
  have le: "0 \<le> tm + elapsed i" "tm + elapsed i + (\<Sum>j<n. elapsed (Suc i + j)) < 2 ^ 63"
    using Suc.prems(2) [of i] Suc.prems(3,4) unfolding sum by linarith+
  have w: "wrap64 (tm + elapsed i) = tm + elapsed i"
    using le pos by (intro wrap64_id) linarith+
  obtain g' s' d where 2: "doctor_rounds n S C None k listed sid elapsed (Suc i) ?rep (tm + elapsed i) g1 s1 =
      (Inr (if n = 0 then ?rep
            else ?rep\<lparr>rep_PutOK := True, rep_HeadOK := True, rep_GetOK := True, rep_ListOK := True\<rparr>,
            tm + elapsed i + (\<Sum>j<n. elapsed (Suc i + j))), g', s')"
    "inv s'" "objs s' = (if n = 0 then objs s1 else (objs s1)(k \<mapsto> d))"
    using Suc.IH [OF 1(2) Suc.prems(2) le] by blast
  have same: "(if n = 0 then ?rep
      else ?rep\<lparr>rep_PutOK := True, rep_HeadOK := True, rep_GetOK := True, rep_ListOK := True\<rparr>) = ?rep"
    by simp
  have step: "doctor_rounds (Suc n) S C None k listed sid elapsed i rep tm g s =
      doctor_rounds n S C None k listed sid elapsed (Suc i) ?rep (tm + elapsed i) g1 s1"
    by (simp only: doctor_rounds.simps 1(1) w prod.case sum.case)
  have "\<exists>d. objs s' = (objs s)(k \<mapsto> d)"
    using 2(3) 1(3) by (cases n) auto
  then show ?case
    using 2(2) unfolding step 2(1) same sum by (simp add: add.assoc fun_upd_def)
qed simp

lemma runDoctor_ok:
  assumes "inv s" and "\<And>i. 0 \<le> elapsed i" and "(\<Sum>j<nat (max 1 rounds). elapsed j) < 2 ^ 63"
  shows "\<exists>g' s' d. runDoctor None c C S cleanup rounds (Inr b) elapsed g s =
      ((new_report c (Enabled C) (max 1 rounds))
         \<lparr>rep_PutOK := True, rep_HeadOK := True, rep_GetOK := True, rep_ListOK := True,
          rep_DeleteOK := cleanup, rep_Latency := (\<Sum>j<nat (max 1 rounds). elapsed j) div max 1 rounds\<rparr>, g', s') \<and>
    inv s' \<and> objs s' = (objs s)(doctor_key c (hex_encode b) := if cleanup then None else Some d)"
proof -
  let ?r = "max 1 rounds" and ?k = "doctor_key c (hex_encode b)"
  have r: "(if rounds \<le> 0 then 1 else rounds) = ?r" "nat ?r \<noteq> 0" "0 < ?r"
    by auto
  obtain g1 s1 d where 1: "doctor_rounds (nat ?r) S C None ?k (NormalizePrefix (com_Prefix c) @ ''/doctor/'') (hex_encode b)
      elapsed 0 (new_report c (Enabled C) ?r) 0 g s =
    (Inr ((new_report c (Enabled C) ?r)\<lparr>rep_PutOK := True, rep_HeadOK := True, rep_GetOK := True, rep_ListOK := True\<rparr>,
      \<Sum>j<nat ?r. elapsed j), g1, s1)" "inv s1" "objs s1 = (objs s)(?k \<mapsto> d)"
    using doctor_rounds_ok [where elapsed = elapsed and tm = 0 and n = "nat ?r" and i = 0, OF assms(1,2),
        of ?k "NormalizePrefix (com_Prefix c) @ ''/doctor/''" "hex_encode b" "new_report c (Enabled C) ?r" g]
      assms(3) r(2) by auto
  have "0 \<le> (\<Sum>j<nat ?r. elapsed j)"
    by (simp add: sum_nonneg assms(2))
  then have q: "(\<Sum>j<nat ?r. elapsed j) sdiv ?r = (\<Sum>j<nat ?r. elapsed j) div ?r"
    using r(3) by (simp add: signed_divide_int_def sgn_if)
  obtain s2 where 2: "DeleteObject S None ?k s1 = (None, s2)" "inv s2" "objs s2 = (objs s1)(?k := None)"
    using delete_live [OF 1(2)] by blast
  show ?thesis
    using 1 2 q r(1) by (cases cleanup) (auto simp: runDoctor_def NewSessionID_def new_report_def Let_def)
qed

end

interpretation mem_noop: sealed_store memory_store mem_objs mem_inv NoopCodec
  by unfold_locales (simp add: NoopCodec_def)

lemma rand_full_ok:
  assumes "\<forall>g. \<exists>b g'. rand_byte g = (Inr b, g')"
  shows "\<exists>bs g'. length bs = n \<and> rand_full rand_byte n g = (Inr bs, g')"
proof (induction n arbitrary: g)
  case (Suc n)
  obtain b g1 where 1: "rand_byte g = (Inr b, g1)"
    using assms by blast
  obtain bs g2 where 2: "length bs = n" "rand_full rand_byte n g1 = (Inr bs, g2)"
    using Suc.IH by blast
  show ?case
    by (intro exI [of _ "b # bs"] exI [of _ g2]) (simp add: 1 2)
qed simp

lemma psk_sealed_store:
  assumes "\<forall>g. \<exists>b g'. rand_byte g = (Inr b, g')"
  shows "sealed_store memory_store mem_objs mem_inv (psk_codec rand_byte c)"
proof unfold_locales
  show "\<exists>x g'. Seal (psk_codec rand_byte c) ty sid dir seq p g = (Inr x, g')" for ty sid dir seq p g
    using rand_full_ok [OF assms, of 12 g]
    by (auto simp: psk_codec_def sealJSON_def sealRaw_def aes_NewCipher_def deriveKey_def)
qed

text \<open>
  C32: against the in-memory store, with a key of any length and a random source that
  does not fail, the doctor reports no error: every check of every round succeeds,
  the latency is the mean of the rounds, and with the clean-up the store is as if
  the doctor had not run, except that nothing is left under the doctor's own key.
\<close>

theorem doctor_passes:
  assumes "mem_inv s" and "\<forall>g. \<exists>b g'. rand_byte g = (Inr b, g')" and "\<And>i. 0 \<le> elapsed i"
    and "(\<Sum>j<nat (max 1 rounds). elapsed j) < 2 ^ 63"
  shows "\<exists>rep g' s'. runDoctor None c (psk_codec rand_byte k) memory_store cleanup rounds (Inr b) elapsed g s = (rep, g', s') \<and>
    rep_Error rep = [] \<and> rep_PutOK rep \<and> rep_HeadOK rep \<and> rep_GetOK rep \<and> rep_ListOK rep \<and>
    (rep_DeleteOK rep \<longleftrightarrow> cleanup) \<and> rep_Rounds rep = max 1 rounds \<and>
    rep_Latency rep = (\<Sum>j<nat (max 1 rounds). elapsed j) div max 1 rounds \<and> mem_inv s' \<and>
    (\<exists>d. mem_objs s' = (mem_objs s)(doctor_key c (hex_encode b) := if cleanup then None else Some d))"
proof -
  note ok = sealed_store.runDoctor_ok [OF psk_sealed_store [OF assms(2), of k] assms(1,3,4)]
  obtain g' s' d where run: "runDoctor None c (psk_codec rand_byte k) memory_store cleanup rounds (Inr b) elapsed g s =
      ((new_report c (Enabled (psk_codec rand_byte k)) (max 1 rounds))
         \<lparr>rep_PutOK := True, rep_HeadOK := True, rep_GetOK := True, rep_ListOK := True,
          rep_DeleteOK := cleanup, rep_Latency := (\<Sum>j<nat (max 1 rounds). elapsed j) div max 1 rounds\<rparr>, g', s')"
    "mem_inv s'" "mem_objs s' = (mem_objs s)(doctor_key c (hex_encode b) := if cleanup then None else Some d)"
    using ok [where g = g and c = c and b = b and cleanup = cleanup] by blast
  show ?thesis
    by (rule exI, rule exI, rule exI, rule conjI, rule run(1)) (use run(2,3) in \<open>auto simp: new_report_def\<close>)
qed

theorem doctor_passes_witness:
  "\<exists>rep g' s'. runDoctor None zero_Common (psk_codec (\<lambda>g. (Inr 7, g)) \<lparr>psk = [1, 2, 3]\<rparr>) memory_store True 3
      (Inr [10, 11]) (\<lambda>i. 6) () mem_example = (rep, g', s') \<and>
    rep_Error rep = [] \<and> rep_DeleteOK rep \<and> rep_Latency rep = 6"
  using doctor_passes [of mem_example "\<lambda>g. (Inr 7, g)" "\<lambda>i. 6" 3 zero_Common "\<lparr>psk = [1, 2, 3]\<rparr>" True "[10, 11]" "()"]
  by (auto simp: mem_example_inv)

section \<open>Removing a mailbox\<close>

lemma length_clean_comps: "length (clean_comps r cs) \<le> length cs"
proof -
  have "length (foldl (clean_step r) acc cs) \<le> length acc + length cs" for acc
  proof (induction cs arbitrary: acc)
    case (Cons c cs)
    have "length (clean_step r acc c) \<le> Suc (length acc)"
      by (cases acc) (auto simp: clean_step_def)
    then show ?case
      using Cons.IH [of "clean_step r acc c"] by simp
  qed simp
  from this [of "[]"] show ?thesis
    by (simp add: clean_comps_def)
qed

text \<open>
  The objects of the mailbox are under the removed prefix exactly when the configured
  prefix is a clean path, as keys are cleaned and the removed prefix is not.
\<close>

lemma object_key_under_prefix:
  assumes "wf_object ob"
  shows "hasPrefix (object_key prefix ob) (NormalizePrefix prefix @ ''/'') \<longleftrightarrow>
    join ''/'' (prefix_comps prefix) = NormalizePrefix prefix"
proof
  let ?n = "NormalizePrefix prefix" and ?pc = "prefix_comps prefix" and ?ps = "object_parts ob"
  let ?s = "splitc (CHR ''/'') ?n"
  assume "hasPrefix (object_key prefix ob) (?n @ ''/'')"
  then obtain t where "object_key prefix ob = ?n @ CHR ''/'' # t"
    by (auto simp: hasPrefix_iff)
  then have e: "?pc @ ?ps = ?s @ splitc (CHR ''/'') t"
    using splitc_object_key [OF assms, of prefix] by (simp add: splitc_append_sep)
  have "length ?pc \<le> length ?s"
    unfolding prefix_comps_def by (rule length_clean_comps)
  then obtain u where u: "?s = ?pc @ u" "?ps = u @ splitc (CHR ''/'') t"
    using e unfolding append_eq_append_conv2 by auto metis
  have plain: "plain_comp x" if "x \<in> set u" for x
    using that object_parts_plain [OF assms, of x] u(2) by auto
  have "?pc = clean_comps False (?pc @ u)"
    by (simp only: u(1) [symmetric]) (simp add: prefix_comps_def)
  also have "\<dots> = ?pc @ u"
    using plain by (simp add: clean_comps_append_plain clean_form_fix [OF clean_form_prefix_comps])
  finally have "?s = ?pc"
    using u(1) by simp
  then show "join ''/'' ?pc = ?n"
    by (metis join_splitc)
next
  assume c: "join ''/'' (prefix_comps prefix) = NormalizePrefix prefix"
  then have "prefix_comps prefix \<noteq> []"
    using NormalizePrefix_nonempty [of prefix] by auto
  then show "hasPrefix (object_key prefix ob) (NormalizePrefix prefix @ ''/'')"
    using c hasPrefix_append [of "NormalizePrefix prefix @ ''/''" "join ''/'' (object_parts ob)"]
    by (simp add: object_key_join [OF assms] join_append)
qed

text \<open>
  \<open>--cleanup-prefix\<close> over the in-memory store, with more fuel than objects under
  the prefix, ends without error; of the objects of a mailbox it leaves none when
  the configured prefix is a clean path and all of them when it is not, and
  everything outside the prefix stays.
\<close>

theorem cleanup_removes_mailbox:
  assumes "mem_inv s" and "wf_object ob"
    and "card (keys_with_prefix (mem_objs s) (NormalizePrefix (com_Prefix c) @ ''/'')) < fuel"
  shows "\<exists>n s'. doctor_cleanup_prefix fuel c memory_store s = Some ((n, None), s') \<and> mem_inv s' \<and>
    mem_objs s' (object_key (com_Prefix c) ob) =
      (if join ''/'' (prefix_comps (com_Prefix c)) = NormalizePrefix (com_Prefix c) then None
       else mem_objs s (object_key (com_Prefix c) ob)) \<and>
    (\<forall>k. \<not> hasPrefix k (NormalizePrefix (com_Prefix c) @ ''/'') \<longrightarrow> mem_objs s' k = mem_objs s k)"
  using mem.DeletePrefix_loop_live [OF assms(1,3), of 0] object_key_under_prefix [OF assms(2), of "com_Prefix c"]
  by (auto simp: doctor_cleanup_prefix_def DeletePrefix_def)

definition mailbox_example :: mem_store where
  "mailbox_example = \<lparr>ms_objects =
     [(object_key ''pre'' (OpenObj ''ab''), \<lparr>mo_data = [2], mo_metadata = []\<rparr>), (''b/1'', \<lparr>mo_data = [7], mo_metadata = []\<rparr>)]\<rparr>"

theorem cleanup_removes_mailbox_witness:
  "\<exists>n s'. doctor_cleanup_prefix 3 (zero_Common\<lparr>com_Prefix := ''/pre''\<rparr>) memory_store mailbox_example = Some ((n, None), s') \<and>
     mem_objs s' (object_key ''/pre'' (OpenObj ''ab'')) = None \<and> mem_objs s' ''b/1'' = Some [7]"
proof -
  let ?p = "NormalizePrefix ''/pre'' @ ''/''"
  have "finite (keys_with_prefix (mem_objs mailbox_example) ?p)"
    "keys_with_prefix (mem_objs mailbox_example) ?p \<subseteq> dom (mem_objs mailbox_example)"
    by (auto simp: keys_with_prefix_def dom_mem_objs)
  then have "card (keys_with_prefix (mem_objs mailbox_example) ?p) < 3"
    using card_mono [of "dom (mem_objs mailbox_example)" "keys_with_prefix (mem_objs mailbox_example) ?p"]
      card_length [of "map fst (ms_objects mailbox_example)"]
    by (simp add: dom_mem_objs mailbox_example_def)
  moreover have "mem_inv mailbox_example" "join ''/'' (prefix_comps ''/pre'') = NormalizePrefix ''/pre''"
    "\<not> hasPrefix ''b/1'' ?p" "mem_objs mailbox_example ''b/1'' = Some [7]"
    by code_simp+
  ultimately show ?thesis
    using cleanup_removes_mailbox [of mailbox_example "OpenObj ''ab''" "zero_Common\<lparr>com_Prefix := ''/pre''\<rparr>" 3]
    by (auto simp: plain_comp_def)
qed

end
