(* ===== verification/GoNetip.thy ===== *)
theory GoNetip
  imports GoStrconv
begin

text \<open>
  The parts of Go's \<open>net/netip\<close> and \<open>net\<close> the program calls: addresses and their
  texts, prefixes and containment, the address classes, \<open>SplitHostPort\<close> and
  \<open>IP.String\<close>.  Parse errors carry a text the program never looks at, so a
  parser returns an option.  An IPv6 address keeps its zone; an IPv4-mapped
  address is an IPv6 address, as in the library.
\<close>

section \<open>Addresses\<close>

datatype Addr =
    AddrZero
  | Addr4 "32 word"
  | Addr6 "128 word" string

definition IsValid :: "Addr \<Rightarrow> bool" where
  "IsValid a \<longleftrightarrow> a \<noteq> AddrZero"

text \<open>Numbers from their 8- and 16-bit fields, the first the most significant.\<close>

definition v4_of_octets :: "nat list \<Rightarrow> 32 word" where
  "v4_of_octets os = of_nat (foldl (\<lambda>n d. 256 * n + d) 0 os)"

definition v6_of_groups :: "nat list \<Rightarrow> 128 word" where
  "v6_of_groups gs = of_nat (foldl (\<lambda>n d. 65536 * n + d) 0 gs)"

definition octet :: "32 word \<Rightarrow> nat \<Rightarrow> nat" where
  "octet w i = unat w div 256 ^ (3 - i) mod 256"

definition v6u16 :: "128 word \<Rightarrow> nat \<Rightarrow> nat" where
  "v6u16 w i = unat w div 65536 ^ (7 - i) mod 65536"

definition octets :: "32 word \<Rightarrow> nat list" where
  "octets w = map (octet w) [0..<4]"

definition groups :: "128 word \<Rightarrow> nat list" where
  "groups w = map (v6u16 w) [0..<8]"

section \<open>ParseAddr\<close>

text \<open>One field of a dotted quad: digits, no leading zero, at most 255.\<close>

definition parse_octet :: "string \<Rightarrow> nat option" where
  "parse_octet s =
     (if s = [] \<or> (\<exists>c \<in> set s. \<not> is_digit c) \<or> (length s > 1 \<and> hd s = CHR ''0'') \<or> digits_val s > 255
      then None else Some (digits_val s))"

definition parseIPv4Fields :: "string \<Rightarrow> nat list option" where
  "parseIPv4Fields s =
     (let fs = map parse_octet (splitc (CHR ''.'') s)
      in if length fs = 4 \<and> None \<notin> set fs then Some (map the fs) else None)"

definition parseIPv4 :: "string \<Rightarrow> Addr option" where
  "parseIPv4 s = map_option (\<lambda>os. Addr4 (v4_of_octets os)) (parseIPv4Fields s)"

text \<open>
  The loop of \<open>parseIPv6\<close> over the groups: at most \<open>n\<close> more, \<open>gs\<close> read so far,
  \<open>ell\<close> the position of \<open>::\<close>.  It returns the groups, the position and the rest.
\<close>

fun v6_loop :: "nat \<Rightarrow> nat list \<Rightarrow> nat option \<Rightarrow> string \<Rightarrow> (nat list \<times> nat option \<times> string) option" where
  "v6_loop 0 gs ell s = Some (gs, ell, s)"
| "v6_loop (Suc n) gs ell s =
     (let h = takeWhile is_hex s; rest = dropWhile is_hex s; gs' = gs @ [hex_val h]
      in if length h > 4 \<or> h = [] then None
         else case rest of
           [] \<Rightarrow> Some (gs', ell, [])
         | c # r \<Rightarrow>
             if c = CHR ''.'' then
               (if ell = None \<and> length gs \<noteq> 6 then None
                else if length gs + 2 > 8 then None
                else case parseIPv4Fields s of
                  Some [a, b, c, d] \<Rightarrow> Some (gs @ [256 * a + b, 256 * c + d], ell, [])
                | _ \<Rightarrow> None)
             else if c \<noteq> CHR '':'' then None
             else case r of
               [] \<Rightarrow> None
             | e # r' \<Rightarrow>
                 if e = CHR '':'' then
                   (if ell \<noteq> None then None
                    else if r' = [] then Some (gs', Some (length gs'), [])
                    else v6_loop n gs' (Some (length gs')) r')
                 else v6_loop n gs' ell r)"

definition v6_finish :: "nat list \<times> nat option \<times> string \<Rightarrow> nat list option" where
  "v6_finish r =
     (case r of (gs, ell, s) \<Rightarrow>
        if s \<noteq> [] then None
        else case ell of
          None \<Rightarrow> if length gs < 8 then None else Some gs
        | Some e \<Rightarrow> if length gs < 8 then Some (take e gs @ replicate (8 - length gs) 0 @ drop e gs)
                   else None)"

definition parseIPv6 :: "string \<Rightarrow> Addr option" where
  "parseIPv6 s0 =
     (let s = takeWhile (\<lambda>c. c \<noteq> CHR ''%'') s0; z = dropWhile (\<lambda>c. c \<noteq> CHR ''%'') s0
      in if length z = 1 then None
         else if s = ''::'' then Some (Addr6 0 (tl z))
         else map_option (\<lambda>gs. Addr6 (v6_of_groups gs) (tl z))
           (Option.bind
             (if hasPrefix s ''::'' then v6_loop 8 [] (Some 0) (drop 2 s) else v6_loop 8 [] None s)
             v6_finish))"

definition ParseAddr :: "string \<Rightarrow> Addr option" where
  "ParseAddr s =
     (case dropWhile (\<lambda>c. c \<notin> {CHR ''.'', CHR '':'', CHR ''%''}) s of
        [] \<Rightarrow> None
      | c # _ \<Rightarrow> if c = CHR ''.'' then parseIPv4 s else if c = CHR '':'' then parseIPv6 s else None)"

section \<open>Prefixes\<close>

definition BitLen :: "Addr \<Rightarrow> nat" where
  "BitLen a = (case a of AddrZero \<Rightarrow> 0 | Addr4 _ \<Rightarrow> 32 | Addr6 _ _ \<Rightarrow> 128)"

definition withoutZone :: "Addr \<Rightarrow> Addr" where
  "withoutZone a = (case a of Addr6 w _ \<Rightarrow> Addr6 w [] | _ \<Rightarrow> a)"

record Prefix =
  pfx_ip :: Addr
  pfx_bits :: nat

definition PrefixFrom :: "Addr \<Rightarrow> nat \<Rightarrow> Prefix" where
  "PrefixFrom a bits = \<lparr>pfx_ip = withoutZone a, pfx_bits = bits\<rparr>"

text \<open>The bits after the last slash: no sign and no leading zero.\<close>

definition parse_bits :: "string \<Rightarrow> nat option" where
  "parse_bits s =
     (if s = [] \<or> (\<exists>c \<in> set s. \<not> is_digit c) \<or> (length s > 1 \<and> hd s = CHR ''0'') then None
      else Some (digits_val s))"

definition ParsePrefix :: "string \<Rightarrow> Prefix option" where
  "ParsePrefix s =
     (if CHR ''/'' \<notin> set s then None
      else let fields = splitc (CHR ''/'') s
           in case ParseAddr (join ''/'' (butlast fields)) of
             None \<Rightarrow> None
           | Some a \<Rightarrow>
               if withoutZone a \<noteq> a then None
               else case parse_bits (last fields) of
                 None \<Rightarrow> None
               | Some bits \<Rightarrow> if bits > BitLen a then None else Some (PrefixFrom a bits))"

definition Contains :: "Prefix \<Rightarrow> Addr \<Rightarrow> bool" where
  "Contains p a =
     (case (pfx_ip p, a) of
        (Addr4 v, Addr4 w) \<Rightarrow> drop_bit (32 - pfx_bits p) v = drop_bit (32 - pfx_bits p) w
      | (Addr6 v _, Addr6 w z) \<Rightarrow> z = [] \<and> drop_bit (128 - pfx_bits p) v = drop_bit (128 - pfx_bits p) w
      | _ \<Rightarrow> False)"

section \<open>Classes of addresses\<close>

definition Is4In6 :: "Addr \<Rightarrow> bool" where
  "Is4In6 a = (case a of Addr6 w _ \<Rightarrow> unat w div 2 ^ 32 = 65535 | _ \<Rightarrow> False)"

definition Unmap :: "Addr \<Rightarrow> Addr" where
  "Unmap a = (case a of Addr6 w _ \<Rightarrow> if Is4In6 a then Addr4 (ucast w) else a | _ \<Rightarrow> a)"

definition IsUnspecified :: "Addr \<Rightarrow> bool" where
  "IsUnspecified a \<longleftrightarrow> a = Addr4 0 \<or> a = Addr6 0 []"

definition IsLoopback :: "Addr \<Rightarrow> bool" where
  "IsLoopback a =
     (case Unmap a of Addr4 w \<Rightarrow> octet w 0 = 127 | Addr6 w _ \<Rightarrow> w = 1 | AddrZero \<Rightarrow> False)"

definition IsPrivate :: "Addr \<Rightarrow> bool" where
  "IsPrivate a =
     (case Unmap a of
        Addr4 w \<Rightarrow> octet w 0 = 10 \<or> octet w 0 = 172 \<and> octet w 1 div 16 = 1 \<or>
          octet w 0 = 192 \<and> octet w 1 = 168
      | Addr6 w _ \<Rightarrow> v6u16 w 0 div 512 = 126
      | AddrZero \<Rightarrow> False)"

definition IsLinkLocalUnicast :: "Addr \<Rightarrow> bool" where
  "IsLinkLocalUnicast a =
     (case Unmap a of Addr4 w \<Rightarrow> octet w 0 = 169 \<and> octet w 1 = 254
      | Addr6 w _ \<Rightarrow> v6u16 w 0 div 64 = 1018 | AddrZero \<Rightarrow> False)"

definition IsMulticast :: "Addr \<Rightarrow> bool" where
  "IsMulticast a =
     (case Unmap a of Addr4 w \<Rightarrow> octet w 0 div 16 = 14
      | Addr6 w _ \<Rightarrow> v6u16 w 0 div 256 = 255 | AddrZero \<Rightarrow> False)"

definition IsLinkLocalMulticast :: "Addr \<Rightarrow> bool" where
  "IsLinkLocalMulticast a =
     (case Unmap a of Addr4 w \<Rightarrow> octet w 0 = 224 \<and> octet w 1 = 0 \<and> octet w 2 = 0
      | Addr6 w _ \<Rightarrow> v6u16 w 0 div 256 = 255 \<and> v6u16 w 0 mod 16 = 2 | AddrZero \<Rightarrow> False)"

section \<open>Texts\<close>

definition v4_string :: "32 word \<Rightarrow> string" where
  "v4_string w = join ''.'' (map itoa (octets w))"

text \<open>
  The first longest run of two or more zero groups at or after position \<open>i\<close>, as
  its start and length.
\<close>

fun zero_run :: "nat \<Rightarrow> nat list \<Rightarrow> nat \<times> nat \<Rightarrow> nat \<times> nat" where
  "zero_run i [] best = best"
| "zero_run i (g # gs) best =
     (let l = length (takeWhile (\<lambda>x. x = 0) (g # gs))
      in zero_run (Suc i) gs (if l \<ge> 2 \<and> l > snd best then (i, l) else best))"

definition v6_string :: "128 word \<Rightarrow> string" where
  "v6_string w =
     (let gs = groups w; hs = map hex_nat gs
      in case zero_run 0 gs (0, 0) of
        (i, l) \<Rightarrow> if l = 0 then join '':'' hs
          else join '':'' (take i hs) @ ''::'' @ join '':'' (drop (i + l) hs))"

text \<open>\<open>netip.Addr.String\<close>; \<open>netip.IP.String\<close> shows a mapped address as a dotted quad.\<close>

definition addr_string :: "Addr \<Rightarrow> string" where
  "addr_string a =
     (case a of AddrZero \<Rightarrow> ''invalid IP'' | Addr4 w \<Rightarrow> v4_string w
      | Addr6 w z \<Rightarrow> (if Is4In6 a then ''::ffff:'' @ v4_string (ucast w) else v6_string w) @
          (if z = [] then [] else ''%'' @ z))"

definition nat_of_bytes :: "8 word list \<Rightarrow> nat" where
  "nat_of_bytes bs = foldl (\<lambda>n b. 256 * n + unat b) 0 bs"

definition IP_String :: "8 word list \<Rightarrow> string" where
  "IP_String bs =
     (if length bs = 4 then v4_string (of_nat (nat_of_bytes bs))
      else if length bs = 16 then
        (let a = Addr6 (of_nat (nat_of_bytes bs)) []
         in if Is4In6 a then v4_string (of_nat (nat_of_bytes bs)) else addr_string a)
      else if bs = [] then ''<nil>''
      else ''?'' @ concat (map (\<lambda>b. [hex_digit (unat b div 16), hex_digit (unat b mod 16)]) bs))"

section \<open>SplitHostPort\<close>

definition SplitHostPort :: "string \<Rightarrow> (string \<times> string) option" where
  "SplitHostPort s =
     (if CHR '':'' \<notin> set s then None
      else let fields = splitc (CHR '':'') s; before = join '':'' (butlast fields); port = last fields
           in if hasPrefix s ''['' then
                (let host = takeWhile (\<lambda>c. c \<noteq> CHR '']'') (tl before)
                 in if before = ''['' @ host @ '']'' \<and> CHR ''['' \<notin> set host \<and>
                       CHR ''['' \<notin> set port \<and> CHR '']'' \<notin> set port
                    then Some (host, port) else None)
              else if CHR '':'' \<in> set before \<or> CHR ''['' \<in> set s \<or> CHR '']'' \<in> set s then None
              else Some (before, port))"

section \<open>Reading back the texts\<close>

lemma foldl_digits:
  fixes b n :: nat
  shows "foldl (\<lambda>a d. b * a + d) 0 (map (\<lambda>i. n div b ^ (k - Suc i) mod b) [0..<k]) = n mod b ^ k"
proof (induction k arbitrary: n)
  case (Suc k)
  have "map (\<lambda>i. n div b ^ (Suc k - Suc i) mod b) [0..<k] = map (\<lambda>i. n div b div b ^ (k - Suc i) mod b) [0..<k]"
  proof (rule map_cong)
    fix i assume "i \<in> set [0..<k]"
    then have "Suc k - Suc i = Suc (k - Suc i)" by simp
    then show "n div b ^ (Suc k - Suc i) mod b = n div b div b ^ (k - Suc i) mod b"
      by (simp add: div_mult2_eq)
  qed simp
  then have "foldl (\<lambda>a d. b * a + d) 0 (map (\<lambda>i. n div b ^ (Suc k - Suc i) mod b) [0..<Suc k]) =
      b * (n div b mod b ^ k) + n mod b"
    by (simp only: upt_Suc_append le0 map_append foldl_append Suc.IH) simp
  then show ?case
    by (simp only: mod_mult2_eq power_Suc)
qed simp


lemma itoa_no_sep:
  assumes "\<not> is_digit c"
  shows "c \<notin> set (itoa n)"
  using assms itoa_digits by blast

lemma parse_octet_itoa: "d < 256 \<Longrightarrow> parse_octet (itoa d) = Some d"
proof -
  assume d: "d < 256"
  have "length (itoa d) > 1 \<longrightarrow> hd (itoa d) \<noteq> CHR ''0''"
  proof (cases "d = 0")
    case True
    then show ?thesis by (subst itoa.simps) simp
  qed (simp add: hd_itoa)
  with d show ?thesis
    by (auto simp: parse_octet_def dest: itoa_digits)
qed

lemma octet_less: "octet w i < 256"
  by (simp add: octet_def)

lemma octets_list: "octets w = [octet w 0, octet w 1, octet w 2, octet w 3]"
proof -
  have "[0..<4] = [0, 1, 2, 3 :: nat]" by code_simp
  then show ?thesis by (simp add: octets_def)
qed

lemma v4_of_octets_octets: "v4_of_octets (octets w) = w"
proof -
  have "unat w < 256 ^ 4"
    using unsigned_less [where ?'a = nat, of w] by simp
  then have "foldl (\<lambda>n d. 256 * n + d) 0 (octets w) = unat w"
    using foldl_digits [of 256 "unat w" 4] by (simp add: octets_def octet_def numeral_3_eq_3 cong: map_cong)
  then show ?thesis
    by (simp add: v4_of_octets_def)
qed

lemma split_v4_string: "splitc (CHR ''.'') (v4_string w) = map itoa (octets w)"
  unfolding v4_string_def
  by (rule splitc_join) (auto simp: octets_def is_digit_def itoa_no_sep)

lemma parseIPv4_v4_string: "parseIPv4 (v4_string w) = Some (Addr4 w)"
proof -
  have "map parse_octet (splitc (CHR ''.'') (v4_string w)) = map Some (octets w)"
    by (simp add: split_v4_string octets_list parse_octet_itoa octet_less)
  then show ?thesis
    using v4_of_octets_octets [of w] by (simp add: parseIPv4_def parseIPv4Fields_def octets_list)
qed

lemma v4_string_hd: "\<exists>r. v4_string w = itoa (octet w 0) @ CHR ''.'' # r"
  by (simp add: v4_string_def octets_list)

lemma ParseAddr_v4_string: "ParseAddr (v4_string w) = Some (Addr4 w)"
proof -
  obtain r where r: "v4_string w = itoa (octet w 0) @ CHR ''.'' # r"
    using v4_string_hd by blast
  have "c \<notin> {CHR ''.'', CHR '':'', CHR ''%''}" if "c \<in> set (itoa (octet w 0))" for c
    using itoa_digits [OF that] by (auto simp: is_digit_def)
  then have "dropWhile (\<lambda>c. c \<notin> {CHR ''.'', CHR '':'', CHR ''%''}) (v4_string w) = CHR ''.'' # r"
    by (simp add: r dropWhile_append3)
  then show ?thesis
    by (simp add: ParseAddr_def parseIPv4_v4_string)
qed

lemma hex_no_sep: "\<not> is_hex c \<Longrightarrow> c \<notin> set (hex_nat n)"
  using hex_nat_hex by blast

lemma not_hex_colon [simp]: "\<not> is_hex (CHR '':'')" "\<not> is_hex (CHR ''%'')" "\<not> is_hex (CHR ''.'')"
  by (simp_all add: is_hex_def is_digit_def)

lemma hex_run:
  assumes "s = [] \<or> \<not> is_hex (hd s)"
  shows "takeWhile is_hex (hex_nat g @ s) = hex_nat g" and "dropWhile is_hex (hex_nat g @ s) = s"
  using assms hex_nat_hex [of _ g] by (cases s; auto simp: takeWhile_append dropWhile_append)+

lemma v6_loop_step:
  assumes "g < 65536" and "s = [] \<or> hd s = CHR '':''"
  shows "v6_loop (Suc n) gs ell (hex_nat g @ s) =
    (let gs' = gs @ [g] in
     case s of
       [] \<Rightarrow> Some (gs', ell, [])
     | c # [] \<Rightarrow> None
     | c # e # r' \<Rightarrow>
             if e = CHR '':'' then
               (if ell \<noteq> None then None
                else if r' = [] then Some (gs', Some (length gs'), [])
                else v6_loop n gs' (Some (length gs')) r')
             else v6_loop n gs' ell (e # r'))"
proof -
  have len: "length (hex_nat g) \<le> 4"
    using assms(1) length_hex_nat [of g 4] by simp
  have run: "takeWhile is_hex (hex_nat g @ s) = hex_nat g" "dropWhile is_hex (hex_nat g @ s) = s"
    using assms(2) by (auto intro!: hex_run)
  have *: "v6_loop (Suc n) gs ell (hex_nat g @ s) =
    (case s of
       [] \<Rightarrow> Some (gs @ [g], ell, [])
     | c # r \<Rightarrow>
         (case r of
           [] \<Rightarrow> None
         | e # r' \<Rightarrow>
             if e = CHR '':'' then
               (if ell \<noteq> None then None
                else if r' = [] then Some (gs @ [g], Some (length (gs @ [g])), [])
                else v6_loop n (gs @ [g]) (Some (length (gs @ [g]))) r')
             else v6_loop n (gs @ [g]) ell r))"
  proof (cases s)
    case (Cons c r)
    with assms(2) have "s = CHR '':'' # r" by simp
    with run len show ?thesis by (simp add: Let_def split: list.split)
  next
    case Nil
    have "takeWhile is_hex (hex_nat g) = hex_nat g" "dropWhile is_hex (hex_nat g) = []"
      using hex_run [of "[]" g] by simp_all
    with Nil len show ?thesis by (simp only: v6_loop.simps append_Nil2 Let_def) simp
  qed
  show ?thesis
    unfolding * Let_def by (simp split: list.split)
qed

lemma hd_hex_nat: "is_hex (hd (hex_nat g @ s))"
  using hex_nat_hex [of "hd (hex_nat g)" g] by (simp add: hd_append)

lemma join_hex_hd:
  assumes "ys \<noteq> []"
  shows "\<exists>e r. join '':'' (map hex_nat ys) = e # r \<and> is_hex e"
proof -
  obtain y zs where ys: "ys = y # zs"
    using assms by (cases ys) auto
  have "\<exists>s. join '':'' (map hex_nat ys) = hex_nat y @ s"
    by (cases zs) (auto simp: ys)
  then show ?thesis
    by (metis append_is_Nil_conv hd_hex_nat hex_nat_nonempty list.collapse)
qed

lemma v6_loop_join:
  "ys \<noteq> [] \<Longrightarrow> length ys \<le> n \<Longrightarrow> (\<And>y. y \<in> set ys \<Longrightarrow> y < 65536) \<Longrightarrow>
   v6_loop n gs ell (join '':'' (map hex_nat ys)) = Some (gs @ ys, ell, [])"
proof (induction ys arbitrary: n gs)
  case (Cons y ys)
  then obtain m where n: "n = Suc m" by (cases n) auto
  show ?case
  proof (cases "ys = []")
    case True
    with Cons.prems show ?thesis
      using v6_loop_step [of y "[]" m gs ell] by (simp add: n Let_def)
  next
    case False
    then obtain e r' where r: "join '':'' (map hex_nat ys) = e # r'" and "is_hex e"
      using join_hex_hd by blast
    moreover from this have "e \<noteq> CHR '':''"
      by auto
    ultimately have "v6_loop n gs ell (hex_nat y @ CHR '':'' # e # r') = v6_loop m (gs @ [y]) ell (e # r')"
      using Cons.prems unfolding n by (subst v6_loop_step) (auto simp: Let_def)
    also have "\<dots> = Some (gs @ y # ys, ell, [])"
      using Cons.IH [of m "gs @ [y]"] Cons.prems False n by (simp add: r)
    finally show ?thesis
      using False r by (simp add: join_Cons)
  qed
qed simp

lemma v6_loop_ellipsis:
  "xs \<noteq> [] \<Longrightarrow> length xs \<le> n \<Longrightarrow> (\<And>x. x \<in> set xs \<Longrightarrow> x < 65536) \<Longrightarrow>
   v6_loop n gs None (join '':'' (map hex_nat xs) @ CHR '':'' # CHR '':'' # rest) =
     (if rest = [] then Some (gs @ xs, Some (length (gs @ xs)), [])
      else v6_loop (n - length xs) (gs @ xs) (Some (length (gs @ xs))) rest)"
proof (induction xs arbitrary: n gs)
  case (Cons x xs)
  then obtain m where n: "n = Suc m" by (cases n) auto
  show ?case
  proof (cases "xs = []")
    case True
    with Cons.prems show ?thesis
      using v6_loop_step [of x "CHR '':'' # CHR '':'' # rest" m gs None] by (simp add: n Let_def)
  next
    case False
    then obtain e r' where r: "join '':'' (map hex_nat xs) = e # r'" and "is_hex e"
      using join_hex_hd by blast
    moreover from this have "e \<noteq> CHR '':''"
      by auto
    ultimately have "v6_loop n gs None (hex_nat x @ CHR '':'' # e # r' @ CHR '':'' # CHR '':'' # rest) =
        v6_loop m (gs @ [x]) None (e # r' @ CHR '':'' # CHR '':'' # rest)"
      using Cons.prems unfolding n by (subst v6_loop_step) (auto simp: Let_def)
    then show ?thesis
      using Cons.IH [of m "gs @ [x]"] Cons.prems False n by (simp add: r join_Cons)
  qed
qed simp

lemma zero_run_spec:
  "zero_run k (drop k gs) (i0, l0) = (i, l) \<Longrightarrow> k \<le> length gs \<Longrightarrow>
   (l0 = 0 \<or> i0 + l0 \<le> length gs \<and> 2 \<le> l0 \<and> (\<forall>j. i0 \<le> j \<and> j < i0 + l0 \<longrightarrow> gs ! j = 0)) \<Longrightarrow>
   l = 0 \<or> i + l \<le> length gs \<and> 2 \<le> l \<and> (\<forall>j. i \<le> j \<and> j < i + l \<longrightarrow> gs ! j = 0)"
proof (induction "length gs - k" arbitrary: k i0 l0)
  case 0
  then show ?case by simp
next
  case (Suc d)
  then have k: "k < length gs" by simp
  let ?l = "length (takeWhile (\<lambda>x. x = 0) (drop k gs))"
  have run: "zero_run (Suc k) (drop (Suc k) gs) (if 2 \<le> ?l \<and> l0 < ?l then (k, ?l) else (i0, l0)) = (i, l)"
  proof -
    have dr: "drop k gs = gs ! k # drop (Suc k) gs"
      using Cons_nth_drop_Suc [OF k] by simp
    have "zero_run k (gs ! k # drop (Suc k) gs) (i0, l0) = (i, l)"
      using Suc.prems(1) by (simp only: dr)
    then show ?thesis
      by (simp only: zero_run.simps Let_def snd_conv dr)
  qed
  have len: "k + ?l \<le> length gs"
    using length_takeWhile_le [of "\<lambda>x. x = 0" "drop k gs"] k by simp
  have zero: "gs ! j = 0" if "k \<le> j" "j < k + ?l" for j
  proof -
    let ?t = "takeWhile (\<lambda>x. x = 0) (drop k gs)"
    have j: "j - k < length ?t" using that by simp
    then have "?t ! (j - k) = 0"
      using set_takeWhileD [OF nth_mem [OF j]] by simp
    moreover have "?t ! (j - k) = drop k gs ! (j - k)"
      using j by (rule takeWhile_nth)
    ultimately show ?thesis using that k by simp
  qed
  show ?case
  proof (cases "2 \<le> ?l \<and> l0 < ?l")
    case True
    with run len zero k Suc.hyps(2) show ?thesis
      by (intro Suc.hyps(1) [of "Suc k" k ?l]) auto
  next
    case False
    with run k Suc.hyps(2) Suc.prems(3) show ?thesis
      by (intro Suc.hyps(1) [of "Suc k" i0 l0]) auto
  qed
qed

lemma zero_run_groups:
  assumes "zero_run 0 gs (0, 0) = (i, l)" and "l \<noteq> 0"
  shows "i + l \<le> length gs \<and> 2 \<le> l \<and> take i gs @ replicate l 0 @ drop (i + l) gs = gs"
proof -
  have *: "i + l \<le> length gs" "2 \<le> l" "\<And>j. i \<le> j \<Longrightarrow> j < i + l \<Longrightarrow> gs ! j = 0"
    using zero_run_spec [of 0 gs 0 0 i l] assms by auto
  have "take l (drop i gs) = replicate l 0"
    using * by (intro nth_equalityI) auto
  then show ?thesis
    using * by (metis append_take_drop_id drop_drop add.commute)
qed

lemma groups_list: "length (groups w) = 8" "g \<in> set (groups w) \<Longrightarrow> g < 65536"
  by (auto simp: groups_def v6u16_def)

lemma v6_of_groups_groups: "v6_of_groups (groups w) = w"
proof -
  have "unat w < 65536 ^ 8"
    using unsigned_less [where ?'a = nat, of w] by simp
  then have "foldl (\<lambda>n d. 65536 * n + d) 0 (groups w) = unat w"
    using foldl_digits [of 65536 "unat w" 8] by (simp add: groups_def v6u16_def [abs_def])
  then show ?thesis
    by (simp add: v6_of_groups_def)
qed

text \<open>The first of the three separators in a text of groups is a colon.\<close>

lemma v6_text_head:
  assumes "length gs = 8" and "zero_run 0 gs (0, 0) = (i, l)"
  shows "\<exists>p r. (if l = 0 then join '':'' (map hex_nat gs)
      else join '':'' (take i (map hex_nat gs)) @ ''::'' @ join '':'' (drop (i + l) (map hex_nat gs))) =
    p @ CHR '':'' # r \<and> (\<forall>c \<in> set p. is_hex c)"
proof -
  have h: "\<forall>c \<in> set (hex_nat g). is_hex c" for g
    using hex_nat_hex by blast
  obtain a b rest where gs: "gs = a # b # rest"
    using assms(1) by (cases gs; cases "tl gs") auto
  have *: "\<exists>p r. join '':'' (hex_nat a # xs) @ ''::'' @ s = p @ CHR '':'' # r \<and> (\<forall>c \<in> set p. is_hex c)" for xs s
    using h [of a] by (cases xs) (force intro: exI [of _ "hex_nat a"])+
  show ?thesis
  proof (cases "l = 0")
    case True
    then show ?thesis
      using h [of a] by (intro exI [of _ "hex_nat a"] exI [of _ "join '':'' (map hex_nat (b # rest))"]) (simp add: gs)
  next
    case False
    show ?thesis
    proof (cases i)
      case 0
      with False show ?thesis
        by (intro exI [of _ "[]"] exI [of _ "CHR '':'' # join '':'' (drop (i + l) (map hex_nat gs))"]) simp
    next
      case (Suc j)
      then show ?thesis using False * [of "take j (map hex_nat (b # rest))"] by (simp add: gs)
    qed
  qed
qed

lemma v6_text_parse:
  assumes len: "length gs = 8" and small: "\<And>g. g \<in> set gs \<Longrightarrow> g < 65536"
    and run: "zero_run 0 gs (0, 0) = (i, l)"
    and s: "s = (if l = 0 then join '':'' (map hex_nat gs)
      else join '':'' (take i (map hex_nat gs)) @ ''::'' @ join '':'' (drop (i + l) (map hex_nat gs)))"
    and ne: "s \<noteq> ''::''"
  shows "Option.bind
      (if hasPrefix s ''::'' then v6_loop 8 [] (Some 0) (drop 2 s) else v6_loop 8 [] None s)
      v6_finish = Some gs"
proof (cases "l = 0")
  case True
  obtain e r where "join '':'' (map hex_nat gs) = e # r" "is_hex e"
    using join_hex_hd [of gs] len by fastforce
  then have "\<not> hasPrefix s ''::''"
    using True s by (auto simp: hasPrefix_def)
  then show ?thesis
    using True len small s v6_loop_join [of gs 8 "[]" None] by (cases "gs = []") (simp_all add: v6_finish_def)
next
  case False
  note g = zero_run_groups [OF run False]
  let ?a = "take i gs" and ?b = "drop (i + l) gs"
  have s': "s = join '':'' (map hex_nat ?a) @ ''::'' @ join '':'' (map hex_nat ?b)"
    using False s by (simp add: take_map drop_map)
  have lens: "length ?a + length ?b + l = 8" "length ?a = i"
    using g len by auto
  have fin: "v6_finish (?a @ ?b, Some i, []) = Some gs"
    using g lens by (simp add: v6_finish_def)
  have sm: "y < 65536" if "y \<in> set ?a \<union> set ?b" for y
    using that small by (meson UnE in_set_dropD in_set_takeD)
  show ?thesis
  proof (cases "?a = []")
    case True
    then have i: "i = 0" using len by auto
    have "?b \<noteq> []" using ne s' True by auto
    then have "v6_loop 8 [] (Some 0) (join '':'' (map hex_nat ?b)) = Some (?b, Some 0, [])"
      using v6_loop_join [of ?b 8 "[]" "Some 0"] lens sm by simp
    moreover have "s = ''::'' @ join '':'' (map hex_nat ?b)"
      using s' True by simp
    ultimately show ?thesis
      using fin True i by (simp add: hasPrefix_def)
  next
    case a: False
    obtain e r where er: "join '':'' (map hex_nat ?a) = e # r" "is_hex e"
      using join_hex_hd [OF a] by auto
    then have np: "\<not> hasPrefix s ''::''"
      using s' by (auto simp: hasPrefix_def)
    have "v6_loop 8 [] None s = Some (?a @ ?b, Some i, [])"
    proof (cases "?b = []")
      case True
      then show ?thesis
        using s' v6_loop_ellipsis [OF a, of 8 "[]" "[]"] lens sm by simp
    next
      case False
      then have "join '':'' (map hex_nat ?b) \<noteq> []"
        using join_hex_hd [OF False] by auto
      then have "v6_loop 8 [] None s = v6_loop (8 - length ?a) ?a (Some (length ?a)) (join '':'' (map hex_nat ?b))"
        using v6_loop_ellipsis [OF a, of 8 "[]" "join '':'' (map hex_nat ?b)"] lens sm
        by (simp add: s' del: length_take length_drop)
      also have "\<dots> = Some (?a @ ?b, Some i, [])"
        using v6_loop_join [OF False, of "8 - length ?a" ?a "Some (length ?a)"] lens sm
        by (simp del: length_take length_drop)
      finally show ?thesis .
    qed
    then show ?thesis
      using np fin by simp
  qed
qed

lemma v6_string_ellipsis:
  assumes "v6_string w = ''::''"
  shows "w = 0"
proof -
  obtain i l where run: "zero_run 0 (groups w) (0, 0) = (i, l)"
    by (cases "zero_run 0 (groups w) (0, 0)")
  have h: "CHR '':'' \<notin> set (hex_nat g)" for g
    by (rule hex_no_sep) simp
  have col: "join '':'' (map hex_nat gs) \<noteq> CHR '':'' # r" for gs r
    using join_hex_hd [of gs] by (cases "gs = []") auto
  have e: "xs = []" if "join '':'' (map hex_nat xs) = []" for xs
    using join_hex_hd [of xs] that by (cases "xs = []") auto
  show ?thesis
  proof (cases "l = 0")
    case True
    then show ?thesis using assms run col [of "groups w" "'':''"] by (simp add: v6_string_def Let_def)
  next
    case False
    note g = zero_run_groups [OF run False]
    have s: "join '':'' (map hex_nat (take i (groups w))) @ ''::'' @
        join '':'' (map hex_nat (drop (i + l) (groups w))) = ''::''"
      using assms run False by (simp add: v6_string_def Let_def take_map drop_map)
    then have "join '':'' (map hex_nat (take i (groups w))) = []"
      using col [of "take i (groups w)"] by (cases "join '':'' (map hex_nat (take i (groups w)))") auto
    then have a: "take i (groups w) = []"
      by (rule e)
    with s have "join '':'' (map hex_nat (drop (i + l) (groups w))) = []"
      by simp
    then have b: "drop (i + l) (groups w) = []"
      by (rule e)
    from g have gr: "groups w = replicate l 0"
      unfolding a b by simp
    then have "l = 8"
      using groups_list(1) [of w] by simp
    moreover have "foldl (\<lambda>n d. 65536 * n + d) 0 (replicate k 0) = (0 :: nat)" for k
      by (induction k) simp_all
    then have "v6_of_groups (replicate 8 0) = 0"
      by (simp add: v6_of_groups_def)
    ultimately show ?thesis
      using v6_of_groups_groups [of w] gr by metis
  qed
qed

lemma v6_text_chars:
  assumes "c \<in> set (v6_string w)"
  shows "is_hex c \<or> c = CHR '':''"
proof -
  have "c \<in> set (join '':'' (map hex_nat gs)) \<Longrightarrow> is_hex c \<or> c = CHR '':''" for gs
  proof (induction gs)
    case (Cons g gs)
    then show ?case using hex_nat_hex [of c g] by (cases gs) auto
  qed simp
  with assms show ?thesis
    by (auto simp: v6_string_def Let_def take_map drop_map split: prod.splits if_splits)
qed

lemma ParseAddr_v6_string: "ParseAddr (v6_string w) = Some (Addr6 w [])"
proof -
  obtain i l where run: "zero_run 0 (groups w) (0, 0) = (i, l)"
    by (cases "zero_run 0 (groups w) (0, 0)")
  let ?s = "v6_string w"
  have s: "?s = (if l = 0 then join '':'' (map hex_nat (groups w))
      else join '':'' (take i (map hex_nat (groups w))) @ ''::'' @
        join '':'' (drop (i + l) (map hex_nat (groups w))))"
    using run by (simp add: v6_string_def Let_def)
  obtain p r where p: "?s = p @ CHR '':'' # r" "\<forall>c \<in> set p. is_hex c"
    using v6_text_head [OF groups_list(1) run] unfolding s by blast
  have "c \<notin> {CHR ''.'', CHR '':'', CHR ''%''}" if "c \<in> set p" for c
    using p(2) that not_hex_colon by auto
  then have "dropWhile (\<lambda>c. c \<notin> {CHR ''.'', CHR '':'', CHR ''%''}) ?s = CHR '':'' # r"
    using p(1) by (simp add: dropWhile_append3)
  then have "ParseAddr ?s = parseIPv6 ?s"
    by (simp add: ParseAddr_def)
  moreover have "c \<noteq> CHR ''%''" if "c \<in> set ?s" for c
    using v6_text_chars [OF that] not_hex_colon by auto
  then have nz: "takeWhile (\<lambda>c. c \<noteq> CHR ''%'') ?s = ?s" "dropWhile (\<lambda>c. c \<noteq> CHR ''%'') ?s = []"
    by (simp_all add: takeWhile_eq_all_conv dropWhile_eq_Nil_conv)
  have "parseIPv6 ?s = Some (Addr6 w [])"
  proof (cases "?s = ''::''")
    case True
    then show ?thesis
      using nz v6_string_ellipsis [OF True] by (simp only: parseIPv6_def Let_def) simp
  next
    case False
    from v6_text_parse [OF groups_list(1) groups_list(2) run s False] show ?thesis
      using False by (simp only: parseIPv6_def Let_def nz) (simp add: v6_of_groups_groups)
  qed
  ultimately show ?thesis by simp
qed

text \<open>
  The text of the bytes of an address reads back as the address, an IPv4-mapped
  one as the IPv4 address.
\<close>

lemma ParseAddr_IP_String:
  "length bs = 4 \<Longrightarrow> ParseAddr (IP_String bs) = Some (Addr4 (of_nat (nat_of_bytes bs)))"
  "length bs = 16 \<Longrightarrow> ParseAddr (IP_String bs) = Some (Unmap (Addr6 (of_nat (nat_of_bytes bs)) []))"
proof -
  show "length bs = 4 \<Longrightarrow> ParseAddr (IP_String bs) = Some (Addr4 (of_nat (nat_of_bytes bs)))"
    by (simp add: IP_String_def ParseAddr_v4_string)
  have *: "nat_of_bytes bs < 256 ^ length bs"
  proof (induction bs rule: rev_induct)
    case (snoc b bs)
    have "unat b < 256" using unsigned_less [where ?'a = nat, of b] by simp
    with snoc show ?case by (simp add: nat_of_bytes_def)
  qed (simp add: nat_of_bytes_def)
  show "length bs = 16 \<Longrightarrow> ParseAddr (IP_String bs) = Some (Unmap (Addr6 (of_nat (nat_of_bytes bs)) []))"
  proof -
    assume len: "length bs = 16"
    then have "take_bit 128 (nat_of_bytes bs) = nat_of_bytes bs"
      using * by (simp add: take_bit_nat_eq_self)
    then have "ucast (of_nat (nat_of_bytes bs) :: 128 word) = (of_nat (nat_of_bytes bs) :: 32 word)"
      by (simp add: unsigned_of_nat)
    with len show ?thesis
      by (simp add: IP_String_def Let_def ParseAddr_v4_string ParseAddr_v6_string addr_string_def Unmap_def)
  qed
qed

end
