(* ===== verification/Policy.thy ===== *)
theory Policy
  imports Protocol GoNetip
begin

text \<open>
  \<open>internal/policy/policy.go\<close>: the egress policy of the server, from the rule
  texts to the list of addresses a target may be dialled on.  The resolver is a
  parameter: \<open>lookup ctx host\<close> is what \<open>LookupNetIP(ctx, "ip", host)\<close> returns, a
  list of addresses or an error.

  The lemmas show which addresses an engine that does not allow private networks
  can return, that a deny rule matching the target or any resolved address ends
  in an error, which targets an allow list admits, and what a rule text means.
\<close>

section \<open>Rules\<close>

record Config =
  AllowPrivate :: bool
  AllowUnrestricted :: bool
  RequireAllowTarget :: bool
  AllowTargets :: "string list"
  DenyTargets :: "string list"

record rule =
  r_raw :: string
  r_host :: string
  r_suffix :: string
  r_cidr :: "Prefix option"
  r_port :: u16
  r_hasPort :: bool
  r_any :: bool

record Engine =
  allowPrivate :: bool
  allowUnrestricted :: bool
  allowRules :: "rule list"
  denyRules :: "rule list"

definition splitHostPortLoose :: "string \<Rightarrow> string \<times> string \<times> bool" where
  "splitHostPortLoose s =
     (if hasPrefix s ''['' then
        (case SplitHostPort s of None \<Rightarrow> ([], [], False) | Some (h, p) \<Rightarrow> (h, p, True))
      else if count_list s (CHR '':'') = 1 then
        (takeWhile (\<lambda>c. c \<noteq> CHR '':'') s, tl (dropWhile (\<lambda>c. c \<noteq> CHR '':'') s), True)
      else (s, [], False))"

definition parseAddr :: "string \<Rightarrow> Addr option" where
  "parseAddr host = ParseAddr (trim host ''[]'')"

definition parse_rule_port :: "string \<Rightarrow> rule \<Rightarrow> rule result" where
  "parse_rule_port portPart r =
     (if portPart = [] then Inr r
      else case parse_uint 16 portPart of
        Inl _ \<Rightarrow> Inl (ErrText ''invalid port'')
      | Inr n \<Rightarrow> if n = 0 then Inl (ErrText ''invalid port'')
          else Inr (r\<lparr>r_port := of_nat n, r_hasPort := True\<rparr>))"

definition parse_rule_host :: "string \<Rightarrow> rule \<Rightarrow> rule" where
  "parse_rule_host hostPart r =
     (if hostPart = ''*'' then r\<lparr>r_any := True\<rparr>
      else case ParsePrefix hostPart of
        Some pfx \<Rightarrow> r\<lparr>r_cidr := Some pfx\<rparr>
      | None \<Rightarrow>
        (case ParseAddr hostPart of
           Some addr \<Rightarrow> r\<lparr>r_cidr := Some (PrefixFrom addr (BitLen addr))\<rparr>
         | None \<Rightarrow>
             if hasPrefix hostPart ''.'' \<or> hasPrefix hostPart ''*.''
             then r\<lparr>r_suffix := ''.'' @ trimPrefix (trimPrefix hostPart ''*'') ''.''\<rparr>
             else r\<lparr>r_host := hostPart\<rparr>))"

definition parseRule :: "string \<Rightarrow> rule result" where
  "parseRule raw0 =
     (let raw = trimSpace raw0
      in if raw = [] then Inl (ErrText ''empty rule'')
         else let r = \<lparr>r_raw = raw, r_host = [], r_suffix = [], r_cidr = None, r_port = 0,
                       r_hasPort = False, r_any = False\<rparr>;
                  (hostPart, portPart, r1) =
                    (if hasPrefix raw ''*:'' then (''*'', trimPrefix raw ''*:'', r\<lparr>r_any := True\<rparr>)
                     else case splitHostPortLoose raw of
                       (h, p, ok) \<Rightarrow> if ok then (h, p, r) else (raw, [], r))
              in ebind (parse_rule_port portPart r1)
                   (\<lambda>r2. Inr (parse_rule_host (trim (toLower hostPart) ''[]'') r2)))"

fun parse_rules :: "string \<Rightarrow> string list \<Rightarrow> rule list result" where
  "parse_rules what [] = Inr []"
| "parse_rules what (raw # raws) =
     (case parseRule raw of
        Inl e \<Rightarrow> Inl (ErrWrap (what @ '' target '' @ quote raw) e)
      | Inr r \<Rightarrow> ebind (parse_rules what raws) (\<lambda>rs. Inr (r # rs)))"

definition New :: "Config \<Rightarrow> Engine result" where
  "New cfg =
     (if RequireAllowTarget cfg \<and> \<not> AllowUnrestricted cfg \<and> AllowTargets cfg = []
      then Inl (ErrText ''at least one --allow-target is required, or pass --allow-target '*' to allow unrestricted public egress'')
      else ebind (parse_rules ''allow'' (AllowTargets cfg)) (\<lambda>allow.
           ebind (parse_rules ''deny'' (DenyTargets cfg)) (\<lambda>deny.
             Inr \<lparr>allowPrivate = AllowPrivate cfg, allowUnrestricted = AllowUnrestricted cfg,
                  allowRules = allow, denyRules = deny\<rparr>)))"

section \<open>Matching\<close>

definition rule_matches :: "rule \<Rightarrow> Target \<Rightarrow> Addr option \<Rightarrow> bool" where
  "rule_matches r t ip =
     (if r_hasPort r \<and> r_port r \<noteq> tgt_port t then False
      else if r_any r then True
      else let host = toLower (trim (tgt_host t) ''[]'')
           in if r_host r \<noteq> [] \<and> host = r_host r then True
              else if r_suffix r \<noteq> [] \<and>
                (host = trimPrefix (r_suffix r) ''.'' \<or> hasSuffix host (r_suffix r)) then True
              else case r_cidr r of
                None \<Rightarrow> False
              | Some cidr \<Rightarrow>
                  (case (case ip of None \<Rightarrow> parseAddr (tgt_host t) | Some a \<Rightarrow> Some a) of
                     None \<Rightarrow> False
                   | Some addr \<Rightarrow> Contains cidr addr))"

fun matches :: "rule list \<Rightarrow> Target \<Rightarrow> Addr option \<Rightarrow> bool" where
  "matches [] t ip = False"
| "matches (r # rs) t ip = (rule_matches r t ip \<or> matches rs t ip)"

fun matchesAnyIP :: "rule list \<Rightarrow> Target \<Rightarrow> Addr list \<Rightarrow> bool" where
  "matchesAnyIP rules t [] = False"
| "matchesAnyIP rules t (ip # ips) = (matches rules t (Some ip) \<or> matchesAnyIP rules t ips)"

section \<open>The decision\<close>

definition metadata_v4 :: Addr where
  "metadata_v4 = the (ParseAddr ''169.254.169.254'')"

definition metadata_v6 :: Addr where
  "metadata_v6 = the (ParseAddr ''fd00:ec2::254'')"

definition isUnsafe :: "Addr \<Rightarrow> bool" where
  "isUnsafe ip =
     (if \<not> IsValid ip then True
      else if IsUnspecified ip \<or> IsLoopback ip \<or> IsPrivate ip \<or> IsLinkLocalUnicast ip \<or>
        IsLinkLocalMulticast ip \<or> IsMulticast ip then True
      else if ip = metadata_v4 \<or> ip = metadata_v6 then True
      else False)"

definition CheckAddr :: "Engine \<Rightarrow> Addr \<Rightarrow> err option" where
  "CheckAddr e ip =
     (if allowPrivate e then None
      else if isUnsafe ip then Some (ErrText (''unsafe destination address denied: '' @ addr_string ip))
      else None)"

type_synonym resolver = "err option \<Rightarrow> string \<Rightarrow> Addr list result"

definition resolveTarget :: "resolver \<Rightarrow> err option \<Rightarrow> Target \<Rightarrow> (Addr list \<times> Addr option) result" where
  "resolveTarget lookup ctx t =
     (case parseAddr (tgt_host t) of
        Some ip \<Rightarrow> Inr ([ip], Some ip)
      | None \<Rightarrow>
        (case lookup ctx (tgt_host t) of
           Inl e \<Rightarrow> Inl (ErrWrap ''resolve target'' e)
         | Inr ips \<Rightarrow> if ips = [] then Inl (ErrText ''resolve target: no addresses'') else Inr (ips, None)))"

fun check_addrs :: "Engine \<Rightarrow> Addr list \<Rightarrow> Addr list result" where
  "check_addrs e [] = Inr []"
| "check_addrs e (ip # ips) =
     (case CheckAddr e ip of
        Some x \<Rightarrow> Inl x
      | None \<Rightarrow> ebind (check_addrs e ips) (\<lambda>out. Inr (ip # out)))"

definition allowedIPs :: "Engine \<Rightarrow> resolver \<Rightarrow> err option \<Rightarrow> Target \<Rightarrow> Addr list result" where
  "allowedIPs e lookup ctx t =
     (if tgt_port t = 0 then Inl (ErrText ''port 0 is not allowed'')
      else case resolveTarget lookup ctx t of
        Inl x \<Rightarrow> Inl x
      | Inr (ips, literal) \<Rightarrow>
          if matches (denyRules e) t literal \<or> matchesAnyIP (denyRules e) t ips
          then Inl (ErrText ''target denied by rule'')
          else if \<not> allowUnrestricted e \<and> allowRules e \<noteq> [] \<and> \<not> matches (allowRules e) t literal \<and>
            \<not> matchesAnyIP (allowRules e) t ips
          then Inl (ErrText ''target not allowed by allowlist'')
          else case check_addrs e ips of
            Inl x \<Rightarrow> Inl x
          | Inr out \<Rightarrow> if out = [] then Inl (ErrText ''no allowed resolved addresses'') else Inr out)"

definition AllowedIPs :: "Engine \<Rightarrow> resolver \<Rightarrow> err option \<Rightarrow> Target \<Rightarrow> Addr list result" where
  "AllowedIPs e lookup ctx t = allowedIPs e lookup ctx t"

definition CheckTarget :: "Engine \<Rightarrow> resolver \<Rightarrow> err option \<Rightarrow> Target \<Rightarrow> err option" where
  "CheckTarget e lookup ctx t = (case allowedIPs e lookup ctx t of Inl x \<Rightarrow> Some x | Inr _ \<Rightarrow> None)"

section \<open>What the decision lets through\<close>

lemma matches_iff: "matches rs t ip \<longleftrightarrow> (\<exists>r \<in> set rs. rule_matches r t ip)"
  by (induction rs) auto

lemma matchesAnyIP_iff: "matchesAnyIP rs t ips \<longleftrightarrow> (\<exists>ip \<in> set ips. \<exists>r \<in> set rs. rule_matches r t (Some ip))"
  by (induction ips) (auto simp: matches_iff)

lemma check_addrs_Inr: "check_addrs e ips = Inr out \<longleftrightarrow> out = ips \<and> (\<forall>ip \<in> set ips. CheckAddr e ip = None)"
  by (induction ips arbitrary: out) (auto simp: ebind_eq_Inr split: option.splits)

lemma check_addrs_Inl: "check_addrs e ips = Inl x \<Longrightarrow> \<exists>ip \<in> set ips. \<not> allowPrivate e \<and> isUnsafe ip"
  by (induction ips arbitrary: x) (auto simp: ebind_eq_Inl CheckAddr_def split: option.splits if_splits)

lemma CheckAddr_None: "CheckAddr e ip = None \<longleftrightarrow> allowPrivate e \<or> \<not> isUnsafe ip"
  by (simp add: CheckAddr_def)

text \<open>The addresses a target stands for, as the decision sees them.\<close>

lemma resolveTarget_Inr:
  "resolveTarget lookup ctx t = Inr (ips, lit) \<longleftrightarrow>
   (\<exists>ip. parseAddr (tgt_host t) = Some ip \<and> ips = [ip] \<and> lit = Some ip) \<or>
   (parseAddr (tgt_host t) = None \<and> lookup ctx (tgt_host t) = Inr ips \<and> ips \<noteq> [] \<and> lit = None)"
  by (auto simp: resolveTarget_def split: option.splits sum.splits)

lemma allowedIPs_Inr:
  "allowedIPs e lookup ctx t = Inr out \<longleftrightarrow>
   tgt_port t \<noteq> 0 \<and> out \<noteq> [] \<and>
   (\<exists>lit. resolveTarget lookup ctx t = Inr (out, lit) \<and>
      \<not> matches (denyRules e) t lit \<and> \<not> matchesAnyIP (denyRules e) t out \<and>
      (allowUnrestricted e \<or> allowRules e = [] \<or> matches (allowRules e) t lit \<or>
       matchesAnyIP (allowRules e) t out)) \<and>
   (\<forall>ip \<in> set out. allowPrivate e \<or> \<not> isUnsafe ip)"
  by (cases "resolveTarget lookup ctx t")
    (auto simp: allowedIPs_def check_addrs_Inr CheckAddr_None split: sum.splits if_splits
      dest!: check_addrs_Inl)

lemma v6_string_metadata:
  "v6_string 336294982257581694735330614659971547732 = ''fd00:ec2::254''"
proof -
  have "groups 336294982257581694735330614659971547732 = [64768, 3778, 0, 0, 0, 0, 0, 596]"
    by (simp add: groups_def v6u16_def upt_rec)
  then show ?thesis
    by (simp add: v6_string_def hex_nat.simps hex_digit_eval)
qed

lemma v4_string_metadata: "v4_string 2852039166 = ''169.254.169.254''"
  by (simp add: v4_string_def octets_list octet_def itoa.simps digit_eval)

lemma metadata_eq: "metadata_v4 = Addr4 2852039166"
  "metadata_v6 = Addr6 336294982257581694735330614659971547732 []"
  unfolding metadata_v4_def metadata_v6_def
  by (simp_all only: v4_string_metadata [symmetric] v6_string_metadata [symmetric]
      ParseAddr_v4_string ParseAddr_v6_string option.sel)

text \<open>
  The IPv4 addresses denied unless private networks are allowed, as ranges of the
  address read as a number.
\<close>

definition unsafe_v4 :: "nat \<Rightarrow> bool" where
  "unsafe_v4 n \<longleftrightarrow> n = 0 \<or>
     10 * 2 ^ 24 \<le> n \<and> n < 11 * 2 ^ 24 \<or>
     127 * 2 ^ 24 \<le> n \<and> n < 128 * 2 ^ 24 \<or>
     169 * 2 ^ 24 + 254 * 2 ^ 16 \<le> n \<and> n < 169 * 2 ^ 24 + 255 * 2 ^ 16 \<or>
     172 * 2 ^ 24 + 16 * 2 ^ 16 \<le> n \<and> n < 172 * 2 ^ 24 + 32 * 2 ^ 16 \<or>
     192 * 2 ^ 24 + 168 * 2 ^ 16 \<le> n \<and> n < 192 * 2 ^ 24 + 169 * 2 ^ 16 \<or>
     224 * 2 ^ 24 \<le> n \<and> n < 240 * 2 ^ 24"

text \<open>The IPv6 ranges: loopback, \<open>fc00::/7\<close>, \<open>fe80::/10\<close> and \<open>ff00::/8\<close>.\<close>

definition unsafe_v6 :: "nat \<Rightarrow> bool" where
  "unsafe_v6 n \<longleftrightarrow> n = 1 \<or>
     n div 2 ^ 121 = 126 \<or> n div 2 ^ 118 = 1018 \<or> n div 2 ^ 120 = 255"

lemma octet_0: "octet w 0 = unat w div 16777216"
proof -
  have "unat w < 2 ^ 32"
    using unsigned_less [where ?'a = nat, of w] by simp
  then show ?thesis by (simp add: octet_def less_mult_imp_div_less)
qed

lemma nat_div_eq: "0 < c \<Longrightarrow> n div c = q \<longleftrightarrow> q * c \<le> n \<and> n < Suc q * c" for n c q :: nat
  by (metis div_nat_eqI div_times_less_eq_dividend dividend_less_div_times mult.commute mult_Suc)

lemma octet_div: "unat w div 16777216 = unat w div 65536 div 256" "octet w 1 = unat w div 65536 mod 256"
  by (simp_all add: octet_def flip: div_mult2_eq)

lemma octet_01: "octet w 0 = a \<and> octet w 1 = b \<longleftrightarrow> b < 256 \<and> unat w div 65536 = 256 * a + b"
  unfolding octet_0 octet_div by auto

definition special_class :: "Addr \<Rightarrow> bool" where
  "special_class a \<longleftrightarrow> IsLoopback a \<or> IsPrivate a \<or> IsLinkLocalUnicast a \<or> IsLinkLocalMulticast a \<or> IsMulticast a"

lemma isUnsafe_split:
  "isUnsafe a \<longleftrightarrow> a = AddrZero \<or> IsUnspecified a \<or> special_class a \<or> a = metadata_v4 \<or> a = metadata_v6"
  by (auto simp: isUnsafe_def special_class_def IsValid_def)

lemma special_class_v4: "special_class (Addr4 w) \<longleftrightarrow> unat w \<noteq> 0 \<and> unsafe_v4 (unat w)"
proof -
  let ?n = "unat w"
  have 1: "octet w 0 = 172 \<and> octet w 1 div 16 = 1 \<longleftrightarrow> ?n div 1048576 = 2753"
  proof -
    let ?j = "?n div 65536 div 16"
    have "?n div 65536 mod 256 div 16 = ?j mod 16"
      using mod_mult2_eq [of "?n div 65536" 16 16] by simp
    moreover have "?n div 65536 div 256 = ?j div 16" and "?n div 1048576 = ?j"
      by (simp_all flip: div_mult2_eq)
    moreover have "j div 16 = 172 \<and> j mod 16 = 1 \<longleftrightarrow> j = 2753" for j :: nat
    proof
      assume "j div 16 = 172 \<and> j mod 16 = 1"
      moreover have "16 * (j div 16) + j mod 16 = j" by (rule mult_div_mod_eq)
      ultimately show "j = 2753" by (simp only:)
    qed simp
    ultimately show ?thesis
      unfolding octet_0 octet_div by simp
  qed
  have m: "octet w 0 div 16 = 14 \<longleftrightarrow> ?n div 268435456 = 14"
    by (simp add: octet_0 flip: div_mult2_eq)
  then have lm: "octet w 0 = 224 \<Longrightarrow> ?n div 268435456 = 14"
    by simp
  have "special_class (Addr4 w) \<longleftrightarrow> octet w 0 = 127 \<or> octet w 0 = 10 \<or>
      (octet w 0 = 172 \<and> octet w 1 div 16 = 1) \<or> (octet w 0 = 192 \<and> octet w 1 = 168) \<or>
      (octet w 0 = 169 \<and> octet w 1 = 254) \<or>
      (octet w 0 = 224 \<and> octet w 1 = 0 \<and> octet w 2 = 0) \<or> octet w 0 div 16 = 14"
    by (simp add: special_class_def IsLoopback_def IsPrivate_def
        IsLinkLocalUnicast_def IsLinkLocalMulticast_def IsMulticast_def Unmap_def)
  then have sc: "special_class (Addr4 w) \<longleftrightarrow> ?n div 16777216 = 10 \<or> ?n div 16777216 = 127 \<or>
      ?n div 65536 = 43518 \<or> ?n div 1048576 = 2753 \<or> ?n div 65536 = 49320 \<or> ?n div 268435456 = 14"
    unfolding 1 octet_01 m using lm by (simp add: octet_0) blast
  have "special_class (Addr4 w) \<Longrightarrow> ?n \<noteq> 0"
    unfolding sc by (rule notI) simp
  moreover have "unsafe_v4 ?n \<longleftrightarrow> ?n = 0 \<or> special_class (Addr4 w)"
    unfolding sc unsafe_v4_def by (simp add: nat_div_eq)
  ultimately show ?thesis
    by auto
qed

lemma isUnsafe_v4: "isUnsafe (Addr4 w) \<longleftrightarrow> unsafe_v4 (unat w)"
proof -
  have "unsafe_v4 0" "unsafe_v4 2852039166"
    by (simp_all add: unsafe_v4_def)
  moreover have "isUnsafe (Addr4 w) \<longleftrightarrow> unat w = 0 \<or> special_class (Addr4 w) \<or> unat w = 2852039166"
    by (simp add: isUnsafe_split IsUnspecified_def metadata_eq word_unat_eq_iff)
  ultimately show ?thesis
    by (metis special_class_v4)
qed

lemma special_class_mapped:
  "Is4In6 (Addr6 w z) \<Longrightarrow> special_class (Addr6 w z) \<longleftrightarrow> special_class (Addr4 (ucast w))"
  by (simp add: special_class_def IsLoopback_def IsPrivate_def
        IsLinkLocalUnicast_def IsLinkLocalMulticast_def IsMulticast_def Unmap_def)

lemma v6u16_0: "v6u16 w 0 = unat w div 65536 ^ 7"
proof -
  have "unat w < 2 ^ 128"
    using unsigned_less [where ?'a = nat, of w] by simp
  then show ?thesis by (simp add: v6u16_def less_mult_imp_div_less)
qed

lemma special_class_v6:
  assumes "\<not> Is4In6 (Addr6 w z)"
  shows "special_class (Addr6 w z) \<longleftrightarrow> unsafe_v6 (unat w)"
proof -
  have "special_class (Addr6 w z) \<longleftrightarrow> w = 1 \<or> v6u16 w 0 div 512 = 126 \<or> v6u16 w 0 div 64 = 1018 \<or>
      v6u16 w 0 div 256 = 255"
    using assms by (auto simp: special_class_def IsLoopback_def IsPrivate_def
        IsLinkLocalUnicast_def IsLinkLocalMulticast_def IsMulticast_def Unmap_def)
  moreover have "w = 1 \<longleftrightarrow> unat w = 1"
    by (simp add: word_unat_eq_iff)
  ultimately show ?thesis
    by (simp add: unsafe_v6_def v6u16_0 flip: div_mult2_eq)
qed

lemma unat_low: "unat (ucast w :: 32 word) = unat w mod 2 ^ 32" for w :: "128 word"
  by (simp add: unsigned_ucast_eq take_bit_eq_mod)

lemma isUnsafe_v6:
  "isUnsafe (Addr6 w z) \<longleftrightarrow>
   (if unat w div 2 ^ 32 = 65535 then unat w mod 2 ^ 32 \<noteq> 0 \<and> unsafe_v4 (unat w mod 2 ^ 32)
    else w = 0 \<and> z = [] \<or> unsafe_v6 (unat w))"
proof -
  have meta: "w = 336294982257581694735330614659971547732 \<Longrightarrow>
      unsafe_v6 (unat w) \<and> unat w div 2 ^ 32 \<noteq> 65535"
    by (simp add: unsafe_v6_def)
  show ?thesis
  proof (cases "Is4In6 (Addr6 w z)")
    case True
    then have "unat w div 2 ^ 32 = 65535" by (simp add: Is4In6_def)
    moreover from this have "w \<noteq> 0" by auto
    ultimately show ?thesis
      using special_class_mapped [OF True] meta
      by (auto simp: isUnsafe_split IsUnspecified_def metadata_eq special_class_v4 unat_low)
  next
    case False
    then have "unat w div 2 ^ 32 \<noteq> 65535" by (simp add: Is4In6_def)
    then show ?thesis
      using special_class_v6 [OF False] meta
      by (auto simp: isUnsafe_split IsUnspecified_def metadata_eq)
  qed
qed

lemma isUnsafe_zero: "isUnsafe AddrZero"
  by (simp add: isUnsafe_def IsValid_def)

lemma New_allowPrivate: "New cfg = Inr e \<Longrightarrow> allowPrivate e = AllowPrivate cfg"
  by (auto simp: New_def ebind_eq_Inr split: if_splits)


definition public_target :: Target where
  "public_target = \<lparr>tgt_type = AddressDomain, tgt_host = ''example.com'', tgt_port = 443\<rparr>"

definition default_config :: Config where
  "default_config = \<lparr>AllowPrivate = False, AllowUnrestricted = False, RequireAllowTarget = False,
     AllowTargets = [], DenyTargets = []\<rparr>"

lemma parseAddr_example: "parseAddr ''example.com'' = None"
  by (simp add: parseAddr_def trim_def trimRight_def ParseAddr_def parseIPv4_def parseIPv4Fields_def
      parse_octet_def is_digit_def less_eq_char_def)


text \<open>
  C23: the IPv4 addresses the code calls unsafe are exactly the unspecified address,
  \<open>10/8\<close>, \<open>127/8\<close>, \<open>169.254/16\<close>, \<open>172.16/12\<close>, \<open>192.168/16\<close> and \<open>224/4\<close>; in particular
  shared address space, reserved and broadcast addresses are not.
\<close>

theorem isUnsafe_IPv4_ranges: "isUnsafe (Addr4 w) \<longleftrightarrow> unsafe_v4 (unat w)"
  by (rule isUnsafe_v4)

text \<open>A target that is let through matches an allow rule by one of its addresses.\<close>

lemma allowed_by_rule:
  assumes "allowedIPs e lookup ctx t = Inr ips"
  shows "allowUnrestricted e \<or> allowRules e = [] \<or>
    (\<exists>r \<in> set (allowRules e). \<exists>ip \<in> set ips. rule_matches r t (Some ip))"
proof -
  obtain lit where lit: "resolveTarget lookup ctx t = Inr (ips, lit)" "ips \<noteq> []"
    and allow: "allowUnrestricted e \<or> allowRules e = [] \<or> matches (allowRules e) t lit \<or>
       matchesAnyIP (allowRules e) t ips"
    using assms by (auto simp: allowedIPs_Inr)
  have "\<exists>r \<in> set (allowRules e). \<exists>ip \<in> set ips. rule_matches r t (Some ip)"
    if "matches (allowRules e) t lit"
  proof -
    from that obtain r where r: "r \<in> set (allowRules e)" "rule_matches r t lit"
      by (auto simp: matches_iff)
    moreover have "rule_matches r t (Some (hd ips))"
      using r(2) lit unfolding resolveTarget_Inr
      by (auto simp: rule_matches_def Let_def split: if_splits option.splits)
    ultimately show ?thesis
      using lit(2) hd_in_set by blast
  qed
  then show ?thesis
    using allow unfolding matchesAnyIP_iff by blast
qed

text \<open>The rules of an engine are those of the configured texts.\<close>

lemma parse_rules_set: "parse_rules what raws = Inr rs \<Longrightarrow> r \<in> set rs \<Longrightarrow> \<exists>raw \<in> set raws. parseRule raw = Inr r"
  by (induction raws arbitrary: rs) (auto simp: ebind_eq_Inr split: sum.splits)

lemma parse_rules_length: "parse_rules what raws = Inr rs \<Longrightarrow> length rs = length raws"
  by (induction raws arbitrary: rs) (auto simp: ebind_eq_Inr split: sum.splits)


lemma parseRule_any_443: "\<exists>r. parseRule ''*:443'' = Inr r \<and> r_any r \<and> r_port r = 443"
  by (simp add: parseRule_def Let_def trimSpace_def trim_def trimRight_def ascii_space_def hasPrefix_def
      trimPrefix_def parse_rule_port_def parse_uint_def is_digit_def less_eq_char_def digits_val_def digit_val_def
      parse_rule_host_def toLower_def lower_char_def)


section \<open>What a rule text means\<close>

lemma v4_string_chars: "c \<in> set (v4_string w) \<Longrightarrow> is_digit c \<or> c = CHR ''.''"
  by (auto simp: v4_string_def octets_list dest: itoa_digits)

lemma hd_v4_string: "is_digit (hd (v4_string w @ s))"
proof -
  obtain r where "v4_string w = itoa (octet w 0) @ CHR ''.'' # r"
    using v4_string_hd by blast
  then show ?thesis
    using itoa_digits [of "hd (itoa (octet w 0))" "octet w 0"] by (simp add: hd_append)
qed

lemma not_digit:
  "\<not> is_digit (CHR ''*'')" "\<not> is_digit (CHR ''['')" "\<not> is_digit (CHR '']'')" "\<not> is_digit (CHR ''/'')"
  "\<not> is_digit (CHR '':'')" "\<not> is_digit (CHR ''.'')"
  by (simp_all add: is_digit_def less_eq_char_def)

lemma digit_not_space: "is_digit c \<Longrightarrow> c \<notin> set ascii_space"
  by (auto simp: is_digit_def less_eq_char_def ascii_space_def)

lemma lower_digit: "is_digit c \<or> c = CHR ''.'' \<or> c = CHR ''/'' \<Longrightarrow> lower_char c = c"
  by (auto simp: is_digit_def less_eq_char_def lower_char_def)

lemma ParsePrefix_v4:
  assumes "n \<le> 32"
  shows "ParsePrefix (v4_string w @ CHR ''/'' # itoa n) = Some \<lparr>pfx_ip = Addr4 w, pfx_bits = n\<rparr>"
proof -
  have ns: "CHR ''/'' \<notin> set (v4_string w)" "CHR ''/'' \<notin> set (itoa n)"
    using v4_string_chars [of "CHR ''/''" w] itoa_digits [of "CHR ''/''" n] not_digit by auto
  have "hd (itoa n) \<noteq> CHR ''0''" if "length (itoa n) > 1"
    using that by (cases "n = 0") (auto simp: hd_itoa itoa.simps [of 0])
  then have "parse_bits (itoa n) = Some n"
    using itoa_digits [of _ n] by (auto simp: parse_bits_def)
  then show ?thesis
    using ns assms
    by (simp add: ParsePrefix_def splitc_append_sep splitc_no_occ ParseAddr_v4_string withoutZone_def
        BitLen_def PrefixFrom_def)
qed

lemma parseRule_v4_cidr_port:
  assumes "n \<le> 32" and "p \<noteq> 0"
  shows "parseRule (v4_string w @ CHR ''/'' # itoa n @ CHR '':'' # itoa (unat p)) =
    Inr \<lparr>r_raw = v4_string w @ CHR ''/'' # itoa n @ CHR '':'' # itoa (unat p), r_host = [], r_suffix = [],
      r_cidr = Some \<lparr>pfx_ip = Addr4 w, pfx_bits = n\<rparr>, r_port = p, r_hasPort = True, r_any = False\<rparr>"
proof -
  let ?h = "v4_string w @ CHR ''/'' # itoa n"
  let ?s = "v4_string w @ CHR ''/'' # itoa n @ CHR '':'' # itoa (unat p)"
  have s: "?s = ?h @ CHR '':'' # itoa (unat p)" by simp
  have hd: "is_digit (hd ?s)" "is_digit (hd ?h)"
    by (rule hd_v4_string)+
  have last: "is_digit (last ?s)" "is_digit (last ?h)"
    using itoa_digits [of "last (itoa (unat p))" "unat p"] itoa_digits [of "last (itoa n)" n] by simp_all
  have hc: "is_digit c \<or> c = CHR ''.'' \<or> c = CHR ''/''" if "c \<in> set ?h" for c
    using that v4_string_chars [of c w] itoa_digits [of c n] by auto
  have t: "trimSpace ?s = ?s"
    unfolding trimSpace_def using hd last digit_not_space by (intro trim_id) auto
  have np: "\<not> hasPrefix ?s ''*:''" "\<not> hasPrefix ?s ''[''"
    using hd(1) not_digit by (auto simp: hasPrefix_iff)
  have nc: "CHR '':'' \<notin> set ?h" "CHR '':'' \<notin> set (itoa (unat p))"
    using hc itoa_digits [of "CHR '':''" "unat p"] not_digit by auto
  have split: "splitHostPortLoose ?s = (?h, itoa (unat p), True)"
    using np(2) nc unfolding splitHostPortLoose_def s span_to_sep [OF nc(1)]
    by (simp add: count_list_0_iff)
  have low: "toLower ?h = ?h"
    using hc lower_digit unfolding toLower_def by (intro map_idI) blast
  have tr: "trim ?h ''[]'' = ?h"
    using hd(2) last(2) not_digit by (intro trim_id) auto
  have "unat p < 2 ^ 16"
    using unsigned_less [where ?'a = nat, of p] by simp
  then have port: "parse_uint 16 (itoa (unat p)) = Inr (unat p)"
    by (rule parse_uint_itoa)
  have star: "?h \<noteq> ''*''"
    using hd(2) not_digit by (metis list.sel(1))
  have "unat p \<noteq> 0"
    using assms(2) by (simp add: unat_eq_0)
  then show ?thesis
    unfolding parseRule_def t split low tr Let_def
    using np(1) port star ParsePrefix_v4 [OF assms(1), of w]
    by (simp add: split low tr parse_rule_port_def parse_rule_host_def)
qed




text \<open>
  An allow rule for one network admits every address the name resolves to as
  soon as one of them is in the network: the addresses outside it are returned, and
  dialled, as well.
\<close>

theorem allow_rule_admits_other_addresses:
  assumes "n \<le> 32" and "p \<noteq> 0"
    and "drop_bit (32 - n) a = drop_bit (32 - n) w"
    and "\<not> unsafe_v4 (unat a)" and "\<not> unsafe_v4 (unat b)"
  shows "\<exists>e. New (default_config \<lparr>AllowTargets := [v4_string w @ ''/'' @ itoa n @ '':'' @ itoa (unat p)]\<rparr>) = Inr e \<and>
    allowedIPs e (\<lambda>_ _. Inr [Addr4 a, Addr4 b]) None (public_target \<lparr>tgt_port := p\<rparr>) = Inr [Addr4 a, Addr4 b]"
  using parseRule_v4_cidr_port [OF assms(1,2), of w] assms
  by (simp add: New_def default_config_def allowedIPs_Inr resolveTarget_Inr public_target_def parseAddr_example
      isUnsafe_v4 rule_matches_def Contains_def Let_def)

theorem allow_rule_admits_other_addresses_witness:
  "\<exists>e. New (default_config \<lparr>AllowTargets := [v4_string 3221225984 @ ''/'' @ itoa 24 @ '':'' @ itoa (unat (443 :: u16))]\<rparr>) = Inr e \<and>
    allowedIPs e (\<lambda>_ _. Inr [Addr4 3221225985, Addr4 3325256711]) None (public_target \<lparr>tgt_port := 443\<rparr>) =
      Inr [Addr4 3221225985, Addr4 3325256711]"
  by (rule allow_rule_admits_other_addresses) (simp_all add: unsafe_v4_def)

end
