(* ===== verification/Socks5.thy ===== *)
theory Socks5
  imports Protocol GoNetip
begin

text \<open>
  \<open>internal/socks5/socks5.go\<close>: the SOCKS5 server side of one connection.  The
  connection is the list of bytes still to be read and the list of bytes written
  so far; reads beyond the end fail the way \<open>io.ReadFull\<close> does.  A failing write
  is a parameter of the connection: \<open>cn_write_err\<close> is what every write returns.
  The handler is a function on the target and the connection; what it does with
  its \<open>reply\<close> callback is part of its result.

  The accept loop takes the list of what \<open>Accept\<close> yields.

  The lemmas show that a request is read back exactly as a client wrote it, that
  nothing past it is consumed, and that a connection gets at most one reply.
\<close>

definition Version5 :: "8 word" where "Version5 = 5"
definition MethodNoAuth :: "8 word" where "MethodNoAuth = 0"
definition MethodNoAcceptable :: "8 word" where "MethodNoAcceptable = 255"
definition CmdConnect :: "8 word" where "CmdConnect = 1"
definition AtypIPv4 :: "8 word" where "AtypIPv4 = 1"
definition AtypDomain :: "8 word" where "AtypDomain = 3"
definition AtypIPv6 :: "8 word" where "AtypIPv6 = 4"
definition ReplySucceeded :: "8 word" where "ReplySucceeded = 0"
definition ReplyGeneralFailure :: "8 word" where "ReplyGeneralFailure = 1"
definition ReplyConnectionNotAllowed :: "8 word" where "ReplyConnectionNotAllowed = 2"
definition ReplyHostUnreachable :: "8 word" where "ReplyHostUnreachable = 4"
definition ReplyCommandNotSupported :: "8 word" where "ReplyCommandNotSupported = 7"

section \<open>The connection\<close>

record conn =
  cn_in :: bytes
  cn_out :: bytes
  cn_write_err :: "err option"
  cn_closed :: bool

definition ReadFull :: "nat \<Rightarrow> conn \<Rightarrow> bytes result \<times> conn" where
  "ReadFull n c =
     (if n \<le> length (cn_in c) then (Inr (take n (cn_in c)), c\<lparr>cn_in := drop n (cn_in c)\<rparr>)
      else (Inl (if cn_in c = [] then IoEOF else IoUnexpectedEOF), c\<lparr>cn_in := []\<rparr>))"

definition Write :: "bytes \<Rightarrow> conn \<Rightarrow> err option \<times> conn" where
  "Write bs c =
     (case cn_write_err c of
        Some e \<Rightarrow> (Some e, c)
      | None \<Rightarrow> (None, c\<lparr>cn_out := cn_out c @ bs\<rparr>))"

section \<open>Negotiation, request and reply\<close>

definition negotiate :: "conn \<Rightarrow> err option \<times> conn" where
  "negotiate c =
     (case ReadFull 2 c of
        (Inl e, c1) \<Rightarrow> (Some e, c1)
      | (Inr head, c1) \<Rightarrow>
          if head ! 0 \<noteq> Version5 then (Some (ErrText ''unsupported SOCKS version''), c1)
          else (case ReadFull (unat (head ! 1)) c1 of
              (Inl e, c2) \<Rightarrow> (Some e, c2)
            | (Inr methods, c2) \<Rightarrow>
                if MethodNoAuth \<in> set methods then Write [Version5, MethodNoAuth] c2
                else (Some (ErrText ''no acceptable SOCKS5 auth method''),
                      snd (Write [Version5, MethodNoAcceptable] c2))))"

definition zero_target :: Target where
  "zero_target = \<lparr>tgt_type = [], tgt_host = [], tgt_port = 0\<rparr>"

text \<open>The address by its type: the target without its port, or the error.\<close>

definition read_address :: "8 word \<Rightarrow> conn \<Rightarrow> Target result \<times> conn" where
  "read_address atyp c =
     (if atyp = AtypIPv4 then
        (case ReadFull 4 c of
           (Inl e, c1) \<Rightarrow> (Inl e, c1)
         | (Inr buf, c1) \<Rightarrow> (Inr (zero_target\<lparr>tgt_type := AddressIPv4, tgt_host := IP_String buf\<rparr>), c1))
      else if atyp = AtypIPv6 then
        (case ReadFull 16 c of
           (Inl e, c1) \<Rightarrow> (Inl e, c1)
         | (Inr buf, c1) \<Rightarrow> (Inr (zero_target\<lparr>tgt_type := AddressIPv6, tgt_host := IP_String buf\<rparr>), c1))
      else if atyp = AtypDomain then
        (case ReadFull 1 c of
           (Inl e, c1) \<Rightarrow> (Inl e, c1)
         | (Inr l, c1) \<Rightarrow>
             (case ReadFull (unat (l ! 0)) c1 of
                (Inl e, c2) \<Rightarrow> (Inl e, c2)
              | (Inr buf, c2) \<Rightarrow>
                  (Inr (zero_target\<lparr>tgt_type := AddressDomain, tgt_host := string_of buf\<rparr>), c2)))
      else (Inl (ErrText ''unsupported address type''), c))"

definition be16 :: "bytes \<Rightarrow> u16" where
  "be16 bs = of_nat (256 * unat (bs ! 0) + unat (bs ! 1))"

definition readRequest :: "conn \<Rightarrow> (8 word \<times> Target) result \<times> conn" where
  "readRequest c =
     (case ReadFull 4 c of
        (Inl e, c1) \<Rightarrow> (Inl e, c1)
      | (Inr head, c1) \<Rightarrow>
          if head ! 0 \<noteq> Version5 \<or> head ! 2 \<noteq> 0 then (Inl (ErrText ''invalid SOCKS5 request''), c1)
          else (case read_address (head ! 3) c1 of
              (Inl e, c2) \<Rightarrow> (Inl e, c2)
            | (Inr target, c2) \<Rightarrow>
                (case ReadFull 2 c2 of
                   (Inl e, c3) \<Rightarrow> (Inl e, c3)
                 | (Inr port, c3) \<Rightarrow> (Inr (head ! 1, target\<lparr>tgt_port := be16 port\<rparr>), c3))))"

definition writeReply :: "8 word \<Rightarrow> conn \<Rightarrow> err option \<times> conn" where
  "writeReply code c = Write [Version5, code, 0, AtypIPv4, 0, 0, 0, 0, 0, 0] c"

section \<open>The connection handler\<close>

text \<open>
  The \<open>reply\<close> closure: it writes on its first call only.  The flag \<open>replied\<close> it
  captures is the first component of the state.
\<close>

definition reply :: "8 word \<Rightarrow> bool \<times> conn \<Rightarrow> err option \<times> (bool \<times> conn)" where
  "reply code s =
     (case s of (replied, c) \<Rightarrow>
        if replied then (None, s)
        else (case writeReply code c of (e, c1) \<Rightarrow> (e, (True, c1))))"

text \<open>
  A handler runs on the target with the state of the closure: it may reply and use
  the connection in any order, and returns an error or nil.
\<close>

type_synonym ConnectHandler = "Target \<Rightarrow> bool \<times> conn \<Rightarrow> err option \<times> (bool \<times> conn)"

definition handleConn :: "ConnectHandler option \<Rightarrow> conn \<Rightarrow> conn" where
  "handleConn handler c =
     (let close = (\<lambda>c. c\<lparr>cn_closed := True\<rparr>)
      in case negotiate c of
        (Some _, c1) \<Rightarrow> close c1
      | (None, c1) \<Rightarrow>
          (case readRequest c1 of
             (Inl _, c2) \<Rightarrow> close (snd (writeReply ReplyGeneralFailure c2))
           | (Inr (cmd, target), c2) \<Rightarrow>
               if cmd \<noteq> CmdConnect then close (snd (writeReply ReplyCommandNotSupported c2))
               else (case handler of
                   None \<Rightarrow> close (snd (writeReply ReplyGeneralFailure c2))
                 | Some h \<Rightarrow>
                     (case h target (False, c2) of
                        (e, (replied, c3)) \<Rightarrow>
                          if e \<noteq> None \<and> \<not> replied
                          then close (snd (snd (reply ReplyGeneralFailure (replied, c3))))
                          else close c3))))"

text \<open>
  The accept loop: the connections it hands to their handlers, each on its own, and
  what it returns when accepting fails, the error of the context when it has ended.
  The list is what \<open>Accept\<close> yields, with that error; the loop waits after its end.
\<close>

fun Serve :: "ConnectHandler option \<Rightarrow> (conn result \<times> err option) list \<Rightarrow> conn list \<times> err option" where
  "Serve handler [] = ([], None)"
| "Serve handler ((Inr c, _) # accepts) =
     (case Serve handler accepts of (cs, e) \<Rightarrow> (handleConn handler c # cs, e))"
| "Serve handler ((Inl x, ctxErr) # accepts) =
     ([], Some (case ctxErr of Some e \<Rightarrow> e | None \<Rightarrow> x))"

section \<open>The client side of the request\<close>

text \<open>What a client sends for a target: method selection, then the request.\<close>

datatype socks_addr =
    SocksV4 bytes
  | SocksV6 bytes
  | SocksDomain string

fun wf_addr :: "socks_addr \<Rightarrow> bool" where
  "wf_addr (SocksV4 bs) = (length bs = 4)"
| "wf_addr (SocksV6 bs) = (length bs = 16)"
| "wf_addr (SocksDomain d) = (length d < 256)"

fun addr_bytes :: "socks_addr \<Rightarrow> bytes" where
  "addr_bytes (SocksV4 bs) = AtypIPv4 # bs"
| "addr_bytes (SocksV6 bs) = AtypIPv6 # bs"
| "addr_bytes (SocksDomain d) = AtypDomain # of_nat (length d) # bytes_of d"

definition request_bytes :: "8 word \<Rightarrow> socks_addr \<Rightarrow> u16 \<Rightarrow> bytes" where
  "request_bytes cmd a port =
     [Version5, cmd, 0] @ addr_bytes a @ [of_nat (unat port div 256), of_nat (unat port mod 256)]"

fun addr_target :: "socks_addr \<Rightarrow> u16 \<Rightarrow> Target" where
  "addr_target (SocksV4 bs) port = \<lparr>tgt_type = AddressIPv4, tgt_host = IP_String bs, tgt_port = port\<rparr>"
| "addr_target (SocksV6 bs) port = \<lparr>tgt_type = AddressIPv6, tgt_host = IP_String bs, tgt_port = port\<rparr>"
| "addr_target (SocksDomain d) port = \<lparr>tgt_type = AddressDomain, tgt_host = d, tgt_port = port\<rparr>"

lemma ReadFull_append:
  "length bs = n \<Longrightarrow> cn_in c = bs @ rest \<Longrightarrow> ReadFull n c = (Inr bs, c\<lparr>cn_in := rest\<rparr>)"
  by (simp add: ReadFull_def)

lemma be16_port: "be16 [of_nat (unat port div 256), of_nat (unat port mod 256)] = port"
proof -
  have "unat port < 2 ^ 16"
    using unsigned_less [where ?'a = nat, of port] by simp
  then have "unat port div 256 < 256"
    by (simp add: less_mult_imp_div_less)
  then have "256 * (unat port div 256 mod 256) + unat port mod 256 = unat port"
    by simp
  then show ?thesis
    by (simp add: be16_def unat_of_nat)
qed

lemma read_address_addr:
  assumes "wf_addr a" and "cn_in c = tl (addr_bytes a) @ rest"
  shows "read_address (hd (addr_bytes a)) c =
    (Inr ((addr_target a 0)), c\<lparr>cn_in := rest\<rparr>)"
proof (cases a)
  case (SocksV4 bs)
  with assms ReadFull_append [of bs 4 c rest] show ?thesis
    by (simp add: read_address_def zero_target_def)
next
  case (SocksV6 bs)
  with assms ReadFull_append [of bs 16 c rest] show ?thesis
    by (simp add: read_address_def zero_target_def AtypIPv4_def AtypIPv6_def)
next
  case (SocksDomain d)
  with assms have "ReadFull 1 c = (Inr [of_nat (length d)], c\<lparr>cn_in := bytes_of d @ rest\<rparr>)"
    by (intro ReadFull_append) auto
  moreover have "unat (of_nat (length d) :: 8 word) = length d"
    using assms(1) SocksDomain by (simp add: unat_of_nat)
  moreover have "ReadFull (length d) (c\<lparr>cn_in := bytes_of d @ rest\<rparr>) = (Inr (bytes_of d), c\<lparr>cn_in := rest\<rparr>)"
    by (subst ReadFull_append [of "bytes_of d"]) simp_all
  ultimately show ?thesis
    using SocksDomain by (simp add: read_address_def zero_target_def AtypIPv4_def AtypIPv6_def AtypDomain_def comp_def)
qed

lemma readRequest_request:
  assumes "wf_addr a" and "cn_in c = request_bytes cmd a port @ rest"
  shows "readRequest c = (Inr (cmd, addr_target a port), c\<lparr>cn_in := rest\<rparr>)"
proof -
  have ab: "addr_bytes a = hd (addr_bytes a) # tl (addr_bytes a)"
    by (cases a) simp_all
  let ?p = "[of_nat (unat port div 256), of_nat (unat port mod 256)] :: bytes"
  let ?c1 = "c\<lparr>cn_in := tl (addr_bytes a) @ ?p @ rest\<rparr>"
  have "ReadFull 4 c = (Inr [Version5, cmd, 0, hd (addr_bytes a)], ?c1)"
    using assms(2) ab by (intro ReadFull_append) (auto simp: request_bytes_def)
  moreover have "read_address (hd (addr_bytes a)) ?c1 = (Inr (addr_target a 0), c\<lparr>cn_in := ?p @ rest\<rparr>)"
    using read_address_addr [OF assms(1), of ?c1 "?p @ rest"] by simp
  moreover have "ReadFull 2 (c\<lparr>cn_in := ?p @ rest\<rparr>) = (Inr ?p, c\<lparr>cn_in := rest\<rparr>)"
    by (subst ReadFull_append [of ?p]) simp_all
  moreover have "(addr_target a 0)\<lparr>tgt_port := port\<rparr> = addr_target a port"
    by (cases a) simp_all
  ultimately show ?thesis
    by (simp add: readRequest_def be16_port)
qed

section \<open>Properties of a connection\<close>

text \<open>
  C17: the request a client writes for an IPv4, IPv6 or domain target is read back
  as that command and target, and the bytes that follow it stay unread for the
  tunnel; nothing is written.
\<close>

theorem readRequest_roundtrip:
  assumes "wf_addr a" and "cn_in c = request_bytes cmd a port @ payload"
  shows "readRequest c = (Inr (cmd, addr_target a port), c\<lparr>cn_in := payload\<rparr>)"
  using assms by (rule readRequest_request)

definition new_conn :: "bytes \<Rightarrow> conn" where
  "new_conn bs = \<lparr>cn_in = bs, cn_out = [], cn_write_err = None, cn_closed = False\<rparr>"

theorem readRequest_roundtrip_witness:
  "readRequest (new_conn [5, 1, 0, 3, 2, 97, 98, 1, 187, 42]) =
     (Inr (1, \<lparr>tgt_type = AddressDomain, tgt_host = ''ab'', tgt_port = 443\<rparr>), new_conn [42])"
proof -
  have "bytes_of ''ab'' = [97, 98]"
    by (simp add: byte_of_char_def)
  then have "cn_in (new_conn [5, 1, 0, 3, 2, 97, 98, 1, 187, 42]) = request_bytes 1 (SocksDomain ''ab'') 443 @ [42]"
    by (simp add: new_conn_def request_bytes_def Version5_def AtypDomain_def)
  from readRequest_roundtrip [OF _ this] show ?thesis
    by (simp add: new_conn_def)
qed

text \<open>A handler that replies with the codes in order and returns \<open>e\<close>.\<close>

definition replying :: "8 word list \<Rightarrow> err option \<Rightarrow> ConnectHandler" where
  "replying codes e t s = (e, foldl (\<lambda>s code. snd (reply code s)) s codes)"

definition reply_bytes :: "8 word \<Rightarrow> bytes" where
  "reply_bytes code = [Version5, code, 0, AtypIPv4, 0, 0, 0, 0, 0, 0]"

lemma replies_after_first: "foldl (\<lambda>s code. snd (reply code s)) (True, c) codes = (True, c)"
  by (induction codes) (simp_all add: reply_def)

lemma writeReply_ok:
  "cn_write_err c = None \<Longrightarrow> writeReply code c = (None, c\<lparr>cn_out := cn_out c @ reply_bytes code\<rparr>)"
  by (simp add: writeReply_def Write_def reply_bytes_def)

lemma reply_first:
  "cn_write_err c = None \<Longrightarrow> reply code (False, c) = (None, (True, c\<lparr>cn_out := cn_out c @ reply_bytes code\<rparr>))"
  by (simp add: reply_def writeReply_ok)

text \<open>What \<open>negotiate\<close> does with a greeting that offers the methods \<open>ms\<close>.\<close>

lemma negotiate_greeting:
  assumes "cn_in c = [Version5, of_nat (length ms)] @ ms @ rest" and "length ms < 256"
    and "cn_write_err c = None"
  shows "negotiate c =
    (if MethodNoAuth \<in> set ms then (None, c\<lparr>cn_in := rest, cn_out := cn_out c @ [Version5, MethodNoAuth]\<rparr>)
     else (Some (ErrText ''no acceptable SOCKS5 auth method''),
           c\<lparr>cn_in := rest, cn_out := cn_out c @ [Version5, MethodNoAcceptable]\<rparr>))"
proof -
  have "ReadFull 2 c = (Inr [Version5, of_nat (length ms)], c\<lparr>cn_in := ms @ rest\<rparr>)"
    using assms(1) by (intro ReadFull_append) auto
  moreover have "ReadFull (length ms) (c\<lparr>cn_in := ms @ rest\<rparr>) = (Inr ms, c\<lparr>cn_in := rest\<rparr>)"
    by (subst ReadFull_append [of ms]) simp_all
  moreover have "unat (of_nat (length ms) :: 8 word) = length ms"
    using assms(2) by (simp add: unat_of_nat)
  ultimately show ?thesis
    using assms(3) by (simp add: negotiate_def Write_def)
qed

text \<open>
  A client that offers no-authentication and asks for CONNECT gets the method
  choice and then at most one reply, the first the handler gives; a handler that
  fails without replying leaves a general failure, and the connection is closed.
\<close>

theorem handleConn_single_reply:
  assumes "cn_in c = [Version5, of_nat (length ms)] @ ms @ request_bytes CmdConnect a port @ payload"
    and "length ms < 256" and "MethodNoAuth \<in> set ms" and "wf_addr a" and "cn_write_err c = None"
  shows "handleConn (Some (replying codes e)) c =
    c\<lparr>cn_in := payload, cn_closed := True,
      cn_out := cn_out c @ [Version5, MethodNoAuth] @
        (case codes of
           code # _ \<Rightarrow> reply_bytes code
         | [] \<Rightarrow> if e = None then [] else reply_bytes ReplyGeneralFailure)\<rparr>"
proof -
  let ?c1 = "c\<lparr>cn_in := request_bytes CmdConnect a port @ payload, cn_out := cn_out c @ [Version5, MethodNoAuth]\<rparr>"
  have 1: "negotiate c = (None, ?c1)"
    using negotiate_greeting [OF assms(1,2,5)] assms(3) by simp
  have 2: "readRequest ?c1 = (Inr (CmdConnect, addr_target a port), ?c1\<lparr>cn_in := payload\<rparr>)"
    using assms(4) by (rule readRequest_request) simp
  show ?thesis
    using assms(5)
    by (cases codes)
      (simp_all add: handleConn_def 1 2 replying_def reply_first replies_after_first)
qed

theorem handleConn_single_reply_witness:
  "cn_out (handleConn (Some (replying [0, 1] None)) (new_conn [5, 1, 0, 5, 1, 0, 1, 10, 0, 0, 1, 0, 80])) =
     [5, 0, 5, 0, 0, 1, 0, 0, 0, 0, 0, 0]"
  using handleConn_single_reply [of "new_conn [5, 1, 0, 5, 1, 0, 1, 10, 0, 0, 1, 0, 80]" "[0]"
      "SocksV4 [10, 0, 0, 1]" 80 "[]" "[0, 1]" None]
  by (simp add: new_conn_def request_bytes_def Version5_def MethodNoAuth_def AtypIPv4_def CmdConnect_def
      reply_bytes_def)

definition keeps_output :: "conn \<Rightarrow> conn \<Rightarrow> bool" where
  "keeps_output c c' \<longleftrightarrow> cn_out c' = cn_out c \<and> cn_write_err c' = cn_write_err c"

lemma keeps_output_trans: "keeps_output c c1 \<Longrightarrow> keeps_output c1 c2 \<Longrightarrow> keeps_output c c2"
  by (simp add: keeps_output_def)

lemma ReadFull_keeps: "ReadFull n c = (r, c') \<Longrightarrow> keeps_output c c'"
  by (auto simp: ReadFull_def keeps_output_def split: if_splits)

lemma read_address_keeps: "read_address atyp c = (r, c') \<Longrightarrow> keeps_output c c'"
  unfolding read_address_def
  by (auto split: if_splits prod.splits sum.splits dest!: ReadFull_keeps intro: keeps_output_trans)
    (simp add: keeps_output_def)

lemma readRequest_keeps: "readRequest c = (r, c') \<Longrightarrow> keeps_output c c'"
  unfolding readRequest_def
  by (auto split: if_splits prod.splits sum.splits dest!: ReadFull_keeps read_address_keeps
      intro: keeps_output_trans)

lemma negotiate_outputs:
  assumes "cn_write_err c = None" and "negotiate c = (e, c1)"
  shows "cn_write_err c1 = None \<and>
    (case e of None \<Rightarrow> cn_out c1 = cn_out c @ [Version5, MethodNoAuth]
     | Some _ \<Rightarrow> cn_out c1 \<in> {cn_out c, cn_out c @ [Version5, MethodNoAcceptable]})"
  using assms unfolding negotiate_def
  by (auto simp: Write_def keeps_output_def split: if_splits prod.splits sum.splits option.splits
      dest!: ReadFull_keeps)

text \<open>
  Whatever bytes arrive, a server without a handler closes the connection and
  has written nothing, the refusal of every method, or the choice of no
  authentication followed by exactly one reply: a general failure for a request it
  cannot read (an unsupported address type included) or serve, or command not
  supported.
\<close>

theorem handleConn_outputs:
  assumes "cn_write_err c = None"
  shows "cn_closed (handleConn None c) \<and>
    (\<exists>w. cn_out (handleConn None c) = cn_out c @ w \<and>
       w \<in> {[], [Version5, MethodNoAcceptable],
             [Version5, MethodNoAuth] @ reply_bytes ReplyGeneralFailure,
             [Version5, MethodNoAuth] @ reply_bytes ReplyCommandNotSupported})"
proof -
  obtain e c1 where n: "negotiate c = (e, c1)" by (cases "negotiate c")
  note out = negotiate_outputs [OF assms n]
  show ?thesis
  proof (cases e)
    case (Some x)
    then show ?thesis using out n by (auto simp: handleConn_def)
  next
    case None
    obtain r c2 where rr: "readRequest c1 = (r, c2)" by (cases "readRequest c1")
    then have "cn_write_err c2 = None" "cn_out c2 = cn_out c @ [Version5, MethodNoAuth]"
      using readRequest_keeps [OF rr] out None by (simp_all add: keeps_output_def)
    then show ?thesis
      using None n rr by (cases r) (auto simp: handleConn_def writeReply_ok Let_def split: prod.splits)
  qed
qed

theorem handleConn_outputs_witness:
  "cn_closed (handleConn None (new_conn [5, 0]))"
  using handleConn_outputs [of "new_conn [5, 0]"] by (simp add: new_conn_def)

end
