(* ===== verification/Session.thy ===== *)
theory Session
  imports StreamProps Policy Socks5
begin

text \<open>
  \<open>internal/tunnel/tunnel.go\<close>: the life of a session.  The client's \<open>HandleSOCKS\<close> puts
  an open request, waits for the result, replies to the SOCKS client and runs the
  two streams; the server's \<open>Run\<close> polls for open requests and handles each with
  \<open>handleSession\<close>, which decides, dials, answers and runs its two streams.

  The two streams of a session are the machines of \<open>Stream\<close>; here they are a
  parameter that gives their errors in the order in which they arrive on the
  channel.  Clock readings are a record.  The connection the client replies on and
  the network the server dials into are states of their own, \<open>'c\<close> and \<open>'d\<close>.
\<close>

section \<open>Client and server\<close>

definition NewClient :: "('s, 'g) TunnelConfig \<Rightarrow> bool \<Rightarrow> bool \<Rightarrow> ('s, 'g) TunnelConfig result" where
  "NewClient cfg hasStore hasCodec =
     (if \<not> hasStore then Inl (ErrText ''object store is required'')
      else if \<not> hasCodec
      then Inl (ErrText ''codec is required; pass NoopCodec explicitly only for local insecure tests'')
      else Inr (withDefaults cfg))"

record ('s, 'g) TunnelServer =
  srv_cfg :: "('s, 'g) TunnelConfig"
  srv_Policy :: "Engine option"
  srv_ConnectTimeout :: int
  srv_MaxSessions :: int
  srv_MaxBytesPerSession :: int

definition NewServer ::
  "('s, 'g) TunnelConfig \<Rightarrow> bool \<Rightarrow> bool \<Rightarrow> Engine option \<Rightarrow> ('s, 'g) TunnelServer result" where
  "NewServer cfg hasStore hasCodec pol =
     (if \<not> hasStore then Inl (ErrText ''object store is required'')
      else if \<not> hasCodec
      then Inl (ErrText ''codec is required; pass NoopCodec explicitly only for local insecure tests'')
      else ebind (case pol of Some e \<Rightarrow> Inr e
                  | None \<Rightarrow> New \<lparr>AllowPrivate = False, AllowUnrestricted = False, RequireAllowTarget = False,
                                 AllowTargets = [], DenyTargets = []\<rparr>)
             (\<lambda>e. Inr \<lparr>srv_cfg = withDefaults cfg, srv_Policy = Some e, srv_ConnectTimeout = 10 * second,
                       srv_MaxSessions = 32, srv_MaxBytesPerSession = 2 ^ 30\<rparr>))"

text \<open>The first error of the two streams that is not one of a closed connection.\<close>

fun first_error :: "err option list \<Rightarrow> err option" where
  "first_error [] = None"
| "first_error (e # es) = (if e \<noteq> None \<and> \<not> isClosedConn e then e else first_error es)"

section \<open>The client\<close>

record session_clock =
  ck_started :: int
  ck_created :: gotime
  ck_to_result :: int
  ck_total :: int

type_synonym 'c replier = "8 word \<Rightarrow> 'c \<Rightarrow> err option \<times> 'c"

text \<open>What the client does with the outcome of waiting for the open result.\<close>

definition client_result ::
  "session_clock \<Rightarrow> ('s, 'g) TunnelConfig \<Rightarrow> string \<Rightarrow> 'c replier \<Rightarrow> OpenResult result \<Rightarrow> 'g proc \<Rightarrow> 'c
     \<Rightarrow> ('s, 'g) TunnelConfig result \<times> 'g proc \<times> 'c" where
  "client_result ck cfg sid answer waited p c =
     (let finish = (\<lambda>e. with_stats (finishSession sid (ck_total ck) (Some e))) in
      case waited of
        Inl e \<Rightarrow> (Inl e, finish e p, snd (answer ReplyHostUnreachable c))
      | Inr result \<Rightarrow>
          if \<not> res_accepted result
          then (Inl (ErrText (''server rejected target: '' @ res_error result)),
                with_stats (rejectSession sid (ck_to_result ck)) p, snd (answer ReplyHostUnreachable c))
          else case EffectiveSendChunkSize (cfg_ChunkSize cfg) (res_max_receive result) of
            Inl e \<Rightarrow> (Inl e, finish e p, snd (answer ReplyHostUnreachable c))
          | Inr c2sMax \<Rightarrow>
              let p' = with_stats (openSession (ck_to_result ck)) p
              in case answer ReplySucceeded c of
                   (Some e, c') \<Rightarrow> (Inl e, finish e p', c')
                 | (None, c') \<Rightarrow> (Inr (cfg\<lparr>cfg_ChunkSize := c2sMax\<rparr>), p', c'))"

text \<open>
  \<open>HandleSOCKS\<close> up to the streams: the error it returns, or the session with the
  configuration its streams run with.  \<open>None\<close>: still waiting for the result.
\<close>

definition client_open ::
  "session_clock \<Rightarrow> ctx \<Rightarrow> 's tick list \<Rightarrow> bytes result \<Rightarrow> ('s, 'g) TunnelConfig \<Rightarrow> Target \<Rightarrow> 'c replier
     \<Rightarrow> 'g proc \<Rightarrow> 's \<Rightarrow> 'c \<Rightarrow> ((string \<times> ('s, 'g) TunnelConfig) result \<times> 'g proc \<times> 's \<times> 'c) option" where
  "client_open ck ctx ticks rnd cfg target answer p s c =
     (case NewSessionID rnd of
        Inl e \<Rightarrow> Some (Inl e, p, s, snd (answer ReplyGeneralFailure c))
      | Inr sid \<Rightarrow>
          let req = \<lparr>req_version = Version, req_session = sid, req_target = target,
                     req_max_receive = cfg_ChunkSize cfg, req_created = ck_created ck\<rparr>
          in case putJSON ctx cfg (OpenKey (cfg_Prefix cfg) sid) ''open'' sid ''control'' (Marshal_OpenRequest req)
                    (with_stats (startSession sid (ck_started ck)) p) s of
               (Some e, p1, s1) \<Rightarrow>
                 Some (Inl e, with_stats (finishSession sid (ck_total ck) (Some e)) p1, s1, snd (answer ReplyGeneralFailure c))
             | (None, p1, s1) \<Rightarrow>
                 (case waitJSON ticks cfg (OpenResultKey (cfg_Prefix cfg) sid) ''open-result'' sid ''control''
                         Unmarshal_OpenResult p1 s1 of
                    None \<Rightarrow> None
                  | Some (waited, p2, s2) \<Rightarrow>
                      (case client_result ck cfg sid answer waited p2 c of
                         (r, p3, c') \<Rightarrow> Some (ebind r (\<lambda>cfg'. Inr (sid, cfg')), p3, s2, c'))))"

type_synonym ('s, 'g) streams =
  "('s, 'g) TunnelConfig \<Rightarrow> string \<Rightarrow> 'g proc \<Rightarrow> 's \<Rightarrow> (err option \<times> err option) \<times> 'g proc \<times> 's"

definition HandleSOCKS ::
  "session_clock \<Rightarrow> ctx \<Rightarrow> 's tick list \<Rightarrow> bytes result \<Rightarrow> ('s, 'g) TunnelConfig \<Rightarrow> ('s, 'g) streams \<Rightarrow> Target \<Rightarrow> 'c replier
     \<Rightarrow> 'g proc \<Rightarrow> 's \<Rightarrow> 'c \<Rightarrow> (err option \<times> 'g proc \<times> 's \<times> 'c) option" where
  "HandleSOCKS ck ctx ticks rnd cfg streams target answer p s c =
     (case client_open ck ctx ticks rnd cfg target answer p s c of
        None \<Rightarrow> None
      | Some (Inl e, p1, s1, c1) \<Rightarrow> Some (Some e, p1, s1, c1)
      | Some (Inr (sid, sessionCfg), p1, s1, c1) \<Rightarrow>
          (case streams sessionCfg sid (p1\<lparr>pr_activity := Some False\<rparr>) s1 of
             ((e1, e2), p2, s2) \<Rightarrow>
               let first = first_error [e1, e2]
               in Some (first, with_stats (finishSession sid (ck_total ck) first) p2, s2, c1)))"

section \<open>The server: one session\<close>

text \<open>
  \<open>net.JoinHostPort\<close>, and \<open>dialTarget\<close>.  \<open>dial\<close> opens a TCP connection to an address;
  \<open>Inr None\<close> is the nil connection without an error of a loop over no addresses.
\<close>

definition JoinHostPort :: "string \<Rightarrow> string \<Rightarrow> string" where
  "JoinHostPort host port =
     (if CHR '':'' \<in> set host then ''['' @ host @ '']:'' @ port else host @ '':'' @ port)"

type_synonym ('n, 'd) dialer = "ctx \<Rightarrow> string \<Rightarrow> 'd \<Rightarrow> 'n result \<times> 'd"

fun dial_loop :: "('n, 'd) dialer \<Rightarrow> ctx \<Rightarrow> u16 \<Rightarrow> Addr list \<Rightarrow> err option \<Rightarrow> 'd \<Rightarrow> 'n option result \<times> 'd" where
  "dial_loop dial ctx port [] first d = (case first of None \<Rightarrow> Inr None | Some e \<Rightarrow> Inl e, d)"
| "dial_loop dial ctx port (ip # ips) first d =
     (case dial ctx (JoinHostPort (addr_string ip) (itoa (unat port))) d of
        (Inr n, d') \<Rightarrow> (Inr (Some n), d')
      | (Inl e, d') \<Rightarrow> dial_loop dial ctx port ips (if first = None then Some e else first) d')"

definition dialTarget ::
  "Engine option \<Rightarrow> resolver \<Rightarrow> ('n, 'd) dialer \<Rightarrow> ctx \<Rightarrow> Target \<Rightarrow> 'd \<Rightarrow> 'n option result \<times> 'd" where
  "dialTarget pol lookup dial ctx target d =
     (case pol of
        Some e \<Rightarrow>
          (case AllowedIPs e lookup ctx target of
             Inl x \<Rightarrow> (Inl x, d)
           | Inr ips \<Rightarrow> dial_loop dial ctx (tgt_port target) ips None d)
      | None \<Rightarrow>
          (case dial ctx (JoinHostPort (tgt_host target) (itoa (unat (tgt_port target)))) d of
             (Inr n, d') \<Rightarrow> (Inr (Some n), d')
           | (Inl x, d') \<Rightarrow> (Inl x, d')))"

definition putOpenResult ::
  "ctx \<Rightarrow> gotime \<Rightarrow> ('s, 'g) TunnelConfig \<Rightarrow> string \<Rightarrow> bool \<Rightarrow> string \<Rightarrow> 'g proc \<Rightarrow> 's \<Rightarrow> err option \<times> 'g proc \<times> 's" where
  "putOpenResult ctx now cfg sessionID accepted msg p s =
     putJSON ctx cfg (OpenResultKey (cfg_Prefix cfg) sessionID) ''open-result'' sessionID ''control''
       (Marshal_OpenResult \<lparr>res_version = Version, res_session = sessionID, res_accepted = accepted,
          res_error = msg, res_max_receive = cfg_ChunkSize cfg, res_created = now\<rparr>) p s"

text \<open>The deletion of the open request, in the background context, its error ignored.\<close>

definition delete_open :: "('s, 'g) TunnelConfig \<Rightarrow> string \<Rightarrow> 'g proc \<Rightarrow> 's \<Rightarrow> 'g proc \<times> 's" where
  "delete_open cfg sessionID p s =
     (with_stats incDelete p, snd (DeleteObject (cfg_Store cfg) None (OpenKey (cfg_Prefix cfg) sessionID) s))"

text \<open>
  \<open>handleSession\<close> up to the streams: \<open>Inl\<close> of what it returns, or \<open>Inr\<close> of the connection
  to the target with the configuration of the streams.  \<open>dialCtx\<close> is the context of
  the dial, which ends earlier.
\<close>

definition server_open ::
  "gotime \<Rightarrow> ctx \<Rightarrow> ctx \<Rightarrow> ('s, 'g) TunnelServer \<Rightarrow> resolver \<Rightarrow> ('n, 'd) dialer \<Rightarrow> string \<Rightarrow> 'g proc \<Rightarrow> 's \<Rightarrow> 'd
     \<Rightarrow> (err option + ('n option \<times> ('s, 'g) TunnelConfig)) \<times> 'g proc \<times> 's \<times> 'd" where
  "server_open now ctx dialCtx srv lookup dial sessionID p s d =
     (let cfg = srv_cfg srv in
      case getJSON ctx cfg (OpenKey (cfg_Prefix cfg) sessionID) ''open'' sessionID ''control'' Unmarshal_OpenRequest p s of
        (Inl e, p1, s1) \<Rightarrow> (Inl (Some e), p1, s1, d)
      | (Inr req, p1, s1) \<Rightarrow>
          if req_version req \<noteq> Version \<or> req_session req \<noteq> sessionID \<or> ValidateChunkSize (req_max_receive req) \<noteq> None
          then (case putOpenResult ctx now cfg sessionID False ''invalid open request'' p1 s1 of
                  (e, p2, s2) \<Rightarrow> case delete_open cfg sessionID p2 s2 of (p3, s3) \<Rightarrow> (Inl e, p3, s3, d))
          else (case delete_open cfg sessionID p1 s1 of (p2, s2) \<Rightarrow>
            (case EffectiveSendChunkSize (cfg_ChunkSize cfg) (req_max_receive req) of
               Inl _ \<Rightarrow>
                 (case putOpenResult ctx now cfg sessionID False ''invalid receive chunk limit'' p2 s2 of
                    (e, p3, s3) \<Rightarrow> (Inl e, p3, s3, d))
             | Inr s2cMax \<Rightarrow>
                 (case dialTarget (srv_Policy srv) lookup dial dialCtx (req_target req) d of
                    (Inl x, d') \<Rightarrow>
                      (case putOpenResult ctx now cfg sessionID False (err_text x) p2 s2 of
                         (e, p3, s3) \<Rightarrow> (Inl e, p3, s3, d'))
                  | (Inr conn, d') \<Rightarrow>
                      (case putOpenResult ctx now cfg sessionID True [] p2 s2 of
                         (Some e, p3, s3) \<Rightarrow> (Inl (Some e), p3, s3, d')
                       | (None, p3, s3) \<Rightarrow> (Inr (conn, cfg\<lparr>cfg_ChunkSize := s2cMax\<rparr>), p3, s3, d'))))))"

definition handleSession ::
  "gotime \<Rightarrow> ctx \<Rightarrow> ctx \<Rightarrow> ('s, 'g) TunnelServer \<Rightarrow> resolver \<Rightarrow> ('n, 'd) dialer \<Rightarrow> ('n option \<Rightarrow> ('s, 'g) streams)
     \<Rightarrow> string \<Rightarrow> 'g proc \<Rightarrow> 's \<Rightarrow> 'd \<Rightarrow> err option \<times> 'g proc \<times> 's \<times> 'd" where
  "handleSession now ctx dialCtx srv lookup dial streams sessionID p s d =
     (case server_open now ctx dialCtx srv lookup dial sessionID p s d of
        (Inl e, p1, s1, d1) \<Rightarrow> (e, p1, s1, d1)
      | (Inr (conn, sessionCfg), p1, s1, d1) \<Rightarrow>
          (case streams conn sessionCfg sessionID (p1\<lparr>pr_activity := Some False\<rparr>) s1 of
             ((e1, e2), p2, s2) \<Rightarrow> (first_error [e1, e2], p2, s2, d1)))"

section \<open>The server: listing and scheduling\<close>

text \<open>The pages of the listing, with fuel, one unit per page.\<close>

fun list_pages ::
  "nat \<Rightarrow> ctx \<Rightarrow> ('s, 'g) TunnelConfig \<Rightarrow> string \<Rightarrow> string list \<Rightarrow> 'g proc \<Rightarrow> 's \<Rightarrow> (string list result \<times> 'g proc \<times> 's) option" where
  "list_pages 0 ctx cfg token ks p s = None"
| "list_pages (Suc n) ctx cfg token ks p s =
     (let p' = with_stats incList p in
      case ListPrefixPage (cfg_Store cfg) ctx (OpenPrefix (cfg_Prefix cfg)) \<lparr>opt_max_keys = 1000, opt_token = token\<rparr> s of
        (Inl e, s') \<Rightarrow> Some (Inl e, p', s')
      | (Inr page, s') \<Rightarrow>
          let ks' = ks @ page_keys page
          in if \<not> page_truncated page \<or> page_next_token page = [] then Some (Inr ks', p', s')
             else list_pages n ctx cfg (page_next_token page) ks' p' s')"

definition listOpenKeys ::
  "nat \<Rightarrow> ctx \<Rightarrow> ('s, 'g) TunnelConfig \<Rightarrow> 'g proc \<Rightarrow> 's \<Rightarrow> (string list result \<times> 'g proc \<times> 's) option" where
  "listOpenKeys fuel ctx cfg p s = list_pages fuel ctx cfg [] [] p s"

definition session_of_key :: "string \<Rightarrow> string" where
  "session_of_key k = trimSuffix (path_base k) ''.json''"

text \<open>
  The loop of \<open>Run\<close> between its own steps and the ends of the sessions it started.
  \<open>rn_inFlight\<close> is the map of session ids, \<open>rn_running\<close> the sessions whose handler runs,
  \<open>rn_held\<close> the number of slots of the semaphore that are taken: a handler that has
  ended gives its session id back first and its slot after.  \<open>RKeys\<close>: before the next key of the listing; \<open>RAcquire\<close>: blocked on
  the semaphore with a session that is already in flight; \<open>RSleep\<close>: at the sleep.
\<close>

datatype run_pc =
    RPoll
  | RKeys "string list" nat
  | RAcquire string "string list" nat
  | RSleep int
  | REnded err

record run_state =
  rn_pc :: run_pc
  rn_delay :: int
  rn_inFlight :: "string set"
  rn_running :: "string list"
  rn_held :: nat

definition run_init :: "('s, 'g) TunnelServer \<Rightarrow> run_state" where
  "run_init srv = \<lparr>rn_pc = RPoll, rn_delay = cfg_PollMin (srv_cfg srv), rn_inFlight = {}, rn_running = [], rn_held = 0\<rparr>"

definition slots :: "('s, 'g) TunnelServer \<Rightarrow> int" where
  "slots srv = max 1 (srv_MaxSessions srv)"

text \<open>\<open>listed\<close> is the result of \<open>listOpenKeys\<close>, which the store decides.\<close>

definition run_poll :: "ctx \<Rightarrow> string list result \<Rightarrow> run_state \<Rightarrow> run_state" where
  "run_poll ctx listed r =
     (case ctx of Some e \<Rightarrow> r\<lparr>rn_pc := REnded e\<rparr>
      | None \<Rightarrow> (case listed of Inl e \<Rightarrow> r\<lparr>rn_pc := REnded e\<rparr> | Inr ks \<Rightarrow> r\<lparr>rn_pc := RKeys ks 0\<rparr>))"

definition run_key :: "('s, 'g) TunnelServer \<Rightarrow> string list \<Rightarrow> nat \<Rightarrow> run_state \<Rightarrow> run_state" where
  "run_key srv ks started r =
     (case ks of
        [] \<Rightarrow> let delay = (if started > 0 then cfg_PollMin (srv_cfg srv)
                           else nextDelay (rn_delay r) (cfg_PollMax (srv_cfg srv)))
              in r\<lparr>rn_pc := RSleep delay, rn_delay := delay\<rparr>
      | k # ks' \<Rightarrow>
          let sid = session_of_key k
          in if sid = [] \<or> sid \<in> rn_inFlight r then r\<lparr>rn_pc := RKeys ks' started\<rparr>
             else r\<lparr>rn_pc := RAcquire sid ks' (Suc started), rn_inFlight := insert sid (rn_inFlight r)\<rparr>)"

inductive run_step :: "('s, 'g) TunnelServer \<Rightarrow> run_state \<Rightarrow> run_state \<Rightarrow> bool" for srv where
  poll: "rn_pc r = RPoll \<Longrightarrow> run_step srv r (run_poll ctx listed r)"
| nextkey: "rn_pc r = RKeys ks n \<Longrightarrow> run_step srv r (run_key srv ks n r)"
| acquire: "rn_pc r = RAcquire sid ks n \<Longrightarrow> int (rn_held r) < slots srv \<Longrightarrow>
    run_step srv r (r\<lparr>rn_pc := RKeys ks n, rn_running := sid # rn_running r, rn_held := Suc (rn_held r)\<rparr>)"
| slept: "rn_pc r = RSleep d \<Longrightarrow>
    run_step srv r (r\<lparr>rn_pc := (case e of None \<Rightarrow> RPoll | Some x \<Rightarrow> REnded x)\<rparr>)"
| ended: "sid \<in> set (rn_running r) \<Longrightarrow>
    run_step srv r (r\<lparr>rn_inFlight := rn_inFlight r - {sid}, rn_running := remove1 sid (rn_running r)\<rparr>)"
| released: "length (rn_running r) < rn_held r \<Longrightarrow> run_step srv r (r\<lparr>rn_held := rn_held r - 1\<rparr>)"

inductive run_reach :: "('s, 'g) TunnelServer \<Rightarrow> run_state \<Rightarrow> bool" for srv where
  run_begin: "run_reach srv (run_init srv)"
| run_more: "run_reach srv r \<Longrightarrow> run_step srv r r' \<Longrightarrow> run_reach srv r'"

inductive_cases run_step_cases: "run_step srv r r'"


section \<open>Scheduling\<close>

definition run_inv :: "('s, 'g) TunnelServer \<Rightarrow> run_state \<Rightarrow> bool" where
  "run_inv srv r \<longleftrightarrow>
     distinct (rn_running r) \<and> length (rn_running r) \<le> rn_held r \<and> int (rn_held r) \<le> slots srv \<and>
     (case rn_pc r of
        RAcquire sid ks n \<Rightarrow> sid \<notin> set (rn_running r) \<and> rn_inFlight r = insert sid (set (rn_running r))
      | _ \<Rightarrow> rn_inFlight r = set (rn_running r))"

lemma run_step_inv: "run_step srv r r' \<Longrightarrow> run_inv srv r \<Longrightarrow> run_inv srv r'"
proof (induction rule: run_step.induct)
  case (poll r ctx listed)
  then show ?case
    by (auto simp: run_inv_def run_poll_def split: option.splits sum.splits)
next
  case (nextkey r ks n)
  then show ?case
    by (auto simp: run_inv_def run_key_def Let_def split: list.splits if_splits)
next
  case (acquire r sid ks n)
  then show ?case by (auto simp: run_inv_def)
next
  case (slept r d e)
  then show ?case by (auto simp: run_inv_def split: option.splits)
next
  case (ended sid r)
  then show ?case
    by (auto simp: run_inv_def length_remove1 split: run_pc.splits)
next
  case (released r)
  then show ?case by (auto simp: run_inv_def split: run_pc.splits)
qed

lemma run_reach_inv: "run_reach srv r \<Longrightarrow> run_inv srv r"
proof (induction rule: run_reach.induct)
  case run_begin
  show ?case by (simp add: run_inv_def run_init_def slots_def)
next
  case (run_more r r')
  then show ?case by (blast intro: run_step_inv)
qed

text \<open>
  C7: the server never runs more handlers at a time than its limit of sessions (at
  least one), and never two for the same session.
\<close>

theorem Run_bounds_sessions:
  assumes "run_reach srv r"
  shows "int (length (rn_running r)) \<le> max 1 (srv_MaxSessions srv) \<and> distinct (rn_running r)"
  using run_reach_inv [OF assms] by (auto simp: run_inv_def slots_def)

text \<open>The session id is read back from the key of its open request.\<close>

lemma session_of_OpenKey:
  assumes "plain_comp sid"
  shows "session_of_key (OpenKey px sid) = sid"
proof -
  have k: "OpenKey px sid = join ''/'' ((prefix_comps px @ [''v1'', ''open'']) @ [sid @ ''.json''])"
    using object_key_join [of "OpenObj sid" px] assms by simp
  have "CHR ''/'' \<notin> set sid"
    using assms by (simp add: plain_comp_def)
  then show ?thesis
    unfolding session_of_key_def k
    by (subst path_base_join) (auto simp: trimSuffix_def hasSuffix_def intro: plain_comp_json)
qed


definition run_server :: "(mem_store, unit) TunnelServer" where
  "run_server = \<lparr>srv_cfg = test_config, srv_Policy = None, srv_ConnectTimeout = 1, srv_MaxSessions = 2,
     srv_MaxBytesPerSession = 0\<rparr>"

lemma run_server_started:
  "\<exists>r. run_reach run_server r \<and> rn_running r = [''ab''] \<and> rn_inFlight r = {''ab''}"
proof -
  let ?k = "OpenKey ''p'' ''ab''"
  have k: "session_of_key ?k = ''ab''"
    by (rule session_of_OpenKey) (simp add: plain_comp_def)
  have "run_reach run_server (run_poll None (Inr [?k]) (run_init run_server))"
    by (rule run_more [OF run_begin poll]) (simp add: run_init_def)
  then have "run_reach run_server (run_key run_server [?k] 0 (run_poll None (Inr [?k]) (run_init run_server)))"
    by (rule run_more [OF _ nextkey]) (simp add: run_poll_def)
  then have "run_reach run_server (run_init run_server\<lparr>rn_pc := RAcquire ''ab'' [] 1, rn_inFlight := {''ab''}\<rparr>)"
    by (simp add: run_key_def run_poll_def k run_init_def Let_def)
  from run_more [OF this acquire] show ?thesis
    by (fastforce simp: run_init_def slots_def run_server_def)
qed

theorem Run_bounds_sessions_witness:
  "\<exists>r. run_reach run_server r \<and> rn_running r = [''ab''] \<and> int (length (rn_running r)) \<le> 2"
proof -
  obtain r where r: "run_reach run_server r" "rn_running r = [''ab'']"
    using run_server_started by blast
  with Run_bounds_sessions [OF r(1)] show ?thesis
    by (auto simp: run_server_def)
qed

section \<open>Listing\<close>

lemma filter_after_last:
  assumes "sorted (a @ b)" "distinct (a @ b)" "a \<noteq> []"
  shows "filter ((<) (last a)) (a @ b) = (b :: string list)"
proof -
  obtain a' where a': "a = a' @ [last a]"
    using assms(3) by (metis append_butlast_last_id)
  have "sorted (a' @ [last a])"
    using assms(1) a' by (simp add: sorted_append)
  then have "x \<le> last a" if "x \<in> set a" for x
    using that a' by (metis Un_iff empty_iff empty_set order_refl set_ConsD set_append sorted_append list.set_intros(1))
  moreover have "last a < x" if "x \<in> set b" for x
  proof -
    have "last a \<in> set a" using assms(3) by simp
    then have "last a \<le> x" "last a \<noteq> x"
      using assms(1,2) that by (auto simp: sorted_append)
    then show ?thesis by simp
  qed
  ultimately show ?thesis
    by (auto simp: filter_empty_conv filter_id_conv not_less)
qed

context object_store begin

lemma list_pages_live:
  assumes "cfg_Store cfg = S" and ne: "\<And>k. k \<in> set ks \<Longrightarrow> k \<noteq> []"
  shows "inv s \<Longrightarrow> sorted_keys (objs s) (OpenPrefix (cfg_Prefix cfg)) = ks \<Longrightarrow> ks = acc @ b \<Longrightarrow>
    token = (if acc = [] then [] else last acc) \<Longrightarrow> length b < n \<Longrightarrow>
    \<exists>p' s'. list_pages n None cfg token acc p s = Some (Inr ks, p', s') \<and> inv s' \<and> objs s' = objs s"
proof (induction n arbitrary: acc b token p s)
  case (Suc n)
  let ?opts = "\<lparr>opt_max_keys = 1000, opt_token = token\<rparr>"
  obtain s1 where s1: "ListPrefixPage S None (OpenPrefix (cfg_Prefix cfg)) ?opts s = (Inr (page_spec ks ?opts), s1)"
    "inv s1" "objs s1 = objs s"
    using list_live [OF Suc.prems(1)] Suc.prems(2) by blast
  have sd: "sorted (acc @ b)" "distinct (acc @ b)"
    using Suc.prems(2,3) sorted_sorted_keys distinct_sorted_keys by metis+
  have "token = [] \<longleftrightarrow> acc = []"
    using Suc.prems(3,4) ne by auto
  then have rest: "(if token = [] then ks else filter ((<) token) ks) = b"
    using filter_after_last [OF sd] Suc.prems(3,4) by auto
  show ?case
  proof (cases "1000 < length b")
    case True
    let ?ps = "take 1000 b"
    have page: "page_spec ks ?opts = \<lparr>page_keys = ?ps, page_truncated = True, page_next_token = last ?ps\<rparr>"
      by (simp only: page_spec_def Let_def ListOptions.simps rest) (use True in simp)
    have ps: "?ps \<noteq> []" "last ?ps \<noteq> []"
    proof -
      show "?ps \<noteq> []" using True by auto
      then show "last ?ps \<noteq> []"
        using ne Suc.prems(3) by (metis Un_iff in_set_takeD last_in_set set_append)
    qed
    have "ks = (acc @ ?ps) @ drop 1000 b"
      using Suc.prems(3) by simp
    moreover have "last ?ps = (if acc @ ?ps = [] then [] else last (acc @ ?ps))"
      using ps(1) by simp
    moreover have "length (drop 1000 b) < n"
      using Suc.prems(5) True by simp
    ultimately have "\<exists>p' s'. list_pages n None cfg (last ?ps) (acc @ ?ps) (with_stats incList p) s1 = Some (Inr ks, p', s') \<and>
        inv s' \<and> objs s' = objs s1"
      using Suc.IH [OF s1(2)] s1(3) Suc.prems(2) by metis
    then show ?thesis
      using s1 page ps assms(1) by (simp add: Let_def)
  next
    case False
    have "page_spec ks ?opts = \<lparr>page_keys = b, page_truncated = False, page_next_token = []\<rparr>"
      by (simp only: page_spec_def Let_def ListOptions.simps rest) (use False in simp)
    then show ?thesis
      using s1 assms(1) Suc.prems(3) by (simp add: Let_def)
  qed
qed simp

lemma listOpenKeys_live:
  assumes "inv s" and "cfg_Store cfg = S" and "card (keys_with_prefix (objs s) (OpenPrefix (cfg_Prefix cfg))) < fuel"
  shows "\<exists>p' s'. listOpenKeys fuel None cfg p s = Some (Inr (sorted_keys (objs s) (OpenPrefix (cfg_Prefix cfg))), p', s') \<and>
    inv s' \<and> objs s' = objs s"
  unfolding listOpenKeys_def
proof (rule list_pages_live [OF assms(2) _ assms(1) refl])
  let ?ks = "sorted_keys (objs s) (OpenPrefix (cfg_Prefix cfg))"
  show "k \<noteq> []" if "k \<in> set ?ks" for k
    using that by (auto simp: set_sorted_keys [OF finite_objs [OF assms(1)]] keys_with_prefix_def OpenPrefix_join hasPrefix_def)
  show "?ks = [] @ ?ks" by simp
  show "length ?ks < fuel" using assms(3) by (simp add: length_sorted_keys)
qed (simp_all)

end

text \<open>
  C11: the paged listing, over the memory store, returns every open request exactly
  once and in order, and changes nothing; one page more than there are keys is
  enough.
\<close>

theorem listOpenKeys_complete:
  assumes "mem_inv s" and "cfg_Store cfg = memory_store"
    and "card (keys_with_prefix (mem_objs s) (OpenPrefix (cfg_Prefix cfg))) < fuel"
  shows "\<exists>ks p' s'. listOpenKeys fuel None cfg p s = Some (Inr ks, p', s') \<and> sorted ks \<and> distinct ks \<and>
    set ks = {k \<in> dom (mem_objs s). hasPrefix k (OpenPrefix (cfg_Prefix cfg))} \<and> mem_objs s' = mem_objs s"
  using mem.listOpenKeys_live [OF assms, of p] set_sorted_keys [OF mem.finite_objs [OF assms(1)], of "OpenPrefix (cfg_Prefix cfg)"]
  by (auto simp: keys_with_prefix_def)


theorem listOpenKeys_complete_witness:
  "\<exists>ks p' s'. listOpenKeys 3 None test_config (\<lparr>pr_rng = (), pr_stats = None, pr_activity = None\<rparr>)
       \<lparr>ms_objects = [(OpenKey ''p'' ''ab'', \<lparr>mo_data = [], mo_metadata = []\<rparr>)]\<rparr> = Some (Inr ks, p', s') \<and>
     set ks \<subseteq> {OpenKey ''p'' ''ab''}"
proof -
  let ?s = "\<lparr>ms_objects = [(OpenKey ''p'' ''ab'', \<lparr>mo_data = [], mo_metadata = []\<rparr>)]\<rparr>"
  have "keys_with_prefix (mem_objs ?s) (OpenPrefix ''p'') \<subseteq> {OpenKey ''p'' ''ab''}"
    by (auto simp: keys_with_prefix_def mem_objs_def split: if_splits)
  from card_mono [OF _ this] have "card (keys_with_prefix (mem_objs ?s) (OpenPrefix ''p'')) < 3"
    by simp
  then obtain ks p' s' where "listOpenKeys 3 None test_config (\<lparr>pr_rng = (), pr_stats = None, pr_activity = None\<rparr>) ?s = Some (Inr ks, p', s')"
    "set ks = {k \<in> dom (mem_objs ?s). hasPrefix k (OpenPrefix ''p'')}"
    using listOpenKeys_complete [of ?s test_config 3 "\<lparr>pr_rng = (), pr_stats = None, pr_activity = None\<rparr>"]
    by (auto simp: mem_inv_def test_config_def)
  moreover have "dom (mem_objs ?s) \<subseteq> {OpenKey ''p'' ''ab''}"
    by (simp add: dom_mem_objs)
  ultimately show ?thesis by blast
qed

section \<open>Dialling\<close>

lemma dial_loop_addrs:
  assumes log: "\<And>c a d r d'. dial c a d = (r, d') \<Longrightarrow> d' = d @ [a]"
  shows "\<exists>n \<le> length ips. snd (dial_loop dial ctx port ips first d) =
    d @ map (\<lambda>ip. JoinHostPort (addr_string ip) (itoa (unat port))) (take n ips)"
proof (induction ips arbitrary: first d)
  case (Cons ip ips)
  let ?a = "JoinHostPort (addr_string ip) (itoa (unat port))"
  obtain r d' where obj: "dial ctx ?a d = (r, d')" by force
  with log have d': "d' = d @ [?a]" by blast
  show ?case
  proof (cases r)
    case (Inl e)
    obtain n where "n \<le> length ips" "snd (dial_loop dial ctx port ips (if first = None then Some e else first) d') =
        d' @ map (\<lambda>ip. JoinHostPort (addr_string ip) (itoa (unat port))) (take n ips)"
      using Cons.IH by blast
    then have "snd (dial_loop dial ctx port (ip # ips) first d) =
        d @ map (\<lambda>ip. JoinHostPort (addr_string ip) (itoa (unat port))) (take (Suc n) (ip # ips))"
      using obj Inl d' by simp
    then show ?thesis
      using \<open>n \<le> length ips\<close> by (intro exI [of _ "Suc n"]) simp
  next
    case (Inr c)
    then show ?thesis
      using obj d' by (intro exI [of _ 1]) simp
  qed
qed (simp split: option.split)

lemma dial_loop_not_nil: "ips \<noteq> [] \<or> first \<noteq> None \<Longrightarrow> fst (dial_loop dial ctx port ips first d) \<noteq> Inr None"
  by (induction ips arbitrary: first d) (auto split: sum.splits prod.splits)

lemma AllowedIPs_Inr:
  assumes "AllowedIPs e lookup ctx t = Inr ips"
  shows "ips \<noteq> [] \<and> (\<forall>ip\<in>set ips. CheckAddr e ip = None)"
  using assms check_addrs_Inr
  by (auto simp: AllowedIPs_def allowedIPs_def split: if_splits sum.splits prod.splits)

text \<open>
  A network that keeps the addresses it was asked to dial; its answers are any
  function of the address and of what was dialled before.
\<close>

definition logging :: "(ctx \<Rightarrow> string \<Rightarrow> string list \<Rightarrow> 'n result) \<Rightarrow> ('n, string list) dialer" where
  "logging answer c a d = (answer c a d, d @ [a])"

text \<open>
  C8: under a policy, the server opens connections only to addresses the policy let
  through, on the requested port, in their order and up to the first that answers,
  and its result is never the nil connection without an error.
\<close>

theorem dialTarget_only_allowed:
  "fst (dialTarget (Some e) lookup (logging answer) ctx t []) \<noteq> Inr None \<and>
   (\<exists>ips. prefix (snd (dialTarget (Some e) lookup (logging answer) ctx t []))
        (map (\<lambda>ip. JoinHostPort (addr_string ip) (itoa (unat (tgt_port t)))) ips) \<and>
      (ips = [] \<or> AllowedIPs e lookup ctx t = Inr ips \<and> list_all (\<lambda>ip. CheckAddr e ip = None) ips))"
proof (cases "AllowedIPs e lookup ctx t")
  case (Inl x)
  then show ?thesis
    by (auto simp: dialTarget_def intro!: exI [of _ "[]"])
next
  case (Inr ips)
  let ?f = "\<lambda>ip. JoinHostPort (addr_string ip) (itoa (unat (tgt_port t)))"
  have r: "dialTarget (Some e) lookup (logging answer) ctx t [] = dial_loop (logging answer) ctx (tgt_port t) ips None []"
    using Inr by (simp add: dialTarget_def)
  obtain n where "snd (dial_loop (logging answer) ctx (tgt_port t) ips None []) = [] @ map ?f (take n ips)"
    using dial_loop_addrs [where dial = "logging answer"] unfolding logging_def by fast
  then have "prefix (snd (dial_loop (logging answer) ctx (tgt_port t) ips None [])) (map ?f ips)"
    by (simp add: take_is_prefix flip: take_map)
  then show ?thesis
    unfolding r using AllowedIPs_Inr [OF Inr] dial_loop_not_nil [of ips None, where dial = "logging answer"] Inr
    by (auto simp: list_all_iff)
qed


section \<open>Replies\<close>

text \<open>A connection that keeps the replies sent on it; whether a write succeeds is any function of them.\<close>

definition recording :: "(8 word \<Rightarrow> 8 word list \<Rightarrow> err option) \<Rightarrow> 8 word list replier" where
  "recording fails rc c = (fails rc c, c @ [rc])"

lemmas reply_codes = ReplySucceeded_def ReplyGeneralFailure_def ReplyHostUnreachable_def

lemma client_result_one_reply:
  assumes "client_result ck cfg sid (recording fails) w p [] = (q, p', replies)"
  shows "\<exists>rc. replies = [rc] \<and> (\<not> is_err q \<longrightarrow> rc = ReplySucceeded) \<and>
    (rc = ReplySucceeded \<longrightarrow> \<not> is_err q \<or> (\<exists>e. fails ReplySucceeded [] = Some e \<and> q = Inl e))"
proof (cases w)
  case (Inl e)
  with assms have "q = Inl e" "replies = [ReplyHostUnreachable]"
    by (simp_all add: client_result_def recording_def)
  then show ?thesis by (simp add: reply_codes)
next
  case (Inr res)
  show ?thesis
  proof (cases "res_accepted res")
    case acc: True
    show ?thesis
    proof (cases "EffectiveSendChunkSize (cfg_ChunkSize cfg) (res_max_receive res)")
      case (Inl e)
      with assms \<open>w = Inr res\<close> acc have "is_err q \<and> replies = [ReplyHostUnreachable]"
        by (auto simp: client_result_def recording_def)
      then show ?thesis by (simp add: reply_codes)
    next
      case eff: (Inr n)
      show ?thesis
      proof (cases "fails ReplySucceeded []")
        case None
        have "q = Inr (cfg\<lparr>cfg_ChunkSize := n\<rparr>)" "replies = [ReplySucceeded]"
          using assms by (simp_all add: client_result_def Let_def recording_def \<open>w = Inr res\<close> acc eff None)
        then show ?thesis by simp
      next
        case (Some e)
        have "q = Inl e" "replies = [ReplySucceeded]"
          using assms by (simp_all add: client_result_def Let_def recording_def \<open>w = Inr res\<close> acc eff Some)
        then show ?thesis using Some by simp
      qed
    qed
  next
    case False
    with assms Inr have "is_err q \<and> replies = [ReplyHostUnreachable]"
      by (auto simp: client_result_def recording_def)
    then show ?thesis by (simp add: reply_codes)
  qed
qed

text \<open>
  C9: on every path through the opening of a session the client sends exactly one
  SOCKS reply; the reply is \<open>succeeded\<close> when the session is opened, and otherwise only
  when sending that reply is what failed.
\<close>

theorem client_open_one_reply:
  assumes "client_open ck ctx ticks rnd cfg target (recording fails) p s [] = Some (r, p', s', replies)"
  shows "\<exists>rc. replies = [rc] \<and> (\<not> is_err r \<longrightarrow> rc = ReplySucceeded) \<and>
    (rc = ReplySucceeded \<longrightarrow> \<not> is_err r \<or> (\<exists>e. fails ReplySucceeded [] = Some e \<and> r = Inl e))"
  using assms
proof (cases "NewSessionID rnd")
  case (Inr sid)
  obtain e1 p1 s1 where put: "putJSON ctx cfg (OpenKey (cfg_Prefix cfg) sid) ''open'' sid ''control''
      (Marshal_OpenRequest \<lparr>req_version = Version, req_session = sid, req_target = target,
         req_max_receive = cfg_ChunkSize cfg, req_created = ck_created ck\<rparr>)
      (with_stats (startSession sid (ck_started ck)) p) s = (e1, p1, s1)"
    by (metis prod_cases3)
  show ?thesis
  proof (cases e1)
    case (Some e)
    with assms Inr put have "r = Inl e \<and> replies = [ReplyGeneralFailure]"
      by (simp add: client_open_def recording_def)
    then show ?thesis by (simp add: reply_codes)
  next
    case None
    then obtain w p2 where "waitJSON ticks cfg (OpenResultKey (cfg_Prefix cfg) sid) ''open-result'' sid ''control''
        Unmarshal_OpenResult p1 s1 = Some (w, p2, s')"
      and cr: "case client_result ck cfg sid (recording fails) w p2 [] of (q, p3, c') \<Rightarrow>
        r = ebind q (\<lambda>cfg'. Inr (sid, cfg')) \<and> p' = p3 \<and> replies = c'"
      using assms Inr put by (auto simp: client_open_def split: option.splits prod.splits)
    obtain q where "client_result ck cfg sid (recording fails) w p2 [] = (q, p', replies)"
      and "r = ebind q (\<lambda>cfg'. Inr (sid, cfg'))"
      using cr by (auto split: prod.splits)
    with client_result_one_reply [OF this(1)] show ?thesis
      by (cases q) auto
  qed
qed (auto simp: client_open_def recording_def reply_codes)

theorem client_open_one_reply_witness:
  "\<exists>r p' s' rc. client_open \<lparr>ck_started = 0, ck_created = sample_time, ck_to_result = 0, ck_total = 0\<rparr> (Some CtxCanceled) []
      (Inr [171]) test_config zero_Target (recording (\<lambda>_ _. None)) \<lparr>pr_rng = (), pr_stats = None, pr_activity = None\<rparr> mem_new []
      = Some (r, p', s', [rc]) \<and> rc \<noteq> ReplySucceeded"
proof -
  let ?call = "client_open \<lparr>ck_started = 0, ck_created = sample_time, ck_to_result = 0, ck_total = 0\<rparr> (Some CtxCanceled) []
      (Inr [171]) test_config zero_Target (recording (\<lambda>_ _. None)) \<lparr>pr_rng = (), pr_stats = None, pr_activity = None\<rparr> mem_new []"
  obtain p' s' replies where call: "?call = Some (Inl CtxCanceled, p', s', replies)"
    by (simp add: client_open_def recording_def Let_def NewSessionID_def putJSON_def test_config_def NoopCodec_def
        Marshal_OpenRequest_def marshal_def sample_time_def memory_store_def mem_PutObject_def del: enc.simps)
  show ?thesis
    using client_open_one_reply [OF call] call by auto
qed

section \<open>The server's answer\<close>

context object_store begin

lemma getJSON_present:
  assumes "inv s" and "cfg_Store cfg = S" and "objs s k = Some d"
  shows "\<exists>p' s'. getJSON None cfg k ty sid dir dec p s = (ebind (Open (cfg_Codec cfg) ty sid dir 0 d) dec, p', s') \<and>
    inv s' \<and> objs s' = objs s"
  using get_live [OF assms(1), of k] assms by (auto simp: getJSON_def get_spec_def)

lemma getJSON_absent:
  assumes "inv s" and "cfg_Store cfg = S" and "objs s k = None"
  shows "\<exists>p' s'. getJSON None cfg k ty sid dir dec p s = (Inl ErrNotFound, p', s') \<and> inv s' \<and> objs s' = objs s"
  using get_live [OF assms(1), of k] assms by (auto simp: getJSON_def get_spec_def)

end

text \<open>The open-result object of a session and what a reader of it sees.\<close>

definition answer_read :: "('s, 'g) TunnelConfig \<Rightarrow> string \<Rightarrow> (string \<rightharpoonup> bytes) \<Rightarrow> OpenResult \<Rightarrow> bool" where
  "answer_read cfg sid m res \<longleftrightarrow>
     (\<exists>d. m (OpenResultKey (cfg_Prefix cfg) sid) = Some d \<and>
        ebind (Open (cfg_Codec cfg) ''open-result'' sid ''control'' 0 d) Unmarshal_OpenResult = Inr res)"

lemma valid_int64: "valid_config cfg \<Longrightarrow> int64 (cfg_ChunkSize cfg)"
  using valid_chunk [of cfg] by (auto simp: int64_def MaxChunkSize_def)

context store_safety begin

lemma putOpenResult_answer:
  assumes "codec (cfg_Codec cfg)" and "inv s" and "cfg_Store cfg = S" and "wf_time now" and "valid_config cfg"
    and "OpenResultKey (cfg_Prefix cfg) sid \<in> K"
    and "putOpenResult c now cfg sid acc msg p s = (None, p', s')"
  shows "inv s' \<and> (\<exists>d. objs s' = (objs s)(OpenResultKey (cfg_Prefix cfg) sid \<mapsto> d)) \<and>
    (\<exists>res. answer_read cfg sid (objs s') res \<and> res_accepted res = acc \<and> res_max_receive res = cfg_ChunkSize cfg)"
proof -
  let ?r = "\<lparr>res_version = Version, res_session = sid, res_accepted = acc, res_error = msg,
    res_max_receive = cfg_ChunkSize cfg, res_created = now\<rparr>"
  have um: "ebind (Marshal_OpenResult ?r) Unmarshal_OpenResult = Inr (clean_OpenResult ?r)"
    using assms(4) valid_int64 [OF assms(5)] by (intro unmarshal_OpenResult) (simp add: wf_message_defs Version_def)
  obtain data sealed g where "Marshal_OpenResult ?r = Inr data"
    "Seal (cfg_Codec cfg) ''open-result'' sid ''control'' 0 data (pr_rng p) = (Inr sealed, g)" "inv s'"
    "objs s' = (objs s)(OpenResultKey (cfg_Prefix cfg) sid \<mapsto> sealed)"
    using putJSON_safe [OF assms(2,3,6) assms(7) [unfolded putOpenResult_def]] by auto
  moreover from this have "answer_read cfg sid (objs s') (clean_OpenResult ?r)"
    using um codec.open_seal [OF assms(1)] by (auto simp: answer_read_def)
  ultimately show ?thesis
    by (auto simp: clean_OpenResult_def)
qed

end

lemma OpenKey_OpenResultKey: "plain_comp sid \<Longrightarrow> OpenKey px sid \<noteq> OpenResultKey px sid"
  using object_key_inject [of "OpenObj sid" "OpenResultObj sid" px] by simp

definition answered :: "('s, 'g) TunnelConfig \<Rightarrow> string \<Rightarrow> (string \<rightharpoonup> bytes) \<Rightarrow> bool \<Rightarrow> bool" where
  "answered cfg sid m acc \<longleftrightarrow> m (OpenKey (cfg_Prefix cfg) sid) = None \<and>
     (\<exists>res. answer_read cfg sid m res \<and> res_accepted res = acc \<and> res_max_receive res = cfg_ChunkSize cfg)"

context object_store begin

lemma delete_open_live:
  assumes "inv s" and "cfg_Store cfg = S" and "delete_open cfg sid p s = (p', s')"
  shows "inv s' \<and> objs s' = (objs s)(OpenKey (cfg_Prefix cfg) sid := None)"
  using delete_live [OF assms(1), of "OpenKey (cfg_Prefix cfg) sid"] assms(2,3) by (auto simp: delete_open_def)

lemma putOpenResult_answered:
  assumes "codec (cfg_Codec cfg)" and "inv s" and "cfg_Store cfg = S" and "wf_time now" and "valid_config cfg"
    and "plain_comp sid" and "objs s (OpenKey (cfg_Prefix cfg) sid) = None"
    and "putOpenResult c now cfg sid acc msg p s = (None, p', s')"
  shows "inv s' \<and> answered cfg sid (objs s') acc"
  using putOpenResult_answer [OF assms(1-5) UNIV_I assms(8)] assms(7) OpenKey_OpenResultKey [OF assms(6), of "cfg_Prefix cfg"]
  by (auto simp: answered_def)

lemma server_open_answers:
  assumes C: "codec (cfg_Codec (srv_cfg srv))" and s: "inv s" and S: "cfg_Store (srv_cfg srv) = S" and t: "wf_time now"
    and v: "valid_config (srv_cfg srv)" and sid: "plain_comp sid" and ctx: "\<not> IsNotFound ctx"
    and run: "server_open now ctx dialCtx srv lookup dial sid p s d = (r, p', s', d')"
    and ok: "\<And>e. r \<noteq> Inl (Some e)"
  shows "inv s' \<and> answered (srv_cfg srv) sid (objs s') (\<not> isl r)"
proof -
  let ?cfg = "srv_cfg srv"
  obtain q p1 s1 where get: "getJSON ctx ?cfg (OpenKey (cfg_Prefix ?cfg) sid) ''open'' sid ''control'' Unmarshal_OpenRequest p s
      = (q, p1, s1)"
    by (metis prod_cases3)
  have s1: "inv s1" "objs s1 = objs s"
    using getJSON_safe [OF s ctx S UNIV_I get] by simp_all
  obtain req where q: "q = Inr req"
    using run get ok by (cases q) (auto simp: server_open_def Let_def)
  obtain p2 s2 where del: "delete_open ?cfg sid p1 s1 = (p2, s2)" by force
  have s2: "inv s2" "objs s2 (OpenKey (cfg_Prefix ?cfg) sid) = None"
    using delete_open_live [OF s1(1) S del] by simp_all
  note ans = putOpenResult_answered [OF C s2(1) S t v sid s2(2)]
  show ?thesis
  proof (cases "req_version req \<noteq> Version \<or> req_session req \<noteq> sid \<or> ValidateChunkSize (req_max_receive req) \<noteq> None")
    case True
    obtain e p3 s3 where put: "putOpenResult ctx now ?cfg sid False ''invalid open request'' p1 s1 = (e, p3, s3)"
      by (metis prod_cases3)
    obtain p4 s4 where del': "delete_open ?cfg sid p3 s3 = (p4, s4)" by force
    have r: "r = Inl e" "s' = s4"
      using run get q put del' True by (auto simp: server_open_def Let_def)
    then have "e = None" using ok by (cases e) auto
    then have s3: "inv s3" "\<exists>res. answer_read ?cfg sid (objs s3) res \<and> res_accepted res = False \<and> res_max_receive res = cfg_ChunkSize ?cfg"
      using putOpenResult_answer [OF C s1(1) S t v] put by blast+
    then show ?thesis
      using delete_open_live [OF s3(1) S del'] OpenKey_OpenResultKey [OF sid, of "cfg_Prefix ?cfg"] r
      by (auto simp: answered_def answer_read_def)
  next
    case False
    have run': "(case EffectiveSendChunkSize (cfg_ChunkSize ?cfg) (req_max_receive req) of
        Inl _ \<Rightarrow> (case putOpenResult ctx now ?cfg sid False ''invalid receive chunk limit'' p2 s2 of
                    (e, p3, s3) \<Rightarrow> (Inl e, p3, s3, d))
      | Inr n \<Rightarrow>
          (case dialTarget (srv_Policy srv) lookup dial dialCtx (req_target req) d of
             (Inl x, d') \<Rightarrow> (case putOpenResult ctx now ?cfg sid False (err_text x) p2 s2 of (e, p3, s3) \<Rightarrow> (Inl e, p3, s3, d'))
           | (Inr conn, d') \<Rightarrow>
               (case putOpenResult ctx now ?cfg sid True [] p2 s2 of
                  (Some e, p3, s3) \<Rightarrow> (Inl (Some e), p3, s3, d')
                | (None, p3, s3) \<Rightarrow> (Inr (conn, ?cfg\<lparr>cfg_ChunkSize := n\<rparr>), p3, s3, d')))) = (r, p', s', d')"
      using run get q False del by (simp add: server_open_def Let_def)
    show ?thesis
      using run' ok ans by (fastforce split: sum.splits prod.splits option.splits)
  qed
qed

end


section \<open>The handshake\<close>

lemma NewSessionID_ascii: "NewSessionID (Inr b) = Inr sid \<Longrightarrow> ascii sid"
proof -
  assume sid: "NewSessionID (Inr b) = Inr sid"
  have dig: "of_char (hex_digit n) < (128 :: nat)" if "n < 16" for n
    using that by (simp add: of_char_hex_digit)
  have nib: "unat x div 16 < 16" for x :: byte
    using unsigned_less [where ?'a = nat, of x] by simp
  show "ascii sid"
    using sid dig nib by (auto simp: NewSessionID_def hex_encode_def ascii_def)
qed

lemma plain_NewSessionID: "NewSessionID (Inr b) = Inr sid \<Longrightarrow> b \<noteq> [] \<Longrightarrow> plain_comp sid"
  by (rule NewSessionID_plain)

text \<open>A client and a server on one memory store that agree on codec and prefix.\<close>

definition endpoints :: "(mem_store, 'g) TunnelConfig \<Rightarrow> (mem_store, 'g) TunnelConfig \<Rightarrow> bool" where
  "endpoints cc sc \<longleftrightarrow> tunnel_codec (cfg_Codec cc) \<and> cfg_Codec sc = cfg_Codec cc \<and> cfg_Store cc = memory_store \<and>
     cfg_Store sc = memory_store \<and> cfg_Prefix sc = cfg_Prefix cc \<and> valid_config cc \<and> valid_config sc"

definition client_request :: "session_clock \<Rightarrow> ('s, 'g) TunnelConfig \<Rightarrow> Target \<Rightarrow> string \<Rightarrow> OpenRequest" where
  "client_request ck cfg target sid =
     \<lparr>req_version = Version, req_session = sid, req_target = target, req_max_receive = cfg_ChunkSize cfg,
      req_created = ck_created ck\<rparr>"

lemma client_request_read:
  assumes "endpoints cc sc" and "mem_inv s" and "wf_time (ck_created ck)"
    and "putJSON ctx cc (OpenKey (cfg_Prefix cc) sid) ''open'' sid ''control''
      (Marshal_OpenRequest (client_request ck cc target sid)) p s = (None, p1, s1)"
  shows "mem_inv s1 \<and> (\<exists>d. mem_objs s1 = (mem_objs s)(OpenKey (cfg_Prefix cc) sid \<mapsto> d) \<and>
    ebind (Open (cfg_Codec sc) ''open'' sid ''control'' 0 d) Unmarshal_OpenRequest =
      Inr (clean_OpenRequest (client_request ck cc target sid)))"
proof -
  let ?r = "client_request ck cc target sid"
  have um: "ebind (Marshal_OpenRequest ?r) Unmarshal_OpenRequest = Inr (clean_OpenRequest ?r)"
    using assms(1,3) valid_int64 [of cc]
    by (intro unmarshal_OpenRequest) (simp add: wf_message_defs Version_def client_request_def endpoints_def)
  have st: "cfg_Store cc = memory_store" and cd: "cfg_Codec sc = cfg_Codec cc" "codec (cfg_Codec cc)"
    using assms(1) tunnel_codec_codec by (auto simp: endpoints_def)
  obtain data sealed g where "Marshal_OpenRequest ?r = Inr data"
    and sl: "Seal (cfg_Codec cc) ''open'' sid ''control'' 0 data (pr_rng p) = (Inr sealed, g)" and "mem_inv s1"
    and "mem_objs s1 = (mem_objs s)(OpenKey (cfg_Prefix cc) sid \<mapsto> sealed)"
    using mem.putJSON_safe [OF assms(2) st UNIV_I assms(4)] by auto
  then show ?thesis
    using um codec.open_seal [OF cd(2) sl] by (auto simp: cd)
qed

text \<open>A server that returned a connection runs its streams with the smaller of the two chunk sizes.\<close>

lemma server_open_chunk:
  assumes "endpoints cc (srv_cfg srv)" and "mem_inv s1"
    and read: "mem_objs s1 (OpenKey (cfg_Prefix cc) sid) = Some obj"
      "ebind (Open (cfg_Codec (srv_cfg srv)) ''open'' sid ''control'' 0 obj) Unmarshal_OpenRequest = Inr req"
    and fields: "req_max_receive req = cfg_ChunkSize cc"
    and run: "server_open now None dialCtx srv lookup dial sid q s1 d = (Inr (conn, scfg), q', s2, d')"
  shows "cfg_ChunkSize scfg = min (cfg_ChunkSize cc) (cfg_ChunkSize (srv_cfg srv))"
proof -
  let ?cfg = "srv_cfg srv"
  obtain p1 s1' where get: "getJSON None ?cfg (OpenKey (cfg_Prefix ?cfg) sid) ''open'' sid ''control'' Unmarshal_OpenRequest q s1
      = (Inr req, p1, s1')"
    using mem.getJSON_present [OF assms(2) _ read(1), of ?cfg "''open''" sid "''control''" Unmarshal_OpenRequest q] assms(1) read(2)
    by (auto simp: endpoints_def)
  obtain p2 s2' where del: "delete_open ?cfg sid p1 s1' = (p2, s2')" by force
  have "valid_config cc" "valid_config ?cfg"
    using assms(1) by (simp_all add: endpoints_def)
  then have "EffectiveSendChunkSize (cfg_ChunkSize ?cfg) (req_max_receive req) =
      Inr (min (cfg_ChunkSize cc) (cfg_ChunkSize ?cfg))"
    using fields by (auto simp: EffectiveSendChunkSize_def valid_config_def)
  with run get del show ?thesis
    by (auto simp: server_open_def Let_def split: if_splits prod.splits sum.splits option.splits)
qed

definition poll_tick :: "'s \<Rightarrow> 's tick" where
  "poll_tick s = \<lparr>tk_ctx = None, tk_expired = False, tk_sleep = (\<lambda>_. None), tk_world = (\<lambda>_. s)\<rparr>"

lemma client_wait:
  assumes "cfg_Store cc = memory_store" and "mem_inv s1" and "mem_inv s2"
    and "mem_objs s1 (OpenResultKey (cfg_Prefix cc) sid) = None" and "answer_read cc sid (mem_objs s2) res"
  shows "\<exists>p' s'. waitJSON [poll_tick s2, poll_tick s2] cc (OpenResultKey (cfg_Prefix cc) sid) ''open-result'' sid ''control''
      Unmarshal_OpenResult p s1 = Some (Inr res, p', s')"
proof -
  obtain p1 s1' where "getJSON None cc (OpenResultKey (cfg_Prefix cc) sid) ''open-result'' sid ''control'' Unmarshal_OpenResult p s1
      = (Inl ErrNotFound, p1, s1')"
    using mem.getJSON_absent [OF assms(2,1,4)] by metis
  moreover obtain p2 s2' where "getJSON None cc (OpenResultKey (cfg_Prefix cc) sid) ''open-result'' sid ''control'' Unmarshal_OpenResult p1 s2
      = (Inr res, p2, s2')"
    using mem.getJSON_present [OF assms(3,1)] assms(5) unfolding answer_read_def by metis
  ultimately show ?thesis
    by (simp add: waitJSON_def poll_tick_def)
qed

text \<open>
  C3: the handshake: when the client's open request reached the store, and the
  server handled it and got a connection, the client opens the session with its
  next look at the result, tells its SOCKS client so, and both sides run their
  streams with the same chunk size, the smaller of the two.
\<close>

theorem handshake:
  assumes "endpoints cc (srv_cfg srv)" and "mem_inv s" and "wf_time (ck_created ck)" and "wf_time now"
    and "NewSessionID (Inr b) = Inr sid" and "b \<noteq> []"
    and "putJSON None cc (OpenKey (cfg_Prefix cc) sid) ''open'' sid ''control''
      (Marshal_OpenRequest (client_request ck cc target sid)) (with_stats (startSession sid (ck_started ck)) p) s = (None, p1, s1)"
    and "mem_objs s (OpenResultKey (cfg_Prefix cc) sid) = None"
    and "server_open now None dialCtx srv lookup dial sid q s1 d = (Inr (conn, scfg), q', s2, d')"
    and "fails ReplySucceeded [] = None"
  shows "cfg_ChunkSize scfg = min (cfg_ChunkSize cc) (cfg_ChunkSize (srv_cfg srv)) \<and>
    (\<exists>p' s'. client_open ck None [poll_tick s2, poll_tick s2] (Inr b) cc target (recording fails) p s [] =
       Some (Inr (sid, cc\<lparr>cfg_ChunkSize := cfg_ChunkSize scfg\<rparr>), p', s', [ReplySucceeded]))"
proof -
  let ?sc = "srv_cfg srv"
  have sid: "plain_comp sid"
    using plain_NewSessionID [OF assms(5,6)] .
  obtain obj where s1: "mem_inv s1" "mem_objs s1 = (mem_objs s)(OpenKey (cfg_Prefix cc) sid \<mapsto> obj)"
    "ebind (Open (cfg_Codec ?sc) ''open'' sid ''control'' 0 obj) Unmarshal_OpenRequest =
      Inr (clean_OpenRequest (client_request ck cc target sid))"
    using client_request_read [OF assms(1-3,7)] by blast
  have chunk: "cfg_ChunkSize scfg = min (cfg_ChunkSize cc) (cfg_ChunkSize ?sc)"
    by (rule server_open_chunk [OF assms(1) s1(1) _ s1(3) _ assms(9)])
      (simp_all add: s1(2) clean_OpenRequest_def client_request_def)
  have "codec (cfg_Codec ?sc)" "cfg_Store ?sc = memory_store" "valid_config ?sc"
    using assms(1) tunnel_codec_codec by (auto simp: endpoints_def)
  then have "mem_inv s2 \<and> answered ?sc sid (mem_objs s2) True"
    using mem.server_open_answers [OF _ s1(1) _ assms(4) _ sid _ assms(9)] by simp
  then obtain res where s2: "mem_inv s2" "answer_read cc sid (mem_objs s2) res" "res_accepted res"
    "res_max_receive res = cfg_ChunkSize ?sc"
    using assms(1) by (auto simp: answered_def answer_read_def endpoints_def)
  have absent: "mem_objs s1 (OpenResultKey (cfg_Prefix cc) sid) = None"
    using OpenKey_OpenResultKey [OF sid, of "cfg_Prefix cc"] assms(8) by (simp add: s1(2))
  have "cfg_Store cc = memory_store" using assms(1) by (simp add: endpoints_def)
  then obtain p2 s3 where wait: "waitJSON [poll_tick s2, poll_tick s2] cc (OpenResultKey (cfg_Prefix cc) sid) ''open-result'' sid
      ''control'' Unmarshal_OpenResult p1 s1 = Some (Inr res, p2, s3)"
    using client_wait [OF _ s1(1) s2(1) absent s2(2)] by blast
  have "EffectiveSendChunkSize (cfg_ChunkSize cc) (res_max_receive res) = Inr (cfg_ChunkSize scfg)"
    using assms(1) s2(4) chunk by (auto simp: EffectiveSendChunkSize_def valid_config_def endpoints_def)
  then show ?thesis
    using assms(5,7,10) wait s2(3) chunk
    by (simp add: client_open_def client_result_def recording_def client_request_def)
qed


section \<open>An example\<close>

definition ex_clock :: session_clock where
  "ex_clock = \<lparr>ck_started = 0, ck_created = sample_time, ck_to_result = 5, ck_total = 9\<rparr>"

definition ex_proc :: "unit proc" where
  "ex_proc = \<lparr>pr_rng = (), pr_stats = None, pr_activity = None\<rparr>"

definition ex_target :: Target where
  "ex_target = \<lparr>tgt_type = AddressDomain, tgt_host = ''example.com'', tgt_port = 443\<rparr>"

definition ex_net :: "(unit, string list) dialer" where
  "ex_net = logging (\<lambda>c a d. Inr ())"

lemma ex_endpoints: "endpoints test_config (srv_cfg run_server)"
  by (simp add: endpoints_def run_server_def noop_tunnel_codec valid_test_config) (simp add: test_config_def noop_tunnel_codec)

lemma test_config_prefix: "cfg_Prefix test_config = ''p''"
  by (simp add: test_config_def)

lemma ex_session: "NewSessionID (Inr [171]) = Inr ''ab''"
  by (simp add: NewSessionID_def hex_encode_def hex_digit_eval)

lemma ex_put: "\<exists>p1 s1. putJSON None test_config (OpenKey ''p'' ''ab'') ''open'' ''ab'' ''control''
    (Marshal_OpenRequest (client_request ex_clock test_config ex_target ''ab'')) p mem_new = (None, p1, s1)"
  by (simp add: putJSON_def test_config_def NoopCodec_def Marshal_OpenRequest_def marshal_def client_request_def
      ex_clock_def sample_time_def memory_store_def mem_PutObject_def del: enc.simps)

lemma ex_server_put: "\<exists>p1 s1. putOpenResult None sample_time test_config ''ab'' True [] p s = (None, p1, s1)"
  by (simp add: putOpenResult_def putJSON_def test_config_def NoopCodec_def Marshal_OpenResult_def marshal_def
      sample_time_def memory_store_def mem_PutObject_def del: enc.simps)

lemma ex_server:
  assumes "putJSON None test_config (OpenKey ''p'' ''ab'') ''open'' ''ab'' ''control''
      (Marshal_OpenRequest (client_request ex_clock test_config ex_target ''ab'')) p mem_new = (None, p1, s1)"
  shows "\<exists>q' s2. server_open sample_time None None run_server lookup ex_net ''ab'' ex_proc s1 [] =
    (Inr (Some (), test_config), q', s2, [''example.com:443''])"
proof -
  let ?req = "clean_OpenRequest (client_request ex_clock test_config ex_target ''ab'')"
  have cfg: "srv_cfg run_server = test_config" "cfg_Prefix test_config = ''p''" "cfg_ChunkSize test_config = 1024"
    by (simp_all add: run_server_def test_config_def)
  obtain obj where obj: "mem_inv s1" "mem_objs s1 (OpenKey ''p'' ''ab'') = Some obj"
    "ebind (Open (cfg_Codec test_config) ''open'' ''ab'' ''control'' 0 obj) Unmarshal_OpenRequest = Inr ?req"
    using client_request_read [OF ex_endpoints _ _ assms [folded cfg(2)]] wf_sample_time
    by (auto simp: mem_inv_def mem_new_def ex_clock_def cfg)
  have "cfg_Store test_config = memory_store"
    by (simp add: test_config_def)
  then obtain q1 s1' where get: "getJSON None test_config (OpenKey ''p'' ''ab'') ''open'' ''ab'' ''control'' Unmarshal_OpenRequest ex_proc s1
      = (Inr ?req, q1, s1')"
    using mem.getJSON_present [OF obj(1) _ obj(2), of test_config "''open''" "''ab''" "''control''" Unmarshal_OpenRequest ex_proc] obj(3)
    by auto
  have req: "req_version ?req = Version" "req_session ?req = ''ab''" "req_max_receive ?req = 1024"
    "tgt_host (req_target ?req) = ''example.com''" "tgt_port (req_target ?req) = 443"
    by (simp_all add: clean_OpenRequest_def client_request_def utf8_text_ascii cfg ex_target_def)
  obtain q2 s2' where del: "delete_open test_config ''ab'' q1 s1' = (q2, s2')" by force
  obtain q3 s3 where put: "putOpenResult None sample_time test_config ''ab'' True [] q2 s2' = (None, q3, s3)"
    using ex_server_put by blast
  have "cfg_ChunkSize_update (\<lambda>_. 1024) test_config = test_config"
    by (simp add: test_config_def)
  moreover have "itoa 443 = ''443''"
    by (simp add: itoa.simps digit_eval)
  ultimately show ?thesis
    using get del put
    by (simp add: server_open_def cfg Let_def req ValidateChunkSize_def MinChunkSize_def MaxChunkSize_def
        EffectiveSendChunkSize_def dialTarget_def run_server_def ex_net_def logging_def JoinHostPort_def)
qed

theorem handshake_witness:
  "\<exists>s2 p' s'. client_open ex_clock None [poll_tick s2, poll_tick s2] (Inr [171]) test_config ex_target (recording (\<lambda>_ _. None))
     ex_proc mem_new [] = Some (Inr (''ab'', test_config), p', s', [ReplySucceeded])"
proof -
  have cfg: "srv_cfg run_server = test_config" "cfg_Prefix test_config = ''p''" "cfg_ChunkSize test_config = 1024"
    by (simp_all add: run_server_def test_config_def)
  obtain p1 s1 where put: "putJSON None test_config (OpenKey ''p'' ''ab'') ''open'' ''ab'' ''control''
    (Marshal_OpenRequest (client_request ex_clock test_config ex_target ''ab'')) (with_stats (startSession ''ab'' 0) ex_proc) mem_new
      = (None, p1, s1)"
    using ex_put by blast
  obtain q' s2 where srv: "server_open sample_time None None run_server (\<lambda>_ _. Inr []) ex_net ''ab'' ex_proc s1 [] =
    (Inr (Some (), test_config), q', s2, [''example.com:443''])"
    using ex_server [OF put] by blast
  have upd: "cfg_ChunkSize_update (\<lambda>_. 1024) test_config = test_config"
    by (simp add: test_config_def)
  show ?thesis
    using handshake [OF ex_endpoints _ _ wf_sample_time ex_session _ _ _ srv, of mem_new ex_clock ex_target ex_proc p1 "\<lambda>_ _. None"]
      put wf_sample_time
    by (auto simp: cfg upd mem_inv_def mem_new_def mem_objs_def ex_clock_def)
qed



end
