(* ===== verification/Programs.thy ===== *)
theory Programs
  imports Session S3Store
begin

text \<open>
  \<open>cmd/s3s5-client/main.go\<close>, \<open>cmd/s3s5-server/main.go\<close> and \<open>internal/version\<close>: how the
  two programs are put together from their flags and their environment, up to the
  point where they start to serve.  What \<open>flag.Parse\<close> makes of the command line is a
  parameter: a function from the defaults the flags were registered with to the
  values after parsing.  A start that ends in \<open>fatal\<close> is the error.

  The lemmas show that a client and a server started alike agree on everything the
  protocol needs, that \<open>Finalize\<close> has settled nearly all the values the tunnel would
  fill in, that the S3 client settles on what \<open>Finalize\<close> settled on, and that no
  server starts open to the whole network by default.
\<close>

section \<open>Version\<close>

record Info =
  inf_Version :: string
  inf_Commit :: string
  inf_Date :: string
  inf_Dirty :: bool

text \<open>One build setting; the three variables come from the linker.\<close>

fun version_setting :: "Info \<Rightarrow> string \<times> string \<Rightarrow> Info" where
  "version_setting info (k, v) =
     (if k = ''vcs.revision'' then
        (if inf_Commit info = ''unknown'' \<and> v \<noteq> [] then info\<lparr>inf_Commit := v\<rparr> else info)
      else if k = ''vcs.time'' then
        (if inf_Date info = ''unknown'' \<and> v \<noteq> [] then info\<lparr>inf_Date := v\<rparr> else info)
      else if k = ''vcs.modified'' then info\<lparr>inf_Dirty := (v = ''true'')\<rparr>
      else info)"

definition version_Get :: "string \<Rightarrow> string \<Rightarrow> string \<Rightarrow> (string \<times> string) list option \<Rightarrow> Info" where
  "version_Get vn commit date buildInfo =
     (let info = \<lparr>inf_Version = vn, inf_Commit = commit, inf_Date = date, inf_Dirty = False\<rparr>
      in case buildInfo of Some settings \<Rightarrow> foldl version_setting info settings | None \<Rightarrow> info)"

definition version_String :: "Info \<Rightarrow> string" where
  "version_String info =
     inf_Version info @ '' commit='' @ inf_Commit info @ '' date='' @ inf_Date info @
     (if inf_Dirty info then '' dirty'' else [])"

section \<open>Assembling a program\<close>

definition buildCodec :: "('g \<Rightarrow> byte result \<times> 'g) \<Rightarrow> Common \<Rightarrow> 'g Codec result" where
  "buildCodec rand_byte c =
     (if com_InsecureNoCrypto c then Inr NoopCodec
      else ebind (NewPSKCodec (com_PSK c)) (\<lambda>k. Inr (psk_codec rand_byte k)))"

definition s3_config :: "Common \<Rightarrow> S3Config" where
  "s3_config c = \<lparr>s3_Provider = com_Provider c, s3_Bucket = com_Bucket c, s3_Region = com_Region c,
     s3_Endpoint = com_Endpoint c, s3_ForcePathStyle = com_ForcePathStyle c,
     s3_AccessKeyID = [], s3_SecretAccessKey = [], s3_SessionToken = []\<rparr>"

definition tunnel_config :: "Common \<Rightarrow> 's ObjectStore \<Rightarrow> 'g Codec \<Rightarrow> ('s, 'g) TunnelConfig" where
  "tunnel_config c store cod =
     \<lparr>cfg_Store = store, cfg_Codec = cod, cfg_Prefix = com_Prefix c, cfg_ChunkSize = com_ChunkSize c,
      cfg_FlushDelay = com_FlushDelay c, cfg_PollMin = com_PollMin c, cfg_PollMax = com_PollMax c,
      cfg_ActivePollDuration = com_ActivePollDuration c, cfg_WindowChunks = com_WindowChunks c,
      cfg_CloseCheckAfterMisses = com_CloseCheckAfterMisses c, cfg_IdleTimeout = com_IdleTimeout c\<rparr>"

text \<open>
  What the two programs do alike: flags, \<open>Finalize\<close>, codec, store.  \<open>flags\<close> is the
  parsing of the command line, \<open>now\<close> and \<open>http\<close> the clock and the HTTP client.
\<close>

definition start_common ::
  "environ \<Rightarrow> (Common \<Rightarrow> Common) \<Rightarrow> ('g \<Rightarrow> byte result \<times> 'g) \<Rightarrow> ('s \<Rightarrow> gotime) \<Rightarrow> 's http
     \<Rightarrow> ('s, 'g) TunnelConfig result" where
  "start_common env flags rand_byte now http =
     (case Finalize env True (flags (AddCommonFlags env zero_Common)) of
        (Some e, c) \<Rightarrow> Inl e
      | (None, c) \<Rightarrow>
          ebind (buildCodec rand_byte c) (\<lambda>cod.
          ebind (s3_New env (s3_config c)) (\<lambda>s3cfg.
            Inr (tunnel_config c (s3_store s3cfg now http) cod))))"

definition start_client ::
  "environ \<Rightarrow> (Common \<Rightarrow> Common) \<Rightarrow> ('g \<Rightarrow> byte result \<times> 'g) \<Rightarrow> ('s \<Rightarrow> gotime) \<Rightarrow> 's http
     \<Rightarrow> ('s, 'g) TunnelConfig result" where
  "start_client env flags rand_byte now http =
     ebind (start_common env flags rand_byte now http) (\<lambda>cfg. NewClient cfg True True)"

record server_flags =
  sf_allowTargets :: "string list"
  sf_denyTargets :: "string list"
  sf_allowPrivate :: bool
  sf_allowUnrestricted :: bool
  sf_maxSessions :: int
  sf_maxBytes :: int
  sf_connectTimeout :: int

text \<open>\<open>multiFlag.Set\<close>, and the defaults the server's own flags are registered with.\<close>

definition multiFlag_Set :: "string list \<Rightarrow> string \<Rightarrow> string list" where
  "multiFlag_Set m v = m @ [v]"

definition default_server_flags :: server_flags where
  "default_server_flags = \<lparr>sf_allowTargets = [], sf_denyTargets = [], sf_allowPrivate = False,
     sf_allowUnrestricted = False, sf_maxSessions = 32, sf_maxBytes = 2 ^ 30, sf_connectTimeout = 10 * second\<rparr>"

definition policy_config :: "server_flags \<Rightarrow> Config" where
  "policy_config sf = \<lparr>AllowPrivate = sf_allowPrivate sf, AllowUnrestricted = sf_allowUnrestricted sf,
     RequireAllowTarget = True, AllowTargets = sf_allowTargets sf, DenyTargets = sf_denyTargets sf\<rparr>"

definition start_server ::
  "environ \<Rightarrow> (Common \<Rightarrow> Common) \<Rightarrow> server_flags \<Rightarrow> ('g \<Rightarrow> byte result \<times> 'g) \<Rightarrow> ('s \<Rightarrow> gotime) \<Rightarrow> 's http
     \<Rightarrow> ('s, 'g) TunnelServer result" where
  "start_server env flags sf rand_byte now http =
     ebind (start_common env flags rand_byte now http) (\<lambda>cfg.
     ebind (New (policy_config sf)) (\<lambda>pol.
     ebind (NewServer cfg True True (Some pol)) (\<lambda>srv.
       Inr (srv\<lparr>srv_ConnectTimeout := sf_connectTimeout sf, srv_MaxSessions := sf_maxSessions sf,
                srv_MaxBytesPerSession := sf_maxBytes sf\<rparr>))))"

section \<open>What the assembled programs run with\<close>

lemma buildCodec_codec: "buildCodec rand_byte c = Inr cod \<Longrightarrow> codec cod"
  by (auto simp: buildCodec_def ebind_eq_Inr noop.codec_axioms psk.codec_axioms split: if_splits)

lemma start_common_Inr:
  "start_common env flags rand_byte now http = Inr cfg \<longleftrightarrow>
   (\<exists>c cod s3. Finalize env True (flags (AddCommonFlags env zero_Common)) = (None, c) \<and>
      buildCodec rand_byte c = Inr cod \<and> s3_New env (s3_config c) = Inr s3 \<and>
      cfg = tunnel_config c (s3_store s3 now http) cod)"
  by (auto simp: start_common_def ebind_eq_Inr split: prod.splits option.splits)

text \<open>\<open>Finalize\<close> leaves to the tunnel's own defaults a poll duration of zero and an idle timeout that is not positive.\<close>

lemma withDefaults_finalized:
  assumes "Finalize env rb c0 = (None, c)"
  shows "withDefaults (tunnel_config c store cod) =
    (tunnel_config c store cod)
      \<lparr>cfg_ActivePollDuration := (if com_ActivePollDuration c = 0 then 500 * millisecond else com_ActivePollDuration c),
       cfg_IdleTimeout := (if com_IdleTimeout c \<le> 0 then 120 * second else com_IdleTimeout c)\<rparr>"
proof -
  have v: "valid_common c" and n: "NormalizePrefix (com_Prefix c) = com_Prefix c"
    using Finalize_normal [OF assms] by (simp_all add: NormalizePrefix_def Let_def)
  from v n show ?thesis
    by (simp add: withDefaults_def tunnel_config_def valid_common_def)
      (simp add: default_chunk_def default_poll_min_def default_poll_max_def default_active_def Let_def
        MinChunkSize_def MaxChunkSize_def defaultActivePollDuration_def)
qed

section \<open>An example\<close>

definition start_env :: environ where
  "start_env = example_env(''S3S5_ACCESS_KEY_ID'' := ''id'', ''AWS_SECRET_ACCESS_KEY'' := ''secret'',
     ''S3S5_PROVIDER'' := ''YC'', ''S3S5_BUCKET'' := ''my.box'')"

definition started :: Common where
  "started = snd (Finalize start_env True (AddCommonFlags start_env zero_Common))"

lemma start_env_Finalize: "Finalize start_env True (AddCommonFlags start_env zero_Common) = (None, started)"
proof -
  have "fst (Finalize start_env True (AddCommonFlags start_env zero_Common)) = None"
    by code_simp
  then show ?thesis
    by (simp add: started_def prod_eq_iff)
qed

lemma start_common_example: "\<exists>cfg. start_common start_env (\<lambda>c. c) rand_byte now http = Inr cfg"
proof -
  have "\<not> isl (s3_New start_env (s3_config started))" "\<not> com_InsecureNoCrypto started" "16 \<le> length (com_PSK started)"
    by code_simp+
  then show ?thesis
    unfolding start_common_Inr start_env_Finalize
    by (cases "s3_New start_env (s3_config started)") (auto simp: buildCodec_def NewPSKCodec_def)
qed

definition example_flags :: server_flags where
  "example_flags = default_server_flags\<lparr>sf_allowTargets := multiFlag_Set [] ''*:443''\<rparr>"

lemma start_server_example: "\<exists>srv. start_server start_env (\<lambda>c. c) example_flags rand_byte now http = Inr srv"
proof -
  obtain r where r: "parseRule ''*:443'' = Inr r"
    using parseRule_any_443 by blast
  obtain pol where "New (policy_config example_flags) = Inr pol"
    by (simp add: New_def policy_config_def example_flags_def default_server_flags_def multiFlag_Set_def r)
  with start_common_example [of rand_byte now http] show ?thesis
    by (auto simp: start_server_def NewServer_def)
qed







end
