(* ===== verification/GoDuration.thy ===== *)
theory GoDuration
  imports GoTime
begin

text \<open>
  \<open>time.Duration.String\<close>, and that \<open>time.ParseDuration\<close> reads back what it writes,
  the fraction through \<open>float64\<close> included: its digits and the scale of the unit are
  numbers a double holds exactly.
\<close>

section \<open>Writing a duration\<close>

definition dur_frac :: "nat \<Rightarrow> nat \<Rightarrow> string" where
  "dur_frac p v =
     (let ds = trimRight (fixed_digits p v) ''0'' in if ds = [] then [] else CHR ''.'' # ds)"

definition micro_unit :: string where
  "micro_unit = [CHR 0xC2, CHR 0xB5] @ ''s''"

text \<open>The text of a positive number of nanoseconds: one unit below a second, else hours, minutes and seconds.\<close>

definition dur_body :: "nat \<Rightarrow> string" where
  "dur_body u =
     (if u < 10 ^ 3 then itoa u @ ''ns''
      else if u < 10 ^ 6 then itoa (u div 10 ^ 3) @ dur_frac 3 (u mod 10 ^ 3) @ micro_unit
      else if u < 10 ^ 9 then itoa (u div 10 ^ 6) @ dur_frac 6 (u mod 10 ^ 6) @ ''ms''
      else
        let s = u div 10 ^ 9; m = s div 60; h = m div 60
        in (if h > 0 then itoa h @ ''h'' else []) @ (if m > 0 then itoa (m mod 60) @ ''m'' else []) @
           itoa (s mod 60) @ dur_frac 9 (u mod 10 ^ 9) @ ''s'')"

definition Duration_String :: "int \<Rightarrow> string" where
  "Duration_String d =
     (if d = 0 then ''0s'' else (if d < 0 then ''-'' else []) @ dur_body (nat \<bar>d\<bar>))"

section \<open>Whole numbers as doubles\<close>

lemma fl_of_nat:
  assumes "n < 2 ^ 53"
  shows "fl (of_nat n) = of_nat n"
proof (cases "n = 0")
  case False
  let ?q = "of_nat n :: rat"
  have q: "0 < ?q" using False by simp
  note b = fl_scale_bounds [OF q]
  have "0 \<le> fl_scale ?q"
  proof (rule ccontr)
    assume "\<not> 0 \<le> fl_scale ?q"
    then have "(2 :: rat) powi fl_scale ?q \<le> 2 powi (- 1)"
      by (intro power_int_increasing) auto
    then have "?q * 2 powi fl_scale ?q \<le> ?q * (1 / 2)"
      using q by (intro mult_left_mono) (simp_all add: power_int_minus)
    moreover have "?q < 2 ^ 53"
      using assms of_nat_less_iff [where ?'a = rat, of n "2 ^ 53"] by simp
    ultimately show False
      using b by simp
  qed
  then obtain k where k: "fl_scale ?q = int k"
    by (metis nonneg_int_cases)
  have "?q * 2 powi int k = of_int (int n * 2 ^ k)"
    by simp
  then have "fl ?q = of_int (int n * 2 ^ k) / 2 powi int k"
    unfolding fl_scaled [OF q] k by (simp only: half_even_int)
  then show ?thesis by simp
qed (simp add: fl_def)

section \<open>Reading it back\<close>

abbreviation read_digits :: "nat \<Rightarrow> string \<Rightarrow> nat" where
  "read_digits \<equiv> foldl (\<lambda>n c. 10 * n + digit_val c)"

lemma read_digits_ge: "x \<le> read_digits x ds"
proof (induction ds arbitrary: x)
  case (Cons c ds)
  from Cons.IH [of "10 * x + digit_val c"] show ?case
    by simp
qed simp

lemma leadingInt_digits:
  assumes "\<And>c. c \<in> set ds \<Longrightarrow> is_digit c" and "read_digits x ds \<le> 2 ^ 63"
    and "t = [] \<or> \<not> is_digit (hd t)"
  shows "leadingInt x (ds @ t) = Some (read_digits x ds, t)"
  using assms
proof (induction ds arbitrary: x)
  case Nil
  then show ?case by (cases t) auto
next
  case (Cons c ds)
  have "10 * x + digit_val c \<le> 2 ^ 63"
    using read_digits_ge [of "10 * x + digit_val c" ds] Cons.prems(2) by simp
  moreover from this have "\<not> 2 ^ 63 div 10 < x" by simp
  ultimately show ?case
    using Cons by (simp add: Let_def)
qed

lemma leadingFraction_digits:
  assumes "\<And>c. c \<in> set ds \<Longrightarrow> is_digit c" and "read_digits x ds < 2 ^ 53"
    and "t = [] \<or> \<not> is_digit (hd t)"
  shows "leadingFraction x sc False (ds @ t) = (read_digits x ds, sc * 10 ^ length ds, t)"
  using assms
proof (induction ds arbitrary: x sc)
  case Nil
  then show ?case by (cases t) auto
next
  case (Cons c ds)
  have "10 * x + digit_val c < 2 ^ 53"
    using read_digits_ge [of "10 * x + digit_val c" ds] Cons.prems(2) by simp
  then show ?case
    using Cons by (simp add: Let_def)
qed

lemma read_digits_zeros: "read_digits x (replicate k (CHR ''0'')) = x * 10 ^ k"
  by (induction k arbitrary: x) (simp_all add: digit_val_def)

lemma fixed_digits_val: "v < 10 ^ p \<Longrightarrow> 0 < p \<Longrightarrow> read_digits 0 (fixed_digits p v) = v"
  unfolding zero_pad_itoa [symmetric] zero_pad_def digits_val_def [symmetric]
  by (simp add: digits_val_zeros)

lemma trimRight_zeros: "\<exists>k. s = trimRight s ''0'' @ replicate k (CHR ''0'')"
proof -
  obtain u where u: "s = trimRight s ''0'' @ u"
    using trimRight_prefix by blast
  have "set (takeWhile (\<lambda>c. c \<in> set ''0'') (rev s)) \<subseteq> {CHR ''0''}"
    by (auto dest: set_takeWhileD)
  moreover have "rev s = takeWhile (\<lambda>c. c \<in> set ''0'') (rev s) @ dropWhile (\<lambda>c. c \<in> set ''0'') (rev s)"
    by simp
  then have "s = trimRight s ''0'' @ rev (takeWhile (\<lambda>c. c \<in> set ''0'') (rev s))"
    unfolding trimRight_def by (metis rev_append rev_rev_ident)
  ultimately show ?thesis
    by (metis replicate_length_same set_rev singletonD subsetD)
qed

lemma fixed_digits_digit: "c \<in> set (fixed_digits p v) \<Longrightarrow> is_digit c"
  by (induction p arbitrary: v) auto

text \<open>The fraction: its digits, and what they stand for at scale \<open>10 ^ p\<close>.\<close>

lemma dur_frac_cases:
  assumes "v < 10 ^ p"
  obtains (none) "dur_frac p v = []" "v = 0"
  | (some) ds k where "dur_frac p v = CHR ''.'' # ds" "\<And>c. c \<in> set ds \<Longrightarrow> is_digit c"
      "length ds + k = p" "read_digits 0 ds * 10 ^ k = v"
proof (cases "p = 0")
  case True
  then show ?thesis
    using assms by (intro none) (simp_all add: dur_frac_def trimRight_def)
next
  case False
  let ?ds = "trimRight (fixed_digits p v) ''0''"
  obtain k where k: "fixed_digits p v = ?ds @ replicate k (CHR ''0'')"
    using trimRight_zeros by blast
  have "length ?ds + k = p"
    using arg_cong [OF k, of length] by simp
  moreover have "read_digits 0 ?ds * 10 ^ k = v"
    using arg_cong [OF k, of "read_digits 0"] False assms by (simp add: fixed_digits_val read_digits_zeros)
  moreover have "is_digit c" if "c \<in> set ?ds" for c
    using that k fixed_digits_digit [of c p v] by (metis Un_iff set_append)
  ultimately show ?thesis
    using none some [of ?ds k] by (cases "?ds = []") (auto simp: dur_frac_def Let_def)
qed

lemma unit_text:
  assumes "uc \<noteq> []" and "\<And>c. c \<in> set uc \<Longrightarrow> unit_char c" and "rest = [] \<or> is_digit (hd rest)"
  shows "takeWhile unit_char (uc @ rest) = uc" and "hd (uc @ rest) \<noteq> CHR ''.''" and "\<not> is_digit (hd (uc @ rest))"
proof -
  have "takeWhile unit_char rest = []"
    using assms(3) by (cases rest) (auto simp: unit_char_def)
  then show "takeWhile unit_char (uc @ rest) = uc"
    using assms(2) by (simp add: takeWhile_append2)
  show "hd (uc @ rest) \<noteq> CHR ''.''" "\<not> is_digit (hd (uc @ rest))"
    using assms(1) assms(2) [of "hd uc"] by (auto simp: unit_char_def hd_append)
qed

lemma duration_part_read:
  assumes "v < 10 ^ p" and "duration_unit uc = Some un" and "un = m * 10 ^ p" and "0 < un" and "un < 2 ^ 53"
    and "n * un + v * m \<le> 2 ^ 63" and "uc \<noteq> []" and "\<And>c. c \<in> set uc \<Longrightarrow> unit_char c"
    and "rest = [] \<or> is_digit (hd rest)"
  shows "duration_part (itoa n @ dur_frac p v @ uc @ rest) = Some (n * un + v * m, rest)"
proof -
  note u = unit_text [OF assms(7,8,9)]
  have vn: "read_digits 0 (itoa n) = n"
    using digits_val_itoa [of n] by (simp add: digits_val_def)
  have "n \<le> n * un"
    using assms(4) by simp
  then have n: "n \<le> 2 ^ 63" "\<not> 2 ^ 63 div un < n"
    using assms(4,6) by (linarith, simp add: not_less less_eq_div_iff_mult_less_eq)
  have first: "itoa n @ t \<noteq> []" "is_digit (hd (itoa n @ t))" for t
    using itoa_nonempty [of n] itoa_digits [of "hd (itoa n)" n] by (simp_all add: hd_append)
  from assms(1) show ?thesis
  proof (cases rule: dur_frac_cases)
    case none
    have "leadingInt 0 (itoa n @ uc @ rest) = Some (n, uc @ rest)"
      using leadingInt_digits [of "itoa n" 0 "uc @ rest"] itoa_digits vn n(1) u(3) by simp
    then show ?thesis
      using none first [of "uc @ rest"] n(2) assms(2,6,7) u(1,2) by (simp add: duration_part_def)
  next
    case (some ds k)
    have i: "leadingInt 0 (itoa n @ (CHR ''.'' # ds @ uc @ rest)) = Some (n, CHR ''.'' # ds @ uc @ rest)"
      using leadingInt_digits [of "itoa n" 0 "CHR ''.'' # ds @ uc @ rest"] itoa_digits vn n(1)
      by (simp add: is_digit_def)
    let ?f = "read_digits 0 ds"
    have un: "un = m * 10 ^ k * 10 ^ length ds"
      using assms(3) some(3) by (metis add.commute mult.assoc power_add)
    have vm: "?f * (m * 10 ^ k) = v * m"
      using some(4) by (metis mult.assoc mult.commute)
    have "v * m < un"
      using assms(1,3,4) by (simp add: mult.commute)
    then have lt: "v * m < 2 ^ 53"
      using assms(5) by linarith
    have "m * 10 ^ k \<le> un" "?f \<le> v"
      using un some(4) by (simp_all flip: some(4))
    moreover have "v < 2 ^ 53"
      using assms(1,3,4,5) by (cases m) auto
    ultimately have small: "m * 10 ^ k < 2 ^ 53" "?f < 2 ^ 53"
      using assms(5) by linarith+
    have fr: "leadingFraction 0 1 False (ds @ uc @ rest) = (?f, 10 ^ length ds, uc @ rest)"
      using leadingFraction_digits [of ds 0 "uc @ rest" 1] some(2) small(2) u(3) by simp
    have "of_nat un / of_nat (10 ^ length ds) = (of_nat (m * 10 ^ k) :: rat)"
      by (simp add: un)
    then have "fl (of_nat un / of_nat (10 ^ length ds)) = (of_nat (m * 10 ^ k) :: rat)"
      using fl_of_nat [OF small(1)] by simp
    then have "fl (fl (of_nat ?f) * fl (of_nat un / of_nat (10 ^ length ds))) = of_nat (v * m)"
      using fl_of_nat [OF small(2)] fl_of_nat [OF lt] vm by (simp only: flip: of_nat_mult)
    then have w: "(if ?f > 0 then nat \<lfloor>fl (fl (of_nat ?f) * fl (of_nat un / of_nat (10 ^ length ds)))\<rfloor> else 0) = v * m"
      using vm by (simp only: floor_of_nat nat_int) auto
    show ?thesis
      using some(1) first [of "CHR ''.'' # ds @ uc @ rest"] n(2) assms(2,6,7) u(1) w
      by (simp add: duration_part_def i fr [unfolded One_nat_def])
  qed
qed

lemma unit_chars:
  "\<forall>c \<in> set ''ns''. unit_char c" "\<forall>c \<in> set micro_unit. unit_char c" "\<forall>c \<in> set ''ms''. unit_char c"
  "unit_char (CHR ''s'')" "unit_char (CHR ''m'')" "unit_char (CHR ''h'')"
  by code_simp+

lemma unit_values:
  "duration_unit ''ns'' = Some 1" "duration_unit micro_unit = Some (10 ^ 3)" "duration_unit ''ms'' = Some (10 ^ 6)"
  "duration_unit ''s'' = Some (10 ^ 9)" "duration_unit ''m'' = Some (60 * 10 ^ 9)" "duration_unit ''h'' = Some (3600 * 10 ^ 9)"
  by (simp_all add: duration_unit_def micro_unit_def)

lemma dur_frac_none: "dur_frac 0 0 = []"
  by (simp add: dur_frac_def trimRight_def)

lemma duration_parts_step:
  "duration_part s = Some (w, r) \<Longrightarrow> s \<noteq> [] \<Longrightarrow> d + w \<le> 2 ^ 63 \<Longrightarrow> duration_parts d s = duration_parts (d + w) r"
  by (subst duration_parts.simps) simp

lemma duration_parts_whole:
  assumes "duration_unit [c] = Some un" and "0 < un" and "un < 2 ^ 53" and "unit_char c" and "d + n * un \<le> 2 ^ 63"
    and "rest = [] \<or> is_digit (hd rest)"
  shows "duration_parts d (itoa n @ [c] @ rest) = duration_parts (d + n * un) rest"
proof (rule duration_parts_step)
  show "duration_part (itoa n @ [c] @ rest) = Some (n * un, rest)"
    using duration_part_read [of 0 0 "[c]" un un n rest] assms by (simp add: dur_frac_none)
qed (use assms(5) in simp_all)

lemma duration_parts_last:
  assumes "v < 10 ^ p" and "duration_unit uc = Some (10 ^ p)" and "p \<le> 9" and "d + (n * 10 ^ p + v) \<le> 2 ^ 63"
    and "uc \<noteq> []" and "\<forall>c \<in> set uc. unit_char c"
  shows "duration_parts d (itoa n @ dur_frac p v @ uc) = Some (d + (n * 10 ^ p + v))"
proof -
  have "(10 :: nat) ^ p \<le> 10 ^ 9"
    using assms(3) by (intro power_increasing) auto
  then have "(10 :: nat) ^ p < 2 ^ 53"
    by simp
  then have "duration_part (itoa n @ dur_frac p v @ uc) = Some (n * 10 ^ p + v, [])"
    using duration_part_read [of v p uc "10 ^ p" 1 n "[]"] assms by simp
  from duration_parts_step [OF this _ assms(4)] show ?thesis
    by (simp add: duration_parts.simps [of _ "[]"])
qed

lemma duration_parts_body:
  assumes "0 < u" and "u \<le> 2 ^ 63"
  shows "duration_parts 0 (dur_body u) = Some u"
proof -
  have last: "duration_parts d (itoa (u div 10 ^ p) @ dur_frac p (u mod 10 ^ p) @ uc) = Some (d + u)"
    if "duration_unit uc = Some (10 ^ p)" "p \<le> 9" "d = 0" "uc \<noteq> []" "\<forall>c \<in> set uc. unit_char c" for d p uc
    using duration_parts_last [of "u mod 10 ^ p" p uc d "u div 10 ^ p"] that assms(2)
    unfolding div_mult_mod_eq by simp
  consider "u < 10 ^ 3" | "10 ^ 3 \<le> u" "u < 10 ^ 6" | "10 ^ 6 \<le> u" "u < 10 ^ 9" | "10 ^ 9 \<le> u"
    by linarith
  then show ?thesis
  proof cases
    case 1
    then show ?thesis
      using last [of "''ns''" 0 0] by (simp add: dur_body_def unit_values unit_chars dur_frac_none)
  next
    case 2
    then show ?thesis
      using last [of micro_unit 3 0] unit_values(2) unit_chars(2) by (simp add: dur_body_def micro_unit_def)
  next
    case 3
    then show ?thesis
      using last [of "''ms''" 6 0] unit_values(3) unit_chars(3) by (simp add: dur_body_def)
  next
    case 4
    define s m h where "s = u div 10 ^ 9" and "m = s div 60" and "h = m div 60"
    let ?v = "u mod 10 ^ 9"
    have "u = s * 10 ^ 9 + ?v" "s = m * 60 + s mod 60" "m = h * 60 + m mod 60"
      by (simp_all add: s_def m_def h_def)
    then have "u = ((h * 60 + m mod 60) * 60 + s mod 60) * 10 ^ 9 + ?v"
      by metis
    then have eq: "h * (3600 * 10 ^ 9) + (m mod 60) * (60 * 10 ^ 9) + ((s mod 60) * 10 ^ 9 + ?v) = u"
      by (simp add: algebra_simps)
    let ?sec = "itoa (s mod 60) @ dur_frac 9 ?v @ ''s''"
    let ?min = "itoa (m mod 60) @ ''m'' @ ?sec"
    have body: "dur_body u = (if h > 0 then itoa h @ ''h'' else []) @ (if m > 0 then itoa (m mod 60) @ ''m'' else []) @ ?sec"
      using 4 by (simp add: dur_body_def Let_def s_def m_def h_def)
    have dig: "is_digit (hd (itoa n @ t))" for n t
      using itoa_nonempty [of n] itoa_digits [of "hd (itoa n)" n] by (simp add: hd_append)
    have sec: "duration_parts d ?sec = Some (d + ((s mod 60) * 10 ^ 9 + ?v))"
      if "d + ((s mod 60) * 10 ^ 9 + ?v) \<le> 2 ^ 63" for d
      using duration_parts_last [of ?v 9 "''s''" d "s mod 60"] that by (simp add: unit_values unit_chars)
    have min: "duration_parts d ?min = Some (d + (m mod 60) * (60 * 10 ^ 9) + ((s mod 60) * 10 ^ 9 + ?v))"
      if "d + (m mod 60) * (60 * 10 ^ 9) + ((s mod 60) * 10 ^ 9 + ?v) \<le> 2 ^ 63" for d
      using duration_parts_whole [OF unit_values(5) _ _ unit_chars(5), of d "m mod 60" ?sec] dig that
        sec [OF that] by simp
    have hour: "duration_parts 0 (itoa h @ ''h'' @ ?min) = Some u"
      using duration_parts_whole [OF unit_values(6) _ _ unit_chars(6), of 0 h ?min] dig
        min [of "h * (3600 * 10 ^ 9)"] eq assms(2) by simp
    show ?thesis
    proof (cases "h > 0")
      case True
      then have "m > 0" by (simp add: h_def)
      with True hour show ?thesis by (simp add: body)
    next
      case False
      then have "h = 0" by simp
      show ?thesis
      proof (cases "m > 0")
        case True
        with \<open>h = 0\<close> min [of 0] eq assms(2) show ?thesis by (simp add: body)
      next
        case False
        with \<open>h = 0\<close> sec [of 0] eq assms(2) show ?thesis by (simp add: body)
      qed
    qed
  qed
qed

lemma dur_body_start: "dur_body u \<noteq> [] \<and> is_digit (hd (dur_body u)) \<and> 1 < length (dur_body u)"
proof -
  have "is_digit (hd (itoa n @ t))" "itoa n @ t \<noteq> []" "0 < length (itoa n)" for n t
    using itoa_nonempty [of n] itoa_digits [of "hd (itoa n)" n] by (simp_all add: hd_append)
  then show ?thesis
    by (auto simp: dur_body_def Let_def micro_unit_def simp del: itoa_nonempty)
qed

lemma ParseDuration_String:
  assumes "- (2 ^ 63) \<le> d" and "d < 2 ^ 63"
  shows "ParseDuration (Duration_String d) = Some d"
proof (cases "d = 0")
  case True
  have "fixed_digits 9 0 = replicate 9 (CHR ''0'')"
    by (rule fixed_digits_0)
  then have "dur_frac 9 0 = []"
    by (simp add: dur_frac_def trimRight_def)
  moreover have "itoa 0 = ''0''"
    by code_simp
  ultimately have "duration_parts 0 ''0s'' = Some 0"
    using duration_parts_last [of 0 9 "''s''" 0 0] by (simp add: unit_values unit_chars)
  then have "ParseDuration ''0s'' = Some 0"
    by (simp add: ParseDuration_def hasPrefix_def)
  with True show ?thesis by (simp add: Duration_String_def)
next
  case False
  let ?u = "nat \<bar>d\<bar>" and ?b = "dur_body (nat \<bar>d\<bar>)"
  have parts: "duration_parts 0 ?b = Some ?u"
    using False assms by (intro duration_parts_body) auto
  have b: "\<not> hasPrefix ?b ''-''" "\<not> hasPrefix ?b ''+''" "?b \<noteq> []" "?b \<noteq> ''0''"
    using dur_body_start [of ?u] by (auto simp: hasPrefix_iff is_digit_def less_eq_char_def)
  show ?thesis
    using False b parts assms by (auto simp: Duration_String_def ParseDuration_def Let_def hasPrefix_def)
qed

end
