(* ===== verification/Mains.thy ===== *)
theory Mains
  imports Doctor Programs GoDuration
begin

text \<open>
  The \<open>main\<close> functions of \<open>cmd/s3s5-doctor/main.go\<close>, \<open>cmd/s3s5-client/main.go\<close> and
  \<open>cmd/s3s5-server/main.go\<close>, around the checks of the theory Doctor and the assembled
  programs of the theory Programs.  What \<open>flag\<close> makes of the command line is a
  parameter: the values after parsing, or the status it exits with.  A program returns
  its status and what it printed on its two outputs.

  The lemmas show what the status of the doctor says, that the JSON it prints reads
  back, and when client and server exit with an error.
\<close>

section \<open>Output\<close>

record printed =
  ou_Status :: nat
  ou_Out :: string
  ou_Err :: string

definition out_line :: "string \<Rightarrow> string" where
  "out_line s = s @ [CHR 0x0A]"

definition exit_fatal :: "string \<Rightarrow> err \<Rightarrow> printed" where
  "exit_fatal program e = \<lparr>ou_Status = 1, ou_Out = [], ou_Err = out_line (program @ '': '' @ err_text e)\<rparr>"

definition exit_version :: "string \<Rightarrow> Info \<Rightarrow> printed" where
  "exit_version program info =
     \<lparr>ou_Status = 0, ou_Out = out_line (program @ '' '' @ version_String info), ou_Err = []\<rparr>"

definition exit_status :: "nat \<Rightarrow> printed" where
  "exit_status st = \<lparr>ou_Status = st, ou_Out = [], ou_Err = []\<rparr>"

definition insecure_warning :: "Common \<Rightarrow> string" where
  "insecure_warning c =
     (if com_InsecureNoCrypto c
      then out_line ''WARNING: --insecure-no-crypto disables payload encryption; use only for local development'' else [])"

text \<open>What went to the error output before.\<close>

definition warned_first :: "string \<Rightarrow> printed \<Rightarrow> printed" where
  "warned_first text out = out\<lparr>ou_Err := text @ ou_Err out\<rparr>"

section \<open>The doctor\<close>

record doctor_flags =
  do_Cleanup :: bool
  do_CleanupPrefix :: bool
  do_Rounds :: int
  do_JSON :: bool
  do_Version :: bool

definition default_doctor_flags :: doctor_flags where
  "default_doctor_flags =
     \<lparr>do_Cleanup = True, do_CleanupPrefix = False, do_Rounds = 3, do_JSON = False, do_Version = False\<rparr>"

definition json_report :: "report \<Rightarrow> json" where
  "json_report r = JObj
     ([(''provider'', JStr (rep_Provider r)), (''bucket'', JStr (rep_Bucket r)), (''prefix'', JStr (rep_Prefix r)),
       (''region'', JStr (rep_Region r))] @ omitempty ''endpoint'' (rep_Endpoint r) @
      [(''crypto'', JStr (rep_Crypto r)), (''latency'', json_int (rep_Latency r)), (''rounds'', json_int (rep_Rounds r)),
       (''put_ok'', JBool (rep_PutOK r)), (''head_ok'', JBool (rep_HeadOK r)), (''get_ok'', JBool (rep_GetOK r)),
       (''list_ok'', JBool (rep_ListOK r)), (''delete_ok'', JBool (rep_DeleteOK r))] @
      omitempty ''error'' (rep_Error r))"

definition report_output :: "bool \<Rightarrow> report \<Rightarrow> printed" where
  "report_output json r =
     \<lparr>ou_Status = (if rep_Error r \<noteq> [] then 1 else 0),
      ou_Out =
        (if json then out_line (enc_w indent '' '' 0 (json_report r))
         else if rep_Error r \<noteq> [] then out_line (''doctor failed: '' @ rep_Error r)
         else out_line (''doctor ok: bucket='' @ rep_Bucket r @ '' prefix='' @ rep_Prefix r @ '' crypto='' @ rep_Crypto r @
           '' avg_latency='' @ Duration_String (rep_Latency r) @ '' rounds='' @ itoa_int (rep_Rounds r))),
      ou_Err = []\<rparr>"

definition cleanup_output :: "bool \<Rightarrow> string \<Rightarrow> nat \<Rightarrow> printed" where
  "cleanup_output json pfx deleted =
     \<lparr>ou_Status = 0,
      ou_Out =
        (if json then out_line (enc (JObj [(''deleted'', json_int (int deleted)), (''prefix'', JStr (NormalizePrefix pfx))]))
         else out_line (''deleted '' @ itoa deleted @ '' objects under prefix '' @ NormalizePrefix pfx)),
      ou_Err = []\<rparr>"

text \<open>From the store and the codec on; \<open>None\<close> stands for a removal that has not ended with the list calls allowed.\<close>

definition doctor_work ::
  "nat \<Rightarrow> doctor_flags \<Rightarrow> Common \<Rightarrow> 'g Codec \<Rightarrow> 's ObjectStore \<Rightarrow> bytes result \<Rightarrow> (nat \<Rightarrow> int) \<Rightarrow> 'g \<Rightarrow> 's
     \<Rightarrow> (printed \<times> 's) option" where
  "doctor_work fuel f c C S rnd elapsed g s =
     (if do_CleanupPrefix f then
        (case doctor_cleanup_prefix fuel c S s of
           None \<Rightarrow> None
         | Some ((deleted, Some e), s') \<Rightarrow> Some (exit_fatal ''s3s5-doctor'' e, s')
         | Some ((deleted, None), s') \<Rightarrow> Some (cleanup_output (do_JSON f) (com_Prefix c) deleted, s'))
      else
        (case runDoctor None c C S (do_Cleanup f) (do_Rounds f) rnd elapsed g s of
           (rep, _, s') \<Rightarrow> Some (report_output (do_JSON f) rep, s')))"

definition doctor_main ::
  "environ \<Rightarrow> (Common \<times> doctor_flags \<Rightarrow> nat + Common \<times> doctor_flags) \<Rightarrow> Info \<Rightarrow> ('g \<Rightarrow> byte result \<times> 'g)
     \<Rightarrow> ('s \<Rightarrow> gotime) \<Rightarrow> 's http \<Rightarrow> nat \<Rightarrow> bytes result \<Rightarrow> (nat \<Rightarrow> int) \<Rightarrow> 'g \<Rightarrow> 's \<Rightarrow> (printed \<times> 's) option" where
  "doctor_main env parse info rand_byte now http fuel rnd elapsed g s =
     (case parse (AddCommonFlags env zero_Common, default_doctor_flags) of
        Inl status \<Rightarrow> Some (exit_status status, s)
      | Inr (c0, f) \<Rightarrow>
          if do_Version f
          then Some (exit_version ''s3s5-doctor'' info, s)
          else (case Finalize env True c0 of
            (Some e, c) \<Rightarrow> Some (exit_fatal ''s3s5-doctor'' e, s)
          | (None, c) \<Rightarrow>
              (let warned = warned_first (insecure_warning c)
               in case buildCodec rand_byte c of
                 Inl e \<Rightarrow> Some (warned (exit_fatal ''s3s5-doctor'' e), s)
               | Inr cod \<Rightarrow>
                   (case s3_New env (s3_config c) of
                      Inl e \<Rightarrow> Some (warned (exit_fatal ''s3s5-doctor'' e), s)
                    | Inr s3cfg \<Rightarrow>
                        map_option (\<lambda>(out, s'). (warned out, s'))
                          (doctor_work fuel f c cod (s3_store s3cfg now http) rnd elapsed g s)))))"

section \<open>What the status says\<close>

text \<open>
  A run of the checks exits with 0 exactly when its report has no error; with the flag
  for JSON, what it printed parses as the report, its texts made valid UTF-8.
\<close>

lemma wf_json_report: "wf_json (json_report r)"
  by (simp add: json_report_def omitempty_def)

theorem doctor_status:
  assumes "\<not> do_CleanupPrefix f"
  shows "\<exists>rep g' s'. runDoctor None c C S (do_Cleanup f) (do_Rounds f) rnd elapsed g s = (rep, g', s') \<and>
    (\<exists>out. doctor_work fuel f c C S rnd elapsed g s = Some (out, s') \<and>
       (ou_Status out = 0 \<longleftrightarrow> rep_Error rep = []) \<and>
       (do_JSON f \<longrightarrow> parse_json (ou_Out out) = Some (Json.norm (json_report rep))))"
proof -
  obtain rep g' s' where run: "runDoctor None c C S (do_Cleanup f) (do_Rounds f) rnd elapsed g s = (rep, g', s')"
    by (metis prod_cases3)
  let ?t = "enc_w indent '' '' 0 (json_report rep)"
  have "p_value (Suc (2 * length (?t @ [CHR 0x0A]))) (?t @ [CHR 0x0A]) = Some (Json.norm (json_report rep), [CHR 0x0A])"
    by (rule p_value_enc_w [OF spaces_indent wf_json_report])
      (simp_all add: stop_def num_char_def is_digit_def less_eq_char_def)
  then have "parse_json (out_line ?t) = Some (Json.norm (json_report rep))"
    by (simp add: parse_json_def out_line_def skip_def json_space_def del: p_value.simps)
  then show ?thesis
    using assms by (simp add: run doctor_work_def report_output_def)
qed

section \<open>Client and server\<close>

text \<open>
  \<open>listen\<close> is the error of \<open>net.Listen\<close> on an address; \<open>serve\<close> is the run of the assembled
  program: the error it ends with, the error of the context by then, and the text of
  the statistics.  An interrupt ends the context.
\<close>

definition run_program :: "string \<Rightarrow> string \<Rightarrow> err option \<times> ctx \<times> string \<Rightarrow> printed" where
  "run_program program announce ended =
     (case ended of (e, ctx, stats) \<Rightarrow>
        warned_first (out_line announce)
          (case e of
             Some x \<Rightarrow> if ctx = None then exit_fatal program x
                       else \<lparr>ou_Status = 0, ou_Out = [], ou_Err = out_line (program @ '' stats: '' @ stats)\<rparr>
           | None \<Rightarrow> \<lparr>ou_Status = 0, ou_Out = [], ou_Err = out_line (program @ '' stats: '' @ stats)\<rparr>))"

text \<open>The warning is printed once \<open>Finalize\<close> has accepted the configuration.\<close>

definition start_warning :: "environ \<Rightarrow> Common \<Rightarrow> string" where
  "start_warning env c0 = (case Finalize env True c0 of (None, c) \<Rightarrow> insecure_warning c | (Some e, c) \<Rightarrow> [])"

definition client_main ::
  "environ \<Rightarrow> (Common \<times> string \<times> bool \<Rightarrow> nat + Common \<times> string \<times> bool) \<Rightarrow> Info \<Rightarrow> ('g \<Rightarrow> byte result \<times> 'g)
     \<Rightarrow> ('s \<Rightarrow> gotime) \<Rightarrow> 's http \<Rightarrow> (string \<Rightarrow> err option) \<Rightarrow> (('s, 'g) TunnelConfig \<Rightarrow> err option \<times> ctx \<times> string)
     \<Rightarrow> printed" where
  "client_main env parse info rand_byte now http listen serve =
     (case parse (AddCommonFlags env zero_Common, ''127.0.0.1:1080'', False) of
        Inl status \<Rightarrow> exit_status status
      | Inr (c0, addr, showVersion) \<Rightarrow>
          if showVersion then exit_version ''s3s5-client'' info
          else warned_first (start_warning env c0)
            (case start_client env (\<lambda>_. c0) rand_byte now http of
               Inl e \<Rightarrow> exit_fatal ''s3s5-client'' e
             | Inr cfg \<Rightarrow>
                 (case listen addr of
                    Some e \<Rightarrow> exit_fatal ''s3s5-client'' e
                  | None \<Rightarrow> run_program ''s3s5-client'' (''s3s5-client listening on '' @ addr) (serve cfg))))"

definition server_main ::
  "environ \<Rightarrow> (Common \<times> server_flags \<times> bool \<Rightarrow> nat + Common \<times> server_flags \<times> bool) \<Rightarrow> Info
     \<Rightarrow> ('g \<Rightarrow> byte result \<times> 'g) \<Rightarrow> ('s \<Rightarrow> gotime) \<Rightarrow> 's http
     \<Rightarrow> (('s, 'g) TunnelServer \<Rightarrow> err option \<times> ctx \<times> string) \<Rightarrow> printed" where
  "server_main env parse info rand_byte now http serve =
     (case parse (AddCommonFlags env zero_Common, default_server_flags, False) of
        Inl status \<Rightarrow> exit_status status
      | Inr (c0, sf, showVersion) \<Rightarrow>
          if showVersion then exit_version ''s3s5-server'' info
          else warned_first (start_warning env c0)
            (case start_server env (\<lambda>_. c0) sf rand_byte now http of
               Inl e \<Rightarrow> exit_fatal ''s3s5-server'' e
             | Inr srv \<Rightarrow>
                 run_program ''s3s5-server''
                   (''s3s5-server polling bucket='' @ com_Bucket (snd (Finalize env True c0)) @ '' prefix='' @ cfg_Prefix (srv_cfg srv))
                   (serve srv)))"

text \<open>
  A server that was not started with \<open>--version\<close> or stopped by \<open>flag\<close> exits with 0 only
  when it ran, and then under a policy without private addresses unless
  \<open>--allow-private\<close> was given: a policy that does not stand ends the program before it
  polls for a request.
\<close>

theorem server_runs_only_with_policy:
  assumes "parse (AddCommonFlags env zero_Common, default_server_flags, False) = Inr (c0, sf, False)"
    and "ou_Status (server_main env parse info rand_byte now http serve) = 0"
  shows "\<exists>srv pol. start_server env (\<lambda>_. c0) sf rand_byte now http = Inr srv \<and>
    srv_Policy srv = Some pol \<and> New (policy_config sf) = Inr pol \<and>
    (fst (serve srv) = None \<or> fst (snd (serve srv)) \<noteq> None)"
proof -
  obtain srv where srv: "start_server env (\<lambda>_. c0) sf rand_byte now http = Inr srv"
    using assms by (cases "start_server env (\<lambda>_. c0) sf rand_byte now http")
      (simp_all add: server_main_def warned_first_def exit_fatal_def)
  then have "fst (serve srv) = None \<or> fst (snd (serve srv)) \<noteq> None"
    using assms by (auto simp: server_main_def run_program_def warned_first_def exit_fatal_def split: prod.splits option.splits if_splits)
  moreover obtain pol where "srv_Policy srv = Some pol" "New (policy_config sf) = Inr pol"
    using srv by (auto simp: start_server_def NewServer_def ebind_eq_Inr)
  ultimately show ?thesis
    using srv by blast
qed

end
