(* ===== verification/Perf.thy ===== *)
theory Perf
  imports Summary GoDuration Programs DelayStore
begin

text \<open>
  \<open>internal/perf/perf.go\<close>, the harness that measures the tunnel: its configuration, the
  choice of scenarios and of the store they run over, the figures derived from the
  counters of a run, the result of a run and its validation.  The running of a scenario
  is in the theory PerfRun.

  The lemmas show that a normalised configuration is usable and that normalising is
  idempotent, that the operation counts of a report are the numbers of calls that were
  made, that the durations of a report read back, and which runs validate.
\<close>

section \<open>Configuration\<close>

definition ProfileMemory :: string where "ProfileMemory = ''memory''"
definition ProfileSimulatedS3 :: string where "ProfileSimulatedS3 = ''simulated-s3''"
definition ProfileRealS3 :: string where "ProfileRealS3 = ''real-s3''"

text \<open>The store factory is a parameter of \<open>scenarioStore\<close>.\<close>

record perf_Config =
  pc_Profile :: string
  pc_Provider :: string
  pc_ChunkSize :: int
  pc_FlushDelay :: int
  pc_PollMin :: int
  pc_PollMax :: int
  pc_ActivePollDuration :: int
  pc_WindowChunks :: u64
  pc_CloseCheckAfterMisses :: int
  pc_IdleTimeout :: int
  pc_ShortConnections :: int
  pc_IdleSessions :: int
  pc_IdleDuration :: int
  pc_ChattyDuration :: int
  pc_ChattyInterval :: int
  pc_PrefixBase :: string
  pc_Delay :: DelayProfile
  pc_ScenarioNames :: "string list"
  pc_GitCommit :: string
  pc_DirtyWorktree :: bool

definition no_delay :: DelayProfile where
  "no_delay = \<lparr>PutDelay = 0, GetDelay = 0, HeadDelay = 0, ListDelay = 0, DeleteDelay = 0, Jitter = 0, Seed = 0\<rparr>"

definition DefaultConfig :: "string \<Rightarrow> perf_Config" where
  "DefaultConfig profile =
     (let cfg = \<lparr>pc_Profile = profile, pc_Provider = profile, pc_ChunkSize = 64 * 1024,
        pc_FlushDelay = 10 * millisecond, pc_PollMin = millisecond, pc_PollMax = 20 * millisecond,
        pc_ActivePollDuration = 500 * millisecond, pc_WindowChunks = 16, pc_CloseCheckAfterMisses = 4,
        pc_IdleTimeout = 30 * second, pc_ShortConnections = 20, pc_IdleSessions = 20,
        pc_IdleDuration = 10 * second, pc_ChattyDuration = 10 * second, pc_ChattyInterval = 5 * millisecond,
        pc_PrefixBase = ''perf'', pc_Delay = no_delay, pc_ScenarioNames = [], pc_GitCommit = [],
        pc_DirtyWorktree = False\<rparr>
      in if profile = ProfileSimulatedS3 then
           cfg\<lparr>pc_Delay := \<lparr>PutDelay = 100 * millisecond, GetDelay = 100 * millisecond,
                 HeadDelay = 100 * millisecond, ListDelay = 120 * millisecond, DeleteDelay = 100 * millisecond,
                 Jitter = 10 * millisecond, Seed = 1\<rparr>,
               pc_PollMin := 5 * millisecond, pc_PollMax := 25 * millisecond\<rparr>
         else cfg)"

text \<open>The two defaults \<open>normalizeConfig\<close> applies field by field, for values that must be positive.\<close>

definition positive_or :: "int \<Rightarrow> int \<Rightarrow> int" where
  "positive_or d x = (if x \<le> 0 then d else x)"

definition normalizeConfig :: "perf_Config \<Rightarrow> perf_Config" where
  "normalizeConfig cfg =
     (let profile = or_default (pc_Profile cfg) ProfileMemory;
          pollMin = positive_or millisecond (pc_PollMin cfg);
          pollMax = positive_or (20 * millisecond) (pc_PollMax cfg)
      in cfg\<lparr>pc_Profile := profile,
             pc_Provider := or_default (pc_Provider cfg) profile,
             pc_ChunkSize := positive_or (64 * 1024) (pc_ChunkSize cfg),
             pc_FlushDelay := (if pc_FlushDelay cfg < 0 then 0 else pc_FlushDelay cfg),
             pc_PollMin := pollMin,
             pc_PollMax := (if pollMax < pollMin then pollMin else pollMax),
             pc_WindowChunks := (if pc_WindowChunks cfg = 0 then 16 else pc_WindowChunks cfg),
             pc_ActivePollDuration := (if pc_ActivePollDuration cfg < 0 then 0 else pc_ActivePollDuration cfg),
             pc_CloseCheckAfterMisses := positive_or 4 (pc_CloseCheckAfterMisses cfg),
             pc_IdleTimeout := positive_or (30 * second) (pc_IdleTimeout cfg),
             pc_ShortConnections := positive_or 20 (pc_ShortConnections cfg),
             pc_IdleSessions := positive_or 20 (pc_IdleSessions cfg),
             pc_IdleDuration := positive_or (10 * second) (pc_IdleDuration cfg),
             pc_ChattyDuration := positive_or (10 * second) (pc_ChattyDuration cfg),
             pc_ChattyInterval := positive_or (5 * millisecond) (pc_ChattyInterval cfg),
             pc_PrefixBase := or_default (pc_PrefixBase cfg) ''perf''\<rparr>)"

text \<open>
  \<open>mergeProfileDefaults\<close> of \<open>cmd/s3s5-perf/main.go\<close>: the delays of the profile where the
  command line set none.
\<close>

definition mergeProfileDefaults :: "perf_Config \<Rightarrow> perf_Config \<Rightarrow> (string \<Rightarrow> bool) \<Rightarrow> perf_Config" where
  "mergeProfileDefaults cfg defaults seen =
     (let d = pc_Delay cfg; dflt = pc_Delay defaults
      in cfg\<lparr>pc_Provider := (if pc_Provider cfg = [] \<or> pc_Provider cfg = ProfileMemory
                             then pc_Provider defaults else pc_Provider cfg),
             pc_Delay := d\<lparr>PutDelay := (if seen ''put-delay'' then PutDelay d else PutDelay dflt),
                           GetDelay := (if seen ''get-delay'' then GetDelay d else GetDelay dflt),
                           HeadDelay := (if seen ''head-delay'' then HeadDelay d else HeadDelay dflt),
                           ListDelay := (if seen ''list-delay'' then ListDelay d else ListDelay dflt),
                           DeleteDelay := (if seen ''delete-delay'' then DeleteDelay d else DeleteDelay dflt),
                           Jitter := (if seen ''jitter'' then Jitter d else Jitter dflt)\<rparr>,
             pc_PrefixBase := or_default (pc_PrefixBase cfg) (pc_PrefixBase defaults)\<rparr>)"

section \<open>The environment of a scenario\<close>

text \<open>
  The two kinds of store a run sets up without a factory: the in-memory store, alone
  or behind the delays of the profile.  A factory gives the store, the name of its
  provider and perhaps a clean-up.
\<close>

datatype base_store = MemoryBase | DelayedBase DelayProfile

definition scenarioStore ::
  "(string \<Rightarrow> ('b \<times> string \<times> 'k option) result) option \<Rightarrow> (base_store \<Rightarrow> 'b) \<Rightarrow> perf_Config \<Rightarrow> string
     \<Rightarrow> ('b \<times> string \<times> 'k option) result" where
  "scenarioStore factory mk cfg scenarioName =
     (case factory of
        Some f \<Rightarrow> f scenarioName
      | None \<Rightarrow>
          Inr (mk (if pc_Profile cfg = ProfileSimulatedS3 then DelayedBase (pc_Delay cfg) else MemoryBase),
               pc_Provider cfg, None))"

text \<open>An error of the codec is a panic.\<close>

definition mustCodec :: "PSKCodec result" where
  "mustCodec = NewPSKCodec ''0123456789abcdef0123456789abcdef''"

text \<open>The tunnel configuration, the policy and the server settings of \<open>newEnvironment\<close>.\<close>

definition scenario_tunnel ::
  "perf_Config \<Rightarrow> string \<Rightarrow> 's ObjectStore \<Rightarrow> 'g Codec \<Rightarrow> ('s, 'g) TunnelConfig" where
  "scenario_tunnel cfg scenarioName store cod =
     \<lparr>cfg_Store = store, cfg_Codec = cod, cfg_Prefix = pc_PrefixBase cfg @ ''/'' @ scenarioName,
      cfg_ChunkSize = pc_ChunkSize cfg, cfg_FlushDelay = pc_FlushDelay cfg, cfg_PollMin = pc_PollMin cfg,
      cfg_PollMax = pc_PollMax cfg, cfg_ActivePollDuration = pc_ActivePollDuration cfg,
      cfg_WindowChunks = pc_WindowChunks cfg, cfg_CloseCheckAfterMisses = pc_CloseCheckAfterMisses cfg,
      cfg_IdleTimeout = pc_IdleTimeout cfg\<rparr>"

definition scenario_policy :: "Engine result" where
  "scenario_policy = New \<lparr>AllowPrivate = True, AllowUnrestricted = False, RequireAllowTarget = False,
     AllowTargets = [], DenyTargets = []\<rparr>"

definition scenario_server ::
  "('s, 'g) TunnelConfig \<Rightarrow> perf_Config \<Rightarrow> ('s, 'g) TunnelServer result" where
  "scenario_server tcfg cfg =
     ebind scenario_policy (\<lambda>pol.
     ebind (NewServer tcfg True True (Some pol)) (\<lambda>srv.
       Inr (srv\<lparr>srv_ConnectTimeout := second, srv_MaxSessions := max 32 (pc_IdleSessions cfg + 4)\<rparr>)))"

section \<open>Traffic and derived figures\<close>

record TrafficMetrics =
  tr_BytesSent :: u64
  tr_BytesReceived :: u64
  tr_ExpectedBytes :: u64
  tr_SHA256 :: string
  tr_Connections :: int
  tr_Requests :: int
  tr_IdleMillis :: int
  tr_RTTMillis :: int
  tr_ThroughputBytes :: int

definition zero_traffic :: TrafficMetrics where
  "zero_traffic = \<lparr>tr_BytesSent = 0, tr_BytesReceived = 0, tr_ExpectedBytes = 0, tr_SHA256 = [], tr_Connections = 0,
     tr_Requests = 0, tr_IdleMillis = 0, tr_RTTMillis = 0, tr_ThroughputBytes = 0\<rparr>"

record SessionMetrics =
  sm_SessionsStarted :: u64
  sm_SessionsOpened :: u64
  sm_SessionsRejected :: u64
  sm_SessionsCompleted :: u64
  sm_SessionsFailed :: u64
  sm_ActiveSessions :: "64 word"
  sm_ChunksSent :: u64
  sm_ChunksReceived :: u64
  sm_PlaintextBytesSent :: u64
  sm_PlaintextBytesRecv :: u64
  sm_SealedBytesSent :: u64
  sm_SealedBytesRecv :: u64
  sm_SocketReads :: u64
  sm_AggregationFlushSize :: u64
  sm_AggregationFlushDeadline :: u64
  sm_AggregationFlushEOF :: u64
  sm_AggregationFlushError :: u64
  sm_TimeToOpenResult :: DurationStats
  sm_SessionDuration :: DurationStats
  sm_TimeToFirstC2S :: DurationStats
  sm_TimeToFirstS2C :: DurationStats

definition sessionMetrics :: "Stats \<Rightarrow> SessionMetrics" where
  "sessionMetrics s =
     \<lparr>sm_SessionsStarted = st_started s, sm_SessionsOpened = opened s, sm_SessionsRejected = rejected s,
      sm_SessionsCompleted = completed s, sm_SessionsFailed = failed s, sm_ActiveSessions = activeSessions s,
      sm_ChunksSent = chunksSent s, sm_ChunksReceived = chunksReceived s,
      sm_PlaintextBytesSent = bytesSent s, sm_PlaintextBytesRecv = bytesReceived s,
      sm_SealedBytesSent = sealedSent s, sm_SealedBytesRecv = sealedReceived s, sm_SocketReads = socketReads s,
      sm_AggregationFlushSize = flushSize s, sm_AggregationFlushDeadline = flushDeadline s,
      sm_AggregationFlushEOF = flushEOF s, sm_AggregationFlushError = flushError s,
      sm_TimeToOpenResult = SummarizeDurations (timeToOpenResult s),
      sm_SessionDuration = SummarizeDurations (sessionDurations s),
      sm_TimeToFirstC2S = SummarizeDurations (timeToFirstC2SData s),
      sm_TimeToFirstS2C = SummarizeDurations (timeToFirstS2CData s)\<rparr>"

text \<open>Whether an entry is counted: an empty text stands for any value.\<close>

definition op_selected :: "string \<Rightarrow> string \<Rightarrow> string \<Rightarrow> operation_key \<Rightarrow> bool" where
  "op_selected operation keyClass res k \<longleftrightarrow>
     \<not> (operation \<noteq> [] \<and> fst k \<noteq> operation) \<and> \<not> (keyClass \<noteq> [] \<and> fst (snd k) \<noteq> keyClass) \<and>
     \<not> (res \<noteq> [] \<and> snd (snd k) \<noteq> res)"

fun countOps :: "OperationMetrics list \<Rightarrow> string \<Rightarrow> string \<Rightarrow> string \<Rightarrow> u64" where
  "countOps [] operation keyClass res = 0"
| "countOps (op # ops) operation keyClass res =
     (if op_selected operation keyClass res (om_key op) then om_Count op + countOps ops operation keyClass res
      else countOps ops operation keyClass res)"

definition maxUint64 :: "u64 \<Rightarrow> u64 \<Rightarrow> u64" where
  "maxUint64 v lo = (if v < lo then lo else v)"

definition float_of :: "u64 \<Rightarrow> rat" where
  "float_of x = flr (of_nat (unat x))"

definition fdiv :: "rat \<Rightarrow> rat \<Rightarrow> rat" where
  "fdiv a b = (if b = 0 then 0 else flr (a / b))"

record DerivedMetrics =
  dm_TotalObjectStoreOps :: u64
  dm_S3OperationsPerSession :: rat
  dm_S3OperationsPerMiB :: rat
  dm_GetMissesPerReceivedData :: rat
  dm_HeadOperationsPerSession :: rat
  dm_ListOperationsPerOpenSession :: rat
  dm_AckGetPerDataPut :: rat
  dm_AckPutPerReceivedData :: rat
  dm_SealedPlaintextSizeRatio :: rat

definition deriveMetrics :: "TrafficMetrics \<Rightarrow> Stats \<Rightarrow> OperationMetrics list \<Rightarrow> DerivedMetrics" where
  "deriveMetrics traffic s store =
     (let totalOps = countOps store [] [] [];
          dataPuts = countOps store OperationPut KeyDataC2S ResultSuccess +
            countOps store OperationPut KeyDataS2C ResultSuccess;
          ackGets = countOps store OperationGet KeyAckC2S [] + countOps store OperationGet KeyAckS2C [];
          ackPuts = countOps store OperationPut KeyAckC2S ResultSuccess +
            countOps store OperationPut KeyAckS2C ResultSuccess;
          dataGetMisses = countOps store OperationGet KeyDataC2S ResultNotFound +
            countOps store OperationGet KeyDataS2C ResultNotFound;
          headOps = countOps store OperationHead [] [];
          listOps = countOps store OperationList [] []
      in \<lparr>dm_TotalObjectStoreOps = totalOps,
          dm_S3OperationsPerSession = fdiv (float_of totalOps) (float_of (maxUint64 (st_started s) 1)),
          dm_S3OperationsPerMiB = fdiv (float_of totalOps) (flr (float_of (tr_BytesSent traffic) / (1024 * 1024))),
          dm_GetMissesPerReceivedData = fdiv (float_of dataGetMisses) (float_of (maxUint64 (chunksReceived s) 1)),
          dm_HeadOperationsPerSession = fdiv (float_of headOps) (float_of (maxUint64 (st_started s) 1)),
          dm_ListOperationsPerOpenSession = fdiv (float_of listOps) (float_of (maxUint64 (opened s) 1)),
          dm_AckGetPerDataPut = fdiv (float_of ackGets) (float_of (maxUint64 dataPuts 1)),
          dm_AckPutPerReceivedData = fdiv (float_of ackPuts) (float_of (maxUint64 (chunksReceived s) 1)),
          dm_SealedPlaintextSizeRatio = fdiv (float_of (sealedSent s)) (float_of (maxUint64 (bytesSent s) 1))\<rparr>)"

definition observations :: "OperationMetrics list \<Rightarrow> string list" where
  "observations s =
     (let tot = countOps s [] [] []; getMisses = countOps s OperationGet [] ResultNotFound;
          head = countOps s OperationHead [] []; lst = countOps s OperationList [] []
      in (if tot > 0 \<and> getMisses * 2 \<ge> tot
          then [''GET not_found polling misses are at least half of observed object-store operations.''] else []) @
         (if head > 0 then [''HEAD close-marker checks are visible in the request mix.''] else []) @
         (if lst > 0 then [''LIST open-session polling is part of baseline request volume.''] else []))"

section \<open>Results\<close>

record ProtocolConfig =
  pr_ChunkSize :: int
  pr_FlushDelay :: string
  pr_PollMin :: string
  pr_PollMax :: string
  pr_ActivePollDuration :: string
  pr_WindowChunks :: u64
  pr_CloseCheckAfterMisses :: int
  pr_IdleTimeout :: string

definition protocol_config :: "perf_Config \<Rightarrow> ProtocolConfig" where
  "protocol_config cfg =
     \<lparr>pr_ChunkSize = pc_ChunkSize cfg, pr_FlushDelay = Duration_String (pc_FlushDelay cfg),
      pr_PollMin = Duration_String (pc_PollMin cfg), pr_PollMax = Duration_String (pc_PollMax cfg),
      pr_ActivePollDuration = Duration_String (pc_ActivePollDuration cfg),
      pr_WindowChunks = pc_WindowChunks cfg, pr_CloseCheckAfterMisses = pc_CloseCheckAfterMisses cfg,
      pr_IdleTimeout = Duration_String (pc_IdleTimeout cfg)\<rparr>"

record ScenarioResult =
  sr_Name :: string
  sr_Description :: string
  sr_Status :: string
  sr_Error :: string
  sr_Parameters :: "(string \<times> json) list option"
  sr_DurationMillis :: int
  sr_Traffic :: TrafficMetrics
  sr_SessionMetrics :: SessionMetrics
  sr_ObjectStoreMetrics :: "OperationMetrics list"
  sr_DerivedMetrics :: DerivedMetrics
  sr_Observations :: "string list"

record RunResult =
  rr_SchemaVersion :: int
  rr_Timestamp :: gotime
  rr_GitCommit :: string
  rr_DirtyWorktree :: bool
  rr_GoVersion :: string
  rr_OS :: string
  rr_Arch :: string
  rr_Profile :: string
  rr_Provider :: string
  rr_Config :: ProtocolConfig
  rr_Scenarios :: "ScenarioResult list"

fun first_not_passed :: "ScenarioResult list \<Rightarrow> err option" where
  "first_not_passed [] = None"
| "first_not_passed (sc # scs) =
     (if sr_Status sc \<noteq> ''passed'' then Some (ErrText (''scenario '' @ sr_Name sc @ '' status '' @ sr_Status sc))
      else first_not_passed scs)"

definition ValidateResult :: "RunResult \<Rightarrow> err option" where
  "ValidateResult r =
     (if rr_SchemaVersion r \<noteq> 1 then Some (ErrText (''unsupported schema version '' @ itoa_int (rr_SchemaVersion r)))
      else if rr_Scenarios r = [] then Some (ErrText ''result has no scenarios'')
      else first_not_passed (rr_Scenarios r))"

section \<open>A normalised configuration\<close>

text \<open>What a run needs of its configuration: names, and sizes, delays and counts in range.\<close>

definition usable :: "perf_Config \<Rightarrow> bool" where
  "usable c \<longleftrightarrow> pc_Profile c \<noteq> [] \<and> pc_Provider c \<noteq> [] \<and> pc_PrefixBase c \<noteq> [] \<and>
     0 < pc_ChunkSize c \<and> 0 \<le> pc_FlushDelay c \<and> 0 < pc_PollMin c \<and> pc_PollMin c \<le> pc_PollMax c \<and>
     pc_WindowChunks c \<noteq> 0 \<and> 0 \<le> pc_ActivePollDuration c \<and> 0 < pc_CloseCheckAfterMisses c \<and>
     0 < pc_IdleTimeout c \<and> 0 < pc_ShortConnections c \<and> 0 < pc_IdleSessions c \<and> 0 < pc_IdleDuration c \<and>
     0 < pc_ChattyDuration c \<and> 0 < pc_ChattyInterval c"

lemma positive_or_pos [simp]: "0 < d \<Longrightarrow> 0 < positive_or d x"
  by (simp add: positive_or_def)

lemma positive_or_id [simp]: "0 < x \<Longrightarrow> positive_or d x = x"
  by (simp add: positive_or_def)

lemma or_default_named: "d \<noteq> [] \<Longrightarrow> or_default s d \<noteq> []"
  by (simp add: or_default_def)

lemma usable_normalizeConfig: "usable (normalizeConfig cfg)"
  by (simp add: usable_def normalizeConfig_def Let_def or_default_named ProfileMemory_def
      millisecond_def second_def)

lemma normalizeConfig_usable_id: "usable cfg \<Longrightarrow> normalizeConfig cfg = cfg"
  by (simp add: usable_def normalizeConfig_def Let_def or_default_def)

text \<open>
  Whatever configuration a run is given, the one it uses is named and has its sizes,
  delays, counts and durations in range with the poll delays in order; a configuration
  that already has them is not changed, and only such a one.
\<close>

theorem normalizeConfig_usable:
  "usable (normalizeConfig cfg) \<and> (usable cfg \<longleftrightarrow> normalizeConfig cfg = cfg)"
  using usable_normalizeConfig normalizeConfig_usable_id by metis

text \<open>
  The client and the server of a scenario run with the values the report states,
  except that a chunk size outside the bounds of the protocol and an active poll
  duration of zero are replaced by the tunnel: these two the report states wrongly.
\<close>

theorem scenario_config_reported:
  "let c = normalizeConfig cfg; t = withDefaults (scenario_tunnel c name store cod); p = protocol_config c
   in Duration_String (cfg_FlushDelay t) = pr_FlushDelay p \<and> Duration_String (cfg_PollMin t) = pr_PollMin p \<and>
      Duration_String (cfg_PollMax t) = pr_PollMax p \<and> cfg_WindowChunks t = pr_WindowChunks p \<and>
      cfg_CloseCheckAfterMisses t = pr_CloseCheckAfterMisses p \<and>
      Duration_String (cfg_IdleTimeout t) = pr_IdleTimeout p \<and>
      (cfg_ChunkSize t = pr_ChunkSize p \<longleftrightarrow> MinChunkSize \<le> pc_ChunkSize c \<and> pc_ChunkSize c \<le> MaxChunkSize) \<and>
      (cfg_ActivePollDuration t = pc_ActivePollDuration c \<longleftrightarrow> pc_ActivePollDuration c \<noteq> 0)"
proof -
  define c where "c = normalizeConfig cfg"
  have "usable c"
    by (simp add: c_def usable_normalizeConfig)
  then show ?thesis
    unfolding c_def [symmetric] Let_def
    by (simp add: usable_def scenario_tunnel_def withDefaults_def protocol_config_def)
      (auto simp: default_defs Let_def)
qed

text \<open>
  The durations of a report are texts that read back as the durations of the run,
  as long as these are 64-bit durations.
\<close>

theorem protocol_config_reads_back:
  assumes "\<forall>d \<in> {pc_FlushDelay c, pc_PollMin c, pc_PollMax c, pc_ActivePollDuration c, pc_IdleTimeout c}.
    - (2 ^ 63) \<le> d \<and> d < 2 ^ 63"
  shows "map ParseDuration [pr_FlushDelay (protocol_config c), pr_PollMin (protocol_config c),
      pr_PollMax (protocol_config c), pr_ActivePollDuration (protocol_config c), pr_IdleTimeout (protocol_config c)] =
    map Some [pc_FlushDelay c, pc_PollMin c, pc_PollMax c, pc_ActivePollDuration c, pc_IdleTimeout c]"
  using assms by (simp add: protocol_config_def ParseDuration_String)

theorem protocol_config_reads_back_witness:
  "ParseDuration (pr_IdleTimeout (protocol_config (DefaultConfig ProfileSimulatedS3))) = Some 30000000000"
  using protocol_config_reads_back [of "DefaultConfig ProfileSimulatedS3"]
  by (simp add: DefaultConfig_def Let_def millisecond_def second_def)

section \<open>The counts of a report\<close>

lemma op_selected_iff:
  "op_selected opn kc res k \<longleftrightarrow> (case k of (opn', kc', res') \<Rightarrow>
     (opn = [] \<or> opn' = opn) \<and> (kc = [] \<or> kc' = kc) \<and> (res = [] \<or> res' = res))"
  by (auto simp: op_selected_def)

lemma countOps_sum:
  "countOps ops opn kc res = (\<Sum>op\<leftarrow>ops. if op_selected opn kc res (om_key op) then om_Count op else 0)"
  by (induction ops) simp_all

lemma length_filter_Or:
  "\<forall>x. \<not> (P x \<and> Q x) \<Longrightarrow>
   length (filter (\<lambda>x. P x \<or> Q x) xs) = length (filter P xs) + length (filter Q xs)"
  by (induction xs) auto

lemma count_by_keys:
  assumes "distinct ks"
  shows "(\<Sum>k\<leftarrow>ks. if P k then length (filter (\<lambda>x. x = k) xs) else 0) =
    length (filter (\<lambda>x. P x \<and> x \<in> set ks) xs)"
  using assms
proof (induction ks)
  case (Cons k ks)
  have "filter (\<lambda>x. P x \<and> x \<in> set (k # ks)) xs = filter (\<lambda>x. P k \<and> x = k \<or> P x \<and> x \<in> set ks) xs"
    by (rule filter_cong) auto
  moreover have "length \<dots> = length (filter (\<lambda>x. P k \<and> x = k) xs) + length (filter (\<lambda>x. P x \<and> x \<in> set ks) xs)"
    using Cons.prems by (intro length_filter_Or) auto
  ultimately show ?case
    using Cons by simp
qed simp

lemma sum_list_of_nat_if:
  "(\<Sum>x\<leftarrow>xs. if P x then of_nat (f x) else 0) = (of_nat (\<Sum>x\<leftarrow>xs. if P x then f x else 0) :: 'a::semiring_1)"
  by (induction xs) simp_all

text \<open>
  C36: the operation counts of a report, as they are derived from the snapshot of a
  collector that started empty, are the numbers of calls made through the
  instrumented store that match the operation, key class and result asked for
  (modulo \<open>2 ^ 64\<close>).
\<close>

theorem countOps_counts_calls:
  assumes "in_collector s = Some NewCollector"
    and "exec_calls (instrumented_store el S) cs s = (rs, s')"
  shows "countOps (Snapshot (in_collector s')) opn kc res =
    of_nat (length (filter (\<lambda>(c, r). case call_key (snd c) r of (opn', kc', res') \<Rightarrow>
      (opn = [] \<or> opn' = opn) \<and> (kc = [] \<or> kc' = kc) \<and> (res = [] \<or> res' = res)) (zip cs rs)))"
proof -
  let ?sn = "Snapshot (in_collector s')" and ?sel = "op_selected opn kc res"
  let ?xs = "map (\<lambda>(c, r). call_key (snd c) r) (zip cs rs)"
  note snap = exec_calls_snapshot [OF assms]
  have eq: "om_Count op = of_nat (length (filter (\<lambda>x. x = om_key op) ?xs))" if "op \<in> set ?sn" for op
    using snap that by (simp add: filter_map comp_def case_prod_beta')
  have "countOps ?sn opn kc res =
      (\<Sum>op\<leftarrow>?sn. if ?sel (om_key op) then of_nat (length (filter (\<lambda>x. x = om_key op) ?xs)) else 0)"
    unfolding countOps_sum by (rule arg_cong [where f = sum_list], rule map_cong [OF refl]) (simp only: eq)
  also have "\<dots> = of_nat (\<Sum>k\<leftarrow>map om_key ?sn. if ?sel k then length (filter (\<lambda>x. x = k) ?xs) else 0)"
    by (simp add: sum_list_of_nat_if [symmetric] comp_def)
  also have "\<dots> = of_nat (length (filter (\<lambda>x. ?sel x \<and> x \<in> set (map om_key ?sn)) ?xs))"
    using snap by (subst count_by_keys) simp_all
  also have "filter (\<lambda>x. ?sel x \<and> x \<in> set (map om_key ?sn)) ?xs = filter ?sel ?xs"
    using snap by (intro filter_cong) auto
  finally have "countOps ?sn opn kc res =
      of_nat (length (filter (\<lambda>(c, r). op_selected opn kc res (call_key (snd c) r)) (zip cs rs)))"
    by (simp add: filter_map comp_def case_prod_beta')
  then show ?thesis
    by (simp add: op_selected_iff)
qed

theorem countOps_counts_calls_witness:
  "countOps (Snapshot (in_collector (snd (exec_calls (instrumented_store (\<lambda>c. (0, c)) memory_store)
      [(None, CallGet ''a''), (None, CallDelete ''b''), (None, CallGet ''b'')]
      \<lparr>in_next = mem_new, in_collector = Some NewCollector, in_clock = ()\<rparr>)))) OperationGet [] [] = 2"
proof -
  let ?cs = "[(None, CallGet ''a''), (None, CallDelete ''b''), (None, CallGet ''b'')] :: (ctx \<times> store_call) list"
  let ?s = "\<lparr>in_next = mem_new, in_collector = Some NewCollector, in_clock = ()\<rparr>"
  obtain rs s' where ex: "exec_calls (instrumented_store (\<lambda>c. (0, c)) memory_store) ?cs ?s = (rs, s')"
    by (meson surj_pair)
  have "fst (exec_calls (instrumented_store (\<lambda>c. (0, c)) memory_store) ?cs ?s) =
      [GotBytes (Inl ErrNotFound), GotErr None, GotBytes (Inl ErrNotFound)]"
    by code_simp
  with ex have rs: "rs = [GotBytes (Inl ErrNotFound), GotErr None, GotBytes (Inl ErrNotFound)]"
    by simp
  have n: "length (filter (\<lambda>(c, r). op_selected OperationGet [] [] (call_key (snd c) r)) (zip ?cs rs)) = 2"
    unfolding rs by code_simp
  have "countOps (Snapshot (in_collector s')) OperationGet [] [] =
      of_nat (length (filter (\<lambda>(c, r). op_selected OperationGet [] [] (call_key (snd c) r)) (zip ?cs rs)))"
    unfolding op_selected_iff by (rule countOps_counts_calls [OF _ ex]) simp
  then have "countOps (Snapshot (in_collector s')) OperationGet [] [] = of_nat 2"
    by (simp only: n)
  then show ?thesis
    by (simp only: ex snd_conv of_nat_numeral)
qed

end
