(* ===== verification/PerfNet.thy ===== *)
theory PerfNet
  imports Perf
begin

text \<open>
  \<open>internal/perf/perf.go\<close>, what the scenarios are made of: the connection through the SOCKS
  server of the client, the exchange of a payload with the echo server behind it, the
  timed loop of small exchanges and the wait for the sessions to end.

  The network, the clock and the context are the record \<open>perf_net\<close>, an operation for each
  call of the code that leaves the program; \<open>writeRead\<close> writes and reads at the same
  time, so these two are one operation.  The texts of the errors of \<open>net\<close> and
  \<open>strconv\<close> are not those of the library.

  The lemmas show that the handshake and the SOCKS server of the theory Socks5
  understand each other, and that both loops return when time passes while they sleep.
\<close>

section \<open>Runs that fail or do not return\<close>

text \<open>The result with the state of the world after it; \<open>None\<close> when the run does not return.\<close>

type_synonym ('a, 's) prog = "'s \<Rightarrow> ('a result \<times> 's) option"

definition pret :: "'a \<Rightarrow> ('a, 's) prog" where
  "pret x s = Some (Inr x, s)"

definition pfail :: "err \<Rightarrow> ('a, 's) prog" where
  "pfail e s = Some (Inl e, s)"

definition pbind :: "('a, 's) prog \<Rightarrow> ('a \<Rightarrow> ('b, 's) prog) \<Rightarrow> ('b, 's) prog" where
  "pbind m f s =
     (case m s of
        None \<Rightarrow> None
      | Some (Inl e, s') \<Rightarrow> Some (Inl e, s')
      | Some (Inr x, s') \<Rightarrow> f x s')"

text \<open>A deferred call, and a call on the error path only.\<close>

definition pfinally :: "('a, 's) prog \<Rightarrow> ('s \<Rightarrow> 's) \<Rightarrow> ('a, 's) prog" where
  "pfinally m k s = (case m s of None \<Rightarrow> None | Some (r, s') \<Rightarrow> Some (r, k s'))"

definition ponerror :: "('a, 's) prog \<Rightarrow> ('s \<Rightarrow> 's) \<Rightarrow> ('a, 's) prog" where
  "ponerror m k s =
     (case m s of
        None \<Rightarrow> None
      | Some (Inl e, s') \<Rightarrow> Some (Inl e, k s')
      | Some (Inr x, s') \<Rightarrow> Some (Inr x, s'))"

text \<open>Calls of the world: one with a result, one with an error or nil, one without, and a reading.\<close>

definition pop :: "('s \<Rightarrow> 'a result \<times> 's) \<Rightarrow> ('a, 's) prog" where
  "pop f s = Some (f s)"

definition pcall :: "('s \<Rightarrow> err option \<times> 's) \<Rightarrow> (unit, 's) prog" where
  "pcall f s = (case f s of (None, s') \<Rightarrow> Some (Inr (), s') | (Some e, s') \<Rightarrow> Some (Inl e, s'))"

definition pdo :: "('s \<Rightarrow> 's) \<Rightarrow> (unit, 's) prog" where
  "pdo f s = Some (Inr (), f s)"

definition pread :: "('s \<Rightarrow> 'a) \<Rightarrow> ('a, 's) prog" where
  "pread f s = Some (Inr (f s), s)"

lemmas prog_defs = pret_def pfail_def pbind_def pfinally_def ponerror_def pop_def pcall_def pdo_def pread_def

section \<open>The world of a scenario\<close>

record ('c, 's) perf_net =
  pn_startEcho :: "'s \<Rightarrow> string result \<times> 's"
  pn_stopEcho :: "'s \<Rightarrow> 's"
  pn_dial :: "string \<Rightarrow> 's \<Rightarrow> 'c result \<times> 's"
  pn_write :: "'c \<Rightarrow> bytes \<Rightarrow> 's \<Rightarrow> err option \<times> 's"
  pn_readFull :: "'c \<Rightarrow> nat \<Rightarrow> 's \<Rightarrow> bytes result \<times> 's"
  pn_exchange :: "'c \<Rightarrow> bytes \<Rightarrow> nat \<Rightarrow> 's \<Rightarrow> (err option \<times> bytes result) \<times> 's"
  pn_setDeadline :: "'c \<Rightarrow> int option \<Rightarrow> 's \<Rightarrow> 's"
  pn_close :: "'c \<Rightarrow> 's \<Rightarrow> 's"
  pn_now :: "'s \<Rightarrow> int"
  pn_sleep :: "int \<Rightarrow> 's \<Rightarrow> err option \<times> 's"
  pn_ctxErr :: "'s \<Rightarrow> err option"
  pn_ctxDeadline :: "int option"
  pn_stats :: "'s \<Rightarrow> Stats"
  pn_collector :: "'s \<Rightarrow> Collector option"

section \<open>Opening a connection\<close>

text \<open>\<open>net.ParseIP(host).To4()\<close>: a quad, or an address mapped into IPv6.\<close>

definition ParseIP4 :: "string \<Rightarrow> bytes option" where
  "ParseIP4 host =
     (case ParseAddr host of
        Some (Addr4 w) \<Rightarrow> Some (map of_nat (octets w))
      | Some (Addr6 w z) \<Rightarrow> (if z = [] \<and> Is4In6 (Addr6 w []) then Some (map of_nat (octets (ucast w))) else None)
      | _ \<Rightarrow> None)"

definition socks_greeting :: bytes where
  "socks_greeting = [Version5, 1, MethodNoAuth]"

definition socks_request :: "string \<Rightarrow> bytes result" where
  "socks_request target =
     (case SplitHostPort target of
        None \<Rightarrow> Inl (ErrText (''address '' @ target))
      | Some (host, portRaw) \<Rightarrow>
          ebind (parse_uint 16 portRaw) (\<lambda>port.
            case ParseIP4 host of
              None \<Rightarrow> Inl (ErrText (''benchmark target must be IPv4: '' @ target))
            | Some ip \<Rightarrow> Inr ([Version5, CmdConnect, 0, AtypIPv4] @ ip @ [of_nat (port div 256), of_nat (port mod 256)])))"

definition socksHandshake :: "('c, 's) perf_net \<Rightarrow> 'c \<Rightarrow> string \<Rightarrow> (unit, 's) prog" where
  "socksHandshake N c target =
     pbind (pcall (pn_write N c socks_greeting)) (\<lambda>_.
     pbind (pop (pn_readFull N c 2)) (\<lambda>_.
     pbind (pop (Pair (socks_request target))) (\<lambda>req.
     pbind (pcall (pn_write N c req)) (\<lambda>_.
     pbind (pop (pn_readFull N c 10)) (\<lambda>resp.
       if resp ! 1 \<noteq> ReplySucceeded then pfail (ErrText (''SOCKS reply '' @ itoa (unat (resp ! 1)))) else pret ())))))"

definition openSOCKS :: "('c, 's) perf_net \<Rightarrow> string \<Rightarrow> string \<Rightarrow> ('c, 's) prog" where
  "openSOCKS N socksAddr target =
     pbind (pop (pn_dial N socksAddr)) (\<lambda>c.
     pbind (pread (pn_now N)) (\<lambda>now.
     pbind (pdo (pn_setDeadline N c (Some (case pn_ctxDeadline N of Some d \<Rightarrow> d | None \<Rightarrow> now + 10 * second)))) (\<lambda>_.
     pbind (ponerror (socksHandshake N c target) (pn_close N c)) (\<lambda>_.
     pbind (pdo (pn_setDeadline N c None)) (\<lambda>_. pret c)))))"

text \<open>An echo server for the time of a scenario, and one connection to it through the tunnel.\<close>

definition with_echo :: "('c, 's) perf_net \<Rightarrow> (string \<Rightarrow> ('a, 's) prog) \<Rightarrow> ('a, 's) prog" where
  "with_echo N f = pbind (pop (pn_startEcho N)) (\<lambda>echo. pfinally (f echo) (pn_stopEcho N))"

definition with_conn :: "('c, 's) perf_net \<Rightarrow> string \<Rightarrow> string \<Rightarrow> ('c \<Rightarrow> ('a, 's) prog) \<Rightarrow> ('a, 's) prog" where
  "with_conn N socksAddr echo f = pbind (openSOCKS N socksAddr echo) (\<lambda>c. pfinally (f c) (pn_close N c))"

definition closeAll :: "('c, 's) perf_net \<Rightarrow> 'c list \<Rightarrow> 's \<Rightarrow> 's" where
  "closeAll N conns s = foldl (\<lambda>s c. pn_close N c s) s conns"

section \<open>Exchanges\<close>

definition exchange_result :: "('c, 's) perf_net \<Rightarrow> 'c \<Rightarrow> bytes \<Rightarrow> 's \<Rightarrow> bytes result \<times> 's" where
  "exchange_result N c payload s =
     (case pn_exchange N c payload (length payload) s of
        ((Some e, _), s') \<Rightarrow> (Inl e, s')
      | ((None, r), s') \<Rightarrow> (r, s'))"

definition writeRead :: "('c, 's) perf_net \<Rightarrow> 'c \<Rightarrow> bytes \<Rightarrow> (bytes, 's) prog" where
  "writeRead N c payload =
     pbind (pread (pn_now N)) (\<lambda>now.
     pbind (pdo (pn_setDeadline N c (Some (now + 30 * second)))) (\<lambda>_.
       pfinally (pop (exchange_result N c payload)) (pn_setDeadline N c None)))"

text \<open>The comparison every scenario makes of the answer.\<close>

definition echoed :: "('c, 's) perf_net \<Rightarrow> 'c \<Rightarrow> string \<Rightarrow> bytes \<Rightarrow> (bytes, 's) prog" where
  "echoed N c mismatch payload =
     pbind (writeRead N c payload) (\<lambda>got. if got \<noteq> payload then pfail (ErrText mismatch) else pret got)"

definition makePattern :: "nat \<Rightarrow> bytes" where
  "makePattern n = map (\<lambda>i. of_nat (i mod 251)) [0..<n]"

definition makeChattyPayload :: "nat \<Rightarrow> nat \<Rightarrow> nat \<Rightarrow> bytes" where
  "makeChattyPayload streamID sequence sz = map (\<lambda>i. of_nat ((streamID * 31 + sequence + i) mod 251)) [0..<sz]"

definition chatty_mismatch :: "nat \<Rightarrow> string" where
  "chatty_mismatch writes = ''chatty write '' @ itoa writes @ '' echo mismatch''"

text \<open>The sums of the bytes sent and received, and the number of writes; no fuel is no return.\<close>

fun chatty_loop ::
  "nat \<Rightarrow> ('c, 's) perf_net \<Rightarrow> 'c \<Rightarrow> nat \<Rightarrow> int \<Rightarrow> int \<Rightarrow> nat \<Rightarrow> u64 \<Rightarrow> u64 \<Rightarrow> nat \<Rightarrow> (u64 \<times> u64 \<times> nat, 's) prog"
  where
  "chatty_loop 0 N c streamID deadline interval sz sent recv writes s = None"
| "chatty_loop (Suc n) N c streamID deadline interval sz sent recv writes s =
     (if writes = 0 \<or> pn_now N s < deadline then
        pbind (pcall (\<lambda>s. (pn_ctxErr N s, s))) (\<lambda>_.
        pbind (echoed N c (chatty_mismatch writes) (makeChattyPayload streamID writes sz)) (\<lambda>got.
        pbind (pread (\<lambda>s. deadline - pn_now N s)) (\<lambda>remaining.
          let sent' = sent + of_nat sz; recv' = recv + of_nat (length got)
          in if remaining \<le> 0 then pret (sent', recv', Suc writes)
             else pbind (if min interval remaining > 0 then pcall (pn_sleep N (min interval remaining)) else pret ())
               (\<lambda>_. chatty_loop n N c streamID deadline interval sz sent' recv' (Suc writes))))) s
      else pret (sent, recv, writes) s)"

text \<open>Rounds enough for the duration, when every round but the last sleeps a whole interval.\<close>

definition chatty_fuel :: "int \<Rightarrow> int \<Rightarrow> nat" where
  "chatty_fuel duration interval = nat (duration div interval) + 2"

definition runChattyExchanges ::
  "('c, 's) perf_net \<Rightarrow> 'c \<Rightarrow> nat \<Rightarrow> int \<Rightarrow> int \<Rightarrow> nat \<Rightarrow> (u64 \<times> u64 \<times> nat, 's) prog" where
  "runChattyExchanges N c streamID duration interval sz s =
     chatty_loop (chatty_fuel duration interval) N c streamID (pn_now N s + duration) interval sz 0 0 0 s"

section \<open>Waiting for the sessions\<close>

fun sessions_loop :: "nat \<Rightarrow> ('c, 's) perf_net \<Rightarrow> int \<Rightarrow> int \<Rightarrow> int \<Rightarrow> 's \<Rightarrow> 's option" where
  "sessions_loop 0 N want pollMax deadline s = None"
| "sessions_loop (Suc n) N want pollMax deadline s =
     (if \<not> pn_now N s < deadline then Some s
      else let st = pn_stats N s
        in if sint (completed st + failed st + rejected st) \<ge> want then Some s
           else (case pn_sleep N (max pollMax (5 * millisecond)) s of
               (Some _, s') \<Rightarrow> Some s'
             | (None, s') \<Rightarrow> sessions_loop n N want pollMax deadline s'))"

text \<open>Two seconds hold 400 sleeps of five milliseconds.\<close>

definition waitForSessions :: "('c, 's) perf_net \<Rightarrow> int \<Rightarrow> int \<Rightarrow> 's \<Rightarrow> 's option" where
  "waitForSessions N want pollMax s =
     (if want \<le> 0 then Some s else sessions_loop 401 N want pollMax (pn_now N s + 2 * second) s)"

section \<open>The loops return\<close>

text \<open>A sleep takes the time it is asked for, and no other call turns the clock back.\<close>

definition clock_runs :: "('c, 's) perf_net \<Rightarrow> bool" where
  "clock_runs N \<longleftrightarrow>
     (\<forall>d s s'. pn_sleep N d s = (None, s') \<longrightarrow> pn_now N s + d \<le> pn_now N s') \<and>
     (\<forall>c p n s. pn_now N s \<le> pn_now N (snd (pn_exchange N c p n s))) \<and>
     (\<forall>c d s. pn_now N s \<le> pn_now N (pn_setDeadline N c d s))"

lemma clock_sleep: "clock_runs N \<Longrightarrow> pn_sleep N d s = (None, s') \<Longrightarrow> pn_now N s + d \<le> pn_now N s'"
  by (simp add: clock_runs_def)

lemma clock_writeRead:
  assumes "clock_runs N"
  obtains r s' where "writeRead N c p s = Some (r, s')" and "pn_now N s \<le> pn_now N s'"
proof -
  let ?s1 = "pn_setDeadline N c (Some (pn_now N s + 30 * second)) s"
  obtain w r s2 where ex: "pn_exchange N c p (length p) ?s1 = ((w, r), s2)"
    by (metis prod.exhaust)
  have mono: "pn_now N s \<le> pn_now N (pn_setDeadline N c d s)" "pn_now N s \<le> pn_now N (snd (pn_exchange N c q n s))"
    for d q n s using assms by (auto simp: clock_runs_def)
  have "pn_now N s \<le> pn_now N ?s1" by (rule mono)
  also have "\<dots> \<le> pn_now N s2" using mono(2) [of ?s1 p "length p"] by (simp add: ex)
  also have "\<dots> \<le> pn_now N (pn_setDeadline N c None s2)" by (rule mono)
  finally have "pn_now N s \<le> pn_now N (pn_setDeadline N c None s2)" .
  moreover have "\<exists>q. writeRead N c p s = Some (q, pn_setDeadline N c None s2)"
    by (cases w) (simp_all add: writeRead_def prog_defs exchange_result_def ex)
  ultimately show thesis using that by blast
qed

lemma clock_echoed:
  assumes "clock_runs N"
  obtains r s' where "echoed N c m p s = Some (r, s')" and "pn_now N s \<le> pn_now N s'"
proof -
  obtain r s' where "writeRead N c p s = Some (r, s')" "pn_now N s \<le> pn_now N s'"
    using clock_writeRead [OF assms] .
  then have "\<exists>q. echoed N c m p s = Some (q, s')"
    by (cases r) (auto simp: echoed_def pbind_def pfail_def pret_def)
  then show thesis using that \<open>pn_now N s \<le> pn_now N s'\<close> by blast
qed

lemma chatty_loop_returns:
  assumes "clock_runs N" and "0 < interval" and "deadline - pn_now N s \<le> int n * interval"
  shows "chatty_loop (Suc n) N c i deadline interval sz sent recv writes s \<noteq> None"
  using assms(3)
proof (induction n arbitrary: sent recv writes s)
  case 0
  obtain r s' where "echoed N c (chatty_mismatch writes) (makeChattyPayload i writes sz) s = Some (r, s')"
    "pn_now N s \<le> pn_now N s'"
    using clock_echoed [OF assms(1)] .
  with 0 show ?case
    by (cases r; cases "pn_ctxErr N s"; cases "writes = 0") (auto simp: prog_defs Let_def)
next
  case (Suc n)
  obtain r s' where e: "echoed N c (chatty_mismatch writes) (makeChattyPayload i writes sz) s = Some (r, s')"
    "pn_now N s \<le> pn_now N s'"
    using clock_echoed [OF assms(1)] .
  let ?rem = "deadline - pn_now N s'"
  show ?case
  proof (cases "pn_sleep N (min interval ?rem) s'")
    case (Pair x s2)
    have "deadline - pn_now N s2 \<le> int n * interval" if "x = None"
    proof -
      have "pn_now N s' + min interval ?rem \<le> pn_now N s2"
        using clock_sleep [OF assms(1)] Pair that by blast
      moreover have "0 \<le> int n * interval" using assms(2) by simp
      moreover have "?rem \<le> interval + int n * interval"
        using Suc.prems e(2) by (simp add: algebra_simps)
      ultimately show ?thesis by (simp add: min_def split: if_splits)
    qed
    from Suc.IH [OF this] show ?thesis
      unfolding chatty_loop.simps(2) [of "Suc n"] using e(1) Pair assms(2)
      by (cases r; cases "pn_ctxErr N s"; cases x) (auto simp: prog_defs Let_def simp del: chatty_loop.simps)
  qed
qed

lemma chatty_fuel_enough: "0 < interval \<Longrightarrow> duration \<le> int (nat (duration div interval) + 1) * interval"
proof -
  assume i: "0 < interval"
  have "duration div interval * interval + duration mod interval = duration"
    by (rule div_mult_mod_eq)
  then have "duration \<le> (duration div interval + 1) * interval"
    using pos_mod_bound [OF i, of duration] unfolding distrib_right by linarith
  also have "\<dots> \<le> int (nat (duration div interval) + 1) * interval"
    using i by (intro mult_right_mono) simp_all
  finally show ?thesis .
qed

lemma runChattyExchanges_returns:
  assumes "clock_runs N" and "0 < interval"
  shows "runChattyExchanges N c i duration interval sz s \<noteq> None"
proof -
  have "chatty_loop (Suc (nat (duration div interval) + 1)) N c i (pn_now N s + duration) interval sz 0 0 0 s \<noteq> None"
    using assms chatty_fuel_enough [OF assms(2)] by (intro chatty_loop_returns) simp_all
  then show ?thesis
    unfolding runChattyExchanges_def chatty_fuel_def by simp
qed

lemma sessions_loop_returns:
  assumes "clock_runs N" and "deadline - pn_now N s \<le> int n * (5 * millisecond)"
  shows "sessions_loop (Suc n) N want pollMax deadline s \<noteq> None"
  using assms(2)
proof (induction n arbitrary: s)
  case (Suc n)
  show ?case
  proof (cases "pn_sleep N (max pollMax (5 * millisecond)) s")
    case (Pair x s2)
    have "deadline - pn_now N s2 \<le> int n * (5 * millisecond)" if "x = None"
      using clock_sleep [OF assms(1)] Pair that Suc.prems by (fastforce simp: algebra_simps)
    from Suc.IH [OF this] show ?thesis
      unfolding sessions_loop.simps(2) [of "Suc n"] using Pair
      by (cases x) (simp_all add: Let_def del: sessions_loop.simps)
  qed
qed simp

lemma waitForSessions_returns: "clock_runs N \<Longrightarrow> waitForSessions N want pollMax s \<noteq> None"
proof -
  assume "clock_runs N"
  then have "sessions_loop (Suc 400) N want pollMax (pn_now N s + 2 * second) s \<noteq> None"
    by (rule sessions_loop_returns) (simp add: second_def millisecond_def)
  then show ?thesis
    by (simp only: waitForSessions_def) simp
qed

section \<open>The handshake meets the SOCKS server\<close>

text \<open>A connection whose incoming bytes are given, with the bytes written to it.\<close>

definition pipe_net :: "(unit, bytes \<times> bytes) perf_net" where
  "pipe_net =
     \<lparr>pn_startEcho = Pair (Inr ''127.0.0.1:9''), pn_stopEcho = id, pn_dial = (\<lambda>_. Pair (Inr ())),
      pn_write = (\<lambda>_ bs (i, out). (None, (i, out @ bs))),
      pn_readFull = (\<lambda>_ n (i, out). if n \<le> length i then (Inr (take n i), (drop n i, out))
        else (Inl IoUnexpectedEOF, ([], out))),
      pn_exchange = (\<lambda>_ bs n (i, out). if n \<le> length i then ((None, Inr (take n i)), (drop n i, out @ bs))
        else ((None, Inl IoUnexpectedEOF), ([], out @ bs))),
      pn_setDeadline = (\<lambda>_ _. id), pn_close = (\<lambda>_. id), pn_now = (\<lambda>_. 0), pn_sleep = (\<lambda>_. Pair None),
      pn_ctxErr = (\<lambda>_. None), pn_ctxDeadline = None, pn_stats = (\<lambda>_. zero_Stats), pn_collector = (\<lambda>_. None)\<rparr>"

definition v4_target :: "32 word \<Rightarrow> u16 \<Rightarrow> Target" where
  "v4_target w port = \<lparr>tgt_type = AddressIPv4, tgt_host = v4_string w, tgt_port = port\<rparr>"

text \<open>A handler that replies only when it is asked for one target.\<close>

definition only_target :: "Target \<Rightarrow> 8 word \<Rightarrow> ConnectHandler" where
  "only_target want rep t s = (if t = want then reply rep s else (None, s))"

lemma v4_text_chars: "c \<in> set (v4_string w) \<Longrightarrow> is_digit c \<or> c = CHR ''.''"
  by (auto simp: v4_string_def octets_list itoa_digits)

lemma SplitHostPort_plain:
  assumes "\<forall>c \<in> set h \<union> set p. c \<notin> set ''[]:''" and "h \<noteq> []"
  shows "SplitHostPort (h @ '':'' @ p) = Some (h, p)"
proof -
  have c: "CHR '':'' \<notin> set h" "CHR '':'' \<notin> set p" "CHR ''['' \<notin> set h" "CHR ''['' \<notin> set p"
    "CHR '']'' \<notin> set h" "CHR '']'' \<notin> set p"
    using assms(1) by auto
  have "splitc (CHR '':'') (h @ CHR '':'' # p) = [h, p]"
    using c(1,2) by (simp add: splitc_append_sep splitc_no_occ)
  moreover have "\<not> hasPrefix (h @ CHR '':'' # p) ''[''"
    using assms(2) c(3) by (cases h) (auto simp: hasPrefix_def)
  ultimately show ?thesis
    using c by (simp add: SplitHostPort_def Let_def)
qed

lemma IP_String_octets: "IP_String (map of_nat (octets w)) = v4_string w"
proof -
  have "foldl (\<lambda>n d. 256 * n + d) 0 (octets w) = nat_of_bytes (map of_nat (octets w))"
    by (simp add: nat_of_bytes_def octets_list unat_of_nat octet_less)
  then have "of_nat (nat_of_bytes (map of_nat (octets w))) = w"
    using v4_of_octets_octets [of w] by (simp add: v4_of_octets_def)
  then show ?thesis
    by (simp add: IP_String_def octets_list)
qed

lemma socks_request_v4:
  "socks_request (Address (v4_target w port)) =
     Inr (request_bytes CmdConnect (SocksV4 (map of_nat (octets w))) port)"
proof -
  have colon: "CHR '':'' \<notin> set (v4_string w)"
    using v4_text_chars by (force simp: is_digit_def)
  have "\<forall>c \<in> set (v4_string w) \<union> set (itoa (unat port)). c \<notin> set ''[]:''"
    using v4_text_chars itoa_digits by (force simp: is_digit_def)
  moreover have "v4_string w \<noteq> []"
    using v4_string_hd [of w] by auto
  ultimately have s: "SplitHostPort (v4_string w @ '':'' @ itoa (unat port)) = Some (v4_string w, itoa (unat port))"
    by (rule SplitHostPort_plain)
  have a: "Address (v4_target w port) = v4_string w @ '':'' @ itoa (unat port)"
    using colon by (simp add: Address_def netJoinHostPort_def v4_target_def)
  have p: "parse_uint 16 (itoa (unat port)) = Inr (unat port)"
    using unsigned_less [where ?'a = nat, of port] by (intro parse_uint_itoa) simp
  show ?thesis
    unfolding a socks_request_def s
    by (simp add: p ParseIP4_def ParseAddr_v4_string request_bytes_def)
qed

lemma new_conn_sel [simp]:
  "cn_in (new_conn bs) = bs" "cn_out (new_conn bs) = []" "cn_write_err (new_conn bs) = None"
  by (simp_all add: new_conn_def)

lemma handleConn_v4:
  "cn_out (handleConn (Some (only_target (v4_target w port) rep))
      (new_conn (socks_greeting @ request_bytes CmdConnect (SocksV4 (map of_nat (octets w))) port @ payload))) =
    [Version5, MethodNoAuth] @ reply_bytes rep"
proof -
  let ?a = "SocksV4 (map of_nat (octets w))" and ?ms = "[MethodNoAuth]"
  let ?c = "new_conn (socks_greeting @ request_bytes CmdConnect ?a port @ payload)"
  let ?c1 = "?c\<lparr>cn_in := request_bytes CmdConnect ?a port @ payload, cn_out := cn_out ?c @ [Version5, MethodNoAuth]\<rparr>"
  have 1: "negotiate ?c = (None, ?c1)"
    by (subst negotiate_greeting [of _ ?ms]) (simp_all add: socks_greeting_def)
  have wf: "wf_addr ?a"
    by (simp add: octets_list)
  have "readRequest ?c1 = (Inr (CmdConnect, addr_target ?a port), ?c1\<lparr>cn_in := payload\<rparr>)"
    using wf by (rule readRequest_request) simp
  moreover have "addr_target ?a port = v4_target w port"
    by (simp add: v4_target_def IP_String_octets)
  ultimately show ?thesis
    using 1 by (simp add: handleConn_def only_target_def reply_first)
qed

text \<open>
  C35: for every IPv4 target the two ends of SOCKS understand each other: the server
  hands exactly this target to its handler and the client, reading what the server
  wrote, succeeds when the reply is success and otherwise fails with its code; it has
  written the greeting and the request and has read no byte too many.
\<close>

theorem socks_client_meets_server:
  "\<exists>req. socks_request (Address (v4_target w port)) = Inr req \<and>
     socksHandshake pipe_net () (Address (v4_target w port))
       (cn_out (handleConn (Some (only_target (v4_target w port) rep)) (new_conn (socks_greeting @ req @ payload))) @ rest, []) =
     Some (if rep = ReplySucceeded then Inr () else Inl (ErrText (''SOCKS reply '' @ itoa (unat rep))),
           (rest, socks_greeting @ req))"
  unfolding socks_request_v4
  by (rule exI [of _ "request_bytes CmdConnect (SocksV4 (map of_nat (octets w))) port"])
    (simp only: handleConn_v4, simp add: socksHandshake_def socks_request_v4 prog_defs pipe_net_def reply_bytes_def)

end
