(* ===== verification/PerfRun.thy ===== *)
theory PerfRun
  imports PerfNet
begin

text \<open>
  \<open>internal/perf/perf.go\<close>, the scenarios and their run.  A scenario returns its traffic,
  its parameters (an empty list also for a nil map, which the run replaces) and an error or
  nil.  The seven goroutines of the mixed scenario are run by the parameter \<open>go\<close>, which
  returns what each came to, in the order in which they ended.

  What holds of them is in the theory PerfProps.
\<close>

section \<open>The scenarios\<close>

type_synonym params = "(string \<times> json) list"

type_synonym outcome = "TrafficMetrics \<times> params \<times> err option"

type_synonym 's scenario_prog = "'s \<Rightarrow> (outcome \<times> 's) option"

text \<open>A scenario that stops at its first error returns no traffic and no parameters.\<close>

fun whole_outcome :: "(TrafficMetrics \<times> params) result \<Rightarrow> outcome" where
  "whole_outcome (Inl e) = (zero_traffic, [], Some e)"
| "whole_outcome (Inr (traffic, params)) = (traffic, params, None)"

definition whole :: "(TrafficMetrics \<times> params, 's) prog \<Rightarrow> 's scenario_prog" where
  "whole m s = (case m s of None \<Rightarrow> None | Some (r, s') \<Rightarrow> Some (whole_outcome r, s'))"

definition jint :: "int \<Rightarrow> json" where
  "jint n = JNum (itoa_int n)"

definition jdur :: "int \<Rightarrow> json" where
  "jdur d = JStr (Duration_String d)"

text \<open>\<open>Duration.Milliseconds\<close> and \<open>Duration.Seconds\<close>; integer division truncates.\<close>

definition Milliseconds :: "int \<Rightarrow> int" where
  "Milliseconds d = sgn d * (\<bar>d\<bar> div 10 ^ 6)"

definition Seconds :: "int \<Rightarrow> rat" where
  "Seconds d = flr (flr (of_int (sgn d * (\<bar>d\<bar> div 10 ^ 9))) + flr (flr (of_int (sgn d * (\<bar>d\<bar> mod 10 ^ 9))) / 10 ^ 9))"

text \<open>One byte over a connection, timed.\<close>

definition one_byte ::
  "('c, 's) perf_net \<Rightarrow> 'c \<Rightarrow> char \<Rightarrow> int \<Rightarrow> params \<Rightarrow> (TrafficMetrics \<times> params, 's) prog" where
  "one_byte N c payload idle params =
     pbind (pread (pn_now N)) (\<lambda>rttStart.
     pbind (writeRead N c (bytes_of [payload])) (\<lambda>got.
     pbind (pread (\<lambda>s. pn_now N s - rttStart)) (\<lambda>rtt.
       if got \<noteq> bytes_of [payload] then pfail (ErrText ''echo mismatch'')
       else pbind (pdo (pn_close N c)) (\<lambda>_.
         pret (zero_traffic\<lparr>tr_BytesSent := 1, tr_BytesReceived := 1, tr_ExpectedBytes := 1, tr_Connections := 1,
                 tr_Requests := 1, tr_IdleMillis := idle, tr_RTTMillis := Milliseconds rtt\<rparr>, params)))))"

definition runOneByteActive ::
  "('c, 's) perf_net \<Rightarrow> string \<Rightarrow> perf_Config \<Rightarrow> (TrafficMetrics \<times> params, 's) prog" where
  "runOneByteActive N socksAddr cfg =
     with_echo N (\<lambda>echo. with_conn N socksAddr echo (\<lambda>c. one_byte N c (CHR ''x'') 0 []))"

definition runOneByteAfterIdle ::
  "('c, 's) perf_net \<Rightarrow> string \<Rightarrow> perf_Config \<Rightarrow> (TrafficMetrics \<times> params, 's) prog" where
  "runOneByteAfterIdle N socksAddr cfg =
     (let idle = pc_IdleDuration cfg
      in with_echo N (\<lambda>echo. with_conn N socksAddr echo (\<lambda>c.
           pbind (pcall (pn_sleep N idle)) (\<lambda>_.
             one_byte N c (CHR ''i'') (Milliseconds idle) [(''idle'', jdur idle)]))))"

definition runSmallChattyWrites ::
  "('c, 's) perf_net \<Rightarrow> string \<Rightarrow> perf_Config \<Rightarrow> (TrafficMetrics \<times> params, 's) prog" where
  "runSmallChattyWrites N socksAddr cfg =
     with_echo N (\<lambda>echo. with_conn N socksAddr echo (\<lambda>c.
       pbind (runChattyExchanges N c 0 (pc_ChattyDuration cfg) (pc_ChattyInterval cfg) 100) (\<lambda>(sent, recv, writes).
       pbind (pdo (pn_close N c)) (\<lambda>_.
         pret (zero_traffic\<lparr>tr_BytesSent := sent, tr_BytesReceived := recv, tr_ExpectedBytes := sent,
                 tr_Connections := 1, tr_Requests := int writes\<rparr>,
               [(''writes'', jint (int writes)), (''write_size'', jint 100),
                (''duration'', jdur (pc_ChattyDuration cfg)), (''interval'', jdur (pc_ChattyInterval cfg))])))))"

text \<open>
  The hash and the quotient of the bulk scenario.  An elapsed time of zero makes the
  quotient infinite; what \<open>int64\<close> makes of it is left to the implementation.
\<close>

definition throughput :: "int \<Rightarrow> nat \<Rightarrow> int \<Rightarrow> int" where
  "throughput infInt n elapsed =
     (let secs = Seconds elapsed; q = flr (flr (of_nat n) / secs)
      in if secs = 0 then infInt else if q < 0 then - \<lfloor>- q\<rfloor> else \<lfloor>q\<rfloor>)"

definition run_bulk ::
  "int \<Rightarrow> nat \<Rightarrow> ('c, 's) perf_net \<Rightarrow> string \<Rightarrow> (TrafficMetrics \<times> params, 's) prog" where
  "run_bulk infInt n N socksAddr =
     with_echo N (\<lambda>echo. with_conn N socksAddr echo (\<lambda>c.
       pbind (pread (pn_now N)) (\<lambda>start.
       pbind (writeRead N c (makePattern n)) (\<lambda>got.
       pbind (pread (\<lambda>s. pn_now N s - start)) (\<lambda>elapsed.
         if got \<noteq> makePattern n then pfail (ErrText ''bulk echo mismatch'')
         else pbind (pdo (pn_close N c)) (\<lambda>_.
           pret (zero_traffic\<lparr>tr_BytesSent := of_nat n, tr_BytesReceived := of_nat (length got),
                   tr_ExpectedBytes := of_nat n, tr_SHA256 := hex_encode (sha256 got),
                   tr_Connections := 1, tr_Requests := 1, tr_ThroughputBytes := throughput infInt n elapsed\<rparr>,
                 [(''bytes'', jint (int n))])))))))"

definition runBulkOneMiB ::
  "int \<Rightarrow> ('c, 's) perf_net \<Rightarrow> string \<Rightarrow> perf_Config \<Rightarrow> (TrafficMetrics \<times> params, 's) prog" where
  "runBulkOneMiB infInt N socksAddr cfg = run_bulk infInt (2 ^ 20) N socksAddr"

text \<open>\<open>short-%02d\<close>\<close>

definition short_payload :: "nat \<Rightarrow> bytes" where
  "short_payload i = bytes_of (''short-'' @ zero_pad 2 (itoa i))"

fun short_loop ::
  "nat \<Rightarrow> ('c, 's) perf_net \<Rightarrow> string \<Rightarrow> string \<Rightarrow> nat \<Rightarrow> u64 \<Rightarrow> u64 \<Rightarrow> (u64 \<times> u64, 's) prog" where
  "short_loop 0 N socksAddr echo i sent recv = pret (sent, recv)"
| "short_loop (Suc n) N socksAddr echo i sent recv =
     pbind (with_conn N socksAddr echo (\<lambda>c. writeRead N c (short_payload i))) (\<lambda>got.
       if got \<noteq> short_payload i then pfail (ErrText (''short connection '' @ itoa i @ '' echo mismatch''))
       else short_loop n N socksAddr echo (Suc i) (sent + of_nat (length (short_payload i))) (recv + of_nat (length got)))"

definition runShortConnections ::
  "('c, 's) perf_net \<Rightarrow> string \<Rightarrow> perf_Config \<Rightarrow> (TrafficMetrics \<times> params, 's) prog" where
  "runShortConnections N socksAddr cfg =
     with_echo N (\<lambda>echo.
       pbind (short_loop (nat (pc_ShortConnections cfg)) N socksAddr echo 0 0 0) (\<lambda>(sent, recv).
         pret (zero_traffic\<lparr>tr_BytesSent := sent, tr_BytesReceived := recv, tr_ExpectedBytes := sent,
                 tr_Connections := pc_ShortConnections cfg, tr_Requests := pc_ShortConnections cfg\<rparr>,
               [(''connections'', jint (pc_ShortConnections cfg))])))"

fun open_idle :: "nat \<Rightarrow> ('c, 's) perf_net \<Rightarrow> string \<Rightarrow> string \<Rightarrow> 'c list \<Rightarrow> ('c list, 's) prog" where
  "open_idle 0 N socksAddr echo conns = pret conns"
| "open_idle (Suc n) N socksAddr echo conns =
     pbind (ponerror (openSOCKS N socksAddr echo) (closeAll N conns)) (\<lambda>c.
       open_idle n N socksAddr echo (conns @ [c]))"

definition runConcurrentIdleSessions ::
  "('c, 's) perf_net \<Rightarrow> string \<Rightarrow> perf_Config \<Rightarrow> (TrafficMetrics \<times> params, 's) prog" where
  "runConcurrentIdleSessions N socksAddr cfg =
     with_echo N (\<lambda>echo.
       pbind (open_idle (nat (pc_IdleSessions cfg)) N socksAddr echo []) (\<lambda>conns.
       pbind (ponerror (pcall (pn_sleep N (pc_IdleDuration cfg))) (closeAll N conns)) (\<lambda>_.
       pbind (pdo (closeAll N conns)) (\<lambda>_.
         pret (zero_traffic\<lparr>tr_Connections := pc_IdleSessions cfg, tr_IdleMillis := Milliseconds (pc_IdleDuration cfg)\<rparr>,
               [(''sessions'', jint (pc_IdleSessions cfg)), (''idle'', jdur (pc_IdleDuration cfg))])))))"

section \<open>Mixed traffic\<close>

text \<open>What a goroutine adds: bytes sent and received, connections, requests.\<close>

type_synonym share = "u64 \<times> u64 \<times> int \<times> int"

definition mixed_bulk :: "('c, 's) perf_net \<Rightarrow> string \<Rightarrow> string \<Rightarrow> (share, 's) prog" where
  "mixed_bulk N socksAddr echo =
     with_conn N socksAddr echo (\<lambda>c.
       pbind (echoed N c ''mixed bulk echo mismatch'' (makePattern (256 * 1024))) (\<lambda>got.
         pret (of_nat (256 * 1024), of_nat (length got), 1, 1)))"

definition mixed_chatty :: "('c, 's) perf_net \<Rightarrow> string \<Rightarrow> perf_Config \<Rightarrow> string \<Rightarrow> nat \<Rightarrow> (share, 's) prog" where
  "mixed_chatty N socksAddr cfg echo i =
     with_conn N socksAddr echo (\<lambda>c.
       pbind (runChattyExchanges N c (i + 1) (pc_ChattyDuration cfg) (pc_ChattyInterval cfg) 100)
         (\<lambda>(sent, recv, writes). pret (sent, recv, 1, int writes)))"

definition mixed_idle :: "('c, 's) perf_net \<Rightarrow> string \<Rightarrow> perf_Config \<Rightarrow> string \<Rightarrow> (share, 's) prog" where
  "mixed_idle N socksAddr cfg echo =
     with_conn N socksAddr echo (\<lambda>c.
       pbind (pdo (\<lambda>s. snd (pn_sleep N (pc_IdleDuration cfg) s))) (\<lambda>_. pret (0, 0, 1, 0)))"

fun add_share :: "TrafficMetrics \<Rightarrow> share result \<Rightarrow> TrafficMetrics" where
  "add_share t (Inl e) = t"
| "add_share t (Inr (sent, recv, conns, requests)) =
     t\<lparr>tr_BytesSent := tr_BytesSent t + sent, tr_BytesReceived := tr_BytesReceived t + recv,
       tr_ExpectedBytes := tr_ExpectedBytes t + sent, tr_Connections := tr_Connections t + conns,
       tr_Requests := tr_Requests t + requests\<rparr>"

fun first_share_error :: "share result list \<Rightarrow> err option" where
  "first_share_error [] = None"
| "first_share_error (Inl e # rs) = Some e"
| "first_share_error (Inr x # rs) = first_share_error rs"

definition mixed_outcome :: "perf_Config \<Rightarrow> share result list \<Rightarrow> outcome" where
  "mixed_outcome cfg ended =
     (let traffic = foldl add_share zero_traffic ended
      in case first_share_error ended of
           Some e \<Rightarrow> (traffic, [], Some e)
         | None \<Rightarrow> (traffic,
             [(''bulk_bytes'', jint (256 * 1024)), (''chatty_streams'', jint 3),
              (''chatty_duration'', jdur (pc_ChattyDuration cfg)), (''chatty_interval'', jdur (pc_ChattyInterval cfg)),
              (''idle_streams'', jint 3), (''idle_duration'', jdur (pc_IdleDuration cfg))], None))"

type_synonym 's goroutines = "(share, 's) prog list \<Rightarrow> 's \<Rightarrow> (share result list \<times> 's) option"

definition mixed_tasks :: "('c, 's) perf_net \<Rightarrow> string \<Rightarrow> perf_Config \<Rightarrow> string \<Rightarrow> (share, 's) prog list" where
  "mixed_tasks N socksAddr cfg echo =
     mixed_bulk N socksAddr echo # map (mixed_chatty N socksAddr cfg echo) [0..<3] @
       replicate 3 (mixed_idle N socksAddr cfg echo)"

definition runMixedTraffic ::
  "'s goroutines \<Rightarrow> ('c, 's) perf_net \<Rightarrow> string \<Rightarrow> perf_Config \<Rightarrow> 's scenario_prog" where
  "runMixedTraffic go N socksAddr cfg s =
     (case pn_startEcho N s of
        (Inl e, s1) \<Rightarrow> Some ((zero_traffic, [], Some e), s1)
      | (Inr echo, s1) \<Rightarrow>
          (case go (mixed_tasks N socksAddr cfg echo) s1 of
             None \<Rightarrow> None
           | Some (ended, s2) \<Rightarrow> Some (mixed_outcome cfg ended, pn_stopEcho N s2)))"

section \<open>The list of scenarios\<close>

record ('c, 's) scenario =
  sc_name :: string
  sc_description :: string
  sc_run :: "('c, 's) perf_net \<Rightarrow> string \<Rightarrow> perf_Config \<Rightarrow> 's scenario_prog"

definition scenarios :: "'s goroutines \<Rightarrow> int \<Rightarrow> ('c, 's) scenario list" where
  "scenarios go infInt =
     [\<lparr>sc_name = ''one-byte-echo-active'',
       sc_description = ''Open one SOCKS connection, send one byte, and read one echoed byte without a long idle period.'',
       sc_run = (\<lambda>N a cfg. whole (runOneByteActive N a cfg))\<rparr>,
      \<lparr>sc_name = ''one-byte-echo-after-idle'',
       sc_description = ''Open one SOCKS connection, hold it idle for the configured duration, then send and echo one byte.'',
       sc_run = (\<lambda>N a cfg. whole (runOneByteAfterIdle N a cfg))\<rparr>,
      \<lparr>sc_name = ''small-chatty-writes'',
       sc_description = ''Send ordered 100-byte writes for the configured duration and verify echoed order.'',
       sc_run = (\<lambda>N a cfg. whole (runSmallChattyWrites N a cfg))\<rparr>,
      \<lparr>sc_name = ''bulk-one-mib'',
       sc_description = ''Send and echo one contiguous MiB, verifying SHA-256 and exact byte count.'',
       sc_run = (\<lambda>N a cfg. whole (runBulkOneMiB infInt N a cfg))\<rparr>,
      \<lparr>sc_name = ''short-connections'',
       sc_description = ''Open sequential short SOCKS connections and exchange a small request/response on each.'',
       sc_run = (\<lambda>N a cfg. whole (runShortConnections N a cfg))\<rparr>,
      \<lparr>sc_name = ''concurrent-idle-sessions'',
       sc_description = ''Open idle SOCKS sessions for a bounded period and measure background polling.'',
       sc_run = (\<lambda>N a cfg. whole (runConcurrentIdleSessions N a cfg))\<rparr>,
      \<lparr>sc_name = ''mixed-traffic'',
       sc_description = ''Run one bulk stream, small request/response streams, and idle streams at the same time.'',
       sc_run = runMixedTraffic go\<rparr>]"

definition ScenarioNames :: "('c, 's) scenario list \<Rightarrow> string list" where
  "ScenarioNames scs = map sc_name scs"

text \<open>A later scenario of the same name would replace an earlier one; unknown names are skipped.\<close>

definition selectScenarios :: "('c, 's) scenario list \<Rightarrow> string list \<Rightarrow> ('c, 's) scenario list" where
  "selectScenarios scs names =
     (if names = [] then scs else List.map_filter (map_of (rev (map (\<lambda>sc. (sc_name sc, sc)) scs))) names)"

section \<open>Running a scenario\<close>

text \<open>
  What surrounds a scenario: the store factory and the stores, and the calls that start
  and stop the server and the SOCKS listener of the client.  The store \<open>rw_store\<close> returns
  is the instrumented one.
\<close>

record ('b, 't, 'g, 's) run_world =
  rw_factory :: "(string \<Rightarrow> ('b \<times> string \<times> ('s \<Rightarrow> 's) option) result) option"
  rw_make :: "base_store \<Rightarrow> 'b"
  rw_store :: "'b \<Rightarrow> 't ObjectStore"
  rw_codec :: "PSKCodec \<Rightarrow> 'g Codec"
  rw_runServer :: "('t, 'g) TunnelServer \<Rightarrow> 's \<Rightarrow> 's"
  rw_startSOCKS :: "('t, 'g) TunnelConfig \<Rightarrow> 's \<Rightarrow> string result \<times> 's"
  rw_stopSOCKS :: "'s \<Rightarrow> 's"
  rw_cancel :: "'s \<Rightarrow> 's"

record 's environment =
  env_prefix :: string
  env_provider :: string
  env_socksAddr :: string
  env_stop :: "'s \<Rightarrow> 's"

text \<open>The server runs before the client is made; on an error the context is cancelled.\<close>

definition newEnvironment ::
  "('b, 't, 'g, 's) run_world \<Rightarrow> perf_Config \<Rightarrow> string \<Rightarrow> 's \<Rightarrow> 's environment result \<times> 's" where
  "newEnvironment W cfg scenarioName s =
     (case scenarioStore (rw_factory W) (rw_make W) cfg scenarioName of
        Inl e \<Rightarrow> (Inl e, rw_cancel W s)
      | Inr (base, provider, cleanup) \<Rightarrow>
          (case ebind mustCodec (\<lambda>pc. Inr (scenario_tunnel cfg scenarioName (rw_store W base) (rw_codec W pc))) of
             Inl e \<Rightarrow> (Inl e, s)
           | Inr tcfg \<Rightarrow>
               (case scenario_server tcfg cfg of
                  Inl e \<Rightarrow> (Inl e, rw_cancel W s)
                | Inr srv \<Rightarrow>
                    (let s1 = rw_runServer W srv s
                     in case NewClient tcfg True True of
                       Inl e \<Rightarrow> (Inl e, rw_cancel W s1)
                     | Inr client \<Rightarrow>
                         (case rw_startSOCKS W client s1 of
                            (Inl e, s2) \<Rightarrow> (Inl e, rw_cancel W s2)
                          | (Inr addr, s2) \<Rightarrow>
                              (Inr \<lparr>env_prefix = cfg_Prefix tcfg, env_provider = provider, env_socksAddr = addr,
                                 env_stop = (\<lambda>s. (case cleanup of None \<Rightarrow> id | Some f \<Rightarrow> f)
                                   (rw_cancel W (rw_stopSOCKS W s)))\<rparr>, s2))))))"

definition zero_derived :: DerivedMetrics where
  "zero_derived = \<lparr>dm_TotalObjectStoreOps = 0, dm_S3OperationsPerSession = 0, dm_S3OperationsPerMiB = 0,
     dm_GetMissesPerReceivedData = 0, dm_HeadOperationsPerSession = 0, dm_ListOperationsPerOpenSession = 0,
     dm_AckGetPerDataPut = 0, dm_AckPutPerReceivedData = 0, dm_SealedPlaintextSizeRatio = 0\<rparr>"

definition failed_result :: "string \<Rightarrow> string \<Rightarrow> err \<Rightarrow> ScenarioResult" where
  "failed_result name descr e =
     \<lparr>sr_Name = name, sr_Description = descr, sr_Status = ''failed'', sr_Error = err_text e, sr_Parameters = None,
      sr_DurationMillis = 0, sr_Traffic = zero_traffic, sr_SessionMetrics = sessionMetrics zero_Stats,
      sr_ObjectStoreMetrics = [], sr_DerivedMetrics = zero_derived, sr_Observations = []\<rparr>"

definition scenario_result ::
  "string \<Rightarrow> string \<Rightarrow> outcome \<Rightarrow> int \<Rightarrow> Stats \<Rightarrow> OperationMetrics list \<Rightarrow> ScenarioResult" where
  "scenario_result name descr oc dur snap storeSnap =
     (case oc of (traffic, params, e) \<Rightarrow>
        \<lparr>sr_Name = name, sr_Description = descr,
         sr_Status = (if e = None then ''passed'' else ''failed''),
         sr_Error = (case e of None \<Rightarrow> [] | Some x \<Rightarrow> err_text x), sr_Parameters = Some params,
         sr_DurationMillis = Milliseconds dur, sr_Traffic = traffic, sr_SessionMetrics = sessionMetrics snap,
         sr_ObjectStoreMetrics = storeSnap, sr_DerivedMetrics = deriveMetrics traffic snap storeSnap,
         sr_Observations = observations storeSnap\<rparr>)"

definition runOneScenario ::
  "('b, 't, 'g, 's) run_world \<Rightarrow> ('c, 's) perf_net \<Rightarrow> perf_Config \<Rightarrow> ('c, 's) scenario \<Rightarrow> 's
     \<Rightarrow> (ScenarioResult \<times> 's) option" where
  "runOneScenario W N cfg sc s =
     (case newEnvironment W cfg (sc_name sc) s of
        (Inl e, s1) \<Rightarrow> Some (failed_result (sc_name sc) (sc_description sc) e, s1)
      | (Inr env, s1) \<Rightarrow>
          (case sc_run sc N (env_socksAddr env) cfg s1 of
             None \<Rightarrow> None
           | Some (oc, s2) \<Rightarrow>
               (case waitForSessions N (tr_Connections (fst oc)) (pc_PollMax cfg) s2 of
                  None \<Rightarrow> None
                | Some s3 \<Rightarrow>
                    Some (scenario_result (sc_name sc) (sc_description sc) oc (pn_now N s3 - pn_now N s)
                            (Stats_Snapshot (Some (pn_stats N s3))) (Snapshot (pn_collector N s3)),
                          env_stop env s3))))"

section \<open>A run\<close>

fun run_all ::
  "('b, 't, 'g, 's) run_world \<Rightarrow> ('c, 's) perf_net \<Rightarrow> perf_Config \<Rightarrow> ('c, 's) scenario list \<Rightarrow> 's
     \<Rightarrow> (ScenarioResult list \<times> 's) option" where
  "run_all W N cfg [] s = Some ([], s)"
| "run_all W N cfg (sc # scs) s =
     (case runOneScenario W N cfg sc s of
        None \<Rightarrow> None
      | Some (r, s1) \<Rightarrow>
          (case run_all W N cfg scs s1 of
             None \<Rightarrow> None
           | Some (rs, s2) \<Rightarrow> Some (r # rs, s2)))"

text \<open>The time of the run and what the runtime says of itself.\<close>

record run_host =
  rh_now :: gotime
  rh_GoVersion :: string
  rh_OS :: string
  rh_Arch :: string

definition run_result :: "run_host \<Rightarrow> perf_Config \<Rightarrow> ScenarioResult list \<Rightarrow> RunResult" where
  "run_result host cfg rs =
     \<lparr>rr_SchemaVersion = 1, rr_Timestamp = rh_now host, rr_GitCommit = pc_GitCommit cfg,
      rr_DirtyWorktree = pc_DirtyWorktree cfg, rr_GoVersion = rh_GoVersion host, rr_OS = rh_OS host,
      rr_Arch = rh_Arch host, rr_Profile = pc_Profile cfg, rr_Provider = pc_Provider cfg,
      rr_Config = protocol_config cfg, rr_Scenarios = rs\<rparr>"

definition run_error :: "ScenarioResult list \<Rightarrow> err option" where
  "run_error rs =
     (let bad = map sr_Name (filter (\<lambda>r. sr_Status r \<noteq> ''passed'') rs)
      in if bad = [] then None
         else Some (ErrText (''performance scenarios failed: ['' @ join '' '' bad @ '']'')))"

definition Run ::
  "('b, 't, 'g, 's) run_world \<Rightarrow> ('c, 's) perf_net \<Rightarrow> run_host \<Rightarrow> ('c, 's) scenario list \<Rightarrow> perf_Config \<Rightarrow> 's
     \<Rightarrow> ((RunResult \<times> err option) \<times> 's) option" where
  "Run W N host scs cfg0 s =
     (let cfg = normalizeConfig cfg0
      in case run_all W N cfg (selectScenarios scs (pc_ScenarioNames cfg)) s of
           None \<Rightarrow> None
         | Some (rs, s') \<Rightarrow> Some ((run_result host cfg rs, run_error rs), s'))"

section \<open>The two listeners\<close>

text \<open>
  \<open>io.Copy\<close> of a connection to itself, all that arrives until its end, and the loop of the
  echo server over what \<open>Accept\<close> yields, up to its first error.
\<close>

definition echo_conn :: "conn \<Rightarrow> conn" where
  "echo_conn c = (snd (Write (cn_in c) (c\<lparr>cn_in := []\<rparr>)))\<lparr>cn_closed := True\<rparr>"

fun echo_accepts :: "conn result list \<Rightarrow> conn list" where
  "echo_accepts (Inr c # accepts) = echo_conn c # echo_accepts accepts"
| "echo_accepts (Inl e # accepts) = []"
| "echo_accepts [] = []"

text \<open>The address of a listener on the loopback interface, or its error, and what it serves.\<close>

definition startEcho :: "string result \<Rightarrow> conn result list \<Rightarrow> (string \<times> conn list) result" where
  "startEcho listen accepts = ebind listen (\<lambda>addr. Inr (addr, echo_accepts accepts))"

definition startSOCKS ::
  "ConnectHandler \<Rightarrow> string result \<Rightarrow> (conn result \<times> err option) list \<Rightarrow> (string \<times> conn list \<times> err option) result" where
  "startSOCKS handler listen accepts = ebind listen (\<lambda>addr. Inr (addr, Serve (Some handler) accepts))"

lemma echo_conn_echoes: "cn_write_err c = None \<Longrightarrow> cn_out (echo_conn c) = cn_out c @ cn_in c"
  by (simp add: echo_conn_def Write_def)

text \<open>Results of the same name keep their order here; \<open>sort.Slice\<close> leaves it open.\<close>

definition SortScenarioResults :: "RunResult \<Rightarrow> RunResult" where
  "SortScenarioResults r = r\<lparr>rr_Scenarios := sort_key sr_Name (rr_Scenarios r)\<rparr>"

end
