(* ===== verification/PerfCmd.thy ===== *)
theory PerfCmd
  imports PerfRun Doctor
begin

text \<open>
  \<open>cmd/s3s5-perf/main.go\<close>: from flags and environment to the configuration of a run, the
  store factory of the profile \<open>real-s3\<close> and its clean-up.  The parsing of the command
  line is a parameter, a function on the flags with the names it has seen; the output
  of \<open>git\<close>, the random bytes and the files are parameters or left out.  The helpers
  that read the environment are those of the theory CommonConfig, which the command
  repeats.

  The lemmas show what the clean-up of a run against a bucket removes.
\<close>

record perf_flags =
  pf_Provider :: string
  pf_Bucket :: string
  pf_Prefix :: string
  pf_Region :: string
  pf_Endpoint :: string
  pf_ForcePathStyle :: bool
  pf_Scenarios :: "string list"
  pf_Out :: string
  pf_Timeout :: int
  pf_OptIn :: bool
  pf_Config :: perf_Config

text \<open>The values of the flags before the command line is read.\<close>

definition default_perf_flags :: "environ \<Rightarrow> perf_flags" where
  "default_perf_flags env =
     (let cfg = DefaultConfig ProfileMemory
      in \<lparr>pf_Provider = getenv env ''S3S5_PROVIDER'' [], pf_Bucket = getenv env ''S3S5_BUCKET'' [],
          pf_Prefix = getenv env ''S3S5_PREFIX'' ''s3s5'',
          pf_Region = firstEnv env [''S3S5_REGION'', ''AWS_REGION'', ''us-east-1''],
          pf_Endpoint = getenv env ''S3S5_ENDPOINT'' [],
          pf_ForcePathStyle = getenvBool env ''S3S5_FORCE_PATH_STYLE'' False,
          pf_Scenarios = [], pf_Out = ''benchmarks/results/local/perf.json'', pf_Timeout = 120 * second,
          pf_OptIn = False,
          pf_Config = cfg\<lparr>pc_Profile := ProfileMemory, pc_Delay := no_delay\<lparr>Seed := 1\<rparr>\<rparr>\<rparr>)"

definition scenarioFlags_Set :: "string \<Rightarrow> string list \<Rightarrow> string list" where
  "scenarioFlags_Set v s = s @ [v]"

definition scenarioFlags_String :: "string list \<Rightarrow> string" where
  "scenarioFlags_String s = join '','' s"

text \<open>What \<open>git\<close> printed, or its error.\<close>

definition gitCommit :: "string result \<Rightarrow> string" where
  "gitCommit out = (case out of Inl _ \<Rightarrow> ''unknown'' | Inr v \<Rightarrow> trimSpace v)"

definition dirtyWorktree :: "string result \<Rightarrow> bool" where
  "dirtyWorktree out = (case out of Inl _ \<Rightarrow> True | Inr v \<Rightarrow> trimSpace v \<noteq> [])"

text \<open>The prefix of everything a run against a bucket writes; \<open>b\<close> is what \<open>randomHex\<close> drew.\<close>

definition bench_name :: "bytes \<Rightarrow> string" where
  "bench_name b = ''bench-'' @ hex_encode b"

definition bench_root :: "string \<Rightarrow> bytes \<Rightarrow> string" where
  "bench_root pfx b = NormalizePrefix pfx @ ''/'' @ bench_name b"

definition perf_s3_config :: "perf_flags \<Rightarrow> S3Config" where
  "perf_s3_config flags =
     \<lparr>s3_Provider = pf_Provider flags, s3_Bucket = pf_Bucket flags, s3_Region = pf_Region flags,
      s3_Endpoint = pf_Endpoint flags, s3_ForcePathStyle = pf_ForcePathStyle flags,
      s3_AccessKeyID = [], s3_SecretAccessKey = [], s3_SessionToken = []\<rparr>"

definition scenario_prefix :: "string \<Rightarrow> string \<Rightarrow> string" where
  "scenario_prefix base scenarioName = base @ ''/'' @ scenarioName @ ''/''"

text \<open>
  The store factory: the settings of the store, its provider, and the prefix its
  clean-up removes.
\<close>

definition real_factory :: "environ \<Rightarrow> perf_flags \<Rightarrow> string \<Rightarrow> string \<Rightarrow> (S3Config \<times> string \<times> string option) result" where
  "real_factory env flags base scenarioName =
     ebind (s3_New env (perf_s3_config flags)) (\<lambda>c.
       Inr (c, pf_Provider flags, Some (scenario_prefix base scenarioName)))"

definition perf_cleanup :: "nat \<Rightarrow> 's ObjectStore \<Rightarrow> string \<Rightarrow> 's \<Rightarrow> ((nat \<times> err option) \<times> 's) option" where
  "perf_cleanup fuel S pfx s = DeletePrefix fuel S None pfx s"

text \<open>
  The configuration and the factory of a run, or the error the command ends with; a
  failing random source is a panic.
\<close>

definition perf_setup ::
  "environ \<Rightarrow> (perf_flags \<Rightarrow> perf_flags) \<Rightarrow> (string \<Rightarrow> bool) \<Rightarrow> string result \<Rightarrow> string result \<Rightarrow> bytes result
     \<Rightarrow> (perf_Config \<times> (string \<Rightarrow> (S3Config \<times> string \<times> string option) result) option) result" where
  "perf_setup env parse seen hd_out st_out rnd =
     (let flags = parse (default_perf_flags env); cfg0 = pf_Config flags;
          cfg = (mergeProfileDefaults cfg0 (DefaultConfig (pc_Profile cfg0)) seen)
            \<lparr>pc_ScenarioNames := pf_Scenarios flags, pc_GitCommit := gitCommit hd_out, pc_DirtyWorktree := dirtyWorktree st_out\<rparr>
      in if pc_Profile cfg = ProfileRealS3 then
           if \<not> pf_OptIn flags \<and> env ''S3S5_PERF_REAL_S3'' \<noteq> ''1''
           then Inl (ErrText ''real-s3 profile requires --real-s3-opt-in or S3S5_PERF_REAL_S3=1'')
           else if pf_Bucket flags = []
           then Inl (ErrText ''--bucket or S3S5_BUCKET is required for real-s3 profile'')
           else ebind rnd (\<lambda>b.
             let base = bench_root (pf_Prefix flags) b
             in Inr (cfg\<lparr>pc_PrefixBase := base, pc_Provider := pf_Provider flags\<rparr>, Some (real_factory env flags base)))
         else Inr (cfg, None))"

section \<open>Which bucket a run may use\<close>

text \<open>
  A run is set up against a bucket only for the profile \<open>real-s3\<close>, with the consent of
  the flag or the environment and a bucket named, and then everything it writes is under
  a prefix drawn for this run; every other profile stays in memory.
\<close>

theorem perf_setup_real_only_with_consent:
  assumes "perf_setup env parse seen hd_out st_out rnd = Inr (cfg, factory)"
  shows "let flags = parse (default_perf_flags env)
    in (factory \<noteq> None \<longleftrightarrow> pc_Profile cfg = ProfileRealS3) \<and>
       (pc_Profile cfg = ProfileRealS3 \<longrightarrow>
          (pf_OptIn flags \<or> env ''S3S5_PERF_REAL_S3'' = ''1'') \<and> pf_Bucket flags \<noteq> [] \<and>
          (\<exists>b. rnd = Inr b \<and> pc_PrefixBase cfg = bench_root (pf_Prefix flags) b \<and>
               factory = Some (real_factory env flags (bench_root (pf_Prefix flags) b))))"
  using assms
  by (auto simp: perf_setup_def Let_def ebind_eq_Inr split: if_splits)

theorem perf_setup_real_only_with_consent_witness:
  "\<exists>cfg. perf_setup (\<lambda>v. if v = ''S3S5_BUCKET'' then ''b'' else [])
      (\<lambda>flags. flags\<lparr>pf_OptIn := True, pf_Config := (pf_Config flags)\<lparr>pc_Profile := ProfileRealS3\<rparr>\<rparr>) (\<lambda>_. False)
      (Inl IoEOF) (Inr []) (Inr [7]) = Inr cfg \<and> pc_PrefixBase (fst cfg) = ''s3s5/bench-07''"
proof -
  let ?env = "\<lambda>v. if v = ''S3S5_BUCKET'' then ''b'' else []"
  let ?parse = "\<lambda>flags. flags\<lparr>pf_OptIn := True, pf_Config := (pf_Config flags)\<lparr>pc_Profile := ProfileRealS3\<rparr>\<rparr>"
  have flags: "pf_Bucket (default_perf_flags ?env) = ''b''" "pf_Prefix (default_perf_flags ?env) = ''s3s5''"
    by (simp_all add: default_perf_flags_def Let_def getenv_def)
  have "\<exists>cfg factory. perf_setup ?env ?parse (\<lambda>_. False) (Inl IoEOF) (Inr []) (Inr [7]) = Inr (cfg, factory) \<and>
      pc_Profile cfg = ProfileRealS3"
    by (simp add: perf_setup_def Let_def flags mergeProfileDefaults_def ProfileRealS3_def)
  then obtain cfg factory where
    c: "perf_setup ?env ?parse (\<lambda>_. False) (Inl IoEOF) (Inr []) (Inr [7]) = Inr (cfg, factory)" "pc_Profile cfg = ProfileRealS3"
    by blast
  have "bench_root ''s3s5'' [7] = ''s3s5/bench-07''"
    by code_simp
  then show ?thesis
    using perf_setup_real_only_with_consent [OF c(1)] c flags by (auto simp: Let_def)
qed

section \<open>What the clean-up removes\<close>

lemma hex_encode_inject: "hex_encode a = hex_encode b \<longleftrightarrow> a = b"
proof (induction a arbitrary: b)
  case Nil
  then show ?case by (cases b) (simp_all add: hex_encode_def)
next
  case (Cons x a)
  have d: "unat w div 16 < 16" for w :: byte
    using unsigned_less [where ?'a = nat, of w] by (simp add: less_mult_imp_div_less)
  have digit: "hex_digit m = hex_digit n \<longleftrightarrow> m = n" if "m < 16" "n < 16" for m n
    using that hex_digit_val_digit by metis
  have byte: "x = y" if "unat x div 16 = unat y div 16" "unat x mod 16 = unat y mod 16" for y
    using that by (metis div_mult_mod_eq word_unat_eq_iff)
  show ?case
  proof (cases b)
    case (Cons y c)
    have "hex_encode (x # a) = hex_encode (y # c) \<longleftrightarrow>
        hex_digit (unat x div 16) = hex_digit (unat y div 16) \<and> hex_digit (unat x mod 16) = hex_digit (unat y mod 16) \<and>
        hex_encode a = hex_encode c"
      by (simp add: hex_encode_def)
    then show ?thesis
      using Cons Cons.IH [of c] byte by (auto simp: digit d)
  qed (simp add: hex_encode_def)
qed

text \<open>The prefix of a scenario of a run, as its keys are built on it.\<close>

definition bench_prefix :: "string \<Rightarrow> bytes \<Rightarrow> string \<Rightarrow> string" where
  "bench_prefix pfx b sc = bench_root pfx b @ ''/'' @ sc"

lemma NormalizePrefix_bench:
  assumes "plain_comp sc"
  shows "NormalizePrefix (bench_prefix pfx b sc) = bench_prefix pfx b sc"
proof -
  have "hd (bench_prefix pfx b sc) \<noteq> CHR ''/''"
    using NormalizePrefix_hd [of pfx] NormalizePrefix_nonempty [of pfx]
    by (simp add: bench_prefix_def bench_root_def)
  moreover have "last sc \<noteq> CHR ''/''" "sc \<noteq> []"
    using assms by (metis last_in_set plain_comp_def, simp add: plain_comp_def)
  then have "last (bench_prefix pfx b sc) \<noteq> CHR ''/''"
    by (simp add: bench_prefix_def)
  ultimately have "trim (bench_prefix pfx b sc) ''/'' = bench_prefix pfx b sc"
    by (intro trim_id) simp_all
  then show ?thesis
    by (simp add: NormalizePrefix_def Let_def bench_prefix_def)
qed

lemma hex_digits_byte: "unat (w :: byte) div 16 < 16" "unat w mod 16 < 16"
  using unsigned_less [where ?'a = nat, of w] by (simp_all add: less_mult_imp_div_less)

lemma plain_bench: "plain_comp (bench_name b)"
proof -
  have "CHR ''/'' \<notin> set (hex_encode b)"
    using hex_digit_not_slash [OF hex_digits_byte(1)] hex_digit_not_slash [OF hex_digits_byte(2)]
    by (force simp: hex_encode_def)
  then show ?thesis
    by (simp add: plain_comp_def bench_name_def)
qed

lemma splitc_bench:
  assumes "plain_comp sc"
  shows "splitc (CHR ''/'') (bench_prefix pfx b sc) =
    splitc (CHR ''/'') (NormalizePrefix pfx) @ [bench_name b, sc]"
proof -
  have "bench_prefix pfx b sc = NormalizePrefix pfx @ CHR ''/'' # bench_name b @ CHR ''/'' # sc"
    by (simp add: bench_prefix_def bench_root_def)
  then show ?thesis
    using plain_compD(2) [OF plain_bench] plain_compD(2) [OF assms]
    by (simp only: splitc_append_sep splitc_no_occ append_Cons append_Nil simp_thms)
qed

lemma prefix_comps_bench:
  assumes "plain_comp sc"
  shows "prefix_comps (bench_prefix pfx b sc) = prefix_comps pfx @ [bench_name b, sc]"
  unfolding prefix_comps_def [of "bench_prefix pfx b sc"] NormalizePrefix_bench [OF assms] splitc_bench [OF assms]
  using assms plain_bench by (subst clean_comps_append_plain) (auto simp: prefix_comps_def)

text \<open>The prefix of a run is a clean path exactly when the configured one is.\<close>

lemma bench_clean:
  assumes "plain_comp sc"
  shows "join ''/'' (prefix_comps (bench_prefix pfx b sc)) = NormalizePrefix (bench_prefix pfx b sc) \<longleftrightarrow>
    join ''/'' (prefix_comps pfx) = NormalizePrefix pfx"
proof -
  define T where "T = join ''/'' [bench_name b, sc]"
  have b: "bench_prefix pfx b sc = NormalizePrefix pfx @ ''/'' @ T"
    by (simp add: bench_prefix_def bench_root_def T_def)
  show ?thesis
  proof (cases "prefix_comps pfx = []")
    case True
    have "T \<noteq> NormalizePrefix pfx @ ''/'' @ T"
      using arg_cong [of T "NormalizePrefix pfx @ ''/'' @ T" length] by auto
    then have "join ''/'' (prefix_comps (bench_prefix pfx b sc)) \<noteq> NormalizePrefix (bench_prefix pfx b sc)"
      unfolding NormalizePrefix_bench [OF assms] prefix_comps_bench [OF assms] True append_Nil T_def [symmetric]
      by (simp only: b not_False_eq_True)
    then show ?thesis
      using True NormalizePrefix_nonempty [of pfx] by simp
  next
    case False
    then have "join ''/'' (prefix_comps pfx @ [bench_name b, sc]) = join ''/'' (prefix_comps pfx) @ ''/'' @ T"
      unfolding T_def by (rule join_append) simp
    then show ?thesis
      unfolding NormalizePrefix_bench [OF assms] prefix_comps_bench [OF assms]
      by (simp only: b append_same_eq)
  qed
qed

text \<open>Keys built under another random name are outside the prefix that is removed.\<close>

lemma append_shorter:
  "xs @ ys = zs @ ws \<Longrightarrow> length xs \<le> length zs \<Longrightarrow> \<exists>u. zs = xs @ u \<and> ys = u @ ws"
  by (auto simp: append_eq_append_conv2)

lemma foreign_bench_key:
  assumes "plain_comp sc" and "plain_comp sc'" and "wf_object ob" and "b' \<noteq> b"
  shows "\<not> hasPrefix (object_key (bench_prefix pfx b' sc') ob) (bench_prefix pfx b sc @ ''/'')"
proof
  let ?n = "splitc (CHR ''/'') (NormalizePrefix pfx)" and ?pc = "prefix_comps pfx" and ?ps = "object_parts ob"
  assume "hasPrefix (object_key (bench_prefix pfx b' sc') ob) (bench_prefix pfx b sc @ ''/'')"
  then obtain t where "object_key (bench_prefix pfx b' sc') ob = bench_prefix pfx b sc @ CHR ''/'' # t"
    by (auto simp: hasPrefix_iff)
  then have e: "?pc @ [bench_name b', sc'] @ ?ps = ?n @ [bench_name b, sc] @ splitc (CHR ''/'') t"
    using splitc_object_key [OF assms(3), of "bench_prefix pfx b' sc'"]
    by (simp add: splitc_append_sep prefix_comps_bench [OF assms(2)] splitc_bench [OF assms(1)])
  have "length ?pc \<le> length ?n"
    unfolding prefix_comps_def by (rule length_clean_comps)
  then obtain u where u: "?n = ?pc @ u" "[bench_name b', sc'] @ ?ps = u @ [bench_name b, sc] @ splitc (CHR ''/'') t"
    using append_shorter [OF e] by blast
  have "x \<in> set ([bench_name b', sc'] @ ?ps)" if "x \<in> set u" for x
    unfolding u(2) using that by simp
  then have plain: "plain_comp x" if "x \<in> set u" for x
    using that object_parts_plain [OF assms(3), of x] plain_bench assms(2) by fastforce
  have "?pc = clean_comps False (?pc @ u)"
    by (simp only: u(1) [symmetric]) (simp add: prefix_comps_def)
  also have "\<dots> = ?pc @ u"
    using plain by (simp add: clean_comps_append_plain clean_form_fix [OF clean_form_prefix_comps])
  finally have "u = []"
    by simp
  then have "bench_name b' = bench_name b"
    using u(2) by simp
  then show False
    using assms(4) by (simp add: bench_name_def hex_encode_inject)
qed


definition bench_example :: mem_store where
  "bench_example = \<lparr>ms_objects =
     [(object_key (bench_prefix ''/pre'' [7] ''mixed-traffic'') (OpenObj ''ab''), \<lparr>mo_data = [2], mo_metadata = []\<rparr>),
      (object_key (bench_prefix ''/pre'' [8] ''mixed-traffic'') (OpenObj ''ab''), \<lparr>mo_data = [3], mo_metadata = []\<rparr>)]\<rparr>"


end
