(* ===== verification/GoFloat.thy ===== *)
theory GoFloat
  imports GoDuration Json
begin

text \<open>
  How \<open>encoding/json\<close> writes and reads a \<open>float64\<close>: the shortest decimal that reads back
  as the number, plain or with an exponent, and the reading of a JSON number.  As in the
  theory GoTime a double is a rational of 53 significant bits, neither subnormal nor
  negative zero; a number too large for a double is an error.

  The main lemma is that what is written reads back.
\<close>

section \<open>Writing\<close>

text \<open>
  The digits are searched from the coarsest rounding to a power of ten down to the one
  with as many places as the double has bits below the point, which is exact: the first
  that reads back is the shortest.  The result is in units of \<open>10 ^ - p\<close>.
\<close>

definition float_places :: "rat \<Rightarrow> nat" where
  "float_places x = nat (fl_scale x)"

fun shortest :: "nat \<Rightarrow> nat \<Rightarrow> rat \<Rightarrow> nat" where
  "shortest p 0 x = nat (half_even (x * 10 ^ p))"
| "shortest p (Suc n) x =
     (let v = nat (half_even (x * 10 ^ p / 10 ^ Suc n)) * 10 ^ Suc n
      in if flr (of_nat v / 10 ^ p) = x then v else shortest p n x)"

definition shortest_units :: "rat \<Rightarrow> nat" where
  "shortest_units x = shortest (float_places x) (float_places x + length (itoa (nat \<lfloor>x\<rfloor>))) x"

definition float_plain :: "rat \<Rightarrow> string" where
  "float_plain x =
     (let p = float_places x; v = shortest_units x in itoa (v div 10 ^ p) @ dur_frac p (v mod 10 ^ p))"

definition float_exp :: "rat \<Rightarrow> string" where
  "float_exp x =
     (let s = itoa (shortest_units x); ds = trimRight s ''0''; e = int (length s) - 1 - int (float_places x)
      in hd ds # (if tl ds = [] then [] else CHR ''.'' # tl ds) @ CHR ''e'' #
         (if e < 0 then CHR ''-'' else CHR ''+'') # itoa (nat \<bar>e\<bar>))"

definition float_text :: "rat \<Rightarrow> string" where
  "float_text x =
     (let a = \<bar>x\<bar>
      in if a = 0 then ''0''
         else (if x < 0 then ''-'' else []) @
           (if a < flr (1 / 10 ^ 6) \<or> 10 ^ 21 \<le> a then float_exp a else float_plain a))"

section \<open>Reading\<close>

definition exp_val :: "string \<Rightarrow> int" where
  "exp_val s =
     (if hasPrefix s ''-'' then - int (digits_val (tl s))
      else if hasPrefix s ''+'' then int (digits_val (tl s)) else int (digits_val s))"

text \<open>A number of valid syntax: sign, digits, fraction, exponent.\<close>

definition float_limit :: rat where
  "float_limit = 2 ^ 1024"

definition parse_float :: "string \<Rightarrow> rat option" where
  "parse_float s =
     (let s1 = (if hasPrefix s ''-'' then tl s else s);
          ip = takeWhile is_digit s1; s2 = dropWhile is_digit s1;
          fp = (if hasPrefix s2 ''.'' then takeWhile is_digit (tl s2) else []);
          s3 = (if hasPrefix s2 ''.'' then dropWhile is_digit (tl s2) else s2);
          e = (if s3 = [] then 0 else exp_val (tl s3));
          r = flr (of_nat (digits_val (ip @ fp)) * 10 powi (e - int (length fp)))
      in if r < float_limit then Some (if hasPrefix s ''-'' then - r else r) else None)"

section \<open>What is written reads back\<close>

definition double :: "rat \<Rightarrow> bool" where
  "double x \<longleftrightarrow> flr x = x \<and> \<bar>x\<bar> < float_limit"

lemma flr_uminus: "flr (- x) = - flr x"
  by (simp add: flr_def fl_def)

lemma double_abs: "double x \<Longrightarrow> double \<bar>x\<bar>"
  by (simp add: double_def abs_if flr_uminus)

lemma shortest_reads:
  assumes "flr x = x" and "x * 10 ^ p = of_nat m"
  shows "flr (of_nat (shortest p n x) / 10 ^ p) = x"
proof (induction n)
  case 0
  have "half_even (of_nat m) = int m"
    using half_even_int [of "int m"] by simp
  moreover have "of_nat m / 10 ^ p = x"
    using assms(2) by (simp add: field_simps)
  ultimately show ?case
    using assms by simp
qed (simp add: Let_def)

lemma scaled_nat:
  assumes "0 < x" and "flr x = x"
  obtains m where "x * 10 ^ float_places x = of_nat m"
proof -
  define k where "k = fl_scale x"
  have x: "x = of_int (half_even (x * 2 powi k)) / 2 powi k"
    using assms fl_scaled [of x] by (simp add: flr_def k_def)
  have "\<exists>i. x * 10 ^ float_places x = of_int i"
  proof (cases "0 \<le> k")
    case True
    then have "(2 :: rat) powi k = 2 ^ float_places x"
      by (simp add: float_places_def k_def power_int_def)
    moreover have "(10 :: rat) ^ float_places x = 5 ^ float_places x * 2 ^ float_places x"
      by (simp flip: power_mult_distrib)
    ultimately have "x * 10 ^ float_places x = of_int (half_even (x * 2 powi k) * 5 ^ float_places x)"
      using x by (simp add: field_simps)
    then show ?thesis ..
  next
    case False
    then have "(2 :: rat) powi k = 1 / 2 ^ nat (- k)" "float_places x = 0"
      by (simp_all add: power_int_def float_places_def k_def inverse_eq_divide power_one_over)
    then have "x * 10 ^ float_places x = of_int (half_even (x * 2 powi k) * 2 ^ nat (- k))"
      using x by simp
    then show ?thesis ..
  qed
  then obtain i where i: "x * 10 ^ float_places x = of_int i" ..
  moreover from this have "0 \<le> i"
    using assms(1) by (metis less_imp_le of_int_0_le_iff zero_le_mult_iff zero_le_power zero_le_numeral)
  ultimately show ?thesis
    using that [of "nat i"] by simp
qed

lemma shortest_units_reads:
  assumes "0 < x" and "flr x = x"
  shows "flr (of_nat (shortest_units x) / 10 ^ float_places x) = x" and "0 < shortest_units x"
proof -
  obtain m where "x * 10 ^ float_places x = of_nat m"
    using scaled_nat [OF assms] .
  then show r: "flr (of_nat (shortest_units x) / 10 ^ float_places x) = x"
    unfolding shortest_units_def by (intro shortest_reads assms(2))
  then show "0 < shortest_units x"
    using assms(1) by (cases "shortest_units x = 0") (auto simp: flr_def fl_def)
qed

text \<open>A number in its parts: whole digits, fraction and exponent.\<close>

definition frac_part :: "string \<Rightarrow> string" where
  "frac_part ds = (if ds = [] then [] else CHR ''.'' # ds)"

definition exp_part :: "int option \<Rightarrow> string" where
  "exp_part e =
     (case e of None \<Rightarrow> []
      | Some i \<Rightarrow> CHR ''e'' # (if i < 0 then CHR ''-'' else CHR ''+'') # itoa (nat \<bar>i\<bar>))"

definition exp_of :: "int option \<Rightarrow> int" where
  "exp_of e = (case e of None \<Rightarrow> 0 | Some i \<Rightarrow> i)"

lemma digit_not_sign: "is_digit c \<Longrightarrow> c \<noteq> CHR ''-'' \<and> c \<noteq> CHR ''+'' \<and> c \<noteq> CHR ''.'' \<and> c \<noteq> CHR ''e''"
  by (auto simp: is_digit_def less_eq_char_def)

lemma exp_val_part: "exp_val ((if i < 0 then CHR ''-'' else CHR ''+'') # itoa (nat \<bar>i\<bar>)) = i"
  by (simp add: exp_val_def hasPrefix_def)

lemma exp_part_cases: "exp_part e = [] \<or> (\<exists>t. exp_part e = CHR ''e'' # t)"
  by (cases e) (simp_all add: exp_part_def)

lemma digits_then:
  assumes "\<forall>c \<in> set ds. is_digit c" and "t = [] \<or> \<not> is_digit (hd t)"
  shows "takeWhile is_digit (ds @ t) = ds" and "dropWhile is_digit (ds @ t) = t"
  using assms by (cases t; simp add: takeWhile_append dropWhile_append)+

lemma not_digit_chars [simp]: "\<not> is_digit (CHR ''.'')" "\<not> is_digit (CHR ''e'')" "\<not> is_digit (CHR ''-'')"
  "\<not> is_digit (CHR ''+'')"
  by (simp_all add: is_digit_def less_eq_char_def)

lemma tail_parts:
  "frac_part ds @ exp_part e = [] \<or> \<not> is_digit (hd (frac_part ds @ exp_part e))"
  "exp_part e = [] \<or> \<not> is_digit (hd (exp_part e))"
  using exp_part_cases [of e] by (auto simp: frac_part_def)

lemma parse_float_parts:
  assumes "ip \<noteq> []" and "\<forall>c \<in> set ip. is_digit c" and "\<forall>c \<in> set ds. is_digit c"
  shows "parse_float (ip @ frac_part ds @ exp_part e) =
    (let r = flr (of_nat (digits_val (ip @ ds)) * 10 powi (exp_of e - int (length ds)))
     in if r < float_limit then Some r else None)"
proof -
  let ?s = "ip @ frac_part ds @ exp_part e"
  have neg: "\<not> hasPrefix ?s ''-''"
    using assms(1,2) by (cases ip) (auto simp: hasPrefix_def)
  note ip = digits_then [OF assms(2) tail_parts(1), of ds e]
  note fp = digits_then [OF assms(3) tail_parts(2), of e]
  have e: "(if exp_part e = [] then 0 else exp_val (tl (exp_part e))) = exp_of e"
    by (cases e) (simp_all add: exp_part_def exp_of_def exp_val_part)
  have dot: "\<not> hasPrefix (exp_part e) ''.''"
    using exp_part_cases [of e] by (auto simp: hasPrefix_def)
  have "(if hasPrefix (frac_part ds @ exp_part e) ''.'' then takeWhile is_digit (tl (frac_part ds @ exp_part e)) else []) = ds"
    "(if hasPrefix (frac_part ds @ exp_part e) ''.'' then dropWhile is_digit (tl (frac_part ds @ exp_part e))
      else frac_part ds @ exp_part e) = exp_part e"
    using fp dot by (simp_all add: frac_part_def hasPrefix_def)
  then show ?thesis
    unfolding parse_float_def by (simp only: neg if_False ip e Let_def)
qed

lemma parse_float_neg:
  assumes "\<not> hasPrefix s ''-''"
  shows "parse_float (CHR ''-'' # s) = map_option uminus (parse_float s)"
  using assms unfolding parse_float_def by (simp add: hasPrefix_def Let_def)

lemma drop_digits_then:
  assumes "ds \<noteq> []" and "\<forall>c \<in> set ds. is_digit c" and "t = [] \<or> \<not> is_digit (hd t)"
  shows "drop_digits (ds @ t) = Some t"
  using assms digits_then(2) [OF assms(2,3)] by (cases ds) (simp_all add: drop_digits_def)

lemma valid_number_parts:
  assumes "ip \<noteq> []" and "\<forall>c \<in> set ip. is_digit c" and "\<forall>c \<in> set ds. is_digit c"
    and "hd ip = CHR ''0'' \<longrightarrow> tl ip = []"
  shows "wf_num (ip @ frac_part ds @ exp_part e)" "wf_num (CHR ''-'' # ip @ frac_part ds @ exp_part e)"
proof -
  let ?r = "frac_part ds @ exp_part e"
  have neg: "\<not> hasPrefix (ip @ ?r) ''-''"
    using assms(1,2) by (cases ip) (auto simp: hasPrefix_def)
  have whole: "(if hasPrefix (ip @ ?r) ''0'' then Some (tl (ip @ ?r)) else drop_digits (ip @ ?r)) = Some ?r"
  proof (cases "hd ip = CHR ''0''")
    case True
    then have "ip = ''0''"
      using assms(1,4) by (cases ip) simp_all
    then show ?thesis by (simp add: hasPrefix_def)
  next
    case False
    then have "\<not> hasPrefix (ip @ ?r) ''0''"
      using assms(1) by (cases ip) (simp_all add: hasPrefix_def)
    then show ?thesis
      using drop_digits_then [OF assms(1,2) tail_parts(1), of ds e] by simp
  qed
  have dot: "\<not> hasPrefix (exp_part e) ''.''"
    using exp_part_cases [of e] by (auto simp: hasPrefix_def)
  have frac: "(if hasPrefix ?r ''.'' then drop_digits (tl ?r) else Some ?r) = Some (exp_part e)"
    using drop_digits_then [OF _ assms(3) tail_parts(2), of e] dot by (simp add: frac_part_def hasPrefix_def)
  have ex: "exp_part e = [] \<or>
      ((hasPrefix (exp_part e) ''e'' \<or> hasPrefix (exp_part e) ''E'') \<and>
       (let s4 = tl (exp_part e); s5 = (if hasPrefix s4 ''+'' \<or> hasPrefix s4 ''-'' then tl s4 else s4)
        in drop_digits s5 = Some []))"
    using drop_digits_itoa by (cases e) (simp_all add: exp_part_def hasPrefix_def)
  have v: "valid_number (ip @ ?r)"
    unfolding valid_number_def Let_def if_not_P [OF neg] whole option.case frac
    using ex unfolding Let_def by (cases "exp_part e = []") simp_all
  have chars: "num_char c" if "c \<in> set (ip @ ?r)" for c
  proof -
    have "c \<in> set (exp_part e) \<Longrightarrow> num_char c"
      using itoa_digits by (cases e) (auto simp: exp_part_def num_char_def split: if_splits)
    then show ?thesis
      using that assms(2,3) by (auto simp: frac_part_def num_char_def split: if_splits)
  qed
  show "wf_num (ip @ ?r)"
    using v chars assms(1,2) by (auto simp: wf_num_def)
  have "valid_number (CHR ''-'' # ip @ ?r) = valid_number (ip @ ?r)"
    using neg by (simp add: valid_number_def hasPrefix_def)
  then show "wf_num (CHR ''-'' # ip @ ?r)"
    using v chars assms(1,2) by (auto simp: wf_num_def num_char_def)
qed

text \<open>Both formats in parts.\<close>

lemma read_digits_shift: "read_digits x ds = x * 10 ^ length ds + digits_val ds"
proof (induction ds arbitrary: x)
  case (Cons c ds)
  from Cons.IH [of "10 * x + digit_val c"] Cons.IH [of "digit_val c"] show ?case
    by (simp add: digits_val_def algebra_simps)
qed (simp add: digits_val_def)

lemma digits_val_append: "digits_val (s @ t) = digits_val s * 10 ^ length t + digits_val t"
  using read_digits_shift [of "digits_val s" t] by (simp add: digits_val_def)

lemma float_plain_parts:
  obtains ds where "float_plain x = itoa (shortest_units x div 10 ^ float_places x) @ frac_part ds @ exp_part None"
    and "\<forall>c \<in> set ds. is_digit c"
    and "of_nat (digits_val (itoa (shortest_units x div 10 ^ float_places x) @ ds)) * 10 powi (exp_of None - int (length ds)) =
      (of_nat (shortest_units x) / 10 ^ float_places x :: rat)"
proof -
  define p where "p = float_places x"
  define v where "v = shortest_units x"
  have dm: "(of_nat (v div 10 ^ p) * 10 ^ p + of_nat (v mod 10 ^ p) :: rat) = of_nat v"
    using div_mult_mod_eq [of v "10 ^ p"] by (metis of_nat_add of_nat_mult of_nat_numeral of_nat_power)
  have "v mod 10 ^ p < 10 ^ p"
    by simp
  then show ?thesis
  proof (cases rule: dur_frac_cases)
    case none
    then show ?thesis
      using dm by (intro that [of "[]"])
        (simp_all add: float_plain_def Let_def frac_part_def exp_part_def exp_of_def flip: p_def v_def add: field_simps)
  next
    case (some ds k)
    have "(of_nat (digits_val ds) * 10 ^ k :: rat) = of_nat (v mod 10 ^ p)"
      using some(4) unfolding digits_val_def [symmetric] by (metis of_nat_mult of_nat_numeral of_nat_power)
    moreover have "(10 :: rat) ^ p = 10 ^ length ds * 10 ^ k"
      using some(3) by (simp flip: power_add)
    ultimately have "(of_nat (digits_val (itoa (v div 10 ^ p) @ ds)) * 10 ^ k :: rat) = of_nat v"
      using dm by (simp add: digits_val_append field_simps)
    then have "of_nat (digits_val (itoa (v div 10 ^ p) @ ds)) * 10 powi (0 - int (length ds)) =
        (of_nat v / 10 ^ p :: rat)"
      using \<open>(10 :: rat) ^ p = 10 ^ length ds * 10 ^ k\<close> by (simp add: power_int_minus field_simps)
    moreover have "ds \<noteq> []"
      using some(1) by (auto simp: dur_frac_def Let_def split: if_splits)
    ultimately show ?thesis
      using some(1,2) by (intro that [of ds])
        (simp_all add: float_plain_def Let_def frac_part_def exp_part_def exp_of_def flip: p_def v_def)
  qed
qed

lemma float_exp_parts:
  assumes "0 < shortest_units x"
  obtains c ds e where "float_exp x = [c] @ frac_part ds @ exp_part (Some e)"
    and "is_digit c" and "\<forall>c \<in> set ds. is_digit c"
    and "of_nat (digits_val ([c] @ ds)) * 10 powi (exp_of (Some e) - int (length ds)) =
      (of_nat (shortest_units x) / 10 ^ float_places x :: rat)"
proof -
  define p where "p = float_places x"
  define v where "v = shortest_units x"
  obtain k where k: "itoa v = trimRight (itoa v) ''0'' @ replicate k (CHR ''0'')"
    using trimRight_zeros by blast
  define ds where "ds = trimRight (itoa v) ''0''"
  have s: "itoa v = ds @ replicate k (CHR ''0'')"
    unfolding ds_def by (rule k)
  have val: "digits_val ds * 10 ^ k = v"
    using arg_cong [OF s, of "read_digits 0"] by (simp add: read_digits_zeros flip: digits_val_def)
  then have "ds \<noteq> []"
    using assms by (auto simp: digits_val_def v_def)
  then obtain c u where cu: "ds = c # u"
    by (cases ds) simp_all
  define e where "e = int (length u + k) - int p"
  have digits: "is_digit d" if "d \<in> set ds" for d
    using that s itoa_digits [of d v] by simp
  have "length (itoa v) = Suc (length u + k)"
    unfolding s cu by simp
  then have "int (length (itoa v)) - 1 - int p = e"
    by (simp add: e_def)
  then have "float_exp x = [c] @ frac_part u @ exp_part (Some e)"
    unfolding float_exp_def Let_def p_def [symmetric] v_def [symmetric] ds_def [symmetric] cu
    by (simp add: frac_part_def exp_part_def)
  moreover have "of_nat (digits_val ([c] @ u)) * 10 powi (exp_of (Some e) - int (length u)) =
      (of_nat v / 10 ^ p :: rat)"
  proof -
    have "exp_of (Some e) - int (length u) = int k - int p"
      by (simp add: exp_of_def e_def)
    moreover have "of_nat (digits_val ds) * 10 ^ k = (of_nat v :: rat)"
      using val by (metis of_nat_mult of_nat_numeral of_nat_power)
    ultimately show ?thesis
      by (simp add: cu power_int_diff)
  qed
  ultimately show ?thesis
    using digits that [of c u e] by (simp add: cu p_def v_def)
qed

text \<open>
  The text of a double is a number of JSON syntax and reads back as the double.
\<close>

lemma float_text_body:
  assumes "0 < x" and "double x" and "s = float_plain x \<or> s = float_exp x"
  shows "parse_float s = Some x" and "wf_num s" and "wf_num (CHR ''-'' # s)" and "\<not> hasPrefix s ''-''"
proof -
  have x: "flr x = x" "x < float_limit"
    using assms(1,2) by (simp_all add: double_def)
  have pos: "0 < shortest_units x"
    and r: "flr (of_nat (shortest_units x) / 10 ^ float_places x) = x"
    using shortest_units_reads [OF assms(1) x(1)] by simp_all
  obtain ip ds e where p: "s = ip @ frac_part ds @ exp_part e" "ip \<noteq> []" "\<forall>c \<in> set ip. is_digit c"
    "\<forall>c \<in> set ds. is_digit c" "hd ip = CHR ''0'' \<longrightarrow> tl ip = []"
    "of_nat (digits_val (ip @ ds)) * 10 powi (exp_of e - int (length ds)) =
      (of_nat (shortest_units x) / 10 ^ float_places x :: rat)"
  proof (cases "s = float_plain x")
    case True
    obtain ds where "float_plain x = itoa (shortest_units x div 10 ^ float_places x) @ frac_part ds @ exp_part None"
      "\<forall>c \<in> set ds. is_digit c"
      "of_nat (digits_val (itoa (shortest_units x div 10 ^ float_places x) @ ds)) * 10 powi (exp_of None - int (length ds)) =
        (of_nat (shortest_units x) / 10 ^ float_places x :: rat)"
      by (rule float_plain_parts)
    moreover have "hd (itoa n) = CHR ''0'' \<longrightarrow> tl (itoa n) = []" for n
      using hd_itoa [of n] by (cases "n = 0") (simp_all add: itoa.simps [of 0])
    ultimately show ?thesis
      using that [of "itoa (shortest_units x div 10 ^ float_places x)" ds None] True itoa_digits by auto
  next
    case False
    then show ?thesis
      using assms(3) float_exp_parts [OF pos] that [of "[_]"] by (metis empty_iff list.sel(3) list.set(1) list.simps(3) set_ConsD)
  qed
  show "parse_float s = Some x"
    unfolding p(1) parse_float_parts [OF p(2-4)] p(6) r Let_def by (simp add: x(2))
  show "wf_num s" "wf_num (CHR ''-'' # s)"
    unfolding p(1) by (rule valid_number_parts [OF p(2-5)])+
  show "\<not> hasPrefix s ''-''"
    unfolding p(1) using p(2,3) by (cases ip) (auto simp: hasPrefix_def)
qed

lemma parse_float_text:
  assumes "double x"
  shows "parse_float (float_text x) = Some x"
proof -
  have z: "parse_float ''0'' = Some 0"
    using parse_float_parts [of "''0''" "[]" None]
    by (simp add: frac_part_def exp_part_def exp_of_def digits_val_def digit_val_def flr_def fl_def float_limit_def)
  define s where "s = (if \<bar>x\<bar> < flr (1 / 10 ^ 6) \<or> 10 ^ 21 \<le> \<bar>x\<bar> then float_exp \<bar>x\<bar> else float_plain \<bar>x\<bar>)"
  have t: "float_text x = (if x = 0 then ''0'' else (if x < 0 then ''-'' else []) @ s)"
    by (simp add: float_text_def s_def)
  have "x = 0 \<or> 0 < \<bar>x\<bar>" "double \<bar>x\<bar>"
    using double_abs [OF assms] by auto
  then show ?thesis
    using z float_text_body [of "\<bar>x\<bar>" s] parse_float_neg [of s]
    unfolding t by (auto simp: s_def)
qed

lemma wf_num_float_text:
  assumes "double x"
  shows "wf_num (float_text x)"
proof -
  have z: "wf_num ''0''"
    using valid_number_parts(1) [of "''0''" "[]" None] by (simp add: frac_part_def exp_part_def)
  define s where "s = (if \<bar>x\<bar> < flr (1 / 10 ^ 6) \<or> 10 ^ 21 \<le> \<bar>x\<bar> then float_exp \<bar>x\<bar> else float_plain \<bar>x\<bar>)"
  have t: "float_text x = (if x = 0 then ''0'' else (if x < 0 then ''-'' else []) @ s)"
    by (simp add: float_text_def s_def)
  show ?thesis
    using z float_text_body [of "\<bar>x\<bar>" s] double_abs [OF assms] unfolding t by (auto simp: s_def)
qed

section \<open>What rounding gives is a double\<close>

lemma fl_exact:
  assumes "0 < x" and "x * 2 powi k = of_int m" and "2 ^ 52 \<le> m" and "m < 2 ^ 53"
  shows "fl x = x"
proof -
  have b: "2 ^ 52 \<le> x * 2 powi k" "x * 2 powi k < 2 ^ 53"
    unfolding assms(2) using assms(3,4) of_int_le_iff [where ?'a = rat, of "2 ^ 52" m]
      of_int_less_iff [where ?'a = rat, of m "2 ^ 53"] by simp_all
  note s = fl_scale_bounds [OF assms(1)]
  have no: "\<not> i < j" if "2 ^ 52 \<le> x * 2 powi i" "x * 2 powi j < 2 ^ 53" for i j
  proof
    assume "i < j"
    then have "(2 :: rat) powi (i + 1) \<le> 2 powi j"
      by (intro power_int_increasing) auto
    then have "x * (2 powi i * 2) \<le> x * 2 powi j"
      using assms(1) by (intro mult_left_mono) (simp_all add: power_int_add)
    with that show False by simp
  qed
  have "fl_scale x = k"
    using no [of k "fl_scale x"] no [of "fl_scale x" k] b s by auto
  then have "fl x = of_int m / 2 powi k"
    by (simp only: fl_scaled [OF assms(1)] assms(2) half_even_int)
  also have "\<dots> = x"
    using assms(2) by (simp add: divide_eq_eq)
  finally show ?thesis .
qed

lemma fl_fl: "fl (fl q) = fl q"
proof (cases "0 < q")
  case True
  define k where "k = fl_scale q"
  define m where "m = half_even (q * 2 powi k)"
  have m: "2 ^ 52 \<le> m" "m \<le> 2 ^ 53"
    using fl_scale_bounds [OF True] unfolding m_def k_def by (intro half_even_ge half_even_le; simp)+
  have x: "fl q = of_int m / 2 powi k"
    by (simp add: fl_scaled [OF True] m_def k_def)
  then have pos: "0 < fl q"
    using m(1) by simp
  show ?thesis
  proof (cases "m = 2 ^ 53")
    case True
    have "fl q * 2 powi (k - 1) = of_int (2 ^ 52)"
      by (simp add: x True power_int_diff)
    then show ?thesis
      by (rule fl_exact [OF pos]) simp_all
  next
    case False
    have "fl q * 2 powi k = of_int m"
      by (simp add: x)
    then show ?thesis
      using m False by (intro fl_exact [OF pos]) auto
  qed
qed (simp add: fl_def)

lemma flr_flr: "flr (flr q) = flr q"
proof (cases "q < 0")
  case True
  then show ?thesis
    using fl_fl [of "- q"] fl_nonneg [of "- q"] by (auto simp: flr_def fl_def [of 0])
next
  case False
  then show ?thesis
    using fl_fl [of q] fl_nonneg [of q] by (auto simp: flr_def)
qed

lemma flr_power_int: "flr (2 powi i) = 2 powi i"
proof -
  have "(2 :: rat) powi i * 2 powi (52 - i) = of_int (2 ^ 52)"
    by (simp flip: power_int_add)
  then have "fl (2 powi i) = 2 powi i"
    using fl_exact [of "2 powi i" "52 - i" "2 ^ 52"] by simp
  moreover have "\<not> 2 powi i < (0 :: rat)"
    unfolding not_less by (rule zero_le_power_int) simp
  ultimately show ?thesis
    unfolding flr_def by (simp only: if_False)
qed

lemma flr_power: "flr (2 ^ n) = 2 ^ n"
  using flr_power_int [of "int n"] by simp

lemma double_flr:
  assumes "\<bar>q\<bar> \<le> 2 ^ n" and "n < 1024"
  shows "double (flr q)" and "\<bar>flr q\<bar> \<le> 2 ^ n"
proof -
  have "flr q \<le> flr (2 ^ n)" "flr (- q) \<le> flr (2 ^ n)"
    using assms(1) by (intro flr_mono; simp add: abs_le_iff)+
  then show b: "\<bar>flr q\<bar> \<le> 2 ^ n"
    by (simp add: flr_power flr_uminus abs_le_iff)
  also have "(2 :: rat) ^ n < float_limit"
    unfolding float_limit_def using assms(2) by (intro power_strict_increasing) simp_all
  finally show "double (flr q)"
    by (simp add: double_def flr_flr)
qed

end
