(* ===== verification/PerfJson.thy ===== *)
theory PerfJson
  imports PerfRun GoFloat
begin

text \<open>
  \<open>internal/perf/perf.go\<close>: the JSON of the result of a run, \<open>MarshalJSONDeterministic\<close> and
  \<open>DecodeResult\<close>, by the field tags of the structs.  The values of a parameter map are
  those of \<open>map[string]any\<close>; a number in it keeps its text and stands for the double that
  is read from it.

  The lemmas show that a result that was written reads back.
\<close>

section \<open>Encoding\<close>

definition json_u64 :: "u64 \<Rightarrow> json" where "json_u64 v = json_int (uint v)"
definition json_float :: "rat \<Rightarrow> json" where "json_float x = JNum (float_text x)"

definition omit_zero :: "string \<Rightarrow> int \<Rightarrow> (string \<times> json) list" where
  "omit_zero name i = (if i = 0 then [] else [(name, json_int i)])"

definition json_ProtocolConfig :: "ProtocolConfig \<Rightarrow> json" where
  "json_ProtocolConfig r = JObj
    [(''chunk_size'', json_int (pr_ChunkSize r)),
      (''flush_delay'', JStr (pr_FlushDelay r)), (''poll_min'', JStr (pr_PollMin r)),
      (''poll_max'', JStr (pr_PollMax r)),
      (''active_poll_duration'', JStr (pr_ActivePollDuration r)),
      (''window_chunks'', json_u64 (pr_WindowChunks r)),
      (''close_check_after_misses'', json_int (pr_CloseCheckAfterMisses r)),
      (''idle_timeout'', JStr (pr_IdleTimeout r))]"

definition json_TrafficMetrics :: "TrafficMetrics \<Rightarrow> json" where
  "json_TrafficMetrics r = JObj
    ([(''bytes_sent'', json_u64 (tr_BytesSent r)),
      (''bytes_received'', json_u64 (tr_BytesReceived r)),
      (''expected_bytes'', json_u64 (tr_ExpectedBytes r))] @
     omitempty ''sha256'' (tr_SHA256 r) @
     [(''connections'', json_int (tr_Connections r)),
      (''requests'', json_int (tr_Requests r))] @
     omit_zero ''idle_ms'' (tr_IdleMillis r) @
     omit_zero ''rtt_ms'' (tr_RTTMillis r) @
     omit_zero ''throughput_bytes_per_sec'' (tr_ThroughputBytes r))"

definition json_DurationStats :: "DurationStats \<Rightarrow> json" where
  "json_DurationStats r = JObj
    [(''count'', json_u64 (ds_Count r)),
      (''total_ms'', json_float (ds_TotalMillis r)),
      (''min_ms'', json_float (ds_MinMillis r)),
      (''p50_ms'', json_float (ds_P50Millis r)),
      (''p95_ms'', json_float (ds_P95Millis r)),
      (''p99_ms'', json_float (ds_P99Millis r)),
      (''max_ms'', json_float (ds_MaxMillis r))]"

definition json_SessionMetrics :: "SessionMetrics \<Rightarrow> json" where
  "json_SessionMetrics r = JObj
    [(''sessions_started'', json_u64 (sm_SessionsStarted r)),
      (''sessions_opened'', json_u64 (sm_SessionsOpened r)),
      (''sessions_rejected'', json_u64 (sm_SessionsRejected r)),
      (''sessions_completed'', json_u64 (sm_SessionsCompleted r)),
      (''sessions_failed'', json_u64 (sm_SessionsFailed r)),
      (''active_sessions'', json_int (sint (sm_ActiveSessions r))),
      (''chunks_sent'', json_u64 (sm_ChunksSent r)),
      (''chunks_received'', json_u64 (sm_ChunksReceived r)),
      (''plaintext_bytes_sent'', json_u64 (sm_PlaintextBytesSent r)),
      (''plaintext_bytes_received'', json_u64 (sm_PlaintextBytesRecv r)),
      (''sealed_bytes_sent'', json_u64 (sm_SealedBytesSent r)),
      (''sealed_bytes_received'', json_u64 (sm_SealedBytesRecv r)),
      (''socket_reads_total'', json_u64 (sm_SocketReads r)),
      (''aggregation_flush_size'', json_u64 (sm_AggregationFlushSize r)),
      (''aggregation_flush_deadline'', json_u64 (sm_AggregationFlushDeadline r)),
      (''aggregation_flush_eof'', json_u64 (sm_AggregationFlushEOF r)),
      (''aggregation_flush_error'', json_u64 (sm_AggregationFlushError r)),
      (''time_to_open_result'', json_DurationStats (sm_TimeToOpenResult r)),
      (''session_duration'', json_DurationStats (sm_SessionDuration r)),
      (''time_to_first_c2s_object'', json_DurationStats (sm_TimeToFirstC2S r)),
      (''time_to_first_s2c_object'', json_DurationStats (sm_TimeToFirstS2C r))]"

definition json_DerivedMetrics :: "DerivedMetrics \<Rightarrow> json" where
  "json_DerivedMetrics r = JObj
    [(''total_objectstore_ops'', json_u64 (dm_TotalObjectStoreOps r)),
      (''s3_operations_per_session'', json_float (dm_S3OperationsPerSession r)),
      (''s3_operations_per_mib'', json_float (dm_S3OperationsPerMiB r)),
      (''get_misses_per_received_data_object'', json_float (dm_GetMissesPerReceivedData r)),
      (''head_operations_per_session'', json_float (dm_HeadOperationsPerSession r)),
      (''list_operations_per_opened_session'', json_float (dm_ListOperationsPerOpenSession r)),
      (''ack_get_per_data_put'', json_float (dm_AckGetPerDataPut r)),
      (''ack_put_per_received_data_object'', json_float (dm_AckPutPerReceivedData r)),
      (''sealed_plaintext_size_ratio'', json_float (dm_SealedPlaintextSizeRatio r))]"

definition json_OperationMetrics :: "OperationMetrics \<Rightarrow> json" where
  "json_OperationMetrics r = JObj
    [(''operation'', JStr (om_Operation r)), (''key_class'', JStr (om_KeyClass r)),
      (''result'', JStr (om_Result r)), (''count'', json_u64 (om_Count r)),
      (''duration'', json_DurationStats (om_Duration r)),
      (''request_bytes'', json_u64 (om_RequestBytes r)),
      (''response_bytes'', json_u64 (om_ResponseBytes r))]"

text \<open>
  A nil slice or map is \<open>null\<close>.  The parameters and the operations of a scenario are nil
  together, in the result of one whose environment could not be made.
\<close>

definition json_Snapshot :: "bool \<Rightarrow> OperationMetrics list \<Rightarrow> json" where
  "json_Snapshot isNil ops =
     JObj [(''operations'', if isNil then JNull else JArr (map json_OperationMetrics ops))]"

text \<open>The keys of a map are written in order.\<close>

definition json_Parameters :: "(string \<times> json) list option \<Rightarrow> json" where
  "json_Parameters ps = (case ps of None \<Rightarrow> JNull | Some ms \<Rightarrow> JObj (sort_key fst ms))"

definition json_ScenarioResult :: "ScenarioResult \<Rightarrow> json" where
  "json_ScenarioResult r = JObj
    ([(''name'', JStr (sr_Name r)), (''description'', JStr (sr_Description r)),
      (''status'', JStr (sr_Status r))] @
     omitempty ''error'' (sr_Error r) @
     [(''parameters'', json_Parameters (sr_Parameters r)),
      (''duration_ms'', json_int (sr_DurationMillis r)),
      (''traffic'', json_TrafficMetrics (sr_Traffic r)),
      (''session_metrics'', json_SessionMetrics (sr_SessionMetrics r)),
      (''objectstore_metrics'', json_Snapshot (sr_ObjectStoreMetrics r = [] \<and> sr_Parameters r = None) (sr_ObjectStoreMetrics r)),
      (''derived_metrics'', json_DerivedMetrics (sr_DerivedMetrics r))] @
     (if sr_Observations r = [] then [] else [(''observations'', JArr (map JStr (sr_Observations r)))]))"

definition json_RunResult :: "RunResult \<Rightarrow> json" where
  "json_RunResult r = JObj
    [(''schema_version'', json_int (rr_SchemaVersion r)),
      (''timestamp'', json_time (rr_Timestamp r)),
      (''git_commit'', JStr (rr_GitCommit r)),
      (''dirty_worktree'', JBool (rr_DirtyWorktree r)),
      (''go_version'', JStr (rr_GoVersion r)), (''os'', JStr (rr_OS r)),
      (''arch'', JStr (rr_Arch r)), (''profile'', JStr (rr_Profile r)),
      (''provider'', JStr (rr_Provider r)),
      (''config'', json_ProtocolConfig (rr_Config r)),
      (''scenarios'', if rr_Scenarios r = [] then JNull else JArr (map json_ScenarioResult (rr_Scenarios r)))]"

text \<open>Indented, with a line feed at the end.\<close>

definition MarshalJSONDeterministic :: "RunResult \<Rightarrow> bytes result" where
  "MarshalJSONDeterministic r =
     ebind (marshal (rr_Timestamp r) JNull) (\<lambda>_.
       Inr (bytes_of (enc_w indent '' '' 0 (json_RunResult r) @ [CHR 0x0A])))"

section \<open>Decoding\<close>

definition set_float :: "(rat \<Rightarrow> 'r \<Rightarrow> 'r) \<Rightarrow> json \<Rightarrow> 'r \<Rightarrow> 'r option" where
  "set_float upd v r =
     (case v of JNull \<Rightarrow> Some r | JNum t \<Rightarrow> map_option (\<lambda>x. upd x r) (parse_float t) | _ \<Rightarrow> None)"

definition set_list :: "(json \<Rightarrow> 'a option) \<Rightarrow> ('a list \<Rightarrow> 'r \<Rightarrow> 'r) \<Rightarrow> json \<Rightarrow> 'r \<Rightarrow> 'r option" where
  "set_list dec upd v r =
     (case v of JNull \<Rightarrow> Some (upd [] r)
      | JArr js \<Rightarrow> map_option (\<lambda>xs. upd xs r) (those (map dec js)) | _ \<Rightarrow> None)"

definition set_struct :: "'a fields \<Rightarrow> ('r \<Rightarrow> 'a) \<Rightarrow> ('a \<Rightarrow> 'r \<Rightarrow> 'r) \<Rightarrow> json \<Rightarrow> 'r \<Rightarrow> 'r option" where
  "set_struct fs get upd v r = map_option (\<lambda>x. upd x r) (decode fs v (get r))"

text \<open>A value of type \<open>any\<close>: a number too large is an error, a later member wins.\<close>

fun any_value :: "json \<Rightarrow> json option" where
  "any_value (JNum t) = map_option (\<lambda>_. JNum t) (parse_float t)"
| "any_value (JArr js) = map_option JArr (those (map any_value js))"
| "any_value (JObj ms) =
     map_option (\<lambda>kvs. JObj (foldl (\<lambda>m (k, v). AList.update k v m) [] kvs))
       (those (map (\<lambda>(k, v). map_option (Pair k) (any_value v)) ms))"
| "any_value j = Some j"

fun add_params :: "(string \<times> json) list \<Rightarrow> (string \<times> json) list \<Rightarrow> (string \<times> json) list option" where
  "add_params [] m = Some m"
| "add_params ((k, v) # ms) m =
     (case any_value v of None \<Rightarrow> None | Some x \<Rightarrow> add_params ms (AList.update k x m))"

definition set_Parameters :: "json \<Rightarrow> ScenarioResult \<Rightarrow> ScenarioResult option" where
  "set_Parameters v r =
     (case v of JNull \<Rightarrow> Some (r\<lparr>sr_Parameters := None\<rparr>)
      | JObj ms \<Rightarrow>
          map_option (\<lambda>m. r\<lparr>sr_Parameters := Some m\<rparr>)
            (add_params ms (case sr_Parameters r of None \<Rightarrow> [] | Some m \<Rightarrow> m))
      | _ \<Rightarrow> None)"

definition ProtocolConfig_fields :: "ProtocolConfig fields" where
  "ProtocolConfig_fields =
    [(''chunk_size'', set_int (\<lambda>i r. r\<lparr>pr_ChunkSize := i\<rparr>)),
     (''flush_delay'', set_str (\<lambda>s r. r\<lparr>pr_FlushDelay := s\<rparr>)),
     (''poll_min'', set_str (\<lambda>s r. r\<lparr>pr_PollMin := s\<rparr>)),
     (''poll_max'', set_str (\<lambda>s r. r\<lparr>pr_PollMax := s\<rparr>)),
     (''active_poll_duration'', set_str (\<lambda>s r. r\<lparr>pr_ActivePollDuration := s\<rparr>)),
     (''window_chunks'', set_uint 64 (\<lambda>n r. r\<lparr>pr_WindowChunks := of_nat n\<rparr>)),
     (''close_check_after_misses'', set_int (\<lambda>i r. r\<lparr>pr_CloseCheckAfterMisses := i\<rparr>)),
     (''idle_timeout'', set_str (\<lambda>s r. r\<lparr>pr_IdleTimeout := s\<rparr>))]"

definition TrafficMetrics_fields :: "TrafficMetrics fields" where
  "TrafficMetrics_fields =
    [(''bytes_sent'', set_uint 64 (\<lambda>n r. r\<lparr>tr_BytesSent := of_nat n\<rparr>)),
     (''bytes_received'', set_uint 64 (\<lambda>n r. r\<lparr>tr_BytesReceived := of_nat n\<rparr>)),
     (''expected_bytes'', set_uint 64 (\<lambda>n r. r\<lparr>tr_ExpectedBytes := of_nat n\<rparr>)),
     (''sha256'', set_str (\<lambda>s r. r\<lparr>tr_SHA256 := s\<rparr>)),
     (''connections'', set_int (\<lambda>i r. r\<lparr>tr_Connections := i\<rparr>)),
     (''requests'', set_int (\<lambda>i r. r\<lparr>tr_Requests := i\<rparr>)),
     (''idle_ms'', set_int (\<lambda>i r. r\<lparr>tr_IdleMillis := i\<rparr>)),
     (''rtt_ms'', set_int (\<lambda>i r. r\<lparr>tr_RTTMillis := i\<rparr>)),
     (''throughput_bytes_per_sec'', set_int (\<lambda>i r. r\<lparr>tr_ThroughputBytes := i\<rparr>))]"

definition DurationStats_fields :: "DurationStats fields" where
  "DurationStats_fields =
    [(''count'', set_uint 64 (\<lambda>n r. r\<lparr>ds_Count := of_nat n\<rparr>)),
     (''total_ms'', set_float (\<lambda>x r. r\<lparr>ds_TotalMillis := x\<rparr>)),
     (''min_ms'', set_float (\<lambda>x r. r\<lparr>ds_MinMillis := x\<rparr>)),
     (''p50_ms'', set_float (\<lambda>x r. r\<lparr>ds_P50Millis := x\<rparr>)),
     (''p95_ms'', set_float (\<lambda>x r. r\<lparr>ds_P95Millis := x\<rparr>)),
     (''p99_ms'', set_float (\<lambda>x r. r\<lparr>ds_P99Millis := x\<rparr>)),
     (''max_ms'', set_float (\<lambda>x r. r\<lparr>ds_MaxMillis := x\<rparr>))]"

definition SessionMetrics_fields :: "SessionMetrics fields" where
  "SessionMetrics_fields =
    [(''sessions_started'', set_uint 64 (\<lambda>n r. r\<lparr>sm_SessionsStarted := of_nat n\<rparr>)),
     (''sessions_opened'', set_uint 64 (\<lambda>n r. r\<lparr>sm_SessionsOpened := of_nat n\<rparr>)),
     (''sessions_rejected'', set_uint 64 (\<lambda>n r. r\<lparr>sm_SessionsRejected := of_nat n\<rparr>)),
     (''sessions_completed'', set_uint 64 (\<lambda>n r. r\<lparr>sm_SessionsCompleted := of_nat n\<rparr>)),
     (''sessions_failed'', set_uint 64 (\<lambda>n r. r\<lparr>sm_SessionsFailed := of_nat n\<rparr>)),
     (''active_sessions'', set_int (\<lambda>i r. r\<lparr>sm_ActiveSessions := of_int i\<rparr>)),
     (''chunks_sent'', set_uint 64 (\<lambda>n r. r\<lparr>sm_ChunksSent := of_nat n\<rparr>)),
     (''chunks_received'', set_uint 64 (\<lambda>n r. r\<lparr>sm_ChunksReceived := of_nat n\<rparr>)),
     (''plaintext_bytes_sent'', set_uint 64 (\<lambda>n r. r\<lparr>sm_PlaintextBytesSent := of_nat n\<rparr>)),
     (''plaintext_bytes_received'', set_uint 64 (\<lambda>n r. r\<lparr>sm_PlaintextBytesRecv := of_nat n\<rparr>)),
     (''sealed_bytes_sent'', set_uint 64 (\<lambda>n r. r\<lparr>sm_SealedBytesSent := of_nat n\<rparr>)),
     (''sealed_bytes_received'', set_uint 64 (\<lambda>n r. r\<lparr>sm_SealedBytesRecv := of_nat n\<rparr>)),
     (''socket_reads_total'', set_uint 64 (\<lambda>n r. r\<lparr>sm_SocketReads := of_nat n\<rparr>)),
     (''aggregation_flush_size'', set_uint 64 (\<lambda>n r. r\<lparr>sm_AggregationFlushSize := of_nat n\<rparr>)),
     (''aggregation_flush_deadline'', set_uint 64 (\<lambda>n r. r\<lparr>sm_AggregationFlushDeadline := of_nat n\<rparr>)),
     (''aggregation_flush_eof'', set_uint 64 (\<lambda>n r. r\<lparr>sm_AggregationFlushEOF := of_nat n\<rparr>)),
     (''aggregation_flush_error'', set_uint 64 (\<lambda>n r. r\<lparr>sm_AggregationFlushError := of_nat n\<rparr>)),
     (''time_to_open_result'', set_struct DurationStats_fields sm_TimeToOpenResult (\<lambda>x r. r\<lparr>sm_TimeToOpenResult := x\<rparr>)),
     (''session_duration'', set_struct DurationStats_fields sm_SessionDuration (\<lambda>x r. r\<lparr>sm_SessionDuration := x\<rparr>)),
     (''time_to_first_c2s_object'', set_struct DurationStats_fields sm_TimeToFirstC2S (\<lambda>x r. r\<lparr>sm_TimeToFirstC2S := x\<rparr>)),
     (''time_to_first_s2c_object'', set_struct DurationStats_fields sm_TimeToFirstS2C (\<lambda>x r. r\<lparr>sm_TimeToFirstS2C := x\<rparr>))]"

definition DerivedMetrics_fields :: "DerivedMetrics fields" where
  "DerivedMetrics_fields =
    [(''total_objectstore_ops'', set_uint 64 (\<lambda>n r. r\<lparr>dm_TotalObjectStoreOps := of_nat n\<rparr>)),
     (''s3_operations_per_session'', set_float (\<lambda>x r. r\<lparr>dm_S3OperationsPerSession := x\<rparr>)),
     (''s3_operations_per_mib'', set_float (\<lambda>x r. r\<lparr>dm_S3OperationsPerMiB := x\<rparr>)),
     (''get_misses_per_received_data_object'', set_float (\<lambda>x r. r\<lparr>dm_GetMissesPerReceivedData := x\<rparr>)),
     (''head_operations_per_session'', set_float (\<lambda>x r. r\<lparr>dm_HeadOperationsPerSession := x\<rparr>)),
     (''list_operations_per_opened_session'', set_float (\<lambda>x r. r\<lparr>dm_ListOperationsPerOpenSession := x\<rparr>)),
     (''ack_get_per_data_put'', set_float (\<lambda>x r. r\<lparr>dm_AckGetPerDataPut := x\<rparr>)),
     (''ack_put_per_received_data_object'', set_float (\<lambda>x r. r\<lparr>dm_AckPutPerReceivedData := x\<rparr>)),
     (''sealed_plaintext_size_ratio'', set_float (\<lambda>x r. r\<lparr>dm_SealedPlaintextSizeRatio := x\<rparr>))]"

definition OperationMetrics_fields :: "OperationMetrics fields" where
  "OperationMetrics_fields =
    [(''operation'', set_str (\<lambda>s r. r\<lparr>om_Operation := s\<rparr>)),
     (''key_class'', set_str (\<lambda>s r. r\<lparr>om_KeyClass := s\<rparr>)),
     (''result'', set_str (\<lambda>s r. r\<lparr>om_Result := s\<rparr>)),
     (''count'', set_uint 64 (\<lambda>n r. r\<lparr>om_Count := of_nat n\<rparr>)),
     (''duration'', set_struct DurationStats_fields om_Duration (\<lambda>x r. r\<lparr>om_Duration := x\<rparr>)),
     (''request_bytes'', set_uint 64 (\<lambda>n r. r\<lparr>om_RequestBytes := of_nat n\<rparr>)),
     (''response_bytes'', set_uint 64 (\<lambda>n r. r\<lparr>om_ResponseBytes := of_nat n\<rparr>))]"

definition zero_ProtocolConfig :: ProtocolConfig where
  "zero_ProtocolConfig =
    \<lparr>pr_ChunkSize = 0, pr_FlushDelay = [], pr_PollMin = [], pr_PollMax = [],
     pr_ActivePollDuration = [], pr_WindowChunks = 0, pr_CloseCheckAfterMisses = 0,
     pr_IdleTimeout = []\<rparr>"

definition zero_DurationStats :: DurationStats where
  "zero_DurationStats =
    \<lparr>ds_Count = 0, ds_TotalMillis = 0, ds_MinMillis = 0, ds_P50Millis = 0,
     ds_P95Millis = 0, ds_P99Millis = 0, ds_MaxMillis = 0\<rparr>"

definition zero_OperationMetrics :: OperationMetrics where
  "zero_OperationMetrics =
    \<lparr>om_Operation = [], om_KeyClass = [], om_Result = [], om_Count = 0,
     om_Duration = zero_DurationStats, om_RequestBytes = 0, om_ResponseBytes = 0\<rparr>"

text \<open>The struct with the one field \<open>operations\<close>.\<close>

definition set_Snapshot :: "json \<Rightarrow> ScenarioResult \<Rightarrow> ScenarioResult option" where
  "set_Snapshot v r =
     map_option (\<lambda>ops. r\<lparr>sr_ObjectStoreMetrics := ops\<rparr>)
       (decode [(''operations'', set_list (\<lambda>v. decode OperationMetrics_fields v zero_OperationMetrics) (\<lambda>ops _. ops))]
          v (sr_ObjectStoreMetrics r))"

definition ScenarioResult_fields :: "ScenarioResult fields" where
  "ScenarioResult_fields =
    [(''name'', set_str (\<lambda>s r. r\<lparr>sr_Name := s\<rparr>)),
     (''description'', set_str (\<lambda>s r. r\<lparr>sr_Description := s\<rparr>)),
     (''status'', set_str (\<lambda>s r. r\<lparr>sr_Status := s\<rparr>)),
     (''error'', set_str (\<lambda>s r. r\<lparr>sr_Error := s\<rparr>)),
     (''parameters'', set_Parameters),
     (''duration_ms'', set_int (\<lambda>i r. r\<lparr>sr_DurationMillis := i\<rparr>)),
     (''traffic'', set_struct TrafficMetrics_fields sr_Traffic (\<lambda>x r. r\<lparr>sr_Traffic := x\<rparr>)),
     (''session_metrics'', set_struct SessionMetrics_fields sr_SessionMetrics (\<lambda>x r. r\<lparr>sr_SessionMetrics := x\<rparr>)),
     (''objectstore_metrics'', set_Snapshot),
     (''derived_metrics'', set_struct DerivedMetrics_fields sr_DerivedMetrics (\<lambda>x r. r\<lparr>sr_DerivedMetrics := x\<rparr>)),
     (''observations'', set_list (\<lambda>v. set_str (\<lambda>s _. s) v []) (\<lambda>xs r. r\<lparr>sr_Observations := xs\<rparr>))]"

definition zero_ScenarioResult :: ScenarioResult where
  "zero_ScenarioResult =
    \<lparr>sr_Name = [], sr_Description = [], sr_Status = [], sr_Error = [],
     sr_Parameters = None, sr_DurationMillis = 0, sr_Traffic = zero_traffic,
     sr_SessionMetrics = sessionMetrics zero_Stats, sr_ObjectStoreMetrics = [],
     sr_DerivedMetrics = zero_derived, sr_Observations = []\<rparr>"

definition RunResult_fields :: "RunResult fields" where
  "RunResult_fields =
    [(''schema_version'', set_int (\<lambda>i r. r\<lparr>rr_SchemaVersion := i\<rparr>)),
     (''timestamp'', set_time (\<lambda>t r. r\<lparr>rr_Timestamp := t\<rparr>)),
     (''git_commit'', set_str (\<lambda>s r. r\<lparr>rr_GitCommit := s\<rparr>)),
     (''dirty_worktree'', set_bool (\<lambda>b r. r\<lparr>rr_DirtyWorktree := b\<rparr>)),
     (''go_version'', set_str (\<lambda>s r. r\<lparr>rr_GoVersion := s\<rparr>)),
     (''os'', set_str (\<lambda>s r. r\<lparr>rr_OS := s\<rparr>)),
     (''arch'', set_str (\<lambda>s r. r\<lparr>rr_Arch := s\<rparr>)),
     (''profile'', set_str (\<lambda>s r. r\<lparr>rr_Profile := s\<rparr>)),
     (''provider'', set_str (\<lambda>s r. r\<lparr>rr_Provider := s\<rparr>)),
     (''config'', set_struct ProtocolConfig_fields rr_Config (\<lambda>x r. r\<lparr>rr_Config := x\<rparr>)),
     (''scenarios'', set_list (\<lambda>v. decode ScenarioResult_fields v zero_ScenarioResult) (\<lambda>xs r. r\<lparr>rr_Scenarios := xs\<rparr>))]"

definition zero_RunResult :: RunResult where
  "zero_RunResult =
    \<lparr>rr_SchemaVersion = 0, rr_Timestamp = zero_time, rr_GitCommit = [],
     rr_DirtyWorktree = False, rr_GoVersion = [], rr_OS = [], rr_Arch = [], rr_Profile = [],
     rr_Provider = [], rr_Config = zero_ProtocolConfig, rr_Scenarios = []\<rparr>"

text \<open>The first value of the stream; what follows it is not looked at.\<close>

definition DecodeResult :: "bytes \<Rightarrow> RunResult result" where
  "DecodeResult data =
     (case p_value (Suc (2 * length data)) (string_of data) of
        None \<Rightarrow> Inl (ErrText ''json: invalid text'')
      | Some (j, _) \<Rightarrow>
          (case decode RunResult_fields j zero_RunResult of
             None \<Rightarrow> Inl (ErrText ''json: cannot unmarshal value'')
           | Some r \<Rightarrow> Inr r))"

section \<open>Each struct reads back\<close>

text \<open>Values in the ranges of their Go types.\<close>

definition typed_ProtocolConfig :: "ProtocolConfig \<Rightarrow> bool" where
  "typed_ProtocolConfig r \<longleftrightarrow>
     int64 (pr_ChunkSize r) \<and> int64 (pr_CloseCheckAfterMisses r)"

definition typed_TrafficMetrics :: "TrafficMetrics \<Rightarrow> bool" where
  "typed_TrafficMetrics r \<longleftrightarrow>
     int64 (tr_Connections r) \<and> int64 (tr_Requests r) \<and> int64 (tr_IdleMillis r) \<and>
     int64 (tr_RTTMillis r) \<and> int64 (tr_ThroughputBytes r)"

definition typed_DurationStats :: "DurationStats \<Rightarrow> bool" where
  "typed_DurationStats r \<longleftrightarrow>
     double (ds_TotalMillis r) \<and> double (ds_MinMillis r) \<and> double (ds_P50Millis r) \<and>
     double (ds_P95Millis r) \<and> double (ds_P99Millis r) \<and> double (ds_MaxMillis r)"

definition typed_SessionMetrics :: "SessionMetrics \<Rightarrow> bool" where
  "typed_SessionMetrics r \<longleftrightarrow>
     typed_DurationStats (sm_TimeToOpenResult r) \<and> typed_DurationStats (sm_SessionDuration r) \<and>
     typed_DurationStats (sm_TimeToFirstC2S r) \<and> typed_DurationStats (sm_TimeToFirstS2C r)"

definition typed_DerivedMetrics :: "DerivedMetrics \<Rightarrow> bool" where
  "typed_DerivedMetrics r \<longleftrightarrow>
     double (dm_S3OperationsPerSession r) \<and> double (dm_S3OperationsPerMiB r) \<and>
     double (dm_GetMissesPerReceivedData r) \<and> double (dm_HeadOperationsPerSession r) \<and>
     double (dm_ListOperationsPerOpenSession r) \<and> double (dm_AckGetPerDataPut r) \<and>
     double (dm_AckPutPerReceivedData r) \<and> double (dm_SealedPlaintextSizeRatio r)"

definition typed_OperationMetrics :: "OperationMetrics \<Rightarrow> bool" where
  "typed_OperationMetrics r \<longleftrightarrow>
     typed_DurationStats (om_Duration r)"

text \<open>The parameters of a scenario are texts and numbers under distinct ASCII names.\<close>

fun plain_param :: "json \<Rightarrow> bool" where
  "plain_param (JStr s) = True"
| "plain_param (JNum t) = (wf_num t \<and> parse_float t \<noteq> None)"
| "plain_param j = False"

definition typed_params :: "(string \<times> json) list option \<Rightarrow> bool" where
  "typed_params ps \<longleftrightarrow> (case ps of None \<Rightarrow> True
     | Some ms \<Rightarrow> distinct (map fst ms) \<and> (\<forall>m \<in> set ms. ascii (fst m) \<and> plain_param (snd m)))"

definition typed_ScenarioResult :: "ScenarioResult \<Rightarrow> bool" where
  "typed_ScenarioResult r \<longleftrightarrow>
     typed_params (sr_Parameters r) \<and> int64 (sr_DurationMillis r) \<and>
     typed_TrafficMetrics (sr_Traffic r) \<and> typed_SessionMetrics (sr_SessionMetrics r) \<and>
     (\<forall>x \<in> set (sr_ObjectStoreMetrics r). typed_OperationMetrics x) \<and>
     typed_DerivedMetrics (sr_DerivedMetrics r)"

definition typed_RunResult :: "RunResult \<Rightarrow> bool" where
  "typed_RunResult r \<longleftrightarrow>
     int64 (rr_SchemaVersion r) \<and> wf_time (rr_Timestamp r) \<and>
     typed_ProtocolConfig (rr_Config r) \<and>
     (\<forall>x \<in> set (rr_Scenarios r). typed_ScenarioResult x)"

text \<open>A result with its texts made valid UTF-8 and its parameters in order.\<close>

definition clean_params :: "(string \<times> json) list \<Rightarrow> (string \<times> json) list" where
  "clean_params ms = map (\<lambda>(k, v). (k, norm v)) (sort_key fst ms)"

definition clean_ProtocolConfig :: "ProtocolConfig \<Rightarrow> ProtocolConfig" where
  "clean_ProtocolConfig r = r\<lparr>pr_FlushDelay := utf8_text (pr_FlushDelay r),
     pr_PollMin := utf8_text (pr_PollMin r), pr_PollMax := utf8_text (pr_PollMax r),
     pr_ActivePollDuration := utf8_text (pr_ActivePollDuration r),
     pr_IdleTimeout := utf8_text (pr_IdleTimeout r)\<rparr>"

definition clean_TrafficMetrics :: "TrafficMetrics \<Rightarrow> TrafficMetrics" where
  "clean_TrafficMetrics r = r\<lparr>tr_SHA256 := utf8_text (tr_SHA256 r)\<rparr>"

definition clean_OperationMetrics :: "OperationMetrics \<Rightarrow> OperationMetrics" where
  "clean_OperationMetrics r = r\<lparr>om_Operation := utf8_text (om_Operation r),
     om_KeyClass := utf8_text (om_KeyClass r), om_Result := utf8_text (om_Result r)\<rparr>"

definition clean_ScenarioResult :: "ScenarioResult \<Rightarrow> ScenarioResult" where
  "clean_ScenarioResult r = r\<lparr>sr_Name := utf8_text (sr_Name r), sr_Description := utf8_text (sr_Description r),
     sr_Status := utf8_text (sr_Status r), sr_Error := utf8_text (sr_Error r),
     sr_Parameters := map_option clean_params (sr_Parameters r),
     sr_Traffic := clean_TrafficMetrics (sr_Traffic r),
     sr_ObjectStoreMetrics := map clean_OperationMetrics (sr_ObjectStoreMetrics r),
     sr_Observations := map utf8_text (sr_Observations r)\<rparr>"

definition clean_RunResult :: "RunResult \<Rightarrow> RunResult" where
  "clean_RunResult r = r\<lparr>rr_GitCommit := utf8_text (rr_GitCommit r),
     rr_GoVersion := utf8_text (rr_GoVersion r), rr_OS := utf8_text (rr_OS r),
     rr_Arch := utf8_text (rr_Arch r), rr_Profile := utf8_text (rr_Profile r),
     rr_Provider := utf8_text (rr_Provider r),
     rr_Config := clean_ProtocolConfig (rr_Config r),
     rr_Scenarios := map clean_ScenarioResult (rr_Scenarios r)\<rparr>"

lemma norm_json_values [simp]: "norm (json_u64 v) = json_u64 v" "norm (json_float x) = json_float x"
  by (simp_all add: json_u64_def json_float_def)

lemma wf_json_values [simp]: "wf_json (json_u64 v)" "double x \<Longrightarrow> wf_json (json_float x)"
  by (simp_all add: json_u64_def json_float_def wf_num_float_text)

lemma set_values [simp]:
  "set_uint 64 upd (json_u64 v) r = Some (upd (unat v) r)"
  "double x \<Longrightarrow> set_float fupd (json_float x) r = Some (fupd x r)"
  by (simp_all add: json_u64_def json_float_def set_float_def parse_float_text)

lemma set_struct_value: "decode fs v (get r) = Some x \<Longrightarrow> set_struct fs get upd v r = Some (upd x r)"
  by (simp add: set_struct_def)

lemma set_int64 [simp]: "int64 i \<Longrightarrow> set_int upd (json_int i) r = Some (upd i r)"
  by (simp add: int64_def)

lemma sint_int64 [simp]: "int64 (sint (w :: 64 word))"
  using sint_range_size [of w] by (simp add: int64_def word_size)

lemma omitted: "omitempty name s = (if s = [] then [] else [(name, JStr s)])"
  "omit_zero name i = (if i = 0 then [] else [(name, json_int i)])"
  by (simp_all add: omitempty_def omit_zero_def)

lemmas read_field = find_field_def utf8_text_ascii

lemma set_fields_skip [simp]: "set_fields fs [] r = Some r"
  by simp

lemma read_ProtocolConfig:
  "typed_ProtocolConfig c \<Longrightarrow> decode ProtocolConfig_fields (norm (json_ProtocolConfig c)) y = Some (clean_ProtocolConfig c)"
  by (simp add: json_ProtocolConfig_def ProtocolConfig_fields_def read_field clean_ProtocolConfig_def typed_ProtocolConfig_def)

lemma read_DurationStats:
  "typed_DurationStats d \<Longrightarrow> decode DurationStats_fields (norm (json_DurationStats d)) y = Some d"
  by (simp add: json_DurationStats_def DurationStats_fields_def read_field typed_DurationStats_def)

lemma read_DerivedMetrics:
  "typed_DerivedMetrics d \<Longrightarrow> decode DerivedMetrics_fields (norm (json_DerivedMetrics d)) y = Some d"
  by (simp add: json_DerivedMetrics_def DerivedMetrics_fields_def read_field typed_DerivedMetrics_def)

lemma read_OperationMetrics:
  "typed_OperationMetrics m \<Longrightarrow>
   decode OperationMetrics_fields (norm (json_OperationMetrics m)) y = Some (clean_OperationMetrics m)"
  by (simp add: json_OperationMetrics_def OperationMetrics_fields_def read_field typed_OperationMetrics_def
      clean_OperationMetrics_def set_struct_value read_DurationStats)

lemma read_SessionMetrics:
  "typed_SessionMetrics m \<Longrightarrow> decode SessionMetrics_fields (norm (json_SessionMetrics m)) y = Some m"
  by (simp add: json_SessionMetrics_def SessionMetrics_fields_def read_field typed_SessionMetrics_def
      set_struct_value read_DurationStats)

lemma read_TrafficMetrics:
  "typed_TrafficMetrics m \<Longrightarrow>
   decode TrafficMetrics_fields (norm (json_TrafficMetrics m)) zero_traffic = Some (clean_TrafficMetrics m)"
  by (simp add: json_TrafficMetrics_def TrafficMetrics_fields_def read_field typed_TrafficMetrics_def
      clean_TrafficMetrics_def omitted zero_traffic_def)

lemma those_map_Some: "(\<And>x. x \<in> set xs \<Longrightarrow> f x = Some (h x)) \<Longrightarrow> those (map f xs) = Some (map h xs)"
  by (induction xs) auto

lemma update_new: "k \<notin> set (map fst m) \<Longrightarrow> AList.update k v m = m @ [(k, v)]"
  by (induction m) auto

lemma add_params_new:
  assumes "distinct (map fst (m @ ms))" and "\<And>k v. (k, v) \<in> set ms \<Longrightarrow> any_value v = Some v"
  shows "add_params ms m = Some (m @ ms)"
  using assms
proof (induction ms arbitrary: m)
  case (Cons kv ms)
  obtain k v where kv: "kv = (k, v)" by fastforce
  have "add_params ms (m @ [(k, v)]) = Some ((m @ [(k, v)]) @ ms)"
    using Cons.prems kv by (intro Cons.IH) auto
  then show ?case
    using Cons.prems(1) Cons.prems(2) [of k v] kv by (simp add: update_new)
qed simp

lemma read_Parameters:
  assumes "typed_params ps" and "sr_Parameters r = None"
  shows "set_Parameters (norm (json_Parameters ps)) r = Some (r\<lparr>sr_Parameters := map_option clean_params ps\<rparr>)"
proof (cases ps)
  case None
  then show ?thesis
    by (simp add: json_Parameters_def set_Parameters_def)
next
  case (Some ms)
  have any: "plain_param v \<Longrightarrow> any_value (norm v) = Some (norm v)" for v
    by (cases v) auto
  have t: "distinct (map fst ms)" "\<And>k v. (k, v) \<in> set ms \<Longrightarrow> ascii k"
    "\<And>k v. (k, v) \<in> set ms \<Longrightarrow> any_value (norm v) = Some (norm v)"
    using assms(1) Some any by (force simp: typed_params_def)+
  have n: "norm (JObj (sort_key fst ms)) = JObj (clean_params ms)"
    using t(2) by (auto simp: clean_params_def utf8_text_ascii)
  have "distinct (map fst (sort_key fst ms))"
    using t(1) by (simp add: distinct_map)
  then have "distinct (map fst (clean_params ms))"
    by (simp add: clean_params_def case_prod_unfold comp_def)
  moreover have "any_value v = Some v" if "(k, v) \<in> set (clean_params ms)" for k v
    using that t(3) by (auto simp: clean_params_def)
  ultimately have "add_params (clean_params ms) [] = Some (clean_params ms)"
    using add_params_new [of "[]" "clean_params ms"] by simp
  then show ?thesis
    unfolding Some json_Parameters_def option.case n by (simp add: set_Parameters_def assms(2))
qed

lemma read_Snapshot:
  assumes "\<forall>x \<in> set ops. typed_OperationMetrics x" and "isNil \<longrightarrow> ops = []"
  shows "set_Snapshot (norm (json_Snapshot isNil ops)) r =
    Some (r\<lparr>sr_ObjectStoreMetrics := map clean_OperationMetrics ops\<rparr>)"
proof -
  have "those (map (\<lambda>x. decode OperationMetrics_fields (norm (json_OperationMetrics x)) zero_OperationMetrics) ops) =
      Some (map clean_OperationMetrics ops)"
    by (rule those_map_Some) (simp add: assms(1) read_OperationMetrics)
  then show ?thesis
    using assms(2) by (simp add: set_Snapshot_def json_Snapshot_def read_field set_list_def comp_def)
qed

lemma read_ScenarioResult:
  assumes "typed_ScenarioResult r"
  shows "decode ScenarioResult_fields (norm (json_ScenarioResult r)) zero_ScenarioResult = Some (clean_ScenarioResult r)"
proof -
  have obs: "set_list (\<lambda>v. set_str (\<lambda>s _. s) v []) upd (JArr (map (norm \<circ> JStr) xs)) y =
      Some (upd (map utf8_text xs) y)" for xs upd and y :: ScenarioResult
    by (simp add: set_list_def those_map_Some comp_def)
  have names: "norm (JObj ms) = JObj (map (\<lambda>(k, v). (utf8_text k, norm v)) ms)" for ms
    by simp
  show ?thesis
    using assms
    by (simp add: json_ScenarioResult_def ScenarioResult_fields_def read_field typed_ScenarioResult_def
        clean_ScenarioResult_def omitted set_struct_value read_Parameters read_Snapshot read_SessionMetrics
        read_TrafficMetrics read_DerivedMetrics obs zero_ScenarioResult_def)
qed

lemma read_RunResult:
  assumes "typed_RunResult r"
  shows "decode RunResult_fields (norm (json_RunResult r)) zero_RunResult = Some (clean_RunResult r)"
proof -
  have "those (map (\<lambda>x. decode ScenarioResult_fields (norm (json_ScenarioResult x)) zero_ScenarioResult) (rr_Scenarios r)) =
      Some (map clean_ScenarioResult (rr_Scenarios r))"
    using assms by (intro those_map_Some read_ScenarioResult) (simp add: typed_RunResult_def)
  then show ?thesis
    using assms
    by (simp add: json_RunResult_def RunResult_fields_def read_field typed_RunResult_def clean_RunResult_def
        set_struct_value read_ProtocolConfig set_list_def comp_def zero_RunResult_def)
qed

text \<open>The value written is well-formed JSON.\<close>

lemma wf_json_params: "typed_params ps \<Longrightarrow> wf_json (json_Parameters ps)"
proof (cases ps)
  case (Some ms)
  have "plain_param v \<Longrightarrow> wf_json v" for v
    by (cases v) auto
  then show "typed_params ps \<Longrightarrow> wf_json (json_Parameters ps)"
    by (auto simp: Some typed_params_def json_Parameters_def)
qed (simp add: json_Parameters_def)

lemma wf_json_ScenarioResult: "typed_ScenarioResult r \<Longrightarrow> wf_json (json_ScenarioResult r)"
  using wf_json_params [of "sr_Parameters r"]
  by (auto simp: typed_ScenarioResult_def json_ScenarioResult_def json_TrafficMetrics_def json_SessionMetrics_def
      json_DerivedMetrics_def json_Snapshot_def json_OperationMetrics_def json_DurationStats_def omitted
      typed_SessionMetrics_def typed_DerivedMetrics_def typed_OperationMetrics_def typed_DurationStats_def)

lemma wf_json_RunResult: "typed_RunResult r \<Longrightarrow> wf_json (json_RunResult r)"
  using wf_json_ScenarioResult
  by (simp add: typed_RunResult_def json_RunResult_def json_ProtocolConfig_def)

text \<open>The figures of a run are doubles.\<close>

lemma typed_SummarizeDurations:
  assumes "\<forall>d \<in> set samples. int64 d"
  shows "typed_DurationStats (SummarizeDurations samples)"
proof -
  have millis: "double (millis d)" if "int64 d" for d
  proof -
    have "\<bar>of_int d :: rat\<bar> \<le> 2 ^ 63"
      using that of_int_le_iff [where ?'a = rat, of "\<bar>d\<bar>" "2 ^ 63"] by (simp add: int64_def abs_le_iff)
    then have "\<bar>flr (of_int d)\<bar> \<le> 2 ^ 63"
      by (rule double_flr) simp
    then have "\<bar>flr (of_int d) / 10 ^ 6\<bar> \<le> 2 ^ 63"
      by simp
    then show ?thesis
      unfolding millis_def by (rule double_flr) simp
  qed
  have sum: "int64 (foldl (\<lambda>tm d. wrap64 (tm + d)) a ds)" if "int64 a" for a ds
    using that
  proof (induction ds arbitrary: a)
    case (Cons d ds)
    have "int64 (wrap64 (a + d))"
      using pos_mod_bound [of "2 ^ 64" "a + d + 2 ^ 63"] pos_mod_sign [of "2 ^ 64" "a + d + 2 ^ 63"]
      by (simp add: wrap64_def int64_def)
    then show ?case
      using Cons.IH by simp
  qed simp
  have "double 0" "int64 0"
    using double_flr(1) [of 0 0] by (simp_all add: flr_def fl_def int64_def)
  show ?thesis
  proof (cases "samples = []")
    case True
    then show ?thesis
      by (simp add: SummarizeDurations_def typed_DurationStats_def \<open>double 0\<close>)
  next
    case False
    let ?s = "sort samples"
    have ne: "?s \<noteq> []"
      using False by (metis set_empty set_sort)
    have "int64 d" if "d \<in> set ?s" for d
      using that assms by simp
    then show ?thesis
      using False millis sum [OF \<open>int64 0\<close>] percentile_mem [OF ne] hd_in_set [OF ne] last_in_set [OF ne]
      by (simp add: SummarizeDurations_def typed_DurationStats_def Let_def)
  qed
qed

lemma float_of_bounds: "0 \<le> float_of v" "float_of v \<le> 2 ^ 64" "v \<noteq> 0 \<Longrightarrow> 1 \<le> float_of v"
proof -
  have "(of_nat (unat v) :: rat) \<le> of_nat (2 ^ 64)"
    unfolding of_nat_le_iff using unat_lt64 [of v] by (simp add: less_imp_le del: unat_lt64)
  then show "float_of v \<le> 2 ^ 64"
    using flr_mono [of "of_nat (unat v)" "2 ^ 64"] unfolding flr_power by (simp add: float_of_def)
  show "0 \<le> float_of v"
    unfolding float_of_def by (intro flr_nonneg of_nat_0_le_iff)
  assume "v \<noteq> 0"
  then have "Suc 0 \<le> unat v"
    by (simp add: Suc_le_eq unat_gt_0)
  then have "1 \<le> (of_nat (unat v) :: rat)"
    by (metis of_nat_1 of_nat_mono One_nat_def)
  then show "1 \<le> float_of v"
    using flr_mono [of "2 ^ 0" "of_nat (unat v)"] unfolding flr_power by (simp add: float_of_def)
qed

lemma double_fdiv:
  assumes "0 \<le> b" and "b = 0 \<or> 1 / 2 ^ 20 \<le> b"
  shows "double (fdiv (float_of v) b)"
proof (cases "b = 0")
  case True
  then show ?thesis
    using double_flr(1) [of 0 0] by (simp add: fdiv_def flr_def fl_def)
next
  case False
  then have "1 \<le> 2 ^ 20 * b"
    using assms(2) by (simp add: field_simps)
  then have "float_of v * 1 \<le> 2 ^ 64 * (2 ^ 20 * b)"
    using float_of_bounds(1,2) [of v] by (intro mult_mono) auto
  then have "\<bar>float_of v / b\<bar> \<le> 2 ^ 84"
    using float_of_bounds(1) [of v] assms(1) False by (simp add: divide_le_eq)
  then show ?thesis
    using False double_flr(1) [of "float_of v / b" 84] by (simp add: fdiv_def)
qed

lemma double_fdiv_count: "double (fdiv (float_of v) (float_of (maxUint64 w 1)))"
proof -
  have "maxUint64 w 1 \<noteq> 0"
    by (auto simp: maxUint64_def word_less_1)
  then have "1 \<le> float_of (maxUint64 w 1)"
    by (rule float_of_bounds)
  moreover have "1 / 2 ^ 20 \<le> (1 :: rat)"
    by simp
  ultimately show ?thesis
    using double_fdiv [of "float_of (maxUint64 w 1)" v] by linarith
qed

lemma typed_deriveMetrics: "typed_DerivedMetrics (deriveMetrics traffic s store)"
proof -
  let ?v = "tr_BytesSent traffic" and ?b = "flr (float_of (tr_BytesSent traffic) / (1024 * 1024))"
  have "?b = 0 \<or> 1 / 2 ^ 20 \<le> ?b"
  proof (cases "?v = 0")
    case True
    then show ?thesis by (simp add: float_of_def flr_def fl_def)
  next
    case False
    have "(2 :: rat) powi (- 20) \<le> float_of ?v / (1024 * 1024)"
      using float_of_bounds(3) [OF False] by (simp add: power_int_minus)
    then have "flr (2 powi (- 20)) \<le> ?b"
      by (rule flr_mono)
    then show ?thesis
      unfolding flr_power_int by (simp add: power_int_minus)
  qed
  moreover have "0 \<le> ?b"
    using float_of_bounds(1) [of ?v] by (intro flr_nonneg) simp
  ultimately show ?thesis
    unfolding deriveMetrics_def typed_DerivedMetrics_def Let_def by (simp add: double_fdiv_count double_fdiv)
qed

lemma DecodeResult_written:
  assumes "typed_RunResult r"
  shows "\<exists>d. MarshalJSONDeterministic r = Inr d \<and> DecodeResult d = Inr (clean_RunResult r)"
proof -
  let ?t = "enc_w indent '' '' 0 (json_RunResult r)"
  have t: "wf_time (rr_Timestamp r)"
    using assms by (simp add: typed_RunResult_def)
  then have m: "MarshalJSONDeterministic r = Inr (bytes_of (?t @ [CHR 0x0A]))"
    by (simp add: MarshalJSONDeterministic_def marshal_def wf_time_def)
  have "p_value (Suc (2 * length (?t @ [CHR 0x0A]))) (?t @ [CHR 0x0A]) = Some (norm (json_RunResult r), [CHR 0x0A])"
    by (rule p_value_enc_w [OF spaces_indent wf_json_RunResult [OF assms]])
      (simp_all add: stop_def num_char_def is_digit_def less_eq_char_def)
  then show ?thesis
    by (simp add: m DecodeResult_def read_RunResult [OF assms] del: p_value.simps)
qed

text \<open>
  C40: a result that was written reads back as the result with its texts made valid UTF-8
  and its parameters in the order of their names; every number comes back as it was,
  the figures computed in \<open>float64\<close> included.
\<close>

theorem result_roundtrip:
  assumes "typed_RunResult r"
  shows "ebind (MarshalJSONDeterministic r) DecodeResult = Inr (clean_RunResult r)"
  using DecodeResult_written [OF assms] by auto

definition sample_result :: RunResult where
  "sample_result =
     run_result \<lparr>rh_now = sample_time, rh_GoVersion = ''go1.22'', rh_OS = ''linux'', rh_Arch = ''amd64''\<rparr>
       (DefaultConfig ProfileMemory)
       [scenario_result ''small-chatty-writes'' ''Send ordered writes.''
          (zero_traffic, [(''writes'', jint 7), (''duration'', jdur 5)], None) 3000000 zero_Stats []]"

lemma plain_param_values: "plain_param (jint n) \<longleftrightarrow> parse_float (itoa_int n) \<noteq> None" "plain_param (jdur d)"
  by (simp_all add: jint_def jdur_def wf_num_itoa_int)

lemma typed_sample_result: "typed_RunResult sample_result"
proof -
  have zero: "double 0"
    using double_flr(1) [of 0 0] by (simp add: flr_def fl_def)
  have "parse_float (itoa_int 7) \<noteq> None"
    by code_simp
  then have p: "typed_params (Some [(''writes'', jint 7), (''duration'', jdur 5)])"
    by (simp add: typed_params_def plain_param_values)
  have t: "typed_TrafficMetrics zero_traffic"
    by (simp add: typed_TrafficMetrics_def zero_traffic_def int64_def)
  have m: "typed_SessionMetrics (sessionMetrics zero_Stats)"
    unfolding sessionMetrics_def typed_SessionMetrics_def by (simp add: typed_SummarizeDurations zero_Stats_def)
  show ?thesis
    by (simp add: sample_result_def run_result_def typed_RunResult_def typed_ScenarioResult_def scenario_result_def p t m
        typed_deriveMetrics wf_sample_time typed_ProtocolConfig_def protocol_config_def DefaultConfig_def Let_def
        Milliseconds_def int64_def)
qed

theorem result_roundtrip_witness:
  "\<exists>r. ebind (MarshalJSONDeterministic sample_result) DecodeResult = Inr r \<and>
     map sr_Parameters (rr_Scenarios r) = [Some [(''duration'', jdur 5), (''writes'', jint 7)]]"
proof -
  have "clean_params [(''writes'', jint 7), (''duration'', jdur 5)] = [(''duration'', jdur 5), (''writes'', jint 7)]"
    by code_simp
  then show ?thesis
    using result_roundtrip [OF typed_sample_result]
    by (simp add: sample_result_def run_result_def clean_RunResult_def clean_ScenarioResult_def scenario_result_def)
qed

end
