(* ===== verification/PerfProps.thy ===== *)
theory PerfProps
  imports PerfRun "HOL-Library.Multiset"
begin

text \<open>
  Properties of the performance harness: every scenario returns when time passes, a
  scenario that passes received exactly what it sent and counts it, the order in
  which the goroutines of the mixed scenario end does not change its figures, and
  what a run reports.
\<close>

section \<open>The scenarios return\<close>

definition returns :: "('s \<Rightarrow> 'r option) \<Rightarrow> bool" where
  "returns m \<longleftrightarrow> (\<forall>s. m s \<noteq> None)"

named_theorems returns_intros

lemma returns_prog [returns_intros]:
  "returns (pret x)" "returns (pfail e)" "returns (pop f)" "returns (pcall g)" "returns (pdo k)" "returns (pread h)"
  by (auto simp: returns_def prog_defs split: option.split prod.split)

lemma returns_pbind [returns_intros]: "returns m \<Longrightarrow> (\<And>x. returns (f x)) \<Longrightarrow> returns (pbind m f)"
  unfolding returns_def pbind_def by (auto split: option.split sum.split)

lemma returns_pfinally [returns_intros]: "returns m \<Longrightarrow> returns (pfinally m k)"
  unfolding returns_def pfinally_def by (auto split: option.split)

lemma returns_ponerror [returns_intros]: "returns m \<Longrightarrow> returns (ponerror m k)"
  unfolding returns_def ponerror_def by (auto split: option.split sum.split)

lemma returns_if [returns_intros]: "returns m \<Longrightarrow> returns n \<Longrightarrow> returns (if b then m else n)"
  by simp

lemma returns_case_prod [returns_intros]: "(\<And>a b. returns (f a b)) \<Longrightarrow> returns (case x of (a, b) \<Rightarrow> f a b)"
  by (cases x) simp

lemma returns_whole [returns_intros]: "returns m \<Longrightarrow> returns (whole m)"
  unfolding returns_def whole_def by (auto split: option.split simp del: not_None_eq)

lemma returns_openSOCKS [returns_intros]: "returns (openSOCKS N a t)"
  unfolding openSOCKS_def socksHandshake_def by (intro returns_intros)

lemma returns_with_conn [returns_intros]: "(\<And>c. returns (f c)) \<Longrightarrow> returns (with_conn N a e f)"
  unfolding with_conn_def by (intro returns_intros)

lemma returns_with_echo [returns_intros]: "(\<And>e. returns (f e)) \<Longrightarrow> returns (with_echo N f)"
  unfolding with_echo_def by (intro returns_intros)

lemma returns_writeRead [returns_intros]: "returns (writeRead N c p)"
  unfolding writeRead_def by (intro returns_intros)

lemma returns_echoed [returns_intros]: "returns (echoed N c m p)"
  unfolding echoed_def by (intro returns_intros)

lemma returns_one_byte [returns_intros]: "returns (one_byte N c p i q)"
  unfolding one_byte_def by (intro returns_intros)

lemma returns_chatty: "clock_runs N \<Longrightarrow> 0 < interval \<Longrightarrow> returns (runChattyExchanges N c i d interval sz)"
  unfolding returns_def by (blast dest: runChattyExchanges_returns)

lemma returns_short_loop [returns_intros]: "returns (short_loop n N a e i x y)"
  by (induction n arbitrary: i x y) (auto intro!: returns_intros)

lemma returns_open_idle [returns_intros]: "returns (open_idle n N a e cs)"
  by (induction n arbitrary: cs) (auto intro!: returns_intros)

lemmas scenario_defs = runOneByteActive_def runOneByteAfterIdle_def runSmallChattyWrites_def runBulkOneMiB_def
  run_bulk_def runShortConnections_def runConcurrentIdleSessions_def Let_def

lemma returns_mixed_tasks:
  assumes "clock_runs N" and "usable cfg" and "t \<in> set (mixed_tasks N a cfg e)"
  shows "returns t"
proof -
  have "0 < pc_ChattyInterval cfg"
    using assms(2) by (simp add: usable_def)
  then have "returns (mixed_bulk N a e)" "\<And>i. returns (mixed_chatty N a cfg e i)" "returns (mixed_idle N a cfg e)"
    unfolding mixed_bulk_def mixed_chatty_def mixed_idle_def
    by (auto intro!: returns_intros returns_chatty assms(1))
  then show ?thesis
    using assms(3) by (auto simp: mixed_tasks_def)
qed

lemma returns_mixed:
  assumes "clock_runs N" and "usable cfg"
    and "\<forall>ts. (\<forall>t \<in> set ts. returns t) \<longrightarrow> returns (go ts)"
  shows "returns (runMixedTraffic go N a cfg)"
proof -
  have "returns (go (mixed_tasks N a cfg e))" for e
    using assms(3) returns_mixed_tasks [OF assms(1,2)] by blast
  then show ?thesis
    unfolding returns_def runMixedTraffic_def
    by (auto split: sum.split prod.split option.split simp del: not_None_eq)
qed

lemma scenario_run_returns:
  assumes "clock_runs N" and "usable cfg"
    and "\<forall>ts. (\<forall>t \<in> set ts. returns t) \<longrightarrow> returns (go ts)"
    and "sc \<in> set (scenarios go infInt)"
  shows "returns (sc_run sc N a cfg)"
proof -
  have i: "0 < pc_ChattyInterval cfg"
    using assms(2) by (simp add: usable_def)
  have "returns (whole (runSmallChattyWrites N a cfg))"
    unfolding scenario_defs by (intro returns_intros returns_chatty assms(1) i)
  moreover have "returns (whole (runOneByteActive N a cfg))" "returns (whole (runOneByteAfterIdle N a cfg))"
    "returns (whole (runBulkOneMiB infInt N a cfg))" "returns (whole (runShortConnections N a cfg))"
    "returns (whole (runConcurrentIdleSessions N a cfg))"
    unfolding scenario_defs by (intro returns_intros)+
  moreover have "returns (runMixedTraffic go N a cfg)"
    using returns_mixed [OF assms(1-3)] .
  ultimately show ?thesis
    using assms(4) by (auto simp: scenarios_def)
qed

text \<open>
  C34: each of the seven scenarios comes to an end with a result, whatever the network
  does, under a configuration the harness has normalised, when sleeping takes the
  time it is asked for, the clock does not go back, and a group of goroutines ends
  when each of them does: neither the timed exchanges nor the wait for the sessions
  can go on for ever.
\<close>

theorem runOneScenario_returns:
  assumes "clock_runs N" and "\<forall>ts. (\<forall>t \<in> set ts. returns t) \<longrightarrow> returns (go ts)"
    and "sc \<in> set (scenarios go infInt)"
  shows "\<exists>r s'. runOneScenario W N (normalizeConfig cfg) sc s = Some (r, s') \<and> sr_Name r = sc_name sc"
proof -
  let ?cfg = "normalizeConfig cfg"
  obtain en s1 where e: "newEnvironment W ?cfg (sc_name sc) s = (en, s1)"
    by fastforce
  show ?thesis
  proof (cases en)
    case (Inr env)
    have "returns (sc_run sc N (env_socksAddr env) ?cfg)"
      using scenario_run_returns [OF assms(1) usable_normalizeConfig assms(2,3)] .
    then obtain oc s2 where r: "sc_run sc N (env_socksAddr env) ?cfg s1 = Some (oc, s2)"
      by (fastforce simp: returns_def)
    obtain s3 where "waitForSessions N (tr_Connections (fst oc)) (pc_PollMax ?cfg) s2 = Some s3"
      using waitForSessions_returns [OF assms(1)] by blast
    then show ?thesis
      by (cases oc) (simp add: runOneScenario_def e Inr r scenario_result_def)
  qed (simp add: runOneScenario_def e failed_result_def)
qed

text \<open>A network that echoes, with a clock only sleeping moves, and goroutines run one after the other.\<close>

definition loop_net :: "(unit, int) perf_net" where
  "loop_net =
     \<lparr>pn_startEcho = Pair (Inr (Address (v4_target 2130706433 9))), pn_stopEcho = id, pn_dial = (\<lambda>_. Pair (Inr ())),
      pn_write = (\<lambda>_ _. Pair None), pn_readFull = (\<lambda>_ n. Pair (Inr (replicate n 0))),
      pn_exchange = (\<lambda>_ bs _. Pair (None, Inr bs)), pn_setDeadline = (\<lambda>_ _. id), pn_close = (\<lambda>_. id),
      pn_now = id, pn_sleep = (\<lambda>d s. (None, s + d)), pn_ctxErr = (\<lambda>_. None), pn_ctxDeadline = None,
      pn_stats = (\<lambda>_. zero_Stats), pn_collector = (\<lambda>_. Some NewCollector)\<rparr>"

fun sequentially :: "(share, 's) prog list \<Rightarrow> 's \<Rightarrow> (share result list \<times> 's) option" where
  "sequentially [] s = Some ([], s)"
| "sequentially (t # ts) s =
     (case t s of
        None \<Rightarrow> None
      | Some (r, s1) \<Rightarrow> map_option (\<lambda>(rs, s2). (r # rs, s2)) (sequentially ts s1))"

lemma sequentially_returns: "\<forall>t \<in> set ts. returns t \<Longrightarrow> returns (sequentially ts)"
proof (induction ts)
  case (Cons t ts)
  then have "returns t" "returns (sequentially ts)" by simp_all
  then show ?case
    unfolding returns_def by (auto split: option.split simp del: not_None_eq)
qed (simp add: returns_def)

lemma clock_loop_net: "clock_runs loop_net"
  by (simp add: clock_runs_def loop_net_def)

definition memory_world :: "(unit, mem_store, unit, int) run_world" where
  "memory_world =
     \<lparr>rw_factory = None, rw_make = (\<lambda>_. ()), rw_store = (\<lambda>_. memory_store), rw_codec = (\<lambda>_. NoopCodec),
      rw_runServer = (\<lambda>_. id), rw_startSOCKS = (\<lambda>_. Pair (Inr ''127.0.0.1:1080'')), rw_stopSOCKS = id,
      rw_cancel = id\<rparr>"

theorem runOneScenario_returns_witness:
  "\<exists>r s'. runOneScenario memory_world loop_net (normalizeConfig (DefaultConfig ProfileMemory))
     (scenarios sequentially 0 ! 2) 0 = Some (r, s') \<and> sr_Name r = ''small-chatty-writes''"
proof -
  have "scenarios sequentially 0 ! 2 \<in> set (scenarios sequentially 0 :: (unit, int) scenario list)"
    "sc_name (scenarios sequentially 0 ! 2 :: (unit, int) scenario) = ''small-chatty-writes''"
    by (simp_all add: scenarios_def)
  from runOneScenario_returns [OF clock_loop_net _ this(1)] this(2) sequentially_returns show ?thesis
    by fastforce
qed

section \<open>What a passed scenario exchanged\<close>

text \<open>A network with a log of its connections and of every exchange with its outcome.\<close>

datatype net_event = Dialled | Exchanged bytes "err option \<times> bytes result"

definition keep :: "('s \<Rightarrow> 's) \<Rightarrow> 's \<times> 'l \<Rightarrow> 's \<times> 'l" where
  "keep f x = (f (fst x), snd x)"

definition keep_result :: "('s \<Rightarrow> 'r \<times> 's) \<Rightarrow> 's \<times> 'l \<Rightarrow> 'r \<times> ('s \<times> 'l)" where
  "keep_result f x = (fst (f (fst x)), (snd (f (fst x)), snd x))"

definition log_dial :: "('s \<Rightarrow> 'c result \<times> 's) \<Rightarrow> 's \<times> net_event list \<Rightarrow> 'c result \<times> ('s \<times> net_event list)" where
  "log_dial f x =
     (let (r, s') = f (fst x) in (r, (s', if is_err r then snd x else snd x @ [Dialled])))"

definition log_exchange ::
  "bytes \<Rightarrow> ('s \<Rightarrow> (err option \<times> bytes result) \<times> 's) \<Rightarrow> 's \<times> net_event list
     \<Rightarrow> (err option \<times> bytes result) \<times> ('s \<times> net_event list)" where
  "log_exchange p f x = (let (r, s') = f (fst x) in (r, (s', snd x @ [Exchanged p r])))"

definition logged :: "('c, 's) perf_net \<Rightarrow> ('c, 's \<times> net_event list) perf_net" where
  "logged N =
     \<lparr>pn_startEcho = keep_result (pn_startEcho N), pn_stopEcho = keep (pn_stopEcho N),
      pn_dial = (\<lambda>a. log_dial (pn_dial N a)), pn_write = (\<lambda>c b. keep_result (pn_write N c b)),
      pn_readFull = (\<lambda>c n. keep_result (pn_readFull N c n)),
      pn_exchange = (\<lambda>c p n. log_exchange p (pn_exchange N c p n)),
      pn_setDeadline = (\<lambda>c d. keep (pn_setDeadline N c d)), pn_close = (\<lambda>c. keep (pn_close N c)),
      pn_now = (\<lambda>x. pn_now N (fst x)), pn_sleep = (\<lambda>d. keep_result (pn_sleep N d)),
      pn_ctxErr = (\<lambda>x. pn_ctxErr N (fst x)), pn_ctxDeadline = pn_ctxDeadline N,
      pn_stats = (\<lambda>x. pn_stats N (fst x)), pn_collector = (\<lambda>x. pn_collector N (fst x))\<rparr>"

definition echo_event :: "bytes \<Rightarrow> net_event" where
  "echo_event p = Exchanged p (None, Inr p)"

definition total_length :: "bytes list \<Rightarrow> u64" where
  "total_length ps = of_nat (sum_list (map length ps))"

text \<open>The figures of a scenario are those of its log, in which every exchange was echoed.\<close>

definition accounted :: "TrafficMetrics \<Rightarrow> net_event list \<Rightarrow> bool" where
  "accounted t l \<longleftrightarrow>
     tr_Connections t = int (length (filter (\<lambda>e. e = Dialled) l)) \<and>
     (\<exists>ps. filter (\<lambda>e. e \<noteq> Dialled) l = map echo_event ps \<and> tr_Requests t = int (length ps) \<and>
        tr_BytesSent t = total_length ps \<and> tr_BytesReceived t = total_length ps \<and>
        tr_ExpectedBytes t = total_length ps)"

text \<open>What a run that returns a value adds to the log.\<close>

definition logs :: "('a, 's \<times> net_event list) prog \<Rightarrow> ('a \<Rightarrow> net_event list \<Rightarrow> bool) \<Rightarrow> bool" where
  "logs m Q \<longleftrightarrow> (\<forall>x r y. m x = Some (Inr r, y) \<longrightarrow> (\<exists>d. snd y = snd x @ d \<and> Q r d))"

lemma logs_weaken: "logs m P \<Longrightarrow> (\<And>r d. P r d \<Longrightarrow> Q r d) \<Longrightarrow> logs m Q"
  unfolding logs_def by blast

lemma logs_pret: "Q x [] \<Longrightarrow> logs (pret x) Q"
  by (simp add: logs_def pret_def)

lemma logs_pfail: "logs (pfail e) Q"
  by (simp add: logs_def pfail_def)

lemma logs_pbind:
  "logs m P \<Longrightarrow> (\<And>r d. P r d \<Longrightarrow> logs (f r) (\<lambda>q e. Q q (d @ e))) \<Longrightarrow> logs (pbind m f) Q"
  unfolding logs_def pbind_def by (fastforce split: option.splits sum.splits)

lemma logs_pfinally: "logs m Q \<Longrightarrow> logs (pfinally m (keep k)) Q"
  unfolding logs_def pfinally_def keep_def by (auto split: option.splits)

lemma logs_ponerror: "logs m Q \<Longrightarrow> logs (ponerror m k) Q"
  unfolding logs_def ponerror_def by (auto split: option.splits sum.splits)

lemma logs_silent:
  "logs (pop (keep_result f)) (\<lambda>_ d. d = [])" "logs (pcall (keep_result g)) (\<lambda>_ d. d = [])"
  "logs (pdo (keep k)) (\<lambda>_ d. d = [])" "logs (pread h) (\<lambda>_ d. d = [])" "logs (pop (Pair v)) (\<lambda>_ d. d = [])"
  by (auto simp: logs_def prog_defs keep_def keep_result_def split: option.splits prod.splits)

text \<open>A call that logs nothing followed by the rest.\<close>

lemma logs_skip: "logs m (\<lambda>_ d. d = []) \<Longrightarrow> (\<And>r. logs (f r) Q) \<Longrightarrow> logs (pbind m f) Q"
  by (erule logs_pbind) simp

lemmas logs_intros = logs_silent logs_skip [OF logs_silent(1)] logs_skip [OF logs_silent(2)]
  logs_skip [OF logs_silent(3)] logs_skip [OF logs_silent(4)] logs_skip [OF logs_silent(5)]
  logs_pfail logs_pfinally logs_ponerror

lemma logged_sel [simp]:
  "pn_startEcho (logged N) = keep_result (pn_startEcho N)" "pn_stopEcho (logged N) = keep (pn_stopEcho N)"
  "pn_dial (logged N) a = log_dial (pn_dial N a)" "pn_write (logged N) c b = keep_result (pn_write N c b)"
  "pn_readFull (logged N) c n = keep_result (pn_readFull N c n)"
  "pn_exchange (logged N) c p n = log_exchange p (pn_exchange N c p n)"
  "pn_setDeadline (logged N) c d = keep (pn_setDeadline N c d)" "pn_close (logged N) c = keep (pn_close N c)"
  "pn_sleep (logged N) i = keep_result (pn_sleep N i)"
  by (simp_all add: logged_def)

lemma logs_handshake: "logs (socksHandshake (logged N) c t) (\<lambda>_ d. d = [])"
  unfolding socksHandshake_def logged_sel by (intro logs_intros) (simp add: logs_pfail logs_pret)

lemma logs_openSOCKS: "logs (openSOCKS (logged N) a t) (\<lambda>_ d. d = [Dialled])"
proof -
  have "logs (pop (pn_dial (logged N) a)) (\<lambda>_ d. d = [Dialled])"
    by (auto simp: logs_def pop_def log_dial_def Let_def split: prod.splits if_splits)
  then show ?thesis
    unfolding openSOCKS_def
    by (rule logs_pbind)
      (simp, intro logs_intros logs_skip [OF logs_ponerror [OF logs_handshake]] logs_pret, simp)
qed

lemma logs_writeRead: "logs (writeRead (logged N) c p) (\<lambda>got d. d = [Exchanged p (None, Inr got)])"
proof -
  have "logs (pop (exchange_result (logged N) c p)) (\<lambda>got d. d = [Exchanged p (None, Inr got)])"
    by (auto simp: logs_def pop_def exchange_result_def log_exchange_def Let_def split: prod.splits option.splits)
  then show ?thesis
    unfolding writeRead_def logged_sel by (intro logs_intros)
qed

lemma logs_compare:
  "logs m (\<lambda>got d. d = pre @ [Exchanged p (None, Inr got)]) \<Longrightarrow> logs (f p) (\<lambda>r e. Q r (pre @ echo_event p # e)) \<Longrightarrow>
   logs (pbind m (\<lambda>got. if got \<noteq> p then pfail x else f got)) Q"
  by (erule logs_pbind) (simp add: echo_event_def logs_pfail)

lemma logs_echoed: "logs (echoed (logged N) c m p) (\<lambda>got d. got = p \<and> d = [echo_event p])"
  unfolding echoed_def by (rule logs_compare [where pre = "[]"]) (simp_all add: logs_writeRead logs_pret)

lemma logs_with_echo: "(\<And>e. logs (f e) Q) \<Longrightarrow> logs (with_echo (logged N) f) Q"
  unfolding with_echo_def logged_sel by (intro logs_intros)

lemma logs_with_conn: "(\<And>c. logs (f c) (\<lambda>r d. Q r (Dialled # d))) \<Longrightarrow> logs (with_conn (logged N) a e f) Q"
  unfolding with_conn_def logged_sel by (rule logs_pbind [OF logs_openSOCKS]) (simp add: logs_pfinally)

lemma echo_event_not_Dialled [simp]: "echo_event p \<noteq> Dialled" "Dialled \<noteq> echo_event p"
  by (simp_all add: echo_event_def)

lemma total_length_simps [simp]: "total_length [] = 0" "total_length (p # ps) = of_nat (length p) + total_length ps"
  by (simp_all add: total_length_def)

lemma filter_echo_events [simp]:
  "filter (\<lambda>e. e = Dialled) (map echo_event ps) = []" "filter (\<lambda>e. e \<noteq> Dialled) (map echo_event ps) = map echo_event ps"
  by (induction ps) simp_all

lemma accounted_connection:
  assumes "tr_Connections t = 1" and "tr_Requests t = int (length ps)" and "tr_BytesSent t = total_length ps"
    and "tr_BytesReceived t = total_length ps" and "tr_ExpectedBytes t = total_length ps"
  shows "accounted t (Dialled # map echo_event ps)"
  using assms by (auto simp: accounted_def)

lemma logs_one_byte: "logs (one_byte (logged N) c p i q) (\<lambda>r d. accounted (fst r) (Dialled # d))"
  unfolding one_byte_def logged_sel
proof (intro logs_intros, rule logs_pbind [OF logs_writeRead], intro logs_intros)
  fix got d elapsed
  let ?t = "zero_traffic\<lparr>tr_BytesSent := 1, tr_BytesReceived := 1, tr_ExpectedBytes := 1, tr_Connections := 1,
    tr_Requests := 1, tr_IdleMillis := i, tr_RTTMillis := Milliseconds elapsed\<rparr>"
  assume d: "d = [Exchanged (bytes_of [p]) (None, Inr got)]"
  have "accounted ?t (Dialled # map echo_event [bytes_of [p]])"
    by (rule accounted_connection) simp_all
  then show "logs (if got \<noteq> bytes_of [p] then pfail (ErrText ''echo mismatch'')
      else pbind (pdo (keep (pn_close N c))) (\<lambda>_. pret (?t, q))) (\<lambda>r e. accounted (fst r) (Dialled # d @ e))"
    using d by (auto intro!: logs_intros logs_pret simp: echo_event_def)
qed

lemma logs_if_state: "logs m Q \<Longrightarrow> logs n Q \<Longrightarrow> logs (\<lambda>s. if b s then m s else n s) Q"
  by (auto simp: logs_def)

lemma logs_check: "logs (pcall (\<lambda>s. (h s, s))) (\<lambda>_ d. d = [])"
  by (auto simp: logs_def pcall_def split: option.splits)

text \<open>What the exchanges of a timed loop log, on top of what it was called with.\<close>

definition chatty_log :: "u64 \<Rightarrow> u64 \<Rightarrow> nat \<Rightarrow> u64 \<times> u64 \<times> nat \<Rightarrow> net_event list \<Rightarrow> bool" where
  "chatty_log sent recv writes r d \<longleftrightarrow>
     (\<exists>ps. d = map echo_event ps \<and> r = (sent + total_length ps, recv + total_length ps, writes + length ps))"

lemma chatty_log_Nil: "chatty_log sent recv writes (sent, recv, writes) []"
  by (simp add: chatty_log_def)

lemma chatty_log_Cons:
  "chatty_log (sent + of_nat (length p)) (recv + of_nat (length p)) (Suc writes) r d \<Longrightarrow>
   chatty_log sent recv writes r (echo_event p # d)"
proof -
  assume "chatty_log (sent + of_nat (length p)) (recv + of_nat (length p)) (Suc writes) r d"
  then obtain ps where "d = map echo_event ps"
    "r = (sent + of_nat (length p) + total_length ps, recv + of_nat (length p) + total_length ps, Suc writes + length ps)"
    unfolding chatty_log_def by blast
  then show ?thesis
    unfolding chatty_log_def by (intro exI [of _ "p # ps"]) (simp add: add.assoc)
qed

lemma chatty_loop_Suc:
  "chatty_loop (Suc n) N c i deadline interval sz sent recv writes =
     (\<lambda>s. if writes = 0 \<or> pn_now N s < deadline then
        pbind (pcall (\<lambda>s. (pn_ctxErr N s, s))) (\<lambda>_.
        pbind (echoed N c (chatty_mismatch writes) (makeChattyPayload i writes sz)) (\<lambda>got.
        pbind (pread (\<lambda>s. deadline - pn_now N s)) (\<lambda>remaining.
          let sent' = sent + of_nat sz; recv' = recv + of_nat (length got)
          in if remaining \<le> 0 then pret (sent', recv', Suc writes)
             else pbind (if min interval remaining > 0 then pcall (pn_sleep N (min interval remaining)) else pret ())
               (\<lambda>_. chatty_loop n N c i deadline interval sz sent' recv' (Suc writes))))) s
      else pret (sent, recv, writes) s)"
  by (rule ext) simp

lemma logs_chatty_loop:
  "logs (chatty_loop n (logged N) c i deadline interval sz sent recv writes) (chatty_log sent recv writes)"
proof (induction n arbitrary: sent recv writes)
  case 0
  then show ?case by (simp add: logs_def)
next
  case (Suc n)
  let ?p = "makeChattyPayload i writes sz"
  let ?s = "sent + of_nat (length ?p)" and ?r = "recv + of_nat (length ?p)"
  have len: "length ?p = sz"
    by (simp add: makeChattyPayload_def)
  have pause: "logs (if b then pcall (pn_sleep (logged N) w) else pret ()) (\<lambda>_ d. d = [])" for b w
    by (simp add: logs_silent logs_pret)
  have after: "logs (if rem \<le> 0 then pret (?s, ?r, Suc writes)
      else pbind (if min interval rem > 0 then pcall (pn_sleep (logged N) (min interval rem)) else pret ())
        (\<lambda>_. chatty_loop n (logged N) c i deadline interval sz ?s ?r (Suc writes)))
      (\<lambda>q e. chatty_log sent recv writes q (echo_event ?p # e))" for rem
  proof (cases "rem \<le> 0")
    case True
    then show ?thesis
      by (simp only: if_True) (intro logs_pret chatty_log_Cons chatty_log_Nil)
  next
    case False
    then show ?thesis
      by (simp only: if_False) (intro logs_skip [OF pause] logs_weaken [OF Suc.IH] chatty_log_Cons)
  qed
  show ?case
    unfolding chatty_loop_Suc
  proof (rule logs_if_state, rule logs_skip [OF logs_check], rule logs_pbind [OF logs_echoed], intro logs_intros)
    fix got d rem
    assume "got = ?p \<and> d = [echo_event ?p]"
    with after [of rem] show "logs (let sent' = sent + of_nat sz; recv' = recv + of_nat (length got)
          in if rem \<le> 0 then pret (sent', recv', Suc writes)
             else pbind (if min interval rem > 0 then pcall (pn_sleep (logged N) (min interval rem)) else pret ())
               (\<lambda>_. chatty_loop n (logged N) c i deadline interval sz sent' recv' (Suc writes)))
        (\<lambda>q e. chatty_log sent recv writes q (d @ e))"
      by (simp only: len Let_def append_Cons append_Nil)
  qed (simp add: logs_pret chatty_log_Nil)
qed

text \<open>The same for the loop of short connections: a connection and an exchange each.\<close>

definition short_events :: "bytes list \<Rightarrow> net_event list" where
  "short_events ps = concat (map (\<lambda>p. [Dialled, echo_event p]) ps)"

definition short_log :: "nat \<Rightarrow> u64 \<Rightarrow> u64 \<Rightarrow> u64 \<times> u64 \<Rightarrow> net_event list \<Rightarrow> bool" where
  "short_log n sent recv r d \<longleftrightarrow>
     (\<exists>ps. length ps = n \<and> d = short_events ps \<and> r = (sent + total_length ps, recv + total_length ps))"

lemma short_log_Nil: "short_log 0 sent recv (sent, recv) []"
  by (simp add: short_log_def short_events_def)

lemma short_log_Cons:
  "short_log n (sent + of_nat (length p)) (recv + of_nat (length p)) r d \<Longrightarrow>
   short_log (Suc n) sent recv r ([Dialled] @ echo_event p # d)"
proof -
  assume "short_log n (sent + of_nat (length p)) (recv + of_nat (length p)) r d"
  then obtain ps where "length ps = n" "d = short_events ps"
    "r = (sent + of_nat (length p) + total_length ps, recv + of_nat (length p) + total_length ps)"
    unfolding short_log_def by blast
  then show ?thesis
    unfolding short_log_def by (intro exI [of _ "p # ps"]) (simp add: add.assoc short_events_def)
qed

lemma logs_short_loop: "logs (short_loop n (logged N) a e i sent recv) (short_log n sent recv)"
proof (induction n arbitrary: i sent recv)
  case (Suc n)
  have 1: "logs (with_conn (logged N) a e (\<lambda>c. writeRead (logged N) c (short_payload i)))
      (\<lambda>got d. d = [Dialled] @ [Exchanged (short_payload i) (None, Inr got)])"
    by (rule logs_with_conn) (simp add: logs_writeRead)
  show ?case
    unfolding short_loop.simps(2)
    by (rule logs_compare [OF 1]) (intro logs_weaken [OF Suc.IH] short_log_Cons)
qed (simp add: logs_pret short_log_Nil)

lemma logs_open_idle:
  "logs (open_idle n (logged N) a e cs) (\<lambda>_ d. d = replicate n Dialled)"
proof (induction n arbitrary: cs)
  case (Suc n)
  show ?case
    unfolding open_idle.simps(2)
    by (rule logs_pbind [OF logs_ponerror [OF logs_openSOCKS]], rule logs_weaken [OF Suc.IH]) simp
qed (simp add: logs_pret)

lemma accounted_short:
  "accounted (zero_traffic\<lparr>tr_BytesSent := total_length ps, tr_BytesReceived := total_length ps,
     tr_ExpectedBytes := total_length ps, tr_Connections := int (length ps), tr_Requests := int (length ps)\<rparr>)
   (short_events ps)"
proof -
  have "filter (\<lambda>e. e \<noteq> Dialled) (short_events ps) = map echo_event ps"
    "length (filter (\<lambda>e. e = Dialled) (short_events ps)) = length ps"
    by (induction ps) (simp_all add: short_events_def)
  then show ?thesis
    unfolding accounted_def by (auto intro!: exI [of _ ps])
qed

lemma closeAll_keep: "closeAll (logged N) cs = keep (closeAll N cs)"
proof
  show "closeAll (logged N) cs x = keep (closeAll N cs) x" for x
    unfolding closeAll_def by (induction cs arbitrary: x) (simp_all add: keep_def)
qed

lemma logs_active: "logs (runOneByteActive (logged N) a cfg) (\<lambda>r d. accounted (fst r) d)"
  unfolding runOneByteActive_def by (intro logs_with_echo logs_with_conn logs_one_byte)

lemma logs_after_idle: "logs (runOneByteAfterIdle (logged N) a cfg) (\<lambda>r d. accounted (fst r) d)"
  unfolding runOneByteAfterIdle_def Let_def logged_sel
  by (intro logs_with_echo logs_with_conn logs_intros logs_one_byte)

lemma logs_small_chatty: "logs (runSmallChattyWrites (logged N) a cfg) (\<lambda>r d. accounted (fst r) d)"
proof -
  have "logs (runChattyExchanges (logged N) c i d v sz) (chatty_log 0 0 0)" for c i d v sz
    unfolding logs_def runChattyExchanges_def
    by (intro allI impI, erule logs_chatty_loop [unfolded logs_def, rule_format])
  note run = logs_pbind [OF this]
  show ?thesis
    unfolding runSmallChattyWrites_def logged_sel
    by (intro logs_with_echo logs_with_conn run)
      (auto simp: chatty_log_def intro!: logs_intros logs_pret accounted_connection)
qed

lemma logs_bulk: "logs (run_bulk x n (logged N) a) (\<lambda>r d. accounted (fst r) d)"
proof -
  have len: "length (makePattern n) = n"
    by (simp add: makePattern_def)
  have ok: "accounted (zero_traffic\<lparr>tr_BytesSent := of_nat n, tr_BytesReceived := of_nat (length (makePattern n)),
      tr_ExpectedBytes := of_nat n, tr_SHA256 := h, tr_Connections := 1, tr_Requests := 1,
      tr_ThroughputBytes := q\<rparr>) [Dialled, echo_event (makePattern n)]" for h q
    using accounted_connection [of _ "[makePattern n]"] by (simp add: len)
  have "logs (pbind (writeRead (logged N) c (makePattern n)) (\<lambda>got.
      pbind (pread (\<lambda>s. pn_now (logged N) s - start)) (\<lambda>elapsed.
        if got \<noteq> makePattern n then pfail (ErrText ''bulk echo mismatch'')
        else pbind (pdo (pn_close (logged N) c)) (\<lambda>_.
          pret (zero_traffic\<lparr>tr_BytesSent := of_nat n, tr_BytesReceived := of_nat (length got),
                  tr_ExpectedBytes := of_nat n, tr_SHA256 := hex_encode (sha256 got),
                  tr_Connections := 1, tr_Requests := 1, tr_ThroughputBytes := throughput x n elapsed\<rparr>,
                [(''bytes'', jint (int n))]))))) (\<lambda>r d. accounted (fst r) (Dialled # d))" for c start
    unfolding logged_sel
    by (rule logs_pbind [OF logs_writeRead], rule logs_skip [OF logs_silent(4)])
      (auto intro!: logs_intros logs_pret ok [unfolded echo_event_def])
  then show ?thesis
    unfolding run_bulk_def by (intro logs_with_echo logs_with_conn logs_intros)
qed

lemma logs_short:
  assumes "0 < pc_ShortConnections cfg"
  shows "logs (runShortConnections (logged N) a cfg) (\<lambda>r d. accounted (fst r) d)"
proof -
  have n: "int (nat (pc_ShortConnections cfg)) = pc_ShortConnections cfg"
    using assms by simp
  show ?thesis
    unfolding runShortConnections_def
  proof (rule logs_with_echo, rule logs_pbind [OF logs_short_loop])
    fix e r d
    assume "short_log (nat (pc_ShortConnections cfg)) 0 0 r d"
    then obtain ps where ps: "length ps = nat (pc_ShortConnections cfg)" "d = short_events ps"
      "r = (total_length ps, total_length ps)"
      unfolding short_log_def by auto
    show "logs (case r of (sent, recv) \<Rightarrow>
        pret (zero_traffic\<lparr>tr_BytesSent := sent, tr_BytesReceived := recv, tr_ExpectedBytes := sent,
                tr_Connections := pc_ShortConnections cfg, tr_Requests := pc_ShortConnections cfg\<rparr>,
              [(''connections'', jint (pc_ShortConnections cfg))])) (\<lambda>q e. accounted (fst q) (d @ e))"
      using accounted_short [of ps] assms by (auto simp: ps intro!: logs_pret)
  qed
qed

lemma logs_idle_sessions:
  assumes "0 < pc_IdleSessions cfg"
  shows "logs (runConcurrentIdleSessions (logged N) a cfg) (\<lambda>r d. accounted (fst r) d)"
proof -
  have "accounted (zero_traffic\<lparr>tr_Connections := pc_IdleSessions cfg, tr_IdleMillis := m\<rparr>)
      (replicate (nat (pc_IdleSessions cfg)) Dialled)" for m
    using assms by (simp add: accounted_def zero_traffic_def filter_replicate)
  then show ?thesis
    unfolding runConcurrentIdleSessions_def logged_sel closeAll_keep
    by (intro logs_with_echo, intro logs_pbind [OF logs_open_idle])
      (auto intro!: logs_skip [OF logs_ponerror [OF logs_silent(2)]] logs_intros logs_pret)
qed



section \<open>Mixed traffic\<close>

definition share_sent :: "share result \<Rightarrow> u64" where
  "share_sent r = (case r of Inl _ \<Rightarrow> 0 | Inr (a, b, c, d) \<Rightarrow> a)"

definition share_received :: "share result \<Rightarrow> u64" where
  "share_received r = (case r of Inl _ \<Rightarrow> 0 | Inr (a, b, c, d) \<Rightarrow> b)"

definition share_connections :: "share result \<Rightarrow> int" where
  "share_connections r = (case r of Inl _ \<Rightarrow> 0 | Inr (a, b, c, d) \<Rightarrow> c)"

definition share_requests :: "share result \<Rightarrow> int" where
  "share_requests r = (case r of Inl _ \<Rightarrow> 0 | Inr (a, b, c, d) \<Rightarrow> d)"

lemmas share_defs = share_sent_def share_received_def share_connections_def share_requests_def

lemma foldl_add_share:
  "foldl add_share t rs =
     t\<lparr>tr_BytesSent := tr_BytesSent t + sum_list (map share_sent rs),
       tr_BytesReceived := tr_BytesReceived t + sum_list (map share_received rs),
       tr_ExpectedBytes := tr_ExpectedBytes t + sum_list (map share_sent rs),
       tr_Connections := tr_Connections t + sum_list (map share_connections rs),
       tr_Requests := tr_Requests t + sum_list (map share_requests rs)\<rparr>"
proof (induction rs arbitrary: t)
  case (Cons r rs)
  then show ?case
    by (cases r) (auto simp: share_defs add.assoc)
qed simp

lemma first_share_error_None: "first_share_error rs = None \<longleftrightarrow> (\<forall>r \<in> set rs. \<not> is_err r)"
  by (induction rs rule: first_share_error.induct) simp_all

lemma sum_list_mset_eq: "mset rs = mset rs' \<Longrightarrow> sum_list (map f rs) = sum_list (map f rs')"
  for f :: "'a \<Rightarrow> 'b::comm_monoid_add"
  by (metis mset_map sum_mset_sum_list)

text \<open>
  The order in which the goroutines of the mixed scenario end changes neither its
  traffic, nor its parameters, nor whether it passes; only which of several errors is
  shown can depend on it.
\<close>

theorem mixed_order_irrelevant:
  assumes "mset ended = mset ended'"
  shows "fst (mixed_outcome cfg ended) = fst (mixed_outcome cfg ended') \<and>
    fst (snd (mixed_outcome cfg ended)) = fst (snd (mixed_outcome cfg ended')) \<and>
    (snd (snd (mixed_outcome cfg ended)) = None \<longleftrightarrow> snd (snd (mixed_outcome cfg ended')) = None) \<and>
    (snd (snd (mixed_outcome cfg ended)) = None \<longleftrightarrow> (\<forall>r \<in> set ended. \<not> is_err r))"
proof -
  have "foldl add_share zero_traffic ended = foldl add_share zero_traffic ended'"
    unfolding foldl_add_share by (simp only: sum_list_mset_eq [OF assms])
  moreover have "set ended = set ended'"
    using assms by (rule mset_eq_setD)
  ultimately show ?thesis
    using first_share_error_None [of ended] first_share_error_None [of ended']
    by (auto simp: mixed_outcome_def Let_def split: option.split)
qed

theorem mixed_order_irrelevant_witness:
  "tr_BytesSent (fst (mixed_outcome cfg [Inr (100, 100, 1, 1), Inr (0, 0, 1, 0), Inl IoEOF])) =
   tr_BytesSent (fst (mixed_outcome cfg [Inl IoEOF, Inr (0, 0, 1, 0), Inr (100, 100, 1, 1)]))"
  using mixed_order_irrelevant [of "[Inr (100, 100, 1, 1), Inr (0, 0, 1, 0), Inl IoEOF]"
      "[Inl IoEOF, Inr (0, 0, 1, 0), Inr (100, 100, 1, 1)]"] by simp

section \<open>What a run reports\<close>

lemma runOneScenario_name:
  "runOneScenario W N cfg sc s = Some (r, s') \<Longrightarrow> sr_Name r = sc_name sc \<and> sr_Status r \<in> {''passed'', ''failed''}"
  by (auto simp: runOneScenario_def failed_result_def scenario_result_def split: sum.splits prod.splits option.splits)

lemma run_all_names:
  "run_all W N cfg scs s = Some (rs, s') \<Longrightarrow> map sr_Name rs = map sc_name scs"
  by (induction scs arbitrary: s rs) (auto split: option.splits dest!: runOneScenario_name)

lemma first_not_passed_None: "first_not_passed rs = None \<longleftrightarrow> (\<forall>r \<in> set rs. sr_Status r = ''passed'')"
  by (induction rs) auto

lemma run_error_None: "run_error rs = None \<longleftrightarrow> (\<forall>r \<in> set rs. sr_Status r = ''passed'')"
  by (auto simp: run_error_def Let_def filter_empty_conv)

lemma map_filter_names:
  assumes "\<And>n. m n = None \<longleftrightarrow> n \<notin> K" and "\<And>n sc. m n = Some sc \<Longrightarrow> f sc = n"
  shows "map f (List.map_filter m ns) = filter (\<lambda>n. n \<in> K) ns"
proof (induction ns)
  case (Cons n ns)
  show ?case
  proof (cases "m n")
    case None
    then show ?thesis using assms(1) [of n] Cons by (simp add: map_filter_simps)
  next
    case (Some sc)
    then show ?thesis using assms(1) [of n] assms(2) [OF Some] Cons by (simp add: map_filter_simps)
  qed
qed (simp add: map_filter_simps)

lemma selectScenarios_names:
  assumes "names \<noteq> []"
  shows "map sc_name (selectScenarios scs names) = filter (\<lambda>n. n \<in> set (ScenarioNames scs)) names"
proof -
  define m where "m = map_of (rev (map (\<lambda>sc. (sc_name sc, sc)) scs))"
  have "m n = None \<longleftrightarrow> n \<notin> set (ScenarioNames scs)" for n
    by (simp add: m_def map_of_eq_None_iff ScenarioNames_def image_image)
  moreover have "sc_name sc = n" if "m n = Some sc" for n sc
    using map_of_SomeD [OF that [unfolded m_def]] by auto
  ultimately have "map sc_name (List.map_filter m names) = filter (\<lambda>n. n \<in> set (ScenarioNames scs)) names"
    by (rule map_filter_names)
  then show ?thesis
    using assms by (simp add: selectScenarios_def m_def)
qed

text \<open>
  C37: a run that comes to an end has one result for each scenario asked for that
  exists, in the order asked for; it returns an error exactly when one of them did not
  pass, and its result validates exactly when it returned none and at least one of the
  names asked for exists: names that do not exist are dropped without a word.
\<close>

theorem Run_reports:
  assumes "Run W N host scs cfg s = Some ((res, e), s')"
  shows "map sr_Name (rr_Scenarios res) =
      (if pc_ScenarioNames cfg = [] then ScenarioNames scs
       else filter (\<lambda>n. n \<in> set (ScenarioNames scs)) (pc_ScenarioNames cfg)) \<and>
    (e = None \<longleftrightarrow> (\<forall>r \<in> set (rr_Scenarios res). sr_Status r = ''passed'')) \<and>
    (ValidateResult res = None \<longleftrightarrow> e = None \<and> rr_Scenarios res \<noteq> [])"
proof -
  have nm: "pc_ScenarioNames (normalizeConfig cfg) = pc_ScenarioNames cfg"
    by (simp add: normalizeConfig_def Let_def)
  obtain rs where rs: "run_all W N (normalizeConfig cfg) (selectScenarios scs (pc_ScenarioNames cfg)) s = Some (rs, s')"
    "res = run_result host (normalizeConfig cfg) rs" "e = run_error rs"
    using assms by (auto simp: Run_def Let_def nm split: option.splits)
  have "map sr_Name rs = (if pc_ScenarioNames cfg = [] then ScenarioNames scs
      else filter (\<lambda>n. n \<in> set (ScenarioNames scs)) (pc_ScenarioNames cfg))"
    unfolding run_all_names [OF rs(1)] using selectScenarios_names [of "pc_ScenarioNames cfg" scs]
    by (simp add: selectScenarios_def ScenarioNames_def)
  then show ?thesis
    by (auto simp: rs(2,3) run_result_def run_error_None first_not_passed_None ValidateResult_def)
qed

theorem Run_reports_witness:
  "\<exists>res. Run memory_world loop_net \<lparr>rh_now = sample_time, rh_GoVersion = [], rh_OS = [], rh_Arch = []\<rparr>
      (scenarios sequentially 0) (DefaultConfig ProfileMemory\<lparr>pc_ScenarioNames := [''no-such-scenario'']\<rparr>) 0 =
     Some ((res, None), 0) \<and> ValidateResult res \<noteq> None"
proof -
  let ?cfg = "DefaultConfig ProfileMemory\<lparr>pc_ScenarioNames := [''no-such-scenario'']\<rparr>"
  let ?host = "\<lparr>rh_now = sample_time, rh_GoVersion = [], rh_OS = [], rh_Arch = []\<rparr>"
  have "selectScenarios (scenarios sequentially 0 :: (unit, int) scenario list) (pc_ScenarioNames (normalizeConfig ?cfg)) = []"
    by (simp add: normalizeConfig_def Let_def selectScenarios_def scenarios_def map_filter_simps)
  then have "Run memory_world loop_net ?host (scenarios sequentially 0) ?cfg 0 =
      Some ((run_result ?host (normalizeConfig ?cfg) [], None), 0)"
    unfolding Run_def Let_def by (simp only: run_all.simps) (simp add: run_error_def)
  from this Run_reports [OF this] show ?thesis
    by (auto simp: run_result_def)
qed

end
