(* ===== verification/Report.thy ===== *)
theory Report
  imports PerfRun
begin

text \<open>
  \<open>internal/perf/report.go\<close>: the Markdown report of a run.  The text is built from its
  lines; a table row from its cells.  The verbs \<open>%.2f\<close> and \<open>%.3f\<close> round the exact value
  of the double half to even; a negative zero, which no figure of a run is, would keep
  its sign in Go.  Only the error of the first write is returned, the others are
  ignored by the code.

  The lemmas show that a printed figure is nearest to its value and that the table of
  all operations by key class agrees with the counts of the scenarios.
\<close>

section \<open>Figures\<close>

definition fixed_units :: "nat \<Rightarrow> rat \<Rightarrow> nat" where
  "fixed_units p x = nat (half_even (\<bar>x\<bar> * 10 ^ p))"

definition fixed_text :: "nat \<Rightarrow> rat \<Rightarrow> string" where
  "fixed_text p x =
     (let n = fixed_units p x
      in (if x < 0 then ''-'' else []) @ itoa (n div 10 ^ p) @ ''.'' @ zero_pad p (itoa (n mod 10 ^ p)))"

definition u64_text :: "u64 \<Rightarrow> string" where
  "u64_text x = itoa (unat x)"

definition bool_text :: "bool \<Rightarrow> string" where
  "bool_text b = (if b then ''true'' else ''false'')"

definition empty :: "string \<Rightarrow> string \<Rightarrow> string" where
  "empty v fallback = (if trimSpace v = [] then fallback else v)"

section \<open>Lines and tables\<close>

definition newline :: string where
  "newline = [CHR 0x0A]"

definition row :: "string list \<Rightarrow> string" where
  "row cells = ''| '' @ join '' | '' cells @ '' |''"

definition text_lines :: "string list \<Rightarrow> string" where
  "text_lines ls = concat (map (\<lambda>l. l @ newline) ls)"

definition bullet :: "string \<Rightarrow> string \<Rightarrow> string" where
  "bullet label v = ''- '' @ label @ '': `'' @ v @ ''`''"

definition operation_row :: "OperationMetrics \<Rightarrow> string" where
  "operation_row op =
     row [om_Operation op, om_KeyClass op, om_Result op, u64_text (om_Count op),
       fixed_text 3 (ds_P50Millis (om_Duration op)), fixed_text 3 (ds_P95Millis (om_Duration op)),
       fixed_text 3 (ds_P99Millis (om_Duration op)), fixed_text 3 (ds_MaxMillis (om_Duration op)),
       u64_text (om_RequestBytes op), u64_text (om_ResponseBytes op)]"

definition renderOperationTable :: "OperationMetrics list \<Rightarrow> string" where
  "renderOperationTable ops =
     text_lines
       ([''| Operation | Key class | Result | Count | p50 ms | p95 ms | p99 ms | Max ms | Request bytes | Response bytes |'',
         ''| --- | --- | --- | ---: | ---: | ---: | ---: | ---: | ---: | ---: |''] @ map operation_row ops)"

text \<open>The map from key class and operation to the count of all scenarios.\<close>

definition count_of :: "((string \<times> string) \<times> u64) list \<Rightarrow> string \<times> string \<Rightarrow> u64" where
  "count_of counts k = (case map_of counts k of None \<Rightarrow> 0 | Some n \<Rightarrow> n)"

definition op_class :: "OperationMetrics \<Rightarrow> string \<times> string" where
  "op_class op = (om_KeyClass op, om_Operation op)"

definition add_count :: "((string \<times> string) \<times> u64) list \<Rightarrow> OperationMetrics \<Rightarrow> ((string \<times> string) \<times> u64) list" where
  "add_count counts op =
     AList.update (op_class op) (count_of counts (op_class op) + om_Count op) counts"

definition global_counts :: "ScenarioResult list \<Rightarrow> ((string \<times> string) \<times> u64) list" where
  "global_counts scs = foldl (\<lambda>counts sc. foldl add_count counts (sr_ObjectStoreMetrics sc)) [] scs"

definition global_keys :: "((string \<times> string) \<times> u64) list \<Rightarrow> (string \<times> string) list" where
  "global_keys counts = sort (map fst counts)"

definition renderGlobalKeyClassTable :: "RunResult \<Rightarrow> string" where
  "renderGlobalKeyClassTable r =
     (let counts = global_counts (rr_Scenarios r)
      in text_lines
           ([''| Key class | Operation | Count |'', ''| --- | --- | ---: |''] @
            map (\<lambda>k. row [fst k, snd k, u64_text (count_of counts k)]) (global_keys counts)))"

section \<open>The report\<close>

definition environment_lines :: "RunResult \<Rightarrow> string list" where
  "environment_lines r =
     [''# s3s5 Performance Report'', [], ''## Environment'', [],
      bullet ''Commit'' (empty (rr_GitCommit r) ''unknown''),
      bullet ''Dirty worktree'' (bool_text (rr_DirtyWorktree r)),
      bullet ''Timestamp'' (time_text (rr_Timestamp r\<lparr>tm_nanos := 0\<rparr>)),
      bullet ''Go'' (rr_GoVersion r), bullet ''OS/arch'' (rr_OS r @ ''/'' @ rr_Arch r),
      bullet ''Profile/provider'' (rr_Profile r @ ''` / `'' @ rr_Provider r), []]"

definition config_lines :: "ProtocolConfig \<Rightarrow> string list" where
  "config_lines c =
     [''## Protocol Configuration'', [],
      ''| Chunk size | Flush delay | Poll min | Poll max | Active poll | Window chunks | Close misses | Idle timeout |'',
      ''| ---: | ---: | ---: | ---: | ---: | ---: | ---: | ---: |'',
      row [itoa_int (pr_ChunkSize c), pr_FlushDelay c, pr_PollMin c, pr_PollMax c, pr_ActivePollDuration c,
        u64_text (pr_WindowChunks c), itoa_int (pr_CloseCheckAfterMisses c), pr_IdleTimeout c], []]"

definition summary_row :: "ScenarioResult \<Rightarrow> string" where
  "summary_row sc =
     (let ops = sr_ObjectStoreMetrics sc
      in row [sr_Name sc, sr_Status sc, u64_text (tr_BytesSent (sr_Traffic sc)),
           u64_text (tr_BytesReceived (sr_Traffic sc)), itoa_int (sr_DurationMillis sc),
           u64_text (countOps ops OperationPut [] []), u64_text (countOps ops OperationGet [] ResultSuccess),
           u64_text (countOps ops OperationGet [] ResultNotFound), u64_text (countOps ops OperationHead [] []),
           u64_text (countOps ops OperationList [] []), u64_text (countOps ops OperationDelete [] []),
           fixed_text 2 (dm_S3OperationsPerSession (sr_DerivedMetrics sc)),
           fixed_text 2 (dm_S3OperationsPerMiB (sr_DerivedMetrics sc))])"

definition summary_lines :: "ScenarioResult list \<Rightarrow> string list" where
  "summary_lines scs =
     [''## Scenario Summary'', [],
      ''| Scenario | Status | Bytes sent | Bytes received | Duration ms | PUT | GET hit | GET miss | HEAD | LIST | DELETE | Ops/session | Ops/MiB |'',
      ''| --- | --- | ---: | ---: | ---: | ---: | ---: | ---: | ---: | ---: | ---: | ---: | ---: |''] @
     map summary_row scs @ [[]]"

definition idle_row :: "ScenarioResult \<Rightarrow> string" where
  "idle_row sc =
     (let t = sr_Traffic sc; ops = sr_ObjectStoreMetrics sc;
          secs = flr (flr (of_int (tr_IdleMillis t)) / 1000);
          sessions = flr (of_int (max (tr_Connections t) 1))
      in row [sr_Name sc, itoa_int (tr_Connections t), itoa_int (tr_IdleMillis t),
           fixed_text 2 (fdiv (float_of (countOps ops OperationGet [] [])) secs),
           fixed_text 2 (fdiv (float_of (countOps ops OperationHead [] [])) secs),
           fixed_text 2 (fdiv (float_of (countOps ops OperationList [] [])) secs),
           fixed_text 2 (fdiv (float_of (dm_TotalObjectStoreOps (sr_DerivedMetrics sc))) (flr (sessions * secs)))])"

definition idle_lines :: "ScenarioResult list \<Rightarrow> string list" where
  "idle_lines scs =
     [''## Idle Scenario Normalization'', [],
      ''| Scenario | Sessions | Idle duration ms | GET/s | HEAD/s | LIST/s | Ops/session/s |'',
      ''| --- | ---: | ---: | ---: | ---: | ---: | ---: |''] @
     map idle_row (filter (\<lambda>sc. sr_Name sc = ''concurrent-idle-sessions'') scs) @ [[]]"

definition scenario_text :: "ScenarioResult \<Rightarrow> string" where
  "scenario_text sc =
     (let s = sr_SessionMetrics sc; tor = sm_TimeToOpenResult s
      in text_lines
           ([''## '' @ sr_Name sc, [], sr_Description sc, [], bullet ''Status'' (sr_Status sc)] @
            (if sr_Error sc \<noteq> [] then [bullet ''Error'' (sr_Error sc)] else []) @
            [bullet ''Connections'' (itoa_int (tr_Connections (sr_Traffic sc))),
             bullet ''Requests'' (itoa_int (tr_Requests (sr_Traffic sc))),
             bullet ''Chunks sent/received'' (u64_text (sm_ChunksSent s) @ ''/'' @ u64_text (sm_ChunksReceived s)),
             bullet ''Plaintext bytes sent/received''
               (u64_text (sm_PlaintextBytesSent s) @ ''/'' @ u64_text (sm_PlaintextBytesRecv s)),
             bullet ''Sealed/plaintext ratio'' (fixed_text 3 (dm_SealedPlaintextSizeRatio (sr_DerivedMetrics sc))),
             bullet ''Time to open result p50/p95/p99 ms''
               (fixed_text 3 (ds_P50Millis tor) @ ''/'' @ fixed_text 3 (ds_P95Millis tor) @ ''/'' @ fixed_text 3 (ds_P99Millis tor)),
             []]) @
         renderOperationTable (sr_ObjectStoreMetrics sc) @
         text_lines
           ((if sr_Observations sc \<noteq> [] then [[], ''Observations:'', []] @ map (\<lambda>obs. ''- '' @ obs) (sr_Observations sc)
             else []) @ [[]]))"

definition report_text :: "RunResult \<Rightarrow> string" where
  "report_text r =
     text_lines (environment_lines r @ config_lines (rr_Config r) @ summary_lines (rr_Scenarios r) @
       idle_lines (rr_Scenarios r)) @
     concat (map scenario_text (rr_Scenarios r)) @
     text_lines [''## Operations By Key Class'', []] @ renderGlobalKeyClassTable r @
     text_lines [[], ''## Baseline Before v1 Optimizations'', [],
       ''This report records protocol v1 behavior before optimization work. It does not change key layout, ACK behavior, close markers, chunking, polling, or Android compatibility.'']"

definition RenderMarkdown :: "err option \<Rightarrow> RunResult \<Rightarrow> err option \<times> string" where
  "RenderMarkdown first_write r =
     (case first_write of Some e \<Rightarrow> (Some e, []) | None \<Rightarrow> (None, report_text r))"

section \<open>Properties\<close>

lemma fixed_units_near: "\<bar>of_nat (fixed_units p x) / 10 ^ p - \<bar>x\<bar>\<bar> \<le> 1 / (2 * 10 ^ p)"
proof -
  let ?y = "\<bar>x\<bar> * 10 ^ p"
  have "0 \<le> half_even ?y"
    by (rule half_even_ge) simp
  then have u: "of_nat (fixed_units p x) = (of_int (half_even ?y) :: rat)"
    by (simp add: fixed_units_def)
  have "of_nat (fixed_units p x) / 10 ^ p - \<bar>x\<bar> = (of_int (half_even ?y) - ?y) / 10 ^ p"
    by (simp add: u field_simps)
  then show ?thesis
    using half_even_near [of ?y] by (simp add: abs_divide divide_le_eq)
qed

text \<open>
  A figure printed with a fixed number of decimals is the decimal number nearest to
  the magnitude of its value, with exactly that many digits after the point and a sign
  when it is negative.
\<close>

theorem fixed_text_nearest:
  "\<exists>whole part. fixed_text p x = (if x < 0 then ''-'' else []) @ itoa whole @ ''.'' @ zero_pad p (itoa part) \<and>
     part < 10 ^ p \<and> \<bar>of_nat whole + of_nat part / 10 ^ p - \<bar>x\<bar>\<bar> \<le> 1 / (2 * 10 ^ p)"
proof (intro exI conjI)
  let ?n = "fixed_units p x"
  have "of_nat (?n div 10 ^ p * 10 ^ p + ?n mod 10 ^ p) = (of_nat ?n :: rat)"
    by (simp only: div_mult_mod_eq)
  then have "of_nat (?n div 10 ^ p) * 10 ^ p + of_nat (?n mod 10 ^ p) = (of_nat ?n :: rat)"
    by (simp only: of_nat_add of_nat_mult of_nat_power of_nat_numeral)
  moreover have "q + r / 10 ^ p = (q * 10 ^ p + r) / 10 ^ p" for q r :: rat
    by (simp add: add_divide_distrib)
  ultimately have "of_nat (?n div 10 ^ p) + of_nat (?n mod 10 ^ p) / 10 ^ p = (of_nat ?n / 10 ^ p :: rat)"
    by (simp only:)
  then show "\<bar>of_nat (?n div 10 ^ p) + of_nat (?n mod 10 ^ p) / 10 ^ p - \<bar>x\<bar>\<bar> \<le> 1 / (2 * 10 ^ p)"
    using fixed_units_near [of p x] by simp
qed (simp_all add: fixed_text_def Let_def)

lemma count_of_add:
  "count_of (add_count counts op) k = count_of counts k + (if op_class op = k then om_Count op else 0)"
  by (simp add: count_of_def add_count_def update_conv)

lemma count_of_ops:
  "count_of (foldl add_count counts ops) k =
     count_of counts k + (\<Sum>op\<leftarrow>ops. if op_class op = k then om_Count op else 0)"
  by (induction ops arbitrary: counts) (simp_all add: count_of_add add.assoc)

lemma countOps_class:
  assumes "kc \<noteq> []" and "opn \<noteq> []"
  shows "countOps ops opn kc [] = (\<Sum>op\<leftarrow>ops. if op_class op = (kc, opn) then om_Count op else 0)"
  using assms by (induction ops) (auto simp: op_selected_def op_class_def om_key_def)

lemma count_of_global:
  assumes "kc \<noteq> []" and "opn \<noteq> []"
  shows "count_of (foldl (\<lambda>counts sc. foldl add_count counts (sr_ObjectStoreMetrics sc)) counts scs) (kc, opn) =
    count_of counts (kc, opn) + (\<Sum>sc\<leftarrow>scs. countOps (sr_ObjectStoreMetrics sc) opn kc [])"
  using assms
  by (induction scs arbitrary: counts) (simp_all add: count_of_ops countOps_class add.assoc)

lemma add_count_keys:
  "distinct (map fst counts) \<Longrightarrow> distinct (map fst (add_count counts op))"
  "fst ` set (add_count counts op) = insert (op_class op) (fst ` set counts)"
  by (simp_all add: add_count_def distinct_update keys_update)

lemma ops_keys:
  "distinct (map fst counts) \<Longrightarrow> distinct (map fst (foldl add_count counts ops))"
  "fst ` set (foldl add_count counts ops) = fst ` set counts \<union> op_class ` set ops"
  by (induction ops arbitrary: counts) (simp_all add: add_count_keys)

lemma global_counts_keys:
  "distinct (map fst (global_counts scs)) \<and>
   fst ` set (global_counts scs) = op_class ` (\<Union>sc \<in> set scs. set (sr_ObjectStoreMetrics sc))"
proof -
  let ?f = "\<lambda>counts sc. foldl add_count counts (sr_ObjectStoreMetrics sc)"
  have "distinct (map fst counts) \<longrightarrow> distinct (map fst (foldl ?f counts scs))" for counts
    by (induction scs arbitrary: counts) (simp_all add: ops_keys)
  moreover have "fst ` set (foldl ?f counts scs) =
      fst ` set counts \<union> op_class ` (\<Union>sc \<in> set scs. set (sr_ObjectStoreMetrics sc))" for counts
    by (induction scs arbitrary: counts) (auto simp: ops_keys)
  ultimately show ?thesis
    by (simp add: global_counts_def)
qed

text \<open>
  The table of operations by key class at the end of a report has one row for each
  pair of key class and operation that any scenario has, in order, and its count is
  the sum of what the scenarios count for that pair.
\<close>

theorem global_table_sums:
  "sorted (global_keys (global_counts scs)) \<and> distinct (global_keys (global_counts scs)) \<and>
   set (global_keys (global_counts scs)) = op_class ` (\<Union>sc \<in> set scs. set (sr_ObjectStoreMetrics sc)) \<and>
   (\<forall>kc opn. kc \<noteq> [] \<longrightarrow> opn \<noteq> [] \<longrightarrow>
      count_of (global_counts scs) (kc, opn) = (\<Sum>sc\<leftarrow>scs. countOps (sr_ObjectStoreMetrics sc) opn kc []))"
  using global_counts_keys [of scs] count_of_global [where counts = "[]"]
  by (auto simp: global_keys_def global_counts_def count_of_def)

theorem global_table_sums_witness:
  "let op = (\<lambda>n. \<lparr>om_Operation = OperationGet, om_KeyClass = KeyOpen, om_Result = ResultSuccess, om_Count = n,
       om_Duration = SummarizeDurations [], om_RequestBytes = 0, om_ResponseBytes = 0\<rparr>);
     sc = (\<lambda>n. failed_result [] [] IoEOF\<lparr>sr_ObjectStoreMetrics := [op n]\<rparr>)
   in count_of (global_counts [sc 2, sc 3]) (KeyOpen, OperationGet) = 5"
proof -
  let ?op = "\<lambda>n. \<lparr>om_Operation = OperationGet, om_KeyClass = KeyOpen, om_Result = ResultSuccess, om_Count = n,
    om_Duration = SummarizeDurations [], om_RequestBytes = 0, om_ResponseBytes = 0\<rparr>"
  let ?sc = "\<lambda>n. failed_result [] [] IoEOF\<lparr>sr_ObjectStoreMetrics := [?op n]\<rparr>"
  have ne: "KeyOpen \<noteq> []" "OperationGet \<noteq> []"
    by code_simp+
  then have "count_of (global_counts [?sc 2, ?sc 3]) (KeyOpen, OperationGet) =
      (\<Sum>sc\<leftarrow>[?sc 2, ?sc 3]. countOps (sr_ObjectStoreMetrics sc) OperationGet KeyOpen [])"
    using global_table_sums [of "[?sc 2, ?sc 3]"] by blast
  also have "\<dots> = 5"
    by (simp add: op_selected_def om_key_def)
  finally show ?thesis
    by (simp only: Let_def)
qed

end
