(* ===== verification/PerfMain.thy ===== *)
theory PerfMain
  imports PerfCmd PerfJson PerfProps Report Programs
begin

text \<open>
  \<open>cmd/s3s5-perf/main.go\<close>: the subcommands.  A command works on the files, the world of
  the run and what it prints; it returns the status it exits with, none when it goes on.
  Files are contents by path, with the errors their operations meet; \<open>MkdirAll\<close> makes the
  directory of the path it is given.  What \<open>flag\<close> makes of the arguments is a parameter:
  the values after parsing, or the status it exits with.

  The lemmas show that \<open>validate\<close> accepts exactly what a successful \<open>run\<close> wrote.
\<close>

section \<open>Files\<close>

text \<open>
  A failing write keeps some of the bytes; \<open>fi_later\<close> is what remains of a report when a
  write after its first fails, an error the code ignores.
\<close>

record files =
  fi_data :: "string \<rightharpoonup> bytes"
  fi_mkdir :: "string \<Rightarrow> err option"
  fi_create :: "string \<Rightarrow> err option"
  fi_open :: "string \<Rightarrow> err option"
  fi_write :: "string \<Rightarrow> (nat \<times> err) option"
  fi_later :: "string \<Rightarrow> nat option"

definition set_file :: "string \<Rightarrow> bytes \<Rightarrow> files \<Rightarrow> files" where
  "set_file path d fs = fs\<lparr>fi_data := (fi_data fs)(path \<mapsto> d)\<rparr>"

text \<open>\<open>os.MkdirAll\<close> and \<open>os.Create\<close>, which empties the file.\<close>

definition create_file :: "string \<Rightarrow> files \<Rightarrow> err option \<times> files" where
  "create_file path fs =
     (case fi_mkdir fs path of
        Some e \<Rightarrow> (Some e, fs)
      | None \<Rightarrow> (case fi_create fs path of Some e \<Rightarrow> (Some e, fs) | None \<Rightarrow> (None, set_file path [] fs)))"

definition writeJSON :: "string \<Rightarrow> RunResult \<Rightarrow> files \<Rightarrow> err option \<times> files" where
  "writeJSON path r fs =
     (case create_file path fs of
        (Some e, fs1) \<Rightarrow> (Some e, fs1)
      | (None, fs1) \<Rightarrow>
          (case MarshalJSONDeterministic r of
             Inl e \<Rightarrow> (Some e, fs1)
           | Inr d \<Rightarrow>
               (case fi_write fs1 path of
                  None \<Rightarrow> (None, set_file path d fs1)
                | Some (n, e) \<Rightarrow> (Some e, set_file path (take n d) fs1))))"

definition readResult :: "string \<Rightarrow> files \<Rightarrow> RunResult result" where
  "readResult path fs =
     (case fi_open fs path of
        Some e \<Rightarrow> Inl e
      | None \<Rightarrow>
          (case fi_data fs path of
             None \<Rightarrow> Inl (ErrText (''open '' @ path @ '': no such file or directory''))
           | Some d \<Rightarrow> DecodeResult d))"

definition writeReport :: "string \<Rightarrow> RunResult \<Rightarrow> files \<Rightarrow> err option \<times> files" where
  "writeReport path r fs =
     (case create_file path fs of
        (Some e, fs1) \<Rightarrow> (Some e, fs1)
      | (None, fs1) \<Rightarrow>
          (case fi_write fs1 path of
             Some (n, e) \<Rightarrow> (fst (RenderMarkdown (Some e) r), set_file path (take n (bytes_of (report_text r))) fs1)
           | None \<Rightarrow>
               (case RenderMarkdown None r of (e, text) \<Rightarrow>
                  (e, set_file path
                        (case fi_later fs1 path of None \<Rightarrow> bytes_of text | Some n \<Rightarrow> take n (bytes_of text)) fs1))))"

section \<open>The subcommands\<close>

record 's perf_proc =
  pp_files :: files
  pp_world :: 's
  pp_out :: string
  pp_err :: string

record ('b, 't, 'g, 'c, 's) perf_machine =
  ph_env :: environ
  ph_gitHead :: "string result"
  ph_gitStatus :: "string result"
  ph_random :: "bytes result"
  ph_world :: "('b, 't, 'g, 's) run_world"
  ph_store :: "S3Config \<Rightarrow> 'b"
  ph_cleanup :: "'b \<Rightarrow> string \<Rightarrow> 's \<Rightarrow> 's"
  ph_net :: "int \<Rightarrow> ('c, 's) perf_net"
  ph_host :: run_host
  ph_scenarios :: "('c, 's) scenario list"
  ph_info :: Info
  ph_parse_run :: "string list \<Rightarrow> perf_flags \<Rightarrow> nat + perf_flags \<times> (string \<Rightarrow> bool)"
  ph_parse_report :: "string list \<Rightarrow> string \<times> string \<Rightarrow> nat + string \<times> string"
  ph_parse_validate :: "string list \<Rightarrow> string \<Rightarrow> nat + string"
  ph_parse_baseline :: "string list \<Rightarrow> bool \<Rightarrow> nat + bool"

type_synonym 's perf_end = "nat option \<times> 's perf_proc"

definition line :: "string \<Rightarrow> string" where
  "line s = s @ [CHR 0x0A]"

definition perf_fatal :: "err \<Rightarrow> 's perf_proc \<Rightarrow> 's perf_end" where
  "perf_fatal e p = (Some 1, p\<lparr>pp_err := pp_err p @ line (''s3s5-perf: '' @ err_text e)\<rparr>)"

definition perf_usage :: "'s perf_proc \<Rightarrow> 's perf_end" where
  "perf_usage p =
     (Some 2, p\<lparr>pp_err := pp_err p @ line ''usage: s3s5-perf run|report|validate|baseline|scenarios|version''\<rparr>)"

text \<open>The factory of a run with its stores and clean-ups; other runs make their own.\<close>

definition machine_world ::
  "('b, 't, 'g, 'c, 's) perf_machine \<Rightarrow> (string \<Rightarrow> (S3Config \<times> string \<times> string option) result) option
     \<Rightarrow> ('b, 't, 'g, 's) run_world" where
  "machine_world H factory =
     (ph_world H)\<lparr>rw_factory := map_option (\<lambda>f name.
        ebind (f name) (\<lambda>(c, provider, pfx).
          Inr (ph_store H c, provider, map_option (ph_cleanup H (ph_store H c)) pfx))) factory\<rparr>"

text \<open>
  A failing random source panics, once the checks before it have passed; the status of a
  panic is 2.
\<close>

definition run_command ::
  "('b, 't, 'g, 'c, 's) perf_machine \<Rightarrow> string list \<Rightarrow> 's perf_proc \<Rightarrow> 's perf_end option" where
  "run_command H args p =
     (case ph_parse_run H args (default_perf_flags (ph_env H)) of
        Inl status \<Rightarrow> Some (Some status, p)
      | Inr (flags, seen) \<Rightarrow>
          (let prep = perf_setup (ph_env H) (\<lambda>_. flags) seen (ph_gitHead H) (ph_gitStatus H)
           in case prep (ph_random H) of
             Inl e \<Rightarrow> Some (case prep (Inr []) of Inl _ \<Rightarrow> perf_fatal e p | Inr _ \<Rightarrow> (Some 2, p))
           | Inr (cfg, factory) \<Rightarrow>
               (case Run (machine_world H factory) (ph_net H (pf_Timeout flags)) (ph_host H) (ph_scenarios H) cfg
                       (pp_world p) of
                  None \<Rightarrow> None
                | Some ((r, e), s') \<Rightarrow>
                    (case writeJSON (pf_Out flags) r (pp_files p) of
                       (w, fs) \<Rightarrow>
                         let p' = p\<lparr>pp_files := fs, pp_world := s'\<rparr>
                         in Some (case w of Some x \<Rightarrow> perf_fatal x p'
                              | None \<Rightarrow> (case e of Some x \<Rightarrow> perf_fatal x p' | None \<Rightarrow> (None, p')))))))"

definition report_command ::
  "('b, 't, 'g, 'c, 's) perf_machine \<Rightarrow> string list \<Rightarrow> 's perf_proc \<Rightarrow> 's perf_end" where
  "report_command H args p =
     (case ph_parse_report H args (''benchmarks/results/baseline-v1-memory.json'', ''benchmarks/reports/baseline-v1.md'') of
        Inl status \<Rightarrow> (Some status, p)
      | Inr (inp, outp) \<Rightarrow>
          (case readResult inp (pp_files p) of
             Inl e \<Rightarrow> perf_fatal e p
           | Inr r \<Rightarrow>
               (case writeReport outp r (pp_files p) of
                  (Some e, fs) \<Rightarrow> perf_fatal e (p\<lparr>pp_files := fs\<rparr>)
                | (None, fs) \<Rightarrow> (None, p\<lparr>pp_files := fs\<rparr>))))"

definition validate_command ::
  "('b, 't, 'g, 'c, 's) perf_machine \<Rightarrow> string list \<Rightarrow> 's perf_proc \<Rightarrow> 's perf_end" where
  "validate_command H args p =
     (case ph_parse_validate H args ''benchmarks/results/baseline-v1-memory.json'' of
        Inl status \<Rightarrow> (Some status, p)
      | Inr inp \<Rightarrow>
          (case readResult inp (pp_files p) of
             Inl e \<Rightarrow> perf_fatal e p
           | Inr r \<Rightarrow> (case ValidateResult r of Some e \<Rightarrow> perf_fatal e p | None \<Rightarrow> (None, p))))"

text \<open>The next step of a command, unless it has exited.\<close>

definition and_then :: "'s perf_end option \<Rightarrow> ('s perf_proc \<Rightarrow> 's perf_end option) \<Rightarrow> 's perf_end option" where
  "and_then m f =
     (case m of None \<Rightarrow> None | Some (Some status, p) \<Rightarrow> Some (Some status, p) | Some (None, p) \<Rightarrow> f p)"

definition baseline_command ::
  "('b, 't, 'g, 'c, 's) perf_machine \<Rightarrow> string list \<Rightarrow> 's perf_proc \<Rightarrow> 's perf_end option" where
  "baseline_command H args p =
     (case ph_parse_baseline H args True of
        Inl status \<Rightarrow> Some (Some status, p)
      | Inr simulated \<Rightarrow>
          and_then (run_command H [''-profile'', ProfileMemory, ''-out'', ''benchmarks/results/baseline-v1-memory.json''] p) (\<lambda>p.
          and_then (Some (report_command H
            [''-in'', ''benchmarks/results/baseline-v1-memory.json'', ''-out'', ''benchmarks/reports/baseline-v1.md''] p)) (\<lambda>p.
          if simulated then
            run_command H [''-profile'', ProfileSimulatedS3, ''-out'', ''benchmarks/results/baseline-v1-simulated-s3.json'',
              ''-short-connections'', ''3'', ''-idle-sessions'', ''3'', ''-idle-duration'', ''50ms'',
              ''-chatty-duration'', ''50ms'', ''-put-delay'', ''10ms'', ''-get-delay'', ''10ms'',
              ''-head-delay'', ''10ms'', ''-list-delay'', ''12ms'', ''-delete-delay'', ''10ms'', ''-jitter'', ''1ms''] p
          else Some (None, p))))"

text \<open>\<open>main\<close>, on the arguments after the name of the program; falling off its end is status 0.\<close>

definition perf_command ::
  "('b, 't, 'g, 'c, 's) perf_machine \<Rightarrow> string list \<Rightarrow> 's perf_proc \<Rightarrow> 's perf_end option" where
  "perf_command H args p =
     (case args of
        [] \<Rightarrow> Some (perf_usage p)
      | cmd # rest \<Rightarrow>
          if cmd = ''run'' then run_command H rest p
          else if cmd = ''report'' then Some (report_command H rest p)
          else if cmd = ''validate'' then Some (validate_command H rest p)
          else if cmd = ''baseline'' then baseline_command H rest p
          else if cmd = ''scenarios''
            then Some (None, p\<lparr>pp_out := pp_out p @ concat (map line (ScenarioNames (ph_scenarios H)))\<rparr>)
          else if cmd = ''version''
            then Some (None, p\<lparr>pp_out := pp_out p @ line (''s3s5-perf '' @ version_String (ph_info H))\<rparr>)
          else Some (perf_usage p))"

definition perf_main ::
  "('b, 't, 'g, 'c, 's) perf_machine \<Rightarrow> string list \<Rightarrow> 's perf_proc \<Rightarrow> (nat \<times> 's perf_proc) option" where
  "perf_main H args p =
     map_option (\<lambda>(status, p'). (case status of None \<Rightarrow> 0 | Some c \<Rightarrow> c, p')) (perf_command H args p)"

section \<open>A run and its validation\<close>

definition files_work :: "files \<Rightarrow> string \<Rightarrow> bool" where
  "files_work fs path \<longleftrightarrow>
     fi_mkdir fs path = None \<and> fi_create fs path = None \<and> fi_write fs path = None \<and> fi_open fs path = None"

lemma run_all_status:
  "run_all W N cfg scs s = Some (rs, s') \<Longrightarrow> r \<in> set rs \<Longrightarrow> sr_Status r \<in> {''passed'', ''failed''}"
  by (induction scs arbitrary: s rs)
    (auto simp: runOneScenario_def failed_result_def scenario_result_def
      split: option.splits sum.splits prod.splits if_splits)

lemma Run_status:
  "Run W N host scs cfg s = Some ((r, e), s') \<Longrightarrow> x \<in> set (rr_Scenarios r) \<Longrightarrow> sr_Status x \<in> {''passed'', ''failed''}"
  unfolding Run_def Let_def by (auto simp: run_result_def split: option.splits prod.splits dest!: run_all_status)

lemma Validate_clean:
  assumes "\<forall>x \<in> set (rr_Scenarios r). sr_Status x \<in> {''passed'', ''failed''}"
  shows "ValidateResult (clean_RunResult r) = None \<longleftrightarrow> ValidateResult r = None"
proof -
  have "utf8_text (sr_Status x) = ''passed'' \<longleftrightarrow> sr_Status x = ''passed''" if "x \<in> set (rr_Scenarios r)" for x
    using assms that by (auto simp: utf8_text_ascii)
  then show ?thesis
    by (auto simp: ValidateResult_def first_not_passed_None clean_RunResult_def clean_ScenarioResult_def)
qed

lemma set_file_fields [simp]:
  "fi_mkdir (set_file path d fs) = fi_mkdir fs" "fi_create (set_file path d fs) = fi_create fs"
  "fi_open (set_file path d fs) = fi_open fs" "fi_write (set_file path d fs) = fi_write fs"
  "fi_later (set_file path d fs) = fi_later fs" "fi_data (set_file path d fs) = (fi_data fs)(path \<mapsto> d)"
  "set_file path d (set_file path d' fs) = set_file path d fs"
  by (simp_all add: set_file_def)

lemma writeJSON_works:
  assumes "files_work fs path" and "MarshalJSONDeterministic r = Inr d"
  shows "writeJSON path r fs = (None, set_file path d fs)"
  using assms by (simp add: files_work_def writeJSON_def create_file_def)

lemma writeReport_works:
  assumes "files_work fs path" and "fi_later fs path = None"
  shows "writeReport path r fs = (None, set_file path (bytes_of (report_text r)) fs)"
  using assms by (simp add: files_work_def writeReport_def create_file_def RenderMarkdown_def)

text \<open>
  C39: a run that comes to an end writes its result even when scenarios failed, and exits
  with 0 when they all passed and with 1 otherwise; over the file it wrote, \<open>validate\<close>
  exits with 0 exactly when they all passed and there was at least one, and \<open>report\<close>
  exits with 0 and writes the report of the result, with its texts made valid UTF-8.
\<close>

theorem run_then_validate:
  assumes "ph_parse_run H rargs (default_perf_flags (ph_env H)) = Inr (flags, seen)"
    and "perf_setup (ph_env H) (\<lambda>_. flags) seen (ph_gitHead H) (ph_gitStatus H) (ph_random H) = Inr (cfg, factory)"
    and "Run (machine_world H factory) (ph_net H (pf_Timeout flags)) (ph_host H) (ph_scenarios H) cfg (pp_world p) =
      Some ((r, e), s')"
    and "typed_RunResult r" and "files_work (pp_files p) (pf_Out flags)"
    and "\<And>d. ph_parse_validate H vargs d = Inr (pf_Out flags)"
    and "\<And>d. ph_parse_report H pargs d = Inr (pf_Out flags, rep)"
    and "files_work (pp_files p) rep" and "fi_later (pp_files p) rep = None"
  shows "\<exists>p1 p2 p3.
    perf_main H (''run'' # rargs) p =
      Some (if \<forall>x \<in> set (rr_Scenarios r). sr_Status x = ''passed'' then 0 else 1, p1) \<and>
    perf_main H (''validate'' # vargs) p1 =
      Some (if rr_Scenarios r \<noteq> [] \<and> (\<forall>x \<in> set (rr_Scenarios r). sr_Status x = ''passed'') then 0 else 1, p2) \<and>
    perf_main H (''report'' # pargs) p1 = Some (0, p3) \<and>
    fi_data (pp_files p3) rep = Some (bytes_of (report_text (clean_RunResult r)))"
proof -
  let ?passed = "\<forall>x \<in> set (rr_Scenarios r). sr_Status x = ''passed''"
  obtain rs where rs: "r = run_result (ph_host H) (normalizeConfig cfg) rs" "e = run_error rs"
    using assms(3) by (auto simp: Run_def Let_def split: option.splits)
  then have e: "e = None \<longleftrightarrow> ?passed"
    by (simp add: run_error_None run_result_def)
  obtain d where d: "MarshalJSONDeterministic r = Inr d" "DecodeResult d = Inr (clean_RunResult r)"
    using DecodeResult_written [OF assms(4)] by blast
  have v: "ValidateResult (clean_RunResult r) = None \<longleftrightarrow> rr_Scenarios r \<noteq> [] \<and> ?passed"
    using Validate_clean [of r] Run_status [OF assms(3)]
    by (auto simp: ValidateResult_def first_not_passed_None run_result_def rs(1))
  define p1 where "p1 = snd (case e of Some x \<Rightarrow> perf_fatal x (p\<lparr>pp_files := set_file (pf_Out flags) d (pp_files p), pp_world := s'\<rparr>)
      | None \<Rightarrow> (None, p\<lparr>pp_files := set_file (pf_Out flags) d (pp_files p), pp_world := s'\<rparr>))"
  have f: "pp_files p1 = set_file (pf_Out flags) d (pp_files p)"
    by (simp add: p1_def perf_fatal_def split: option.split)
  have run: "perf_main H (''run'' # rargs) p = Some (if ?passed then 0 else 1, p1)"
    by (cases e) (use e in \<open>simp_all add: perf_main_def perf_command_def run_command_def assms(1-3) Let_def
        writeJSON_works [OF assms(5) d(1)] p1_def perf_fatal_def\<close>)
  have read: "readResult (pf_Out flags) (pp_files p1) = Inr (clean_RunResult r)"
    using assms(5) by (simp add: f readResult_def files_work_def d(2))
  have "\<exists>p2. perf_main H (''validate'' # vargs) p1 =
      Some (if rr_Scenarios r \<noteq> [] \<and> ?passed then 0 else 1, p2)"
    by (cases "ValidateResult (clean_RunResult r)")
      (use v in \<open>simp_all add: perf_main_def perf_command_def validate_command_def assms(6) read perf_fatal_def\<close>)
  moreover have "writeReport rep (clean_RunResult r) (pp_files p1) =
      (None, set_file rep (bytes_of (report_text (clean_RunResult r))) (pp_files p1))"
    by (rule writeReport_works) (use assms(8,9) in \<open>simp_all add: f files_work_def\<close>)
  then have "perf_main H (''report'' # pargs) p1 =
      Some (0, p1\<lparr>pp_files := set_file rep (bytes_of (report_text (clean_RunResult r))) (pp_files p1)\<rparr>)"
    by (simp add: perf_main_def perf_command_def report_command_def assms(7) read)
  ultimately show ?thesis
    using run by fastforce
qed

text \<open>A machine whose network echoes and whose server counts the session.\<close>

definition done_net :: "(unit, int) perf_net" where
  "done_net = loop_net\<lparr>pn_stats := (\<lambda>_. zero_Stats\<lparr>completed := 1\<rparr>)\<rparr>"

definition echo_host :: run_host where
  "echo_host = \<lparr>rh_now = sample_time, rh_GoVersion = ''go1.22'', rh_OS = ''linux'', rh_Arch = ''amd64''\<rparr>"

definition echo_machine :: "(unit, mem_store, unit, unit, int) perf_machine" where
  "echo_machine =
     \<lparr>ph_env = (\<lambda>_. []), ph_gitHead = Inl IoEOF, ph_gitStatus = Inr [], ph_random = Inr [], ph_world = memory_world,
      ph_store = (\<lambda>_. ()), ph_cleanup = (\<lambda>_ _. id), ph_net = (\<lambda>_. done_net), ph_host = echo_host,
      ph_scenarios = scenarios sequentially 0,
      ph_info = \<lparr>inf_Version = ''dev'', inf_Commit = ''unknown'', inf_Date = ''unknown'', inf_Dirty = False\<rparr>,
      ph_parse_run = (\<lambda>args flags. Inr (flags\<lparr>pf_Scenarios := args\<rparr>, \<lambda>_. False)),
      ph_parse_report = (\<lambda>args _. Inr (args ! 0, args ! 1)), ph_parse_validate = (\<lambda>args _. Inr (args ! 0)),
      ph_parse_baseline = (\<lambda>_. Inr)\<rparr>"

definition no_files :: files where
  "no_files = \<lparr>fi_data = Map.empty, fi_mkdir = (\<lambda>_. None), fi_create = (\<lambda>_. None), fi_open = (\<lambda>_. None),
     fi_write = (\<lambda>_. None), fi_later = (\<lambda>_. None)\<rparr>"

definition fresh_proc :: "int perf_proc" where
  "fresh_proc = \<lparr>pp_files = no_files, pp_world = 0, pp_out = [], pp_err = []\<rparr>"

lemma mustCodec_ok: "\<exists>pc. mustCodec = Inr pc"
proof -
  have "case mustCodec of Inl _ \<Rightarrow> False | Inr _ \<Rightarrow> True"
    by code_simp
  then show ?thesis
    by (auto split: sum.splits)
qed

lemma memory_world_fields:
  "rw_factory memory_world = None" "rw_make memory_world = (\<lambda>_. ())" "rw_store memory_world = (\<lambda>_. memory_store)"
  "rw_codec memory_world = (\<lambda>_. NoopCodec)" "rw_runServer memory_world = (\<lambda>_. id)"
  "rw_startSOCKS memory_world = (\<lambda>_. Pair (Inr ''127.0.0.1:1080''))" "rw_stopSOCKS memory_world = id"
  "rw_cancel memory_world = id"
  by (simp_all add: memory_world_def)

lemma newEnvironment_memory:
  "\<exists>en. newEnvironment memory_world cfg name s = (Inr en, s) \<and> env_socksAddr en = ''127.0.0.1:1080'' \<and> env_stop en = id"
proof -
  obtain pc where pc: "mustCodec = Inr pc"
    using mustCodec_ok ..
  obtain pol where pol: "scenario_policy = Inr pol"
    by (simp add: scenario_policy_def New_def)
  have store: "scenarioStore None (\<lambda>_. ()) cfg name = Inr ((), pc_Provider cfg, None)"
    by (simp add: scenarioStore_def)
  have server: "\<exists>srv. scenario_server t cfg = Inr srv" for t :: "(mem_store, unit) TunnelConfig"
    by (simp add: scenario_server_def pol NewServer_def)
  then obtain srv where "scenario_server (scenario_tunnel cfg name memory_store (NoopCodec :: unit Codec)) cfg = Inr srv"
    by blast
  then show ?thesis
    unfolding newEnvironment_def memory_world_fields store pc
    by (simp add: NewClient_def Let_def fun_eq_iff)
qed

definition one_byte_outcome :: outcome where
  "one_byte_outcome =
     (zero_traffic\<lparr>tr_BytesSent := 1, tr_BytesReceived := 1, tr_ExpectedBytes := 1, tr_Connections := 1,
        tr_Requests := 1\<rparr>, [], None)"

lemma one_byte_run: "whole (runOneByteActive done_net a cfg) s = Some (one_byte_outcome, s)"
proof -
  have "bytes_of ''x'' = [120]"
    by (simp add: byte_of_char_def)
  then show ?thesis
    by (simp add: whole_def runOneByteActive_def with_echo_def with_conn_def openSOCKS_def socksHandshake_def
        socks_request_v4 one_byte_def writeRead_def exchange_result_def prog_defs loop_net_def done_net_def
        Milliseconds_def ReplySucceeded_def one_byte_outcome_def zero_traffic_def)
qed

definition one_byte_result :: "string \<Rightarrow> ScenarioResult" where
  "one_byte_result descr = scenario_result ''one-byte-echo-active'' descr one_byte_outcome 0 (zero_Stats\<lparr>completed := 1\<rparr>) []"

lemma one_byte_scenario:
  assumes "pc_ScenarioNames cfg = [''one-byte-echo-active'']"
  shows "\<exists>descr. Run memory_world done_net echo_host (scenarios sequentially 0) cfg s =
    Some ((run_result echo_host (normalizeConfig cfg) [one_byte_result descr], None), s)"
proof -
  let ?scs = "scenarios sequentially 0 :: (unit, int) scenario list"
  let ?cfg = "normalizeConfig cfg"
  have nm: "pc_ScenarioNames ?cfg = [''one-byte-echo-active'']"
    by (simp add: normalizeConfig_def Let_def assms)
  have sel: "selectScenarios ?scs (pc_ScenarioNames ?cfg) = [hd ?scs]"
    by (simp add: nm selectScenarios_def scenarios_def map_filter_simps)
  have hd: "sc_name (hd ?scs) = ''one-byte-echo-active''"
    "sc_run (hd ?scs) = (\<lambda>N a cfg. whole (runOneByteActive N a cfg))"
    by (simp_all add: scenarios_def)
  have wait: "waitForSessions done_net 1 m s = Some s" for m s
    unfolding waitForSessions_def
    by (subst sessions_loop.simps(2) [of 400, simplified]) (simp add: done_net_def loop_net_def zero_Stats_def second_def millisecond_def)
  obtain en where en: "newEnvironment memory_world ?cfg ''one-byte-echo-active'' s = (Inr en, s)" "env_stop en = id"
    using newEnvironment_memory by blast
  have "runOneScenario memory_world done_net ?cfg (hd ?scs) s = Some (one_byte_result (sc_description (hd ?scs)), s)"
    unfolding runOneScenario_def hd en(1)
    by (simp add: one_byte_run wait en(2) one_byte_result_def one_byte_outcome_def zero_traffic_def)
      (simp add: done_net_def loop_net_def Stats_Snapshot_def Snapshot_def NewCollector_def zero_Stats_def)
  then have "Run memory_world done_net echo_host ?scs cfg s =
      Some ((run_result echo_host ?cfg [one_byte_result (sc_description (hd ?scs))], None), s)"
    unfolding Run_def Let_def sel
    by (simp add: run_error_def one_byte_result_def scenario_result_def one_byte_outcome_def)
  then show ?thesis ..
qed

lemma typed_one_byte:
  assumes "typed_ProtocolConfig (protocol_config cfg)"
  shows "typed_RunResult (run_result echo_host cfg [one_byte_result descr])"
proof -
  have m: "typed_SessionMetrics (sessionMetrics (zero_Stats\<lparr>completed := 1\<rparr>))"
    unfolding sessionMetrics_def typed_SessionMetrics_def by (simp add: typed_SummarizeDurations zero_Stats_def)
  let ?t = "zero_traffic\<lparr>tr_BytesSent := 1, tr_BytesReceived := 1, tr_ExpectedBytes := 1, tr_Connections := 1,
      tr_Requests := 1\<rparr>"
  have "typed_TrafficMetrics ?t"
    by (simp add: typed_TrafficMetrics_def zero_traffic_def int64_def)
  then have "typed_ScenarioResult (one_byte_result descr)"
    by (simp add: typed_ScenarioResult_def one_byte_result_def scenario_result_def one_byte_outcome_def m
        typed_deriveMetrics Milliseconds_def int64_def typed_params_def)
  then show ?thesis
    using assms by (simp add: run_result_def typed_RunResult_def echo_host_def wf_sample_time int64_def)
qed

theorem run_then_validate_witness:
  "\<exists>p1 p2 p3.
     perf_main echo_machine [''run'', ''one-byte-echo-active''] fresh_proc = Some (0, p1) \<and>
     perf_main echo_machine [''validate'', ''benchmarks/results/local/perf.json''] p1 = Some (0, p2) \<and>
     perf_main echo_machine [''report'', ''benchmarks/results/local/perf.json'', ''r.md''] p1 = Some (0, p3) \<and>
     fi_data (pp_files p3) ''r.md'' \<noteq> None"
proof -
  let ?flags = "default_perf_flags (ph_env echo_machine)\<lparr>pf_Scenarios := [''one-byte-echo-active'']\<rparr>"
  have flags: "pf_Out ?flags = ''benchmarks/results/local/perf.json''"
    "pc_Profile (pf_Config ?flags) = ProfileMemory"
    by (simp_all add: default_perf_flags_def Let_def)
  obtain cfg where start: "perf_setup (ph_env echo_machine) (\<lambda>_. ?flags) (\<lambda>_. False) (ph_gitHead echo_machine)
      (ph_gitStatus echo_machine) (ph_random echo_machine) = Inr (cfg, None)"
    and names: "pc_ScenarioNames cfg = [''one-byte-echo-active'']"
    and cfg: "cfg = (mergeProfileDefaults (pf_Config ?flags) (DefaultConfig ProfileMemory) (\<lambda>_. False))
      \<lparr>pc_ScenarioNames := [''one-byte-echo-active''], pc_GitCommit := gitCommit (Inl IoEOF),
       pc_DirtyWorktree := dirtyWorktree (Inr [])\<rparr>"
    by (simp add: perf_setup_def Let_def default_perf_flags_def mergeProfileDefaults_def ProfileMemory_def
        ProfileRealS3_def echo_machine_def)
  obtain descr where run: "Run memory_world done_net echo_host (scenarios sequentially 0) cfg 0 =
      Some ((run_result echo_host (normalizeConfig cfg) [one_byte_result descr], None), 0)"
    using one_byte_scenario [OF names] by blast
  have typed: "typed_RunResult (run_result echo_host (normalizeConfig cfg) [one_byte_result descr])"
    by (rule typed_one_byte) (simp add: typed_ProtocolConfig_def protocol_config_def normalizeConfig_def Let_def cfg
        mergeProfileDefaults_def default_perf_flags_def DefaultConfig_def int64_def)
  have "machine_world echo_machine None = memory_world"
    by (simp add: machine_world_def echo_machine_def memory_world_def)
  then have ran: "Run (machine_world echo_machine None) (ph_net echo_machine (pf_Timeout ?flags)) (ph_host echo_machine)
      (ph_scenarios echo_machine) cfg (pp_world fresh_proc) =
      Some ((run_result echo_host (normalizeConfig cfg) [one_byte_result descr], None), 0)"
    using run by (simp add: echo_machine_def fresh_proc_def)
  have ok: "files_work (pp_files fresh_proc) path" "fi_later (pp_files fresh_proc) path = None" for path
    by (simp_all add: files_work_def fresh_proc_def no_files_def)
  have parse: "ph_parse_run echo_machine [''one-byte-echo-active''] (default_perf_flags (ph_env echo_machine)) = Inr (?flags, \<lambda>_. False)"
    "ph_parse_validate echo_machine [''benchmarks/results/local/perf.json''] d = Inr (pf_Out ?flags)"
    "ph_parse_report echo_machine [''benchmarks/results/local/perf.json'', ''r.md''] d' = Inr (pf_Out ?flags, ''r.md'')" for d d'
    by (simp_all add: echo_machine_def default_perf_flags_def Let_def)
  have "rr_Scenarios (run_result echo_host (normalizeConfig cfg) [one_byte_result descr]) = [one_byte_result descr]"
    "sr_Status (one_byte_result descr) = ''passed''"
    by (simp_all add: run_result_def one_byte_result_def scenario_result_def one_byte_outcome_def)
  then show ?thesis
    using run_then_validate [OF parse(1) start ran typed ok(1) parse(2,3) ok] by fastforce
qed

end
