(* ===== verification/Spec2Isabelle.thy ===== *)
theory Spec2Isabelle
  imports S3Service StreamLive Summary Mains PerfMain
begin

text \<open>
  s3s5 is a SOCKS5 proxy whose two halves, a client and a server, have no connection to
  each other: they exchange every message as an object in a bucket of an S3-compatible
  service.  This development models the Go code of the repository, its commands, its
  internal packages and what it uses of the standard library, and proves what makes them
  correct.  Paths below are relative to \<open>src\<close>.

  \<^bold>\<open>How the parts work together.\<close>  An application connects to the SOCKS server of
  the client (\<open>internal/socks5\<close>), which reads one request and gives its target to
  \<open>HandleSOCKS\<close> of \<open>internal/tunnel\<close>.  That puts an open request into the mailbox,
  polls for the result and answers the application.  The server polls the list of open
  requests, asks the egress policy (\<open>internal/policy\<close>) for the addresses it may dial,
  dials, removes the request and puts the result.  Then each side runs a sending and a
  receiving stream: the sender collects reads into chunks, seals them with the codec
  (\<open>internal/crypto\<close>) and puts them under numbered keys (\<open>internal/protocol\<close>) as far as
  its window allows; the receiver gets the next number, opens it, writes it to its socket
  and puts an acknowledgement now and then; a close object ends a direction.  All stores
  implement one interface (\<open>internal/objectstore\<close>): the memory store, the S3 client, and
  wrappers that delay operations or count them.  \<open>cmd\<close> puts these together:
  client, server, a doctor that tries a configuration out, and a performance harness that
  runs client and server in one process over a counted store.

  \<^bold>\<open>Theories and code.\<close>

  \<^item> \<open>S5Prelude\<close>: byte strings, Go errors as the datatype of the values the program tells
    apart, results as error or value, lemmas on lists and maps.
  \<^item> The standard library, as far as the program calls it: \<open>GoStrings\<close>, \<open>GoStrconv\<close>,
    \<open>GoPath\<close>, \<open>GoUrl\<close>, \<open>GoXml\<close>, \<open>GoNetip\<close>, \<open>GoTime\<close> (durations and the rounding of
    \<open>float64\<close>), \<open>GoDuration\<close>, \<open>GoFloat\<close> (shortest decimals), \<open>GoCrypto\<close> (SHA-256, HMAC,
    AES-256, GCM), \<open>Json\<close>.
  \<^item> \<open>Protocol\<close>, \<open>Messages\<close>: \<open>internal/protocol/protocol.go\<close>; keys, sequence numbers,
    chunk sizes, and the JSON of the messages.
  \<^item> \<open>ObjectStore\<close>, \<open>MemoryStore\<close>, \<open>DelayStore\<close>: \<open>internal/objectstore/objectstore.go\<close>,
    \<open>memory/memory.go\<close>, \<open>delay/delay.go\<close>.  A store is a record of operations on a state
    of its own; the locale \<open>store_safety\<close> says what an operation may do to the objects
    even when it fails, \<open>object_store\<close> what it does when it succeeds.
  \<^item> \<open>S3Store\<close>, \<open>S3Wire\<close>, \<open>S3Service\<close>: \<open>internal/objectstore/s3/s3.go\<close>; the client of
    the service with its signature and its listing, how a key travels, and the contract
    of the service under which the client keeps \<open>store_safety\<close>.
  \<^item> \<open>Metrics\<close>, \<open>Summary\<close>: \<open>internal/metrics/objectstore.go\<close>; recording and reading.
  \<^item> \<open>Codec\<close>: \<open>internal/crypto/codec.go\<close>.  The locale \<open>codec\<close> is its interface.
  \<^item> \<open>Policy\<close>: \<open>internal/policy/policy.go\<close>.  \<open>Socks5\<close>: \<open>internal/socks5/socks5.go\<close>.
  \<^item> \<open>Stats\<close>, \<open>Aggregation\<close>, \<open>Tunnel\<close>, \<open>Stream\<close>, \<open>Session\<close>: \<open>internal/tunnel\<close>; its
    statistics (\<open>stats.go\<close>), the aggregating reader (\<open>aggregation.go\<close>, with the locale
    \<open>reader\<close>), configuration and control objects (\<open>tunnel.go\<close>, \<open>activity.go\<close>), the two
    stream loops, and the life of a session on both sides with the scheduling of the
    server.  \<open>StreamInv\<close>, \<open>StreamProps\<close> and \<open>StreamLive\<close> (that a
    stream can always be completed) hold the proofs about the streams.
  \<^item> \<open>CommonConfig\<close>: \<open>internal/config/config.go\<close>.  \<open>Programs\<close>: \<open>cmd/s3s5-client/main.go\<close>,
    \<open>cmd/s3s5-server/main.go\<close>, \<open>internal/version/version.go\<close>.  \<open>Doctor\<close>:
    \<open>cmd/s3s5-doctor/main.go\<close>.  \<open>Mains\<close>: the \<open>main\<close> functions of the three.
  \<^item> \<open>Perf\<close>, \<open>PerfNet\<close>, \<open>PerfRun\<close>, \<open>PerfProps\<close>: \<open>internal/perf/perf.go\<close>; configuration
    and figures, the network operations of the scenarios, the scenarios and their run,
    and the proofs.  \<open>PerfJson\<close>: the JSON of a result, also of \<open>perf.go\<close>.  \<open>Report\<close>:
    \<open>internal/perf/report.go\<close>.  \<open>PerfCmd\<close>, \<open>PerfMain\<close>: \<open>cmd/s3s5-perf/main.go\<close>; the setting up
    of a run and its clean-up, and the subcommands with their files.

  \<^bold>\<open>How the code is rendered.\<close>  A struct is a record, a method that changes its receiver
  returns the changed record, and Go errors are values (\<open>Inl\<close> of a sum, or an option for
  a bare \<open>error\<close>).  A Go string is a list of bytes.  Integers whose wrap-around matters
  (sequence numbers, counters, ports, bytes) are words of their width; the others, and
  durations in nanoseconds, are \<open>int\<close>.  A \<open>float64\<close> is a rational, every operation
  rounded to 53 bits, half to even.  A map is an association list or a function.
  Concurrency is interleaving: sender, receiver, the scheduler of the server and the rest
  of the world take one store operation at a time (\<open>stream_step\<close>, \<open>run_step\<close>), and
  the invariants are proved by induction on the steps.

  \<^bold>\<open>Loops.\<close>  Loops over data are structural.  A loop that waits for the world takes a
  list of ticks, one for each turn, and is \<open>None\<close> when they run out while it is still
  waiting (\<open>wait_loop\<close>).  \<open>DeletePrefix\<close> takes one unit of fuel for each list call; more
  than the number of objects under the prefix is enough, as each turn removes one.
  \<open>Aggregator.Read\<close> takes one for each read; one more than the chunk size is enough when
  reads make progress.  The wait for sessions of the harness sleeps at least five
  milliseconds in at most two seconds, so 401 units are enough; the timed exchanges
  sleep an interval at a time, so the duration divided by it and two more are enough
  (\<open>chatty_fuel\<close>).  The search for the shortest decimal of a double ends at the latest at
  as many places as the double has bits below the point, where it is exact.  The listing
  of open requests takes one unit for each page.

  \<^bold>\<open>What is shown.\<close>  Of a stream: under any interleaving, with stores that may fail, the
  bytes delivered are a prefix of the bytes read, the window bounds the chunks in flight,
  byte limits hold, the window reopens when the acknowledgement interval of the peer fits
  into it, and without it the stream stops for ever; as long as neither side has given up
  the stream can still be completed, with all of the input delivered; a stream that ended
  well delivered everything unless its close marker overtook a chunk, which can happen.  The same over
  the S3 client.  Of a session: client and server agree on the chunk size, the
  application gets one reply, the server answers every request it takes up, dials only
  what the policy let through, and never runs more handlers than it may.  Of the policy:
  which addresses are unsafe, and that rules are obeyed.  Of the formats: keys of
  different objects differ, messages, sealed chunks and SOCKS requests read back.  Of the
  stores: wrappers are transparent, the removal of a prefix removes exactly it, escaping
  sends every key of other than unreserved characters to another object.  Of the
  programs: what a configuration may be, and that client and server started alike agree.
  Of the doctor: it passes over a store that works, and leaves nothing behind.  Of the
  harness: every scenario returns, one that passes received what it sent, its figures
  are those of the calls made, its clean-up stays within its own run, its results read
  back from their JSON, and \<open>validate\<close> accepts exactly what a successful run wrote.

  \<^bold>\<open>Parameters and what is assumed of them.\<close>  The HTTP client with the network and the
  service (\<open>S3Service\<close> states the contract of the service), the resolver and the dialer,
  sockets, clock, timers, random bytes, the environment, what \<open>flag.Parse\<close> makes of the
  command line, the output of \<open>git\<close>, the errors of the file system, the context as its
  error, and how goroutines that share nothing but a store, or a lock, are scheduled.
  Assumptions on them are premises of the theorems, and the witnesses meet them with
  concrete values.

  \<^bold>\<open>Not modelled.\<close>  Signals and log lines of the programs, deadlines set on
  connections and half-closing them: calls to the operating system without a result the
  program uses.  The parsing of the command line by \<open>flag\<close>.  \<open>strings.ToLower\<close> and
  \<open>strings.TrimSpace\<close> beyond ASCII; doubles that are subnormal, infinite or negative
  zero, which no figure of the program is.  The texts of errors made by the standard
  library where the program only passes them on.  Documentation, build files, tests and
  scripts.
\<close>

end
